(* ===== verification/Prelude.thy ===== *)
theory Prelude
  imports Complex_Main "HOL-Library.Word" "HOL-Library.List_Lexorder" "HOL-Library.Multiset"
begin

text \<open>
  The shared vocabulary of the development: the machine integers of the Rust source
  (\<open>u8\<close>, \<open>u16\<close>, \<open>u64\<close>) as words, Rust's \<open>char\<close> as the type of Unicode scalar
  values and \<open>String\<close> as a list of them, the standard library's \<open>Ordering\<close> and
  stable \<open>sort_by\<close>, the checked and saturating additions the source uses, and the
  generic lemmas the components share. Literals of the source are written
  \<open>lit ''...''\<close>.
\<close>

named_theorems word_conv \<open>facts that move a statement from words to naturals\<close>
named_theorems result_simps \<open>facts about chained fallible operations\<close>

section \<open>Machine integers\<close>

type_synonym u8 = "8 word"
type_synonym u16 = "16 word"
type_synonym u64 = "64 word"
type_synonym bytes = "8 word list"

definition u64_max :: u64 where
  "u64_max = 0xFFFFFFFFFFFFFFFF"

text \<open>\<open>u64::saturating_add\<close>: the sum, or \<open>u64::MAX\<close> when it does not fit.\<close>

definition saturating_add :: "u64 \<Rightarrow> u64 \<Rightarrow> u64" where
  "saturating_add a b = (if unat a + unat b < 2 ^ 64 then a + b else u64_max)"

text \<open>\<open>u64::checked_add\<close>: the sum, or \<open>None\<close> when it does not fit.\<close>

definition checked_add :: "u64 \<Rightarrow> u64 \<Rightarrow> u64 option" where
  "checked_add a b = (if unat a + unat b < 2 ^ 64 then Some (a + b) else None)"

lemma unat_u64_max [simp]: "unat u64_max = 2 ^ 64 - 1"
  by (simp add: u64_max_def)

lemma unat_u64_less [simp, intro]: "unat (a :: u64) < 2 ^ 64"
  using unsigned_less [of a] by simp

lemma u64_le_max [simp]: "a \<le> u64_max"
  using unat_u64_less [of a] by (simp add: word_le_nat_alt)

lemma unat_saturating_add [word_conv]:
  "unat (saturating_add a b) = min (unat a + unat b) (2 ^ 64 - 1)"
  by (auto simp: saturating_add_def unat_word_ariths min_def)

lemma saturating_add_ge: "a \<le> saturating_add a b"
  using unat_u64_less [of a] by (simp add: word_le_nat_alt unat_saturating_add)

lemma checked_add_Some [word_conv]:
  "checked_add a b = Some c \<Longrightarrow> unat c = unat a + unat b"
  by (auto simp: checked_add_def unat_word_ariths split: if_splits)

lemma checked_add_None: "checked_add a b = None \<longleftrightarrow> 2 ^ 64 \<le> unat a + unat b"
  by (auto simp: checked_add_def)

lemma checked_add_1: "a < u64_max \<Longrightarrow> checked_add a 1 = Some (a + 1)"
  by (simp add: checked_add_def word_less_nat_alt)

lemma checked_add_1_le: "checked_add a 1 = Some b \<Longrightarrow> a < b \<and> b = a + 1"
  using checked_add_Some [of a 1 b] by (auto simp: word_less_nat_alt checked_add_def split: if_splits)

section \<open>Unicode strings\<close>

text \<open>
  Rust's \<open>char\<close> is a Unicode scalar value: a code point up to \<open>0x10FFFF\<close> outside the
  surrogate range. \<open>String\<close> and \<open>&str\<close> are sequences of them.
\<close>

typedef uchar = "{n :: nat. n < 0x110000 \<and> \<not> (0xD800 \<le> n \<and> n < 0xE000)}"
  morphisms code_point Abs_uchar
  by (rule exI [of _ 0]) simp

setup_lifting type_definition_uchar

type_synonym str = "uchar list"

lift_definition uchar_of_char :: "char \<Rightarrow> uchar" is "\<lambda>c. of_char c"
proof -
  fix c :: char
  have "of_char c < (256 :: nat)" by simp
  then show "(of_char c :: nat) < 0x110000 \<and> \<not> (0xD800 \<le> (of_char c :: nat) \<and> of_char c < (0xE000 :: nat))"
    by linarith
qed

text \<open>Any natural number as a character; those that are no scalar value give U+FFFD.\<close>

lift_definition uchar_of_nat :: "nat \<Rightarrow> uchar" is
  "\<lambda>n. if n < 0x110000 \<and> \<not> (0xD800 \<le> n \<and> n < 0xE000) then n else 0xFFFD"
  by simp

definition lit :: "string \<Rightarrow> str" where
  "lit s = map uchar_of_char s"

lemma code_point_bound: "code_point c < 0x110000"
  using code_point [of c] by simp

lemma code_point_not_surrogate: "code_point c < 0xD800 \<or> 0xE000 \<le> code_point c"
  using code_point [of c] by auto

lemma code_point_uchar_of_char [simp]: "code_point (uchar_of_char c) = of_char c"
  by transfer simp

lemma code_point_inject_iff [simp]: "code_point a = code_point b \<longleftrightarrow> a = b"
  by (rule code_point_inject)

lemma uchar_of_char_inject [simp]: "uchar_of_char a = uchar_of_char b \<longleftrightarrow> a = b"
proof
  assume "uchar_of_char a = uchar_of_char b"
  then have "code_point (uchar_of_char a) = code_point (uchar_of_char b)" by simp
  then have "(of_char a :: nat) = of_char b" by simp
  then show "a = b" by simp
qed simp

lemma lit_inject [simp]: "lit s = lit t \<longleftrightarrow> s = t"
  unfolding lit_def by (rule inj_map_eq_map) (simp add: inj_def)

lemma lit_Nil [simp]: "lit [] = []" "lit s = [] \<longleftrightarrow> s = []" "[] = lit s \<longleftrightarrow> s = []"
  by (auto simp: lit_def)

lemma lit_append [simp]: "lit (s @ t) = lit s @ lit t"
  by (simp add: lit_def)

instantiation uchar :: equal
begin

definition equal_uchar :: "uchar \<Rightarrow> uchar \<Rightarrow> bool" where
  "equal_uchar a b \<longleftrightarrow> code_point a = code_point b"

instance
  by standard (simp add: equal_uchar_def)

end

instantiation uchar :: linorder
begin

definition less_eq_uchar :: "uchar \<Rightarrow> uchar \<Rightarrow> bool" where
  "less_eq_uchar a b \<longleftrightarrow> code_point a \<le> code_point b"

definition less_uchar :: "uchar \<Rightarrow> uchar \<Rightarrow> bool" where
  "less_uchar a b \<longleftrightarrow> code_point a < code_point b"

instance
  by standard (auto simp: less_eq_uchar_def less_uchar_def)

end

section \<open>Ordering and stable sorting\<close>

text \<open>\<open>std::cmp::Ordering\<close>, the \<open>cmp\<close> of a linear order, and \<open>then_with\<close>.\<close>

datatype ordering = Less | Equal | Greater

definition cmp :: "'a :: linorder \<Rightarrow> 'a \<Rightarrow> ordering" where
  "cmp a b = (if a < b then Less else if a = b then Equal else Greater)"

fun then_with :: "ordering \<Rightarrow> ordering \<Rightarrow> ordering" where
  "then_with Equal o2 = o2"
| "then_with o1 o2 = o1"

text \<open>
  \<open>slice::sort_by\<close>: the stable sort of a list by a comparison function, written as
  insertion; an element moves behind those that compare \<open>Less\<close> than it only.
\<close>

fun insert_by :: "('a \<Rightarrow> 'a \<Rightarrow> ordering) \<Rightarrow> 'a \<Rightarrow> 'a list \<Rightarrow> 'a list" where
  "insert_by c x [] = [x]"
| "insert_by c x (y # ys) = (if c x y = Greater then y # insert_by c x ys else x # y # ys)"

definition sort_by :: "('a \<Rightarrow> 'a \<Rightarrow> ordering) \<Rightarrow> 'a list \<Rightarrow> 'a list" where
  "sort_by c xs = foldr (insert_by c) xs []"

lemma sort_by_simps [simp]:
  "sort_by c [] = []"
  "sort_by c (x # xs) = insert_by c x (sort_by c xs)"
  by (simp_all add: sort_by_def)

lemma mset_insert_by [simp]: "mset (insert_by c x xs) = add_mset x (mset xs)"
  by (induction xs) auto

lemma mset_sort_by [simp]: "mset (sort_by c xs) = mset xs"
  by (induction xs) auto

lemma set_insert_by [simp]: "set (insert_by c x xs) = insert x (set xs)"
  by (induction xs) auto

lemma set_sort_by [simp]: "set (sort_by c xs) = set xs"
  by (induction xs) auto

lemma length_sort_by [simp]: "length (sort_by c xs) = length xs"
  by (metis mset_sort_by size_mset)

lemma distinct_sort_by [simp]: "distinct (sort_by c xs) = distinct xs"
  by (metis mset_sort_by mset_eq_imp_distinct_iff)

lemma distinct_map_sort_by [simp]: "distinct (map f (sort_by c xs)) = distinct (map f xs)"
  by (rule mset_eq_imp_distinct_iff) simp

lemma map_insert_by:
  "(\<And>y. y \<in> set xs \<Longrightarrow> c (f x) (f y) = d x y) \<Longrightarrow>
   insert_by c (f x) (map f xs) = map f (insert_by d x xs)"
  by (induction xs) auto

lemma map_sort_by:
  "(\<And>x y. x \<in> set xs \<Longrightarrow> y \<in> set xs \<Longrightarrow> c (f x) (f y) = d x y) \<Longrightarrow>
   sort_by c (map f xs) = map f (sort_by d xs)"
proof (induction xs)
  case (Cons x xs)
  then have "sort_by c (map f xs) = map f (sort_by d xs)" by simp
  moreover have "insert_by c (f x) (map f (sort_by d xs)) = map f (insert_by d x (sort_by d xs))"
    by (rule map_insert_by) (use Cons.prems in simp)
  ultimately show ?case by simp
qed simp

text \<open>
  The contract a comparison function owes \<open>sort_by\<close> on the elements it is given. It is
  asked of distinct elements only: a sort never compares an element with itself.
\<close>

locale comparator_on =
  fixes c :: "'a \<Rightarrow> 'a \<Rightarrow> ordering" and A :: "'a set"
  assumes flip: "x \<in> A \<Longrightarrow> y \<in> A \<Longrightarrow> x \<noteq> y \<Longrightarrow> c x y = Greater \<longleftrightarrow> c y x = Less"
    and le_trans: "x \<in> A \<Longrightarrow> y \<in> A \<Longrightarrow> z \<in> A \<Longrightarrow> x \<noteq> y \<Longrightarrow> y \<noteq> z \<Longrightarrow> x \<noteq> z \<Longrightarrow>
      c x y \<noteq> Greater \<Longrightarrow> c y z \<noteq> Greater \<Longrightarrow> c x z \<noteq> Greater"
begin

abbreviation sorted_by :: "'a list \<Rightarrow> bool" where
  "sorted_by xs \<equiv> sorted_wrt (\<lambda>x y. c x y \<noteq> Greater) xs"

lemma sorted_insert_by:
  "sorted_by xs \<Longrightarrow> distinct (x # xs) \<Longrightarrow> set (x # xs) \<subseteq> A \<Longrightarrow> sorted_by (insert_by c x xs)"
proof (induction xs)
  case Nil
  then show ?case by simp
next
  case (Cons y ys)
  show ?case
  proof (cases "c x y = Greater")
    case True
    with Cons.prems have "c y x = Less" using flip [of x y] by auto
    with Cons True show ?thesis by auto
  next
    case False
    have "c x z \<noteq> Greater" if "z \<in> set ys" for z
      using that False Cons.prems le_trans [of x y z] by auto
    with False Cons.prems show ?thesis by simp
  qed
qed

lemma sorted_sort_by: "distinct xs \<Longrightarrow> set xs \<subseteq> A \<Longrightarrow> sorted_by (sort_by c xs)"
  by (induction xs) (simp_all add: sorted_insert_by)

end

text \<open>A comparison without ties determines the sorted list.\<close>

locale strict_comparator_on = comparator_on +
  assumes no_tie: "x \<in> A \<Longrightarrow> y \<in> A \<Longrightarrow> x \<noteq> y \<Longrightarrow> c x y \<noteq> Equal"
begin

lemma sorted_by_unique:
  "sorted_by xs \<Longrightarrow> sorted_by ys \<Longrightarrow> distinct xs \<Longrightarrow> distinct ys \<Longrightarrow> set xs = set ys \<Longrightarrow>
   set xs \<subseteq> A \<Longrightarrow> xs = ys"
proof (induction xs arbitrary: ys)
  case Nil
  then show ?case by simp
next
  case (Cons x xs)
  from Cons.prems(5) obtain y zs where ys: "ys = y # zs" by (cases ys) auto
  have "x = y"
  proof (rule ccontr)
    assume ne: "x \<noteq> y"
    with Cons.prems ys have "x \<in> set zs" "y \<in> set xs" by auto
    with Cons.prems ys have "c x y \<noteq> Greater" "c y x \<noteq> Greater" by auto
    moreover have "x \<in> A" "y \<in> A" using Cons.prems ys by auto
    ultimately show False using flip [of y x] no_tie [of x y] ne by (cases "c x y") auto
  qed
  moreover have "set xs = set zs" using Cons.prems(3-5) ys \<open>x = y\<close> by auto
  ultimately show ?case using Cons ys by simp
qed

lemma strictly_sorted:
  "sorted_by xs \<Longrightarrow> distinct xs \<Longrightarrow> set xs \<subseteq> A \<Longrightarrow> sorted_wrt (\<lambda>x y. c x y = Less) xs"
proof (induction xs)
  case (Cons x xs)
  have "c x y = Less" if "y \<in> set xs" for y
    using that Cons.prems no_tie [of x y] by (cases "c x y") auto
  with Cons show ?case by simp
qed simp

lemma strictly_sorted_sort_by:
  "distinct xs \<Longrightarrow> set xs \<subseteq> A \<Longrightarrow> sorted_wrt (\<lambda>x y. c x y = Less) (sort_by c xs)"
  by (rule strictly_sorted) (simp_all add: sorted_sort_by)

lemma sort_by_determined:
  assumes "distinct xs" "distinct ys" "set xs = set ys" "set xs \<subseteq> A"
  shows "sort_by c xs = sort_by c ys"
  by (rule sorted_by_unique) (use assms in \<open>simp_all add: sorted_sort_by\<close>)

end

text \<open>Comparisons through a key of a linear order meet the contract, without ties if injective.\<close>

lemma cmp_simps [simp]:
  "cmp a b = Less \<longleftrightarrow> a < b"
  "cmp a b = Equal \<longleftrightarrow> a = b"
  "cmp a b = Greater \<longleftrightarrow> b < a"
  by (auto simp: cmp_def)

lemma then_with_simps [simp]:
  "then_with p q = Less \<longleftrightarrow> p = Less \<or> p = Equal \<and> q = Less"
  "then_with p q = Equal \<longleftrightarrow> p = Equal \<and> q = Equal"
  "then_with p q = Greater \<longleftrightarrow> p = Greater \<or> p = Equal \<and> q = Greater"
  by (cases p; simp)+

section \<open>Results\<close>

text \<open>
  \<open>Result<T, E>\<close> is the sum \<open>'e + 't\<close> with \<open>Inl\<close> for \<open>Err\<close>; \<open>bind_result r f\<close> is the
  \<open>?\<close> operator: go on with the value, or return the error.
\<close>

definition bind_result :: "'e + 'a \<Rightarrow> ('a \<Rightarrow> 'e + 'b) \<Rightarrow> 'e + 'b" where
  "bind_result r f = (case r of Inl e \<Rightarrow> Inl e | Inr x \<Rightarrow> f x)"

definition map_err :: "('e \<Rightarrow> 'f) \<Rightarrow> 'e + 'a \<Rightarrow> 'f + 'a" where
  "map_err g r = (case r of Inl e \<Rightarrow> Inl (g e) | Inr x \<Rightarrow> Inr x)"

lemma bind_result_simps [simp, result_simps]:
  "bind_result (Inl e) f = Inl e"
  "bind_result (Inr x) f = f x"
  by (simp_all add: bind_result_def)

lemma map_err_simps [simp, result_simps]:
  "map_err g (Inl e) = Inl (g e)"
  "map_err g (Inr x) = Inr x"
  by (simp_all add: map_err_def)

lemma bind_result_Inr [result_simps]:
  "bind_result r f = Inr y \<longleftrightarrow> (\<exists>x. r = Inr x \<and> f x = Inr y)"
  by (cases r) auto

lemma bind_result_Inl [result_simps]:
  "bind_result r f = Inl e \<longleftrightarrow> r = Inl e \<or> (\<exists>x. r = Inr x \<and> f x = Inl e)"
  by (cases r) auto

lemma map_err_Inr [result_simps]: "map_err g r = Inr y \<longleftrightarrow> r = Inr y"
  by (cases r) auto

definition ok_or :: "'e \<Rightarrow> 'a option \<Rightarrow> 'e + 'a" where
  "ok_or e x = (case x of Some y \<Rightarrow> Inr y | None \<Rightarrow> Inl e)"

lemma ok_or_simps [simp]:
  "ok_or e (Some z) = Inr z" "ok_or e None = Inl e" "ok_or e x = Inr y \<longleftrightarrow> x = Some y"
  by (auto simp: ok_or_def split: option.splits)

end
