(* ===== verification/Json.thy ===== *)
theory Json
  imports Prelude
begin

text \<open>
  The JSON values of the source (\<open>serde_json::Value\<close>) as a datatype with the library's
  constructors, and the operations on its object type that the source calls. The crate
  is built with \<open>preserve_order\<close>, so an object is an insertion-ordered sequence of
  members with distinct keys: inserting under an existing key replaces the value in
  place, a new key goes to the end, and \<open>remove\<close> moves the last member into the gap.

  Floating-point payloads are carried as an uninterpreted real value: no operation of
  the modelled code looks into them.
\<close>

section \<open>Values\<close>

datatype number = PosInt u64 | NegInt int | Float real

datatype json =
    Null
  | Bool bool
  | Number number
  | JString str
  | Array "json list"
  | Object "(str \<times> json) list"

type_synonym obj = "(str \<times> json) list"

section \<open>Object operations\<close>

fun obj_get :: "obj \<Rightarrow> str \<Rightarrow> json option" where
  "obj_get [] k = None"
| "obj_get ((k', v) # m) k = (if k' = k then Some v else obj_get m k)"

fun obj_insert :: "obj \<Rightarrow> str \<Rightarrow> json \<Rightarrow> obj" where
  "obj_insert [] k v = [(k, v)]"
| "obj_insert ((k', v') # m) k v = (if k' = k then (k, v) # m else (k', v') # obj_insert m k v)"

fun swap_out :: "obj \<Rightarrow> str \<Rightarrow> (str \<times> json) \<Rightarrow> obj" where
  "swap_out [] k l = []"
| "swap_out ((k', v') # m) k l = (if k' = k then l # m else (k', v') # swap_out m k l)"

definition obj_remove :: "obj \<Rightarrow> str \<Rightarrow> obj" where
  "obj_remove m k =
     (case obj_get m k of
        None \<Rightarrow> m
      | Some _ \<Rightarrow> if fst (last m) = k then butlast m else swap_out (butlast m) k (last m))"

definition keys :: "obj \<Rightarrow> str list" where
  "keys m = map fst m"

text \<open>\<open>Value::get\<close> with a string index, and the \<open>as_*\<close> accessors.\<close>

fun get :: "json \<Rightarrow> str \<Rightarrow> json option" where
  "get (Object m) k = obj_get m k"
| "get _ k = None"

fun as_str :: "json \<Rightarrow> str option" where
  "as_str (JString s) = Some s"
| "as_str _ = None"

fun as_bool :: "json \<Rightarrow> bool option" where
  "as_bool (Bool b) = Some b"
| "as_bool _ = None"

fun as_array :: "json \<Rightarrow> json list option" where
  "as_array (Array xs) = Some xs"
| "as_array _ = None"

fun as_i64 :: "number \<Rightarrow> int option" where
  "as_i64 (PosInt n) = (if unat n < 2 ^ 63 then Some (int (unat n)) else None)"
| "as_i64 (NegInt i) = Some i"
| "as_i64 (Float f) = None"

fun as_u64 :: "number \<Rightarrow> u64 option" where
  "as_u64 (PosInt n) = Some n"
| "as_u64 (NegInt i) = None"
| "as_u64 (Float f) = None"

text \<open>Serialising an \<open>Option<String>\<close> and a \<open>u64\<close>.\<close>

definition json_opt_str :: "str option \<Rightarrow> json" where
  "json_opt_str s = (case s of None \<Rightarrow> Null | Some t \<Rightarrow> JString t)"

definition json_u64 :: "u64 \<Rightarrow> json" where
  "json_u64 n = Number (PosInt n)"

section \<open>Well-formed values\<close>

text \<open>
  What the library guarantees of every value: keys are distinct at every object, and
  the negative-integer form holds a negative \<open>i64\<close>.
\<close>

fun wf_number :: "number \<Rightarrow> bool" where
  "wf_number (NegInt i) = (i < 0 \<and> - (2 ^ 63) \<le> i)"
| "wf_number _ = True"

fun wf_json :: "json \<Rightarrow> bool" where
  "wf_json (Number n) = wf_number n"
| "wf_json (Array xs) = (\<forall>x \<in> set xs. wf_json x)"
| "wf_json (Object m) = (distinct (keys m) \<and> (\<forall>p \<in> set m. wf_json (snd p)))"
| "wf_json _ = True"

fun float_free :: "json \<Rightarrow> bool" where
  "float_free (Number (Float f)) = False"
| "float_free (Array xs) = (\<forall>x \<in> set xs. float_free x)"
| "float_free (Object m) = (\<forall>p \<in> set m. float_free (snd p))"
| "float_free _ = True"

section \<open>Lemmas\<close>

lemma keys_simps [simp]: "keys [] = []" "keys ((k, v) # m) = k # keys m"
  by (simp_all add: keys_def)

lemma obj_get_map_of: "obj_get m k = map_of m k"
  by (induction m k rule: obj_get.induct) auto

lemma obj_get_None: "obj_get m k = None \<longleftrightarrow> k \<notin> set (keys m)"
  by (induction m k rule: obj_get.induct) auto

lemma obj_get_SomeD: "obj_get m k = Some v \<Longrightarrow> (k, v) \<in> set m"
  by (simp add: obj_get_map_of map_of_SomeD)

lemma obj_get_insert [simp]:
  "obj_get (obj_insert m k v) k' = (if k = k' then Some v else obj_get m k')"
  by (induction m k v rule: obj_insert.induct) auto

lemma keys_obj_insert:
  "keys (obj_insert m k v) = (if k \<in> set (keys m) then keys m else keys m @ [k])"
  by (induction m k v rule: obj_insert.induct) auto

lemma distinct_obj_insert [simp]: "distinct (keys m) \<Longrightarrow> distinct (keys (obj_insert m k v))"
  by (simp add: keys_obj_insert)

lemma set_obj_insert: "set (obj_insert m k v) \<subseteq> insert (k, v) (set m)"
  by (induction m k v rule: obj_insert.induct) auto

lemma wf_obj_insert:
  "wf_json (Object m) \<Longrightarrow> wf_json v \<Longrightarrow> wf_json (Object (obj_insert m k v))"
  using set_obj_insert [of m k v] by auto

lemma float_free_obj_insert:
  "float_free (Object m) \<Longrightarrow> float_free v \<Longrightarrow> float_free (Object (obj_insert m k v))"
  using set_obj_insert [of m k v] by auto

lemma set_swap_out:
  "distinct (keys m) \<Longrightarrow> k \<in> set (keys m) \<Longrightarrow> fst l \<notin> set (keys m) \<Longrightarrow>
   set (swap_out m k l) = insert l {p \<in> set m. fst p \<noteq> k} \<and> distinct (keys (swap_out m k l))"
proof (induction m k l rule: swap_out.induct)
  case (2 k' v' m k l)
  show ?case
  proof (cases "k' = k")
    case True
    with 2 have "k \<notin> fst ` set m" by (auto simp: keys_def)
    then have "{p \<in> set m. fst p \<noteq> k} = set m" by force
    with 2 True show ?thesis by (cases l) (auto simp: keys_def)
  next
    case False
    with 2 have *: "set (swap_out m k l) = insert l {p \<in> set m. fst p \<noteq> k}"
      "distinct (keys (swap_out m k l))" by auto
    have "k' \<notin> fst ` set (swap_out m k l)"
      using 2(2,4) unfolding *(1) by (auto simp: keys_def)
    with False * show ?thesis by (auto simp: keys_def)
  qed
qed auto

lemma obj_remove_set:
  assumes "distinct (keys m)"
  shows "set (obj_remove m k) = {p \<in> set m. fst p \<noteq> k}" (is ?A)
    and "distinct (keys (obj_remove m k))" (is ?B)
proof -
  have "?A \<and> ?B"
  proof (cases "obj_get m k")
    case None
    then have "{p \<in> set m. fst p \<noteq> k} = set m" by (force simp: obj_get_None keys_def)
    with None assms show ?thesis by (simp add: obj_remove_def)
  next
    case (Some v)
    then obtain m' l where m: "m = m' @ [l]" by (cases m rule: rev_cases) auto
    have d: "distinct (keys m')" "fst l \<notin> set (keys m')" using assms m by (auto simp: keys_def)
    show ?thesis
    proof (cases "fst l = k")
      case True
      then have "fst p \<noteq> k" if "p \<in> set m'" for p
        using d that by (metis image_eqI keys_def set_map)
      then have "{p \<in> set m. fst p \<noteq> k} = set m'" using True m by auto
      with True Some m d show ?thesis by (simp add: obj_remove_def)
    next
      case False
      have "k \<in> set (keys m')" using Some m False
        by (auto simp: obj_get_map_of keys_def map_add_def split: if_splits option.splits
              dest: map_of_SomeD intro: rev_image_eqI)
      from set_swap_out [OF d(1) this d(2)] Some m False show ?thesis
        by (auto simp: obj_remove_def)
    qed
  qed
  then show ?A ?B by auto
qed

lemma obj_get_iff: "distinct (keys m) \<Longrightarrow> obj_get m k = Some v \<longleftrightarrow> (k, v) \<in> set m"
  by (simp add: obj_get_map_of keys_def)

lemma obj_get_remove [simp]:
  "distinct (keys m) \<Longrightarrow> obj_get (obj_remove m k) k' = (if k = k' then None else obj_get m k')"
proof -
  assume d: "distinct (keys m)"
  have "obj_get (obj_remove m k) k' = Some v \<longleftrightarrow> (if k = k' then None else obj_get m k') = Some v" for v
    using obj_get_iff [OF d, of k' v] obj_get_iff [OF obj_remove_set(2) [OF d], of k k' v]
    by (auto simp: obj_remove_set(1) [OF d])
  then show ?thesis by (metis option.exhaust)
qed

lemma wf_obj_remove: "wf_json (Object m) \<Longrightarrow> wf_json (Object (obj_remove m k))"
  by (simp add: obj_remove_set)

lemma float_free_obj_remove:
  "distinct (keys m) \<Longrightarrow> float_free (Object m) \<Longrightarrow> float_free (Object (obj_remove m k))"
  by (simp add: obj_remove_set)

lemma json_opt_str_inject [simp]: "json_opt_str a = json_opt_str b \<longleftrightarrow> a = b"
  by (auto simp: json_opt_str_def split: option.splits)

lemma wf_json_opt_str [simp]: "wf_json (json_opt_str s)" "float_free (json_opt_str s)"
  by (auto simp: json_opt_str_def split: option.splits)

lemma json_u64_simps [simp]:
  "json_u64 a = json_u64 b \<longleftrightarrow> a = b" "wf_json (json_u64 a)" "float_free (json_u64 a)"
  by (simp_all add: json_u64_def)

lemma as_str_Some: "as_str v = Some s \<longleftrightarrow> v = JString s"
  by (cases v) auto

end
