(* ===== verification/Canonical.thy ===== *)
theory Canonical
  imports Json
begin

text \<open>
  Canonical JSON (\<open>src/aci/canonical.rs\<close>): the writer that every protocol digest and
  every signature of the gateway goes through. The output buffer \<open>out\<close> is threaded
  through the functions as the source does. The hash function and the hexadecimal
  encoding come from other crates and are parameters (\<open>sha256\<close>, \<open>hex_encode\<close>).

  The lemmas show that the bytes are a function of the logical value (member order does
  not matter), that the only error is a floating-point number, and that the writer is
  injective: two values with the same bytes are the same logical value, so two values
  with the same digest exhibit a collision of the hash function.
\<close>

section \<open>The code\<close>

datatype canonical_error = FloatNotAllowed | NonStringKey | Serialize str

definition ascii :: "string \<Rightarrow> bytes" where
  "ascii s = map of_char s"

text \<open>\<open>str::encode_utf16\<close> and \<open>char::encode_utf8\<close>.\<close>

definition encode_utf16_char :: "uchar \<Rightarrow> u16 list" where
  "encode_utf16_char c =
     (let n = code_point c in
      if n < 0x10000 then [of_nat n]
      else [of_nat (0xD800 + (n - 0x10000) div 0x400), of_nat (0xDC00 + (n - 0x10000) mod 0x400)])"

definition encode_utf16 :: "str \<Rightarrow> u16 list" where
  "encode_utf16 s = concat (map encode_utf16_char s)"

definition encode_utf8 :: "uchar \<Rightarrow> bytes" where
  "encode_utf8 c =
     (let n = code_point c in
      if n < 0x80 then [of_nat n]
      else if n < 0x800 then [of_nat (0xC0 + n div 0x40), of_nat (0x80 + n mod 0x40)]
      else if n < 0x10000 then
        [of_nat (0xE0 + n div 0x1000), of_nat (0x80 + n div 0x40 mod 0x40), of_nat (0x80 + n mod 0x40)]
      else
        [of_nat (0xF0 + n div 0x40000), of_nat (0x80 + n div 0x1000 mod 0x40),
         of_nat (0x80 + n div 0x40 mod 0x40), of_nat (0x80 + n mod 0x40)])"

text \<open>\<open>utf16_compare\<close>: the loop over the two code-unit iterators.\<close>

fun utf16_compare_loop :: "u16 list \<Rightarrow> u16 list \<Rightarrow> ordering" where
  "utf16_compare_loop [] [] = Equal"
| "utf16_compare_loop [] (y # ys) = Less"
| "utf16_compare_loop (x # xs) [] = Greater"
| "utf16_compare_loop (x # xs) (y # ys) =
     (case cmp x y of Equal \<Rightarrow> utf16_compare_loop xs ys | other \<Rightarrow> other)"

definition utf16_compare :: "str \<Rightarrow> str \<Rightarrow> ordering" where
  "utf16_compare a b = utf16_compare_loop (encode_utf16 a) (encode_utf16 b)"

text \<open>\<open>i64::to_string\<close>, \<open>u64::to_string\<close> and the \<open>{:04x}\<close> format.\<close>

fun dec :: "nat \<Rightarrow> bytes" where
  "dec n = (if n < 10 then [of_nat (48 + n)] else dec (n div 10) @ [of_nat (48 + n mod 10)])"

declare dec.simps [simp del]

definition dec_int :: "int \<Rightarrow> bytes" where
  "dec_int i = (if i < 0 then 45 # dec (nat (- i)) else dec (nat i))"

definition hex_digit :: "nat \<Rightarrow> u8" where
  "hex_digit n = (if n < 10 then of_nat (48 + n) else of_nat (87 + n))"

definition hex4 :: "nat \<Rightarrow> bytes" where
  "hex4 n = [hex_digit (n div 0x1000), hex_digit (n div 0x100 mod 0x10),
             hex_digit (n div 0x10 mod 0x10), hex_digit (n mod 0x10)]"

text \<open>The character cases of \<open>write_string\<close>, then its loop.\<close>

definition write_char :: "bytes \<Rightarrow> uchar \<Rightarrow> bytes" where
  "write_char out c =
     (let n = code_point c in
      if n = 0x22 then out @ [0x5C, 0x22]
      else if n = 0x5C then out @ [0x5C, 0x5C]
      else if n = 0x08 then out @ [0x5C, 0x62]
      else if n = 0x09 then out @ [0x5C, 0x74]
      else if n = 0x0A then out @ [0x5C, 0x6E]
      else if n = 0x0C then out @ [0x5C, 0x66]
      else if n = 0x0D then out @ [0x5C, 0x72]
      else if n < 0x20 then out @ [0x5C, 0x75] @ hex4 n
      else out @ encode_utf8 c)"

definition write_string :: "bytes \<Rightarrow> str \<Rightarrow> bytes" where
  "write_string out s = foldl write_char (out @ [0x22]) s @ [0x22]"

definition write_number :: "bytes \<Rightarrow> number \<Rightarrow> canonical_error + bytes" where
  "write_number out n =
     (case as_i64 n of
        Some i \<Rightarrow> Inr (out @ dec_int i)
      | None \<Rightarrow>
          (case as_u64 n of
             Some u \<Rightarrow> Inr (out @ dec (unat u))
           | None \<Rightarrow> Inl FloatNotAllowed))"

lemma size_obj_get: "obj_get m k = Some v \<Longrightarrow> size v < size_list (size_prod (\<lambda>_. 0) size) m"
  by (induction m k rule: obj_get.induct) (auto split: if_splits)

text \<open>
  \<open>write_value\<close>, with the loops of its array case and of \<open>write_object\<close> (over the
  sorted keys, looking each value up in the map) as mutually recursive functions; \<open>i\<close>
  is the loop index that decides about the comma.
\<close>

function (sequential) write_value :: "bytes \<Rightarrow> json \<Rightarrow> canonical_error + bytes"
  and write_items :: "bytes \<Rightarrow> nat \<Rightarrow> json list \<Rightarrow> canonical_error + bytes"
  and write_members :: "bytes \<Rightarrow> nat \<Rightarrow> str list \<Rightarrow> obj \<Rightarrow> canonical_error + bytes" where
  "write_value out Null = Inr (out @ ascii ''null'')"
| "write_value out (Bool b) = Inr (out @ (if b then ascii ''true'' else ascii ''false''))"
| "write_value out (Number n) = write_number out n"
| "write_value out (JString s) = Inr (write_string out s)"
| "write_value out (Array items) =
     (case write_items (out @ [0x5B]) 0 items of
        Inl e \<Rightarrow> Inl e
      | Inr out' \<Rightarrow> Inr (out' @ [0x5D]))"
| "write_value out (Object m) =
     (case write_members (out @ [0x7B]) 0 (sort_by utf16_compare (keys m)) m of
        Inl e \<Rightarrow> Inl e
      | Inr out' \<Rightarrow> Inr (out' @ [0x7D]))"
| "write_items out i [] = Inr out"
| "write_items out i (item # items) =
     (case write_value (if i > 0 then out @ [0x2C] else out) item of
        Inl e \<Rightarrow> Inl e
      | Inr out' \<Rightarrow> write_items out' (Suc i) items)"
| "write_members out i [] m = Inr out"
| "write_members out i (key # ks) m =
     (case obj_get m key of
        None \<Rightarrow> Inl NonStringKey
      | Some value \<Rightarrow>
          (case write_value (write_string (if i > 0 then out @ [0x2C] else out) key @ [0x3A]) value of
             Inl e \<Rightarrow> Inl e
           | Inr out' \<Rightarrow> write_members out' (Suc i) ks m))"
  by pat_completeness auto
termination
  by (relation "measures [
        \<lambda>x. case x of Inl (out, v) \<Rightarrow> size v
                | Inr (Inl (out, i, xs)) \<Rightarrow> size_list size xs
                | Inr (Inr (out, i, ks, m)) \<Rightarrow> size_list (size_prod (\<lambda>_. 0) size) m,
        \<lambda>x. case x of Inr (Inr (out, i, ks, m)) \<Rightarrow> length ks | _ \<Rightarrow> 0]")
     (auto dest: size_obj_get)

definition canonicalize :: "json \<Rightarrow> canonical_error + bytes" where
  "canonicalize value = write_value [] value"

definition sha256_hex :: "(bytes \<Rightarrow> bytes) \<Rightarrow> (bytes \<Rightarrow> str) \<Rightarrow> bytes \<Rightarrow> str" where
  "sha256_hex sha256 hex_encode payload = lit ''sha256:'' @ hex_encode (sha256 payload)"

definition jcs_sha256_hex :: "(bytes \<Rightarrow> bytes) \<Rightarrow> (bytes \<Rightarrow> str) \<Rightarrow> json \<Rightarrow> canonical_error + str" where
  "jcs_sha256_hex sha256 hex_encode value =
     (case canonicalize value of
        Inl e \<Rightarrow> Inl e
      | Inr bs \<Rightarrow> Inr (lit ''sha256:'' @ hex_encode (sha256 bs)))"

definition jcs_sha256_raw :: "(bytes \<Rightarrow> bytes) \<Rightarrow> json \<Rightarrow> canonical_error + bytes" where
  "jcs_sha256_raw sha256 value =
     (case canonicalize value of
        Inl e \<Rightarrow> Inl e
      | Inr bs \<Rightarrow> Inr (sha256 bs))"

section \<open>Specification: the logical value\<close>

text \<open>
  What a JSON value means: objects are finite maps from keys to values, so neither the
  order of the members nor the two integer representations are visible.
\<close>

datatype lvalue =
    LNull
  | LBool bool
  | LInt int
  | LFloat real
  | LString str
  | LArray "lvalue list"
  | LObject "str \<Rightarrow> lvalue option"

fun logical_number :: "number \<Rightarrow> lvalue" where
  "logical_number (PosInt n) = LInt (int (unat n))"
| "logical_number (NegInt i) = LInt i"
| "logical_number (Float f) = LFloat f"

function (sequential) logical :: "json \<Rightarrow> lvalue" where
  "logical Null = LNull"
| "logical (Bool b) = LBool b"
| "logical (Number n) = logical_number n"
| "logical (JString s) = LString s"
| "logical (Array xs) = LArray (map logical xs)"
| "logical (Object m) = LObject (\<lambda>k. map_option logical (obj_get m k))"
  by pat_completeness auto
termination
  by (relation "measure size") (auto dest: size_obj_get simp: size_list_estimation' less_Suc_eq_le)

text \<open>The normal form the writer emits: members sorted by UTF-16 key at every level.\<close>

definition member_compare :: "str \<times> 'a \<Rightarrow> str \<times> 'a \<Rightarrow> ordering" where
  "member_compare p q = utf16_compare (fst p) (fst q)"

lemma size_member: "p \<in> set m \<Longrightarrow> size (snd p) < Suc (size_list (size_prod (\<lambda>_. 0) size) m)"
  by (induction m) auto

fun norm_json :: "json \<Rightarrow> json" where
  "norm_json (Array xs) = Array (map norm_json xs)"
| "norm_json (Object m) = Object (sort_by member_compare (map (\<lambda>p. (fst p, norm_json (snd p))) m))"
| "norm_json v = v"

fun commas :: "nat \<Rightarrow> bytes list \<Rightarrow> bytes" where
  "commas i [] = []"
| "commas i (b # bs) = (if i > 0 then 0x2C # b else b) @ commas (Suc i) bs"

fun enc_number :: "number \<Rightarrow> bytes" where
  "enc_number (PosInt n) = dec (unat n)"
| "enc_number (NegInt i) = dec_int i"
| "enc_number (Float f) = []"

fun enc :: "json \<Rightarrow> bytes" where
  "enc Null = ascii ''null''"
| "enc (Bool b) = (if b then ascii ''true'' else ascii ''false'')"
| "enc (Number n) = enc_number n"
| "enc (JString s) = write_string [] s"
| "enc (Array xs) = 0x5B # commas 0 (map enc xs) @ [0x5D]"
| "enc (Object m) = 0x7B # commas 0 (map (\<lambda>p. write_string [] (fst p) @ 0x3A # enc (snd p)) m) @ [0x7D]"

section \<open>Characters and numbers are prefix codes\<close>

lemma of_nat_u8_eq [simp]:
  "m < 256 \<Longrightarrow> n < 256 \<Longrightarrow> (of_nat m :: u8) = of_nat n \<longleftrightarrow> m = n"
  by (simp add: word_of_nat_eq_iff take_bit_eq_mod)

lemma of_nat_u16_eq [simp]:
  "m < 65536 \<Longrightarrow> n < 65536 \<Longrightarrow> (of_nat m :: u16) = of_nat n \<longleftrightarrow> m = n"
  by (simp add: word_of_nat_eq_iff take_bit_eq_mod)

lemma of_nat_u8_numeral [simp]:
  "m < 256 \<Longrightarrow> numeral k < (256 :: nat) \<Longrightarrow> (of_nat m :: u8) = numeral k \<longleftrightarrow> m = numeral k"
  "m < 256 \<Longrightarrow> numeral k < (256 :: nat) \<Longrightarrow> (numeral k :: u8) = of_nat m \<longleftrightarrow> m = numeral k"
  using of_nat_u8_eq [of m "numeral k"] by auto

lemma div_mod_eq: "m div k = n div k \<Longrightarrow> m mod k = n mod k \<Longrightarrow> m = (n :: nat)"
  by (metis div_mult_mod_eq)

lemma encode_utf16_prefix:
  assumes "encode_utf16_char c @ x = encode_utf16_char d @ y"
  shows "c = d \<and> x = y"
proof -
  let ?m = "code_point c" and ?n = "code_point d"
  have b: "?m < 0x110000" "?n < 0x110000" by (rule code_point_bound)+
  have s: "?m < 0xD800 \<or> 0xE000 \<le> ?m" "?n < 0xD800 \<or> 0xE000 \<le> ?n"
    by (rule code_point_not_surrogate)+
  have d: "(n - 0x10000) div 0x400 < 0x400" if "n < 0x110000" for n :: nat
    using that by simp
  consider "?m < 0x10000" "?n < 0x10000" | "?m < 0x10000" "\<not> ?n < 0x10000"
    | "\<not> ?m < 0x10000" "?n < 0x10000" | "\<not> ?m < 0x10000" "\<not> ?n < 0x10000" by blast
  then have "?m = ?n \<and> x = y"
  proof cases
    case 1 with assms show ?thesis by (simp add: encode_utf16_char_def)
  next
    case 2 with assms s d [OF b(2)] show ?thesis
      by (auto simp add: encode_utf16_char_def Let_def simp del: of_nat_add of_nat_numeral)
  next
    case 3 with assms s d [OF b(1)] show ?thesis
      by (auto simp add: encode_utf16_char_def Let_def simp del: of_nat_add of_nat_numeral)
  next
    case 4
    with assms d [OF b(1)] d [OF b(2)]
    have "(?m - 0x10000) div 0x400 = (?n - 0x10000) div 0x400"
      "(?m - 0x10000) mod 0x400 = (?n - 0x10000) mod 0x400" "x = y"
      by (simp_all add: encode_utf16_char_def Let_def del: of_nat_add of_nat_numeral)
    moreover from this have "?m - 0x10000 = ?n - 0x10000" by (metis div_mod_eq)
    ultimately show ?thesis using 4 by linarith
  qed
  then show ?thesis by simp
qed

lemma unat_of_nat_u8 [simp]: "n < 256 \<Longrightarrow> unat (of_nat n :: u8) = n"
  by (simp add: unsigned_of_nat take_bit_eq_mod)

definition utf8_decode :: "bytes \<Rightarrow> nat \<times> bytes" where
  "utf8_decode bs =
     (let b = unat (bs ! 0); t = (\<lambda>i. unat (bs ! i) - 0x80) in
      if b < 0x80 then (b, drop 1 bs)
      else if b < 0xE0 then ((b - 0xC0) * 0x40 + t 1, drop 2 bs)
      else if b < 0xF0 then ((b - 0xE0) * 0x1000 + t 1 * 0x40 + t 2, drop 3 bs)
      else ((b - 0xF0) * 0x40000 + t 1 * 0x1000 + t 2 * 0x40 + t 3, drop 4 bs))"

lemma split3: "(n :: nat) div 0x1000 * 0x1000 + n div 0x40 mod 0x40 * 0x40 + n mod 0x40 = n"
proof -
  have "n div 0x1000 * 0x40 + n div 0x40 mod 0x40 = n div 0x40"
    using div_mult_mod_eq [of "n div 64" 64] by (simp add: div_mult2_eq [symmetric])
  moreover have "n div 0x40 * 0x40 + n mod 0x40 = n" by simp
  ultimately show ?thesis by linarith
qed

lemma split4: "(n :: nat) div 0x40000 * 0x40000 + n div 0x1000 mod 0x40 * 0x1000 + n div 0x40 mod 0x40 * 0x40 + n mod 0x40 = n"
proof -
  have "n div 0x40000 * 0x40 + n div 0x1000 mod 0x40 = n div 0x1000"
    using div_mult_mod_eq [of "n div 0x1000" 64] by (simp add: div_mult2_eq [symmetric])
  with split3 [of n] show ?thesis by linarith
qed

lemma utf8_decode_encode: "utf8_decode (encode_utf8 c @ x) = (code_point c, x)"
proof -
  let ?n = "code_point c"
  have "?n < 0x110000" by (rule code_point_bound)
  then consider "?n < 0x80" | "\<not> ?n < 0x80" "?n < 0x800" | "\<not> ?n < 0x800" "?n < 0x10000"
    | "\<not> ?n < 0x10000" "?n < 0x110000" by linarith
  then show ?thesis
  proof cases
    case 1 then show ?thesis by (simp add: encode_utf8_def utf8_decode_def)
  next
    case 2
    then have "?n div 0x40 < 0x20" by simp
    with 2 show ?thesis
      by (simp add: encode_utf8_def utf8_decode_def Let_def del: of_nat_add of_nat_numeral)
  next
    case 3
    then have "?n div 0x1000 < 0x10" by simp
    with 3 split3 [of ?n] show ?thesis
      by (simp add: encode_utf8_def utf8_decode_def Let_def  del: of_nat_add of_nat_numeral)
  next
    case 4
    then have "?n div 0x40000 < 8" by simp
    with 4 split4 [of ?n] show ?thesis
      by (simp add: encode_utf8_def utf8_decode_def Let_def del: of_nat_add of_nat_numeral)
  qed
qed

lemma encode_utf8_first:
  "encode_utf8 c = b # r \<Longrightarrow> code_point c \<noteq> 0x22 \<Longrightarrow> code_point c \<noteq> 0x5C \<Longrightarrow> b \<noteq> 0x22 \<and> b \<noteq> 0x5C"
  using code_point_bound [of c]
  by (auto simp add: encode_utf8_def Let_def split: if_splits simp del: of_nat_add of_nat_numeral)

lemma encode_utf8_nonempty: "encode_utf8 c \<noteq> []"
  by (auto simp: encode_utf8_def Let_def)

definition hex_val :: "u8 \<Rightarrow> nat" where
  "hex_val b = (if unat b < 58 then unat b - 48 else unat b - 87)"

lemma hex_val_digit [simp]: "n < 16 \<Longrightarrow> hex_val (hex_digit n) = n"
  by (auto simp add: hex_val_def hex_digit_def simp del: of_nat_add of_nat_numeral)

definition unescape :: "bytes \<Rightarrow> nat \<times> bytes" where
  "unescape bs =
     (if bs ! 0 = 0x5C then
        (let b = bs ! 1 in
         if b = 0x62 then (0x08, drop 2 bs)
         else if b = 0x74 then (0x09, drop 2 bs)
         else if b = 0x6E then (0x0A, drop 2 bs)
         else if b = 0x66 then (0x0C, drop 2 bs)
         else if b = 0x72 then (0x0D, drop 2 bs)
         else if b = 0x75 then (hex_val (bs ! 4) * 0x10 + hex_val (bs ! 5), drop 6 bs)
         else (unat b, drop 2 bs))
      else utf8_decode bs)"

lemma write_char_out: "write_char out c = out @ write_char [] c"
  by (simp add: write_char_def Let_def)

lemma encode_utf8_Cons: "\<exists>b r. encode_utf8 c = b # r"
  using encode_utf8_nonempty [of c] by (cases "encode_utf8 c") auto

lemma unescape_write_char: "unescape (write_char [] c @ x) = (code_point c, x)"
proof -
  let ?n = "code_point c"
  consider "?n \<in> {0x22, 0x5C, 0x08, 0x09, 0x0A, 0x0C, 0x0D}"
    | "?n < 0x20" "?n \<notin> {0x08, 0x09, 0x0A, 0x0C, 0x0D}"
    | "0x20 \<le> ?n" "?n \<noteq> 0x22" "?n \<noteq> 0x5C"
    unfolding insert_iff empty_iff by linarith
  then show ?thesis
  proof cases
    case 1 then show ?thesis by (auto simp: write_char_def unescape_def)
  next
    case 2
    then have "write_char [] c = [0x5C, 0x75] @ hex4 ?n" by (simp add: write_char_def)
    moreover have "?n div 0x10 mod 0x10 * 0x10 + ?n mod 0x10 = ?n" using 2 by simp
    ultimately show ?thesis
      by (simp only: unescape_def hex4_def append.simps nth_Cons_0 nth_Cons_numeral) simp
  next
    case 3
    then have w: "write_char [] c = encode_utf8 c" by (auto simp: write_char_def)
    obtain b r where e: "encode_utf8 c = b # r" using encode_utf8_Cons by blast
    with 3 have "b \<noteq> 0x5C" using encode_utf8_first by blast
    then show ?thesis using utf8_decode_encode [of c x] by (simp add: w e unescape_def)
  qed
qed

lemma write_char_prefix:
  assumes "write_char [] c @ x = write_char [] d @ y"
  shows "c = d \<and> x = y"
proof -
  from assms have "unescape (write_char [] c @ x) = unescape (write_char [] d @ y)"
    by (rule arg_cong)
  then show ?thesis unfolding unescape_write_char by simp
qed

lemma write_char_first: "\<exists>b r. write_char [] c = b # r \<and> b \<noteq> 0x22"
  using encode_utf8_Cons [of c] encode_utf8_first [of c]
  by (auto simp: write_char_def Let_def)

definition chars :: "str \<Rightarrow> bytes" where
  "chars s = concat (map (write_char []) s)"

lemma write_string_out: "write_string out s = out @ 0x22 # chars s @ [0x22]"
proof -
  have "foldl write_char acc s = acc @ chars s" for acc
  proof (induction s arbitrary: acc)
    case (Cons c s)
    show ?case using Cons [of "write_char acc c"] write_char_out [of acc c] by (simp add: chars_def)
  qed (simp add: chars_def)
  then show ?thesis by (simp add: write_string_def)
qed

lemma chars_prefix: "chars s @ 0x22 # x = chars t @ 0x22 # y \<Longrightarrow> s = t \<and> x = y"
proof (induction s arbitrary: t)
  case Nil
  then show ?case
  proof (cases t)
    case (Cons d t')
    with Nil write_char_first [of d] show ?thesis by (auto simp: chars_def)
  qed (simp add: chars_def)
next
  case (Cons c s)
  show ?case
  proof (cases t)
    case Nil
    with Cons.prems write_char_first [of c] show ?thesis by (auto simp: chars_def)
  next
    case (Cons d t')
    with Cons.prems have "write_char [] c @ (chars s @ 0x22 # x) = write_char [] d @ (chars t' @ 0x22 # y)"
      by (simp add: chars_def)
    then have "c = d" "chars s @ 0x22 # x = chars t' @ 0x22 # y" using write_char_prefix by blast+
    with Cons.IH Cons show ?thesis by blast
  qed
qed

lemma write_string_prefix:
  "write_string [] s @ x = write_string [] t @ y \<Longrightarrow> s = t \<and> x = y"
  using chars_prefix [of s x t y] by (simp add: write_string_out)

definition digit :: "u8 \<Rightarrow> bool" where
  "digit b \<longleftrightarrow> 48 \<le> unat b \<and> unat b < 58"

lemma dec_digits: "\<forall>b \<in> set (dec n). digit b"
proof (induction n rule: dec.induct)
  case (1 n)
  then show ?case
    by (subst dec.simps) (auto simp: digit_def simp del: of_nat_add of_nat_numeral)
qed

lemma dec_nonempty: "dec n \<noteq> []"
  by (subst dec.simps) simp

definition dec_val :: "bytes \<Rightarrow> nat" where
  "dec_val bs = foldl (\<lambda>a b. a * 10 + (unat b - 48)) 0 bs"

lemma dec_val_dec: "dec_val (dec n) = n"
proof (induction n rule: dec.induct)
  case (1 n)
  then show ?case
    by (subst dec.simps) (auto simp: dec_val_def simp del: of_nat_add of_nat_numeral)
qed

definition stops :: "bytes \<Rightarrow> bool" where
  "stops x \<longleftrightarrow> x = [] \<or> hd x \<in> {0x2C, 0x5D, 0x7D}"

lemma takeWhile_dec: "stops x \<Longrightarrow> takeWhile digit (dec n @ x) = dec n"
proof -
  assume "stops x"
  then have "takeWhile digit x = []" by (cases x) (auto simp: stops_def digit_def)
  with dec_digits [of n] show ?thesis by (simp add: takeWhile_append)
qed

lemma dec_prefix: "dec m @ x = dec n @ y \<Longrightarrow> stops x \<Longrightarrow> stops y \<Longrightarrow> m = n \<and> x = y"
  by (metis append_same_eq same_append_eq dec_val_dec takeWhile_dec)

section \<open>Key order\<close>

lemma utf16_compare_loop_cmp: "utf16_compare_loop xs ys = cmp xs ys"
  by (induction xs ys rule: utf16_compare_loop.induct) (auto simp: cmp_def)

lemma encode_utf16_inject: "encode_utf16 s = encode_utf16 t \<Longrightarrow> s = t"
proof (induction s arbitrary: t)
  case Nil
  then show ?case by (cases t) (auto simp: encode_utf16_def encode_utf16_char_def Let_def split: if_splits)
next
  case (Cons c s)
  from Cons.prems obtain d t' where t: "t = d # t'"
    by (cases t) (auto simp: encode_utf16_def encode_utf16_char_def Let_def split: if_splits)
  with Cons.prems have "encode_utf16_char c @ encode_utf16 s = encode_utf16_char d @ encode_utf16 t'"
    by (simp add: encode_utf16_def)
  with Cons.IH t show ?case using encode_utf16_prefix by blast
qed

lemma utf16_compare_cmp: "utf16_compare a b = cmp (encode_utf16 a) (encode_utf16 b)"
  by (simp add: utf16_compare_def utf16_compare_loop_cmp)

lemma utf16_compare_Equal [simp]: "utf16_compare a b = Equal \<longleftrightarrow> a = b"
  by (auto simp: utf16_compare_cmp dest: encode_utf16_inject)

interpretation utf16: strict_comparator_on utf16_compare UNIV
  by unfold_locales (auto simp: utf16_compare_cmp dest: encode_utf16_inject)

lemma member_comparator:
  "distinct (map fst m) \<Longrightarrow> strict_comparator_on member_compare (set m)"
  by unfold_locales
     (auto simp: member_compare_def utf16_compare_cmp distinct_map
           dest: encode_utf16_inject inj_onD intro: prod_eqI)

subsection \<open>The writer in closed form\<close>

lemma write_number_enc:
  "wf_number n \<Longrightarrow>
   write_number out n = (case n of Float f \<Rightarrow> Inl FloatNotAllowed | _ \<Rightarrow> Inr (out @ enc_number n))"
  by (cases n) (auto simp: write_number_def dec_int_def)

lemma write_closed:
  "wf_json v \<Longrightarrow>
     write_value out v = (if float_free v then Inr (out @ enc (norm_json v)) else Inl FloatNotAllowed)"
  "(\<forall>x \<in> set xs. wf_json x) \<Longrightarrow>
     write_items out i xs =
       (if \<forall>x \<in> set xs. float_free x then Inr (out @ commas i (map (\<lambda>x. enc (norm_json x)) xs))
        else Inl FloatNotAllowed)"
  "wf_json (Object m) \<Longrightarrow> set ks \<subseteq> set (keys m) \<Longrightarrow>
     write_members out i ks m =
       (if \<forall>k \<in> set ks. float_free (the (obj_get m k))
        then Inr (out @ commas i (map (\<lambda>k. write_string [] k @ 0x3A # enc (norm_json (the (obj_get m k)))) ks))
        else Inl FloatNotAllowed)"
proof (induction out v and out i xs and out i ks m rule: write_value_write_items_write_members.induct)
  case (3 out n)
  then show ?case by (cases n) (auto simp: write_number_enc split: number.splits)
next
  case (4 out s)
  then show ?case by (simp add: write_string_out [of out] write_string_out [of "[]"])
next
  case (5 out items)
  then show ?case by (simp add: comp_def)
next
  case (6 out m)
  let ?ks = "sort_by utf16_compare (keys m)"
  let ?m' = "sort_by member_compare (map (\<lambda>p. (fst p, norm_json (snd p))) m)"
  have d: "distinct (keys m)" using 6 by simp
  have get: "obj_get m (fst p) = Some (snd p)" if "p \<in> set m" for p
    using that obj_get_iff [OF d, of "fst p" "snd p"] by simp
  have s: "sort_by member_compare (map (\<lambda>p. (fst p, norm_json (snd p))) m) =
      map (\<lambda>p. (fst p, norm_json (snd p))) (sort_by member_compare m)"
    by (rule map_sort_by) (simp add: member_compare_def)
  have k: "?ks = map fst (sort_by member_compare m)"
    unfolding keys_def by (rule map_sort_by) (simp add: member_compare_def)
  have "(\<forall>k \<in> set ?ks. float_free (the (obj_get m k))) \<longleftrightarrow> float_free (Object m)"
    using get by (auto simp: keys_def)
  moreover have "map (\<lambda>k. write_string [] k @ 0x3A # enc (norm_json (the (obj_get m k)))) ?ks =
      map (\<lambda>p. write_string [] (fst p) @ 0x3A # enc (snd p)) ?m'"
    unfolding s k map_map using get by (intro map_cong) auto
  ultimately show ?case using 6 by (auto simp del: float_free.simps)
next
  case (8 out i item items)
  then show ?case by (auto simp: comp_def)
next
  case (10 out i key ks m)
  then obtain v where v: "obj_get m key = Some v"
    by (cases "obj_get m key") (auto simp: obj_get_None)
  then have "wf_json v" using 10(3) obj_get_SomeD [OF v] by fastforce
  with 10 v show ?case by (auto simp: write_string_out simp del: wf_json.simps)
qed (auto simp: ascii_def)

subsection \<open>Injectivity\<close>

fun plain :: "json \<Rightarrow> bool" where
  "plain (Number n) = (wf_number n \<and> (\<forall>f. n \<noteq> Float f))"
| "plain (Array xs) = (\<forall>x \<in> set xs. plain x)"
| "plain (Object m) = (\<forall>p \<in> set m. plain (snd p))"
| "plain _ = True"

definition first_byte :: "bytes \<Rightarrow> u8 \<Rightarrow> bool" where
  "first_byte bs b \<longleftrightarrow> (\<exists>r. bs = b # r)"

lemma dec_first: "\<exists>b r. dec n = b # r \<and> digit b"
  using dec_nonempty [of n] dec_digits [of n] by (cases "dec n") auto

lemma enc_number_first:
  "\<exists>b r. enc_number n = b # r \<and> (digit b \<or> b = 0x2D)" if "\<forall>f. n \<noteq> Float f"
proof (cases n)
  case (PosInt u)
  with dec_first [of "unat u"] show ?thesis by auto
next
  case (NegInt i)
  with dec_first [of "nat i"] show ?thesis by (auto simp: dec_int_def)
qed (use that in auto)

lemma enc_first:
  assumes "plain v"
  shows "\<exists>b r. enc v = b # r \<and>
    (case v of Null \<Rightarrow> b = 0x6E | Bool True \<Rightarrow> b = 0x74 | Bool False \<Rightarrow> b = 0x66
      | Number n \<Rightarrow> digit b \<or> b = 0x2D | JString s \<Rightarrow> b = 0x22 | Array xs \<Rightarrow> b = 0x5B | Object m \<Rightarrow> b = 0x7B)"
proof (cases v)
  case (Number n)
  with assms enc_number_first [of n] show ?thesis by simp
qed (auto simp: ascii_def write_string_out split: bool.splits)

lemma dec_int_prefix:
  assumes "dec_int i @ x = dec_int j @ y" "stops x" "stops y"
  shows "i = j \<and> x = y"
proof -
  have neg: "dec n @ z \<noteq> 0x2D # z'" for n z z'
    using dec_first [of n] by (auto simp: digit_def)
  consider "i < 0" "j < 0" | "i < 0" "\<not> j < 0" | "\<not> i < 0" "j < 0" | "\<not> i < 0" "\<not> j < 0"
    by blast
  then show ?thesis
  proof cases
    case 1
    with assms(1) have "dec (nat (- i)) @ x = dec (nat (- j)) @ y" by (simp add: dec_int_def)
    from dec_prefix [OF this assms(2,3)] 1 show ?thesis by auto
  next
    case 2
    with assms(1) have "dec (nat j) @ y = 0x2D # dec (nat (- i)) @ x" by (simp add: dec_int_def)
    with neg show ?thesis by blast
  next
    case 3
    with assms(1) have "dec (nat i) @ x = 0x2D # dec (nat (- j)) @ y" by (simp add: dec_int_def)
    with neg show ?thesis by blast
  next
    case 4
    with assms(1) have "dec (nat i) @ x = dec (nat j) @ y" by (simp add: dec_int_def)
    from dec_prefix [OF this assms(2,3)] 4 show ?thesis by auto
  qed
qed

lemma enc_number_prefix:
  assumes "wf_number m" "\<forall>f. m \<noteq> Float f" "wf_number n" "\<forall>f. n \<noteq> Float f"
    and "enc_number m @ x = enc_number n @ y" "stops x" "stops y"
  shows "m = n \<and> x = y"
proof -
  have e: "enc_number k = dec_int (case k of PosInt u \<Rightarrow> int (unat u) | NegInt i \<Rightarrow> i)" if "\<forall>f. k \<noteq> Float f" for k
    using that by (cases k) (auto simp: dec_int_def)
  have "(case m of PosInt u \<Rightarrow> int (unat u) | NegInt i \<Rightarrow> i) =
      (case n of PosInt u \<Rightarrow> int (unat u) | NegInt i \<Rightarrow> i) \<and> x = y"
    using assms(5-7) unfolding e [OF assms(2)] e [OF assms(4)] by (rule dec_int_prefix)
  then show ?thesis using assms(1-4) by (cases m; cases n) (auto intro: unsigned_word_eqI)
qed

lemma commas_prefix:
  fixes f :: "'a \<Rightarrow> bytes"
  assumes "\<And>a b x y. a \<in> set xs \<Longrightarrow> b \<in> set ys \<Longrightarrow> stops x \<Longrightarrow> stops y \<Longrightarrow> f a @ x = f b @ y \<Longrightarrow> a = b \<and> x = y"
    and "\<And>a. a \<in> set xs \<union> set ys \<Longrightarrow> f a \<noteq> [] \<and> hd (f a) \<noteq> close"
    and "close \<in> {0x5D, 0x7D}"
    and "commas i (map f xs) @ close # x = commas i (map f ys) @ close # y"
  shows "xs = ys \<and> x = y"
  using assms
proof (induction xs arbitrary: ys i)
  case Nil
  show ?case
  proof (cases ys)
    case Nil
    with Nil.prems show ?thesis by simp
  next
    case (Cons b bs)
    with Nil.prems(2) [of b] Nil.prems(3,4) show ?thesis by (cases "f b") (auto split: if_splits)
  qed
next
  case (Cons a as)
  show ?case
  proof (cases ys)
    case Nil
    with Cons.prems(2) [of a] Cons.prems(3,4) show ?thesis by (cases "f a") (auto split: if_splits)
  next
    case (Cons b bs)
    have st: "stops (commas (Suc i) zs @ close # z)" for zs z
      using Cons.prems(3) by (cases zs) (auto simp: stops_def)
    from Cons Cons.prems(4) have
      "f a @ (commas (Suc i) (map f as) @ close # x) = f b @ (commas (Suc i) (map f bs) @ close # y)"
      by (auto split: if_splits)
    then have "a = b" and r: "commas (Suc i) (map f as) @ close # x = commas (Suc i) (map f bs) @ close # y"
      using Cons Cons.prems(1) [of a b] st by auto
    moreover have "as = bs \<and> x = y"
      by (rule Cons.IH [OF _ _ _ r]) (use Cons Cons.prems(1-3) in auto)
    ultimately show ?thesis using Cons by simp
  qed
qed

lemma stops_first: "stops (b # r) \<longleftrightarrow> b \<in> {0x2C, 0x5D, 0x7D}"
  by (simp add: stops_def)

lemma enc_same_shape:
  assumes "plain v" "plain w" "enc v @ x = enc w @ y"
  shows "(v = Null \<and> w = Null) \<or> (\<exists>b. v = Bool b \<and> w = Bool b) \<or> (\<exists>m n. v = Number m \<and> w = Number n)
    \<or> (\<exists>s t. v = JString s \<and> w = JString t) \<or> (\<exists>xs ys. v = Array xs \<and> w = Array ys)
    \<or> (\<exists>m n. v = Object m \<and> w = Object n)"
  using enc_first [OF assms(1)] enc_first [OF assms(2)] assms(3)
  by (cases v; cases w) (auto simp: digit_def split: bool.splits)


lemma enc_prefix:
  "plain v \<Longrightarrow> plain w \<Longrightarrow> enc v @ x = enc w @ y \<Longrightarrow> stops x \<Longrightarrow> stops y \<Longrightarrow> v = w \<and> x = y"
proof (induction v arbitrary: w x y)
  case Null
  then show ?case using enc_same_shape [OF Null.prems(1-3)] by (auto simp: ascii_def)
next
  case (Bool b)
  then show ?case using enc_same_shape [OF Bool.prems(1-3)] by (auto simp: ascii_def)
next
  case (Number m)
  then obtain n where "w = Number n" using enc_same_shape [OF Number.prems(1-3)] by auto
  with Number show ?case using enc_number_prefix [of m n x y] by simp
next
  case (JString s)
  then obtain t where "w = JString t" using enc_same_shape [OF JString.prems(1-3)] by auto
  with JString show ?case using write_string_prefix [of s x t y] by simp
next
  case (Array xs)
  then obtain ys where w: "w = Array ys" using enc_same_shape [OF Array.prems(1-3)] by auto
  have "xs = ys \<and> x = y"
  proof (rule commas_prefix [where f = enc and close = "0x5D" and i = 0])
    fix a b u v
    assume "a \<in> set xs" "b \<in> set ys" "stops u" "stops v" "enc a @ u = enc b @ v"
    then show "a = b \<and> u = v" using Array.IH [of a b u v] Array.prems(1,2) w by simp
  next
    fix a
    assume "a \<in> set xs \<union> set ys"
    then have "plain a" using Array.prems(1,2) w by auto
    from enc_first [OF this] show "enc a \<noteq> [] \<and> hd (enc a) \<noteq> 0x5D"
      by (cases a) (auto simp: digit_def split: bool.splits)
  qed (use Array.prems(3) w in simp_all)
  with w show ?case by simp
next
  case (Object m)
  then obtain n where w: "w = Object n" using enc_same_shape [OF Object.prems(1-3)] by auto
  let ?f = "\<lambda>p. write_string [] (fst p) @ 0x3A # enc (snd p)"
  have "m = n \<and> x = y"
  proof (rule commas_prefix [where f = ?f and close = "0x7D" and i = 0])
    fix a b u v
    assume ab: "a \<in> set m" "b \<in> set n" "stops u" "stops v" "?f a @ u = ?f b @ v"
    from ab(5) have "write_string [] (fst a) @ (0x3A # enc (snd a) @ u) =
        write_string [] (fst b) @ (0x3A # enc (snd b) @ v)" by simp
    then have "fst a = fst b" "enc (snd a) @ u = enc (snd b) @ v"
      using write_string_prefix by blast+
    moreover have "snd a \<in> Basic_BNFs.snds a" by (cases a) auto
    ultimately show "a = b \<and> u = v"
      using Object.IH [of a "snd a" "snd b" u v] Object.prems(1,2) w ab by (auto intro: prod_eqI)
  next
    fix a
    show "?f a \<noteq> [] \<and> hd (?f a) \<noteq> 0x7D" by (simp add: write_string_out)
  qed (use Object.prems(3) w in simp_all)
  with w show ?case by simp
qed

lemma float_free_Number: "float_free (Number n) \<longleftrightarrow> (\<forall>f. n \<noteq> Float f)"
  by (cases n) auto

lemma plain_norm_json: "wf_json v \<Longrightarrow> float_free v \<Longrightarrow> plain (norm_json v)"
  by (induction v rule: norm_json.induct) (auto simp: float_free_Number)

lemma logical_norm_json: "wf_json v \<Longrightarrow> logical (norm_json v) = logical v"
proof (induction v rule: norm_json.induct)
  case (2 m)
  let ?m' = "map (\<lambda>p. (fst p, norm_json (snd p))) m"
  have d: "distinct (keys ?m')" "distinct (keys m)" using 2(2) by (simp_all add: keys_def comp_def)
  have d': "distinct (keys (sort_by member_compare ?m'))"
    using d(1) by (simp add: keys_def)
  have "map_option logical (obj_get (sort_by member_compare ?m') k) = map_option logical (obj_get m k)" for k
  proof (cases "obj_get m k")
    case None
    then have "obj_get (sort_by member_compare ?m') k = None"
      unfolding obj_get_None by (simp add: keys_def image_image)
    with None show ?thesis by simp
  next
    case (Some v)
    then have "(k, v) \<in> set m" by (rule obj_get_SomeD)
    then have "(\<lambda>p. (fst p, norm_json (snd p))) (k, v) \<in> set ?m'" unfolding set_map by (rule imageI)
    then have "(k, norm_json v) \<in> set (sort_by member_compare ?m')" by simp
    then have "obj_get (sort_by member_compare ?m') k = Some (norm_json v)"
      by (simp add: obj_get_iff [OF d'])
    moreover have "logical (norm_json v) = logical v"
      using 2(1) [OF \<open>(k, v) \<in> set m\<close>] 2(2) \<open>(k, v) \<in> set m\<close> by auto
    ultimately show ?thesis using Some by simp
  qed
  then show ?case by simp
qed auto

lemma logical_shape:
  "logical v = logical w \<Longrightarrow> wf_json v \<Longrightarrow> wf_json w \<Longrightarrow> (case v of
      Array xs \<Rightarrow> \<exists>ys. w = Array ys \<and> map logical xs = map logical ys
    | Object m \<Rightarrow> \<exists>n. w = Object n \<and> (\<forall>k. map_option logical (obj_get m k) = map_option logical (obj_get n k))
    | _ \<Rightarrow> w = v)"
proof -
  have num: "wf_number m \<Longrightarrow> wf_number n \<Longrightarrow> logical_number m = logical_number n \<Longrightarrow> m = n" for m n
    by (cases m; cases n) (auto intro: unsigned_word_eqI)
  have ln: "logical_number m \<noteq> LNull" "logical_number m \<noteq> LBool b" "logical_number m \<noteq> LString s"
    "logical_number m \<noteq> LArray l" "logical_number m \<noteq> LObject g" for m b s l g by (cases m; simp)+
  assume "logical v = logical w" "wf_json v" "wf_json w"
  then show ?thesis using num ln ln [symmetric]
    by (cases v; cases w) (simp_all add: fun_eq_iff)
qed

lemma norm_json_logical:
  "wf_json v \<Longrightarrow> wf_json w \<Longrightarrow> logical v = logical w \<Longrightarrow> norm_json v = norm_json w"
proof (induction v arbitrary: w)
  case (Array xs)
  then obtain ys where w: "w = Array ys" "map logical xs = map logical ys"
    using logical_shape [OF Array.prems(3,1,2)] by auto
  then have "map norm_json xs = map norm_json ys"
    using Array.IH Array.prems(1,2)
    by (auto simp: list_eq_iff_nth_eq)
  with w show ?case by simp
next
  case (Object m)
  then obtain n where w: "w = Object n" and
      eq: "\<And>k. map_option logical (obj_get m k) = map_option logical (obj_get n k)"
    using logical_shape [OF Object.prems(3,1,2)] by auto
  let ?f = "\<lambda>p. (fst p, norm_json (snd p))"
  have d: "distinct (keys m)" "distinct (keys n)" using Object.prems w by auto
  have mn: "?f p \<in> ?f ` set n" if p: "p \<in> set m" for p
  proof -
    have "obj_get m (fst p) = Some (snd p)" using p obj_get_iff [OF d(1)] by simp
    with eq [of "fst p"] obtain u where u: "obj_get n (fst p) = Some u" "logical (snd p) = logical u"
      by (cases "obj_get n (fst p)") auto
    have "(fst p, u) \<in> set n" using u(1) by (rule obj_get_SomeD)
    moreover from this have "norm_json (snd p) = norm_json u"
      using Object.IH [of p "snd p" u] Object.prems(1,2) p u(2) w by (cases p) force
    ultimately show ?thesis by (intro rev_image_eqI [of "(fst p, u)"]) simp_all
  qed
  have nm: "?f q \<in> ?f ` set m" if q: "q \<in> set n" for q
  proof -
    have "obj_get n (fst q) = Some (snd q)" using q obj_get_iff [OF d(2)] by simp
    with eq [of "fst q"] obtain u where u: "obj_get m (fst q) = Some u" 
      by (cases "obj_get m (fst q)") auto
    then have m: "(fst q, u) \<in> set m" by (rule obj_get_SomeD)
    from mn [OF m] obtain q' where "q' \<in> set n" "fst q' = fst q" "norm_json (snd q') = norm_json u" by auto
    moreover from this have "q' = q" using d(2) q by (metis distinct_map inj_onD keys_def)
    ultimately show ?thesis using m by (intro rev_image_eqI [of "(fst q, u)"]) simp_all
  qed
  have s: "set (map ?f m) = set (map ?f n)" using mn nm by auto
  have k: "distinct (map fst (map ?f m))" "distinct (map fst (map ?f n))"
    using d by (simp_all add: keys_def comp_def)
  then have "distinct (map ?f m)" "distinct (map ?f n)"
    unfolding distinct_map [of fst] by blast+
  then have "sort_by member_compare (map ?f m) = sort_by member_compare (map ?f n)"
    by (rule strict_comparator_on.sort_by_determined [OF member_comparator [OF k(1)] _ _ s order_refl])
  with w show ?case by simp
next
  case (Number x)
  then show ?case using logical_shape [OF Number.prems(3,1,2)] by simp
next
  case Null
  then show ?case using logical_shape [OF Null.prems(3,1,2)] by simp
next
  case (Bool x)
  then show ?case using logical_shape [OF Bool.prems(3,1,2)] by simp
next
  case (JString x)
  then show ?case using logical_shape [OF JString.prems(3,1,2)] by simp
qed

lemma canonicalize_closed:
  "wf_json v \<Longrightarrow> canonicalize v = (if float_free v then Inr (enc (norm_json v)) else Inl FloatNotAllowed)"
  by (simp add: canonicalize_def write_closed(1))

lemma canonicalize_inject:
  assumes "wf_json v" "wf_json w" "canonicalize v = Inr bs" "canonicalize w = Inr bs"
  shows "logical v = logical w"
proof -
  have "float_free v" "float_free w" "enc (norm_json v) @ [] = enc (norm_json w) @ []"
    using assms by (auto simp: canonicalize_closed split: if_splits)
  then have "norm_json v = norm_json w"
    using enc_prefix [of "norm_json v" "norm_json w" "[]" "[]"] assms(1,2)
    by (auto simp: plain_norm_json stops_def)
  then show ?thesis using logical_norm_json assms(1,2) by metis
qed

lemma jcs_sha256_hex_Inr:
  "jcs_sha256_hex sha256 hex_encode v = Inr d \<longleftrightarrow>
   (\<exists>bs. canonicalize v = Inr bs \<and> d = lit ''sha256:'' @ hex_encode (sha256 bs))"
  by (auto simp: jcs_sha256_hex_def split: sum.splits)

lemma canonicalize_defined: "wf_json v \<Longrightarrow> float_free v \<Longrightarrow> \<exists>bs. canonicalize v = Inr bs"
  by (simp add: canonicalize_closed)

lemma digest_collision:
  assumes "wf_json v" "wf_json w"
    and "jcs_sha256_hex sha256 hex_encode v = Inr d" "jcs_sha256_hex sha256 hex_encode w = Inr d"
  shows "logical v = logical w \<or>
    (\<exists>x y. canonicalize v = Inr x \<and> canonicalize w = Inr y \<and> x \<noteq> y \<and>
           hex_encode (sha256 x) = hex_encode (sha256 y))"
  using assms canonicalize_inject [OF assms(1,2)]
  by (auto simp: jcs_sha256_hex_Inr)

lemma canonicalize_logical:
  assumes "wf_json v" "wf_json w" "float_free v" "float_free w"
  shows "canonicalize v = canonicalize w \<longleftrightarrow> logical v = logical w"
proof
  assume eq: "canonicalize v = canonicalize w"
  obtain bs where "canonicalize v = Inr bs" using canonicalize_defined assms(1,3) by blast
  with eq show "logical v = logical w" using canonicalize_inject [OF assms(1,2)] by metis
next
  assume "logical v = logical w"
  then show "canonicalize v = canonicalize w"
    using assms norm_json_logical [OF assms(1,2)] by (simp add: canonicalize_closed)
qed

section \<open>Properties\<close>

text \<open>
  C12. Canonical bytes are exactly the logical value: two well-formed values without
  floats get the same bytes if and only if they are equal as JSON values (objects as
  maps, integers as integers). Member order is immaterial and the encoding is injective.
\<close>

theorem canonicalize_iff_logical:
  assumes "wf_json v" "wf_json w" "float_free v" "float_free w"
  shows "canonicalize v = canonicalize w \<longleftrightarrow> logical v = logical w"
  using assms by (rule canonicalize_logical)

theorem canonicalize_iff_logical_witness:
  "canonicalize (Object [(lit ''b'', Null), (lit ''a'', Bool True)]) =
   canonicalize (Object [(lit ''a'', Bool True), (lit ''b'', Null)])"
proof -
  let ?v = "Object [(lit ''b'', Null), (lit ''a'', Bool True)]"
  let ?w = "Object [(lit ''a'', Bool True), (lit ''b'', Null)]"
  have "wf_json ?v" "wf_json ?w" "float_free ?v" "float_free ?w" by simp_all
  note iff = canonicalize_iff_logical [OF this]
  have "logical ?v = logical ?w" by (simp add: fun_eq_iff)
  then show ?thesis using iff by blast
qed

text \<open>
  The writer fails on a well-formed value exactly when a floating-point number occurs
  in it, and then with \<open>FloatNotAllowed\<close>; the other two errors are never produced.
\<close>

theorem canonicalize_error_iff:
  assumes "wf_json v"
  shows "canonicalize v = Inl e \<longleftrightarrow> e = FloatNotAllowed \<and> \<not> float_free v"
  using assms by (auto simp: canonicalize_closed)

theorem canonicalize_error_iff_witness:
  "canonicalize (Array [Null, Number (Float 1)]) = Inl FloatNotAllowed"
  using canonicalize_error_iff [of "Array [Null, Number (Float 1)]" FloatNotAllowed] by simp

end
