(* ===== verification/Aci_Types.thy ===== *)
theory Aci_Types
  imports Canonical
begin

text \<open>
  The protocol structures of \<open>src/aci/types.rs\<close> with their canonical projections, and the
  identity, keyset and attestation digests of \<open>src/aci/identity.rs\<close>. Every
  \<open>to_canonical_value\<close> of the source is one \<open>..._value\<close> function here.

  The lemmas show that each projection is a well-formed float-free value that determines
  the structure. Hence a digest or a signed payload determines what it covers unless two
  different canonical texts with the same hash are exhibited, and the three named
  payloads of the protocol can never be mistaken for one another.
\<close>

section \<open>Types and canonical projections\<close>

record public_key_material =
  pkm_algo :: str
  pkm_public_key_hex :: str

definition pkm_value :: "public_key_material \<Rightarrow> json" where
  "pkm_value k = Object [(lit ''algo'', JString (pkm_algo k)),
     (lit ''public_key'', JString (pkm_public_key_hex k))]"

record keyed_public_key =
  kpk_key_id :: str
  kpk_algo :: str
  kpk_public_key_hex :: str

definition kpk_value :: "keyed_public_key \<Rightarrow> json" where
  "kpk_value k = Object [(lit ''key_id'', JString (kpk_key_id k)), (lit ''algo'', JString (kpk_algo k)),
     (lit ''public_key'', JString (kpk_public_key_hex k))]"

record tls_spki =
  tls_domain :: "str option"
  tls_spki_sha256_hex :: str

definition tls_value :: "tls_spki \<Rightarrow> json" where
  "tls_value t =
     (let obj = [(lit ''spki_sha256'', JString (tls_spki_sha256_hex t))] in
      case tls_domain t of
        Some domain \<Rightarrow> Object (obj_insert obj (lit ''domain'') (JString domain))
      | None \<Rightarrow> Object obj)"

record workload_identity =
  wi_public_key :: public_key_material
  wi_subject :: "str option"

definition wi_value :: "workload_identity \<Rightarrow> json" where
  "wi_value w = Object [(lit ''public_key'', pkm_value (wi_public_key w)),
     (lit ''subject'', json_opt_str (wi_subject w))]"

record keyset_epoch =
  epoch_version :: u64
  epoch_not_after :: u64

definition epoch_value :: "keyset_epoch \<Rightarrow> json" where
  "epoch_value e = Object [(lit ''version'', json_u64 (epoch_version e)),
     (lit ''not_after'', json_u64 (epoch_not_after e))]"

record workload_keyset =
  ks_workload_identity :: workload_identity
  ks_keyset_epoch :: keyset_epoch
  ks_receipt_signing_keys :: "keyed_public_key list"
  ks_e2ee_public_keys :: "keyed_public_key list"
  ks_tls_public_keys :: "tls_spki list"

definition keyset_value :: "workload_keyset \<Rightarrow> json" where
  "keyset_value k = Object [
     (lit ''workload_identity'', wi_value (ks_workload_identity k)),
     (lit ''keyset_epoch'', epoch_value (ks_keyset_epoch k)),
     (lit ''receipt_signing_keys'', Array (map kpk_value (ks_receipt_signing_keys k))),
     (lit ''e2ee_public_keys'', Array (map kpk_value (ks_e2ee_public_keys k))),
     (lit ''tls_public_keys'', Array (map tls_value (ks_tls_public_keys k)))]"

definition REPORT_DATA_PURPOSE :: str where
  "REPORT_DATA_PURPOSE = lit ''aci.report_data.v1''"

definition KEYSET_ENDORSEMENT_PURPOSE :: str where
  "KEYSET_ENDORSEMENT_PURPOSE = lit ''aci.keyset.endorsement.v1''"

definition KEYSET_REVOCATION_PURPOSE :: str where
  "KEYSET_REVOCATION_PURPOSE = lit ''aci.keyset.revocation.v1''"

record attestation_statement =
  as_workload_id :: str
  as_workload_keyset_digest :: str
  as_nonce :: "str option"

definition statement_value :: "attestation_statement \<Rightarrow> json" where
  "statement_value s = Object [(lit ''purpose'', JString REPORT_DATA_PURPOSE),
     (lit ''workload_id'', JString (as_workload_id s)),
     (lit ''workload_keyset_digest'', JString (as_workload_keyset_digest s)),
     (lit ''nonce'', json_opt_str (as_nonce s))]"

definition endorsement_value :: "str \<Rightarrow> json" where
  "endorsement_value digest = Object [(lit ''purpose'', JString KEYSET_ENDORSEMENT_PURPOSE),
     (lit ''workload_keyset_digest'', JString digest)]"

definition revocation_value :: "str \<Rightarrow> json" where
  "revocation_value digest = Object [(lit ''purpose'', JString KEYSET_REVOCATION_PURPOSE),
     (lit ''workload_keyset_digest'', JString digest)]"

section \<open>Identity, keyset and attestation digests\<close>

definition workload_id_for_key ::
    "(bytes \<Rightarrow> bytes) \<Rightarrow> (bytes \<Rightarrow> str) \<Rightarrow> public_key_material \<Rightarrow> canonical_error + str" where
  "workload_id_for_key sha256 hex_encode pk = jcs_sha256_hex sha256 hex_encode (pkm_value pk)"

definition workload_id ::
    "(bytes \<Rightarrow> bytes) \<Rightarrow> (bytes \<Rightarrow> str) \<Rightarrow> workload_identity \<Rightarrow> canonical_error + str" where
  "workload_id sha256 hex_encode identity = workload_id_for_key sha256 hex_encode (wi_public_key identity)"

definition workload_keyset_digest ::
    "(bytes \<Rightarrow> bytes) \<Rightarrow> (bytes \<Rightarrow> str) \<Rightarrow> workload_keyset \<Rightarrow> canonical_error + str" where
  "workload_keyset_digest sha256 hex_encode keyset = jcs_sha256_hex sha256 hex_encode (keyset_value keyset)"

definition attestation_statement_for ::
    "(bytes \<Rightarrow> bytes) \<Rightarrow> (bytes \<Rightarrow> str) \<Rightarrow> workload_keyset \<Rightarrow> str option \<Rightarrow>
     canonical_error + attestation_statement" where
  "attestation_statement_for sha256 hex_encode keyset nonce =
     bind_result (workload_id sha256 hex_encode (ks_workload_identity keyset)) (\<lambda>wid.
     bind_result (workload_keyset_digest sha256 hex_encode keyset) (\<lambda>digest.
     Inr \<lparr>as_workload_id = wid, as_workload_keyset_digest = digest, as_nonce = nonce\<rparr>))"

definition report_data :: "(bytes \<Rightarrow> bytes) \<Rightarrow> attestation_statement \<Rightarrow> canonical_error + bytes" where
  "report_data sha256 statement = jcs_sha256_raw sha256 (statement_value statement)"

definition keyset_endorsement_payload ::
    "(bytes \<Rightarrow> bytes) \<Rightarrow> (bytes \<Rightarrow> str) \<Rightarrow> workload_keyset \<Rightarrow> canonical_error + bytes" where
  "keyset_endorsement_payload sha256 hex_encode keyset =
     bind_result (workload_keyset_digest sha256 hex_encode keyset) (\<lambda>digest.
     canonicalize (endorsement_value digest))"

definition keyset_revocation_payload :: "str \<Rightarrow> canonical_error + bytes" where
  "keyset_revocation_payload digest = canonicalize (revocation_value digest)"

definition keyset_material_fingerprint ::
    "(bytes \<Rightarrow> bytes) \<Rightarrow> (bytes \<Rightarrow> str) \<Rightarrow> workload_keyset \<Rightarrow> canonical_error + str" where
  "keyset_material_fingerprint sha256 hex_encode keyset =
     (let value = keyset_value keyset;
          value' = (case value of Object obj \<Rightarrow> Object (obj_remove obj (lit ''keyset_epoch'')) | v \<Rightarrow> v)
      in jcs_sha256_hex sha256 hex_encode value')"

section \<open>The projections determine the structures\<close>

named_theorems value_wf \<open>projections are well-formed, float-free values\<close>

fun lget :: "lvalue \<Rightarrow> str \<Rightarrow> lvalue option" where
  "lget (LObject g) k = g k"
| "lget _ k = None"

lemma logical_get_lget: "map_option logical (get v k) = lget (logical v) k"
proof (cases v)
  case (Number n)
  then show ?thesis by (cases n) simp_all
qed simp_all

lemma logical_get: "logical v = logical w \<Longrightarrow> map_option logical (get v k) = map_option logical (get w k)"
  by (simp add: logical_get_lget)

lemma logical_obj_eqI:
  "(\<And>k. map_option logical (obj_get m k) = map_option logical (obj_get n k)) \<Longrightarrow>
   logical (Object m) = logical (Object n)"
  by (simp add: fun_eq_iff)

lemma logical_json_opt_str [simp]: "logical (json_opt_str a) = logical (json_opt_str b) \<longleftrightarrow> a = b"
  by (auto simp: json_opt_str_def split: option.splits)

lemma logical_json_u64 [simp]: "logical (json_u64 a) = logical (json_u64 b) \<longleftrightarrow> a = b"
  by (auto simp: json_u64_def intro: unsigned_word_eqI)

lemma pkm_wf [value_wf, simp]: "wf_json (pkm_value k)" "float_free (pkm_value k)"
  by (simp_all add: pkm_value_def)

lemma kpk_wf [value_wf, simp]: "wf_json (kpk_value k)" "float_free (kpk_value k)"
  by (simp_all add: kpk_value_def)

lemma tls_wf [value_wf, simp]: "wf_json (tls_value t)" "float_free (tls_value t)"
  by (simp_all add: tls_value_def Let_def split: option.splits)

lemma wi_wf [value_wf, simp]: "wf_json (wi_value w)" "float_free (wi_value w)"
  by (simp_all add: wi_value_def)

lemma epoch_wf [value_wf, simp]: "wf_json (epoch_value e)" "float_free (epoch_value e)"
  by (simp_all add: epoch_value_def)

lemma keyset_wf [value_wf, simp]: "wf_json (keyset_value k)" "float_free (keyset_value k)"
  by (auto simp: keyset_value_def)

lemma statement_wf [value_wf, simp]: "wf_json (statement_value s)" "float_free (statement_value s)"
  by (simp_all add: statement_value_def)

lemma endorsement_wf [value_wf, simp]: "wf_json (endorsement_value d)" "float_free (endorsement_value d)"
  by (simp_all add: endorsement_value_def)

lemma revocation_wf [value_wf, simp]: "wf_json (revocation_value d)" "float_free (revocation_value d)"
  by (simp_all add: revocation_value_def)

lemma pkm_value_inject [simp]: "logical (pkm_value a) = logical (pkm_value b) \<longleftrightarrow> a = b"
proof
  assume "logical (pkm_value a) = logical (pkm_value b)"
  note eq = logical_get [OF this]
  from eq [of "lit ''algo''"] eq [of "lit ''public_key''"] show "a = b"
    by (simp add: pkm_value_def)
qed simp

lemma kpk_value_inject [simp]: "logical (kpk_value a) = logical (kpk_value b) \<longleftrightarrow> a = b"
proof
  assume "logical (kpk_value a) = logical (kpk_value b)"
  note eq = logical_get [OF this]
  from eq [of "lit ''algo''"] eq [of "lit ''public_key''"] eq [of "lit ''key_id''"]
  show "a = b" by (simp add: kpk_value_def)
qed simp

lemma tls_value_get:
  "get (tls_value t) (lit ''domain'') = map_option JString (tls_domain t)"
  "get (tls_value t) (lit ''spki_sha256'') = Some (JString (tls_spki_sha256_hex t))"
  by (auto simp: tls_value_def Let_def split: option.splits)

lemma tls_value_inject [simp]: "logical (tls_value a) = logical (tls_value b) \<longleftrightarrow> a = b"
proof
  assume "logical (tls_value a) = logical (tls_value b)"
  note eq = logical_get [OF this]
  have "tls_domain a = tls_domain b"
    using eq [of "lit ''domain''"] unfolding tls_value_get
    by (cases "tls_domain a"; cases "tls_domain b") auto
  then show "a = b" using eq [of "lit ''spki_sha256''"] unfolding tls_value_get by simp
qed simp

lemma wi_value_inject [simp]: "logical (wi_value a) = logical (wi_value b) \<longleftrightarrow> a = b"
proof
  assume "logical (wi_value a) = logical (wi_value b)"
  note eq = logical_get [OF this]
  from eq [of "lit ''public_key''"] eq [of "lit ''subject''"] show "a = b"
    by (simp add: wi_value_def)
qed simp

lemma epoch_value_inject [simp]: "logical (epoch_value a) = logical (epoch_value b) \<longleftrightarrow> a = b"
proof
  assume "logical (epoch_value a) = logical (epoch_value b)"
  note eq = logical_get [OF this]
  from eq [of "lit ''version''"] eq [of "lit ''not_after''"] show "a = b"
    by (simp add: epoch_value_def)
qed simp

lemma map_logical_inject:
  assumes "\<And>a b. logical (f a) = logical (f b) \<longleftrightarrow> a = b"
  shows "logical (Array (map f xs)) = logical (Array (map f ys)) \<longleftrightarrow> xs = ys"
proof -
  have "inj (\<lambda>x. logical (f x))" using assms by (simp add: inj_def)
  from inj_map_eq_map [OF this] show ?thesis by (simp add: comp_def)
qed

lemmas array_injects = map_logical_inject [OF kpk_value_inject] map_logical_inject [OF tls_value_inject]

lemma keyset_value_fields:
  assumes "map_option logical (get (keyset_value a) k) = map_option logical (get (keyset_value b) k)"
  shows "k = lit ''workload_identity'' \<Longrightarrow> ks_workload_identity a = ks_workload_identity b"
    and "k = lit ''keyset_epoch'' \<Longrightarrow> ks_keyset_epoch a = ks_keyset_epoch b"
    and "k = lit ''receipt_signing_keys'' \<Longrightarrow> ks_receipt_signing_keys a = ks_receipt_signing_keys b"
    and "k = lit ''e2ee_public_keys'' \<Longrightarrow> ks_e2ee_public_keys a = ks_e2ee_public_keys b"
    and "k = lit ''tls_public_keys'' \<Longrightarrow> ks_tls_public_keys a = ks_tls_public_keys b"
  using assms by (auto simp: keyset_value_def array_injects simp del: logical.simps(5))

lemma keyset_value_inject [simp]: "logical (keyset_value a) = logical (keyset_value b) \<longleftrightarrow> a = b"
proof
  assume "logical (keyset_value a) = logical (keyset_value b)"
  note eq = keyset_value_fields [OF logical_get [OF this]]
  show "a = b"
    by (rule workload_keyset.equality) (use eq in simp_all)
qed simp

lemma statement_value_inject [simp]: "logical (statement_value a) = logical (statement_value b) \<longleftrightarrow> a = b"
proof
  assume "logical (statement_value a) = logical (statement_value b)"
  note eq = logical_get [OF this]
  from eq [of "lit ''workload_id''"] eq [of "lit ''workload_keyset_digest''"] eq [of "lit ''nonce''"]
  show "a = b" by (simp add: statement_value_def)
qed simp

lemma payload_value_inject [simp]:
  "logical (endorsement_value c) = logical (endorsement_value d) \<longleftrightarrow> c = d"
  "logical (revocation_value c) = logical (revocation_value d) \<longleftrightarrow> c = d"
proof -
  have "c = d" if "logical (endorsement_value c) = logical (endorsement_value d)"
    using logical_get [OF that, of "lit ''workload_keyset_digest''"] by (simp add: endorsement_value_def)
  then show "logical (endorsement_value c) = logical (endorsement_value d) \<longleftrightarrow> c = d" by blast
  have "c = d" if "logical (revocation_value c) = logical (revocation_value d)"
    using logical_get [OF that, of "lit ''workload_keyset_digest''"] by (simp add: revocation_value_def)
  then show "logical (revocation_value c) = logical (revocation_value d) \<longleftrightarrow> c = d" by blast
qed

text \<open>The fingerprint's value: the keyset without its epoch.\<close>

definition material_value :: "workload_keyset \<Rightarrow> json" where
  "material_value k = (case keyset_value k of
     Object obj \<Rightarrow> Object (obj_remove obj (lit ''keyset_epoch'')) | v \<Rightarrow> v)"

lemma material_value_wf [simp]: "wf_json (material_value k)" "float_free (material_value k)"
proof -
  obtain obj where o: "keyset_value k = Object obj" by (simp add: keyset_value_def)
  have "wf_json (Object obj)" "float_free (Object obj)" using o keyset_wf [of k] by simp_all
  then show "wf_json (material_value k)" "float_free (material_value k)"
    using o by (simp_all add: material_value_def obj_remove_set)
qed

lemma material_value_get:
  "get (material_value k) f = (if f = lit ''keyset_epoch'' then None else get (keyset_value k) f)"
proof -
  obtain obj where o: "keyset_value k = Object obj" by (simp add: keyset_value_def)
  have "wf_json (Object obj)" using o keyset_wf [of k] by simp
  with o show ?thesis by (simp add: material_value_def)
qed

lemma material_value_eq:
  "logical (material_value a) = logical (material_value b) \<longleftrightarrow>
   a\<lparr>ks_keyset_epoch := e\<rparr> = b\<lparr>ks_keyset_epoch := e\<rparr>"
proof
  assume "logical (material_value a) = logical (material_value b)"
  note eq = logical_get [OF this, unfolded material_value_get]
  have "map_option logical (get (keyset_value a) k) = map_option logical (get (keyset_value b) k)"
    if "k \<noteq> lit ''keyset_epoch''" for k using eq [of k] that by simp
  note eq = keyset_value_fields [OF this]
  show "a\<lparr>ks_keyset_epoch := e\<rparr> = b\<lparr>ks_keyset_epoch := e\<rparr>"
    by (rule workload_keyset.equality) (use eq in simp_all)
next
  assume "a\<lparr>ks_keyset_epoch := e\<rparr> = b\<lparr>ks_keyset_epoch := e\<rparr>"
  then have "material_value (a\<lparr>ks_keyset_epoch := e\<rparr>) = material_value (b\<lparr>ks_keyset_epoch := e\<rparr>)"
    by simp
  moreover have "logical (material_value (k\<lparr>ks_keyset_epoch := e\<rparr>)) = logical (material_value k)" for k
  proof -
    obtain m n where "material_value (k\<lparr>ks_keyset_epoch := e\<rparr>) = Object m" "material_value k = Object n"
      by (simp add: material_value_def keyset_value_def)
    moreover have "get (material_value (k\<lparr>ks_keyset_epoch := e\<rparr>)) f = get (material_value k) f" for f
      unfolding material_value_get by (simp add: keyset_value_def)
    ultimately show ?thesis by simp
  qed
  ultimately show "logical (material_value a) = logical (material_value b)" by metis
qed

section \<open>Digests and payloads\<close>

text \<open>Two different canonical texts with the same hash: what a forger would have to exhibit.\<close>

definition collision :: "(bytes \<Rightarrow> 'h) \<Rightarrow> json \<Rightarrow> json \<Rightarrow> bool" where
  "collision h v w \<longleftrightarrow>
     (case (canonicalize v, canonicalize w) of
        (Inr x, Inr y) \<Rightarrow> x \<noteq> y \<and> h x = h y
      | _ \<Rightarrow> False)"

lemma collision_trivial [simp]: "\<not> collision h v v" "\<not> collision (\<lambda>x. x) v w"
  by (auto simp: collision_def split: sum.splits)

lemma jcs_digest_inject:
  assumes "wf_json v" "wf_json w"
    and "jcs_sha256_hex sha256 hex_encode v = Inr d" "jcs_sha256_hex sha256 hex_encode w = Inr d"
  shows "logical v = logical w \<or> collision (\<lambda>x. hex_encode (sha256 x)) v w"
  using digest_collision [OF assms] by (auto simp: collision_def)

lemma jcs_raw_inject:
  assumes "wf_json v" "wf_json w"
    and "jcs_sha256_raw sha256 v = Inr d" "jcs_sha256_raw sha256 w = Inr d"
  shows "logical v = logical w \<or> collision sha256 v w"
  using assms canonicalize_inject [OF assms(1,2)]
  by (auto simp: jcs_sha256_raw_def collision_def split: sum.splits)

lemma jcs_digest_defined: "wf_json v \<Longrightarrow> float_free v \<Longrightarrow> \<exists>d. jcs_sha256_hex sha256 hex_encode v = Inr d"
  by (simp add: jcs_sha256_hex_def canonicalize_closed)

lemma workload_keyset_digest_defined: "\<exists>d. workload_keyset_digest sha256 hex_encode k = Inr d"
  by (simp add: workload_keyset_digest_def jcs_digest_defined)

lemma keyset_digest_inject:
  assumes "workload_keyset_digest sha256 hex_encode a = Inr d" "workload_keyset_digest sha256 hex_encode b = Inr d"
  shows "a = b \<or> collision (\<lambda>x. hex_encode (sha256 x)) (keyset_value a) (keyset_value b)"
  using assms jcs_digest_inject [of "keyset_value a" "keyset_value b"]
  by (simp add: workload_keyset_digest_def)

lemma jcs_sha256_hex_const:
  "wf_json v \<Longrightarrow> float_free v \<Longrightarrow>
   jcs_sha256_hex sha256 (\<lambda>_. h) v = Inr (lit ''sha256:'' @ h)"
  by (simp add: jcs_sha256_hex_def canonicalize_closed)

section \<open>Properties\<close>

text \<open>
  C18. Attestation binding: the 32 bytes a quote covers determine the keyset and the
  nonce. If two statements built for keysets and nonces have the same report data, the
  keysets and the nonces are equal, or a hash collision is exhibited (of the two
  statements, or of the two keysets).
\<close>

theorem report_data_binds:
  assumes "attestation_statement_for sha256 hex_encode k n = Inr s"
    and "attestation_statement_for sha256 hex_encode k' n' = Inr s'"
    and "report_data sha256 s = Inr r" "report_data sha256 s' = Inr r"
  shows "k = k' \<and> n = n'
    \<or> collision sha256 (statement_value s) (statement_value s')
    \<or> collision (\<lambda>x. hex_encode (sha256 x)) (keyset_value k) (keyset_value k')"
proof -
  have "s = s' \<or> collision sha256 (statement_value s) (statement_value s')"
    using jcs_raw_inject [of "statement_value s" "statement_value s'"] assms(3,4)
    by (simp add: report_data_def)
  moreover have "k = k' \<or> collision (\<lambda>x. hex_encode (sha256 x)) (keyset_value k) (keyset_value k')"
    and "n = n'" if "s = s'"
    using that assms(1,2) keyset_digest_inject [of sha256 hex_encode k _ k']
    by (auto simp: attestation_statement_for_def bind_result_Inr)
  ultimately show ?thesis by blast
qed

definition sample_keyset :: workload_keyset where
  "sample_keyset = \<lparr>
     ks_workload_identity = \<lparr>wi_public_key = \<lparr>pkm_algo = lit ''ed25519'', pkm_public_key_hex = lit ''00''\<rparr>, wi_subject = None\<rparr>,
     ks_keyset_epoch = \<lparr>epoch_version = 1, epoch_not_after = 100\<rparr>,
     ks_receipt_signing_keys = [\<lparr>kpk_key_id = lit ''r1'', kpk_algo = lit ''ed25519'', kpk_public_key_hex = lit ''01''\<rparr>],
     ks_e2ee_public_keys = [], ks_tls_public_keys = []\<rparr>"

theorem report_data_binds_witness:
  "report_data (\<lambda>x. x) \<lparr>as_workload_id = lit ''sha256:00'', as_workload_keyset_digest = lit ''sha256:00'', as_nonce = None\<rparr>
   \<noteq> report_data (\<lambda>x. x) \<lparr>as_workload_id = lit ''sha256:00'', as_workload_keyset_digest = lit ''sha256:00'', as_nonce = Some []\<rparr>"
proof
  let ?s = "\<lambda>n. \<lparr>as_workload_id = lit ''sha256:00'', as_workload_keyset_digest = lit ''sha256:00'', as_nonce = n\<rparr>"
  assume eq: "report_data (\<lambda>x. x) (?s None) = report_data (\<lambda>x. x) (?s (Some []))"
  have st: "attestation_statement_for (\<lambda>x. x) (\<lambda>_. lit ''00'') sample_keyset n = Inr (?s n)" for n
    by (simp add: attestation_statement_for_def workload_id_def workload_id_for_key_def
          workload_keyset_digest_def jcs_sha256_hex_const lit_append [symmetric] del: lit_append)
  obtain r where r: "report_data (\<lambda>x. x) (?s None) = Inr r"
    by (auto simp: report_data_def jcs_sha256_raw_def canonicalize_closed)
  with eq have "report_data (\<lambda>x. x) (?s (Some [])) = Inr r" by simp
  from report_data_binds [OF st [of None] st [of "Some []"] r this] show False by simp
qed

text \<open>
  Domain separation: the bytes signed to endorse a keyset, the bytes signed to revoke
  one and the bytes an attestation statement hashes are always different, so a
  signature or a quote for one of them is never one for another.
\<close>

theorem payloads_separated:
  assumes "keyset_endorsement_payload sha256 hex_encode k = Inr x"
    and "keyset_revocation_payload d = Inr y"
    and "canonicalize (statement_value s) = Inr z"
  shows "x \<noteq> y \<and> x \<noteq> z \<and> y \<noteq> z"
proof -
  obtain e where e: "canonicalize (endorsement_value e) = Inr x"
    using assms(1) by (auto simp: keyset_endorsement_payload_def bind_result_Inr)
  have ne: "logical v \<noteq> logical w" if "get v (lit ''purpose'') = Some (JString p)"
    "get w (lit ''purpose'') = Some (JString q)" "p \<noteq> q" for v w p q
    using logical_get [of v w "lit ''purpose''"] that by auto
  have p: "get (endorsement_value e) (lit ''purpose'') = Some (JString KEYSET_ENDORSEMENT_PURPOSE)"
    "get (revocation_value d) (lit ''purpose'') = Some (JString KEYSET_REVOCATION_PURPOSE)"
    "get (statement_value s) (lit ''purpose'') = Some (JString REPORT_DATA_PURPOSE)"
    by (simp_all add: endorsement_value_def revocation_value_def statement_value_def)
  have "KEYSET_ENDORSEMENT_PURPOSE \<noteq> KEYSET_REVOCATION_PURPOSE"
    "KEYSET_ENDORSEMENT_PURPOSE \<noteq> REPORT_DATA_PURPOSE" "KEYSET_REVOCATION_PURPOSE \<noteq> REPORT_DATA_PURPOSE"
    by (simp_all add: KEYSET_ENDORSEMENT_PURPOSE_def KEYSET_REVOCATION_PURPOSE_def REPORT_DATA_PURPOSE_def)
  then have "logical (endorsement_value e) \<noteq> logical (revocation_value d)"
    "logical (endorsement_value e) \<noteq> logical (statement_value s)"
    "logical (revocation_value d) \<noteq> logical (statement_value s)"
    using ne [OF p(1) p(2)] ne [OF p(1) p(3)] ne [OF p(2) p(3)] by blast+
  then show ?thesis
    using e assms(2,3) canonicalize_inject endorsement_wf(1) revocation_wf(1) statement_wf(1)
    unfolding keyset_revocation_payload_def by metis
qed

theorem payloads_separated_witness:
  "keyset_endorsement_payload (\<lambda>x. x) (\<lambda>_. lit ''00'') sample_keyset \<noteq> keyset_revocation_payload (lit ''sha256:00'')"
proof -
  let ?s = "\<lparr>as_workload_id = [], as_workload_keyset_digest = [], as_nonce = None\<rparr>"
  obtain x y z where "keyset_endorsement_payload (\<lambda>x. x) (\<lambda>_. lit ''00'') sample_keyset = Inr x"
    "keyset_revocation_payload (lit ''sha256:00'') = Inr y" "canonicalize (statement_value ?s) = Inr z"
    by (simp add: keyset_endorsement_payload_def keyset_revocation_payload_def workload_keyset_digest_def
          jcs_sha256_hex_const canonicalize_closed)
  from payloads_separated [OF this] this show ?thesis by simp
qed

text \<open>
  The material fingerprint ignores exactly the epoch: two keysets have the same
  fingerprint if and only if they are equal up to their epoch, or their
  epoch-less texts are a hash collision.
\<close>

theorem fingerprint_material:
  "keyset_material_fingerprint sha256 hex_encode a = keyset_material_fingerprint sha256 hex_encode b \<longleftrightarrow>
   a\<lparr>ks_keyset_epoch := e\<rparr> = b\<lparr>ks_keyset_epoch := e\<rparr> \<or>
   collision (\<lambda>x. hex_encode (sha256 x)) (material_value a) (material_value b)"
  (is "?fp a = ?fp b \<longleftrightarrow> ?same \<or> ?coll")
proof -
  have fp: "?fp k = jcs_sha256_hex sha256 hex_encode (material_value k)" for k
    by (simp add: keyset_material_fingerprint_def material_value_def Let_def)
  obtain x y where xy: "canonicalize (material_value a) = Inr x" "canonicalize (material_value b) = Inr y"
    using canonicalize_defined [OF material_value_wf] by blast
  have "x = y \<longleftrightarrow> ?same"
    using xy canonicalize_logical [of "material_value a" "material_value b"] material_value_eq [of a b e]
    by simp
  then show ?thesis
    by (auto simp: fp jcs_sha256_hex_def xy collision_def)
qed

end
