(* ===== verification/Receipt.thy ===== *)
theory Receipt
  imports Aci_Types
begin

text \<open>
  Receipts (\<open>src/aci/receipt.rs\<close>, with the receipt types of \<open>src/aci/types.rs\<close>): the
  per-request event log, the builder that assembles it inside the enclave, and the bytes
  its signature covers. The \<open>KeyProvider\<close> trait is a record of the operations the
  builder calls; signing itself is a parameter.

  The lemmas show that every log a builder can produce starts with the received request,
  numbers its events consecutively, and keeps the structural fields apart from the
  event's own; that a finished receipt carries a signature over exactly the bytes a
  verifier recomputes; and that those bytes determine everything but the signature value.
\<close>

section \<open>Types\<close>

datatype key_error =
    UnknownReceiptKeyId str
  | UnknownE2eeKeyId str
  | UnsupportedAlgo str
  | Crypto str
  | QuoteError str

record key_provider =
  identity_public_key :: public_key_material
  sign_keyset_endorsement :: "bytes \<Rightarrow> key_error + bytes"
  sign_keyset_revocation :: "bytes \<Rightarrow> key_error + bytes"
  receipt_keys :: "keyed_public_key list"
  sign_receipt :: "str \<Rightarrow> bytes \<Rightarrow> key_error + bytes"
  e2ee_keys :: "keyed_public_key list"
  tls_spkis :: "tls_spki list"
  is_test_only :: bool

record receipt_event =
  ev_seq :: u64
  ev_type :: str
  ev_fields :: json

definition event_value :: "receipt_event \<Rightarrow> json" where
  "event_value e =
     (let obj = obj_insert [] (lit ''seq'') (json_u64 (ev_seq e));
          obj = obj_insert obj (lit ''type'') (JString (ev_type e))
      in case ev_fields e of
           Object m \<Rightarrow> Object (foldl (\<lambda>acc (k, v). obj_insert acc k v) obj m)
         | _ \<Rightarrow> Object obj)"

record receipt_signature =
  sig_algo :: str
  sig_key_id :: str
  sig_value_hex :: str

record receipt =
  rc_api_version :: str
  rc_receipt_id :: str
  rc_chat_id :: "str option"
  rc_model :: "str option"
  rc_workload_id :: str
  rc_workload_keyset_digest :: str
  rc_endpoint :: str
  rc_method :: str
  rc_served_at :: u64
  rc_event_log :: "receipt_event list"
  rc_signature :: receipt_signature

definition signature_value :: "bool \<Rightarrow> receipt_signature \<Rightarrow> json" where
  "signature_value include_signature_value s =
     (if include_signature_value
      then Object [(lit ''algo'', JString (sig_algo s)), (lit ''key_id'', JString (sig_key_id s)),
                   (lit ''value'', JString (sig_value_hex s))]
      else Object [(lit ''algo'', JString (sig_algo s)), (lit ''key_id'', JString (sig_key_id s))])"

definition receipt_value :: "bool \<Rightarrow> receipt \<Rightarrow> json" where
  "receipt_value include_signature_value r = Object [
     (lit ''api_version'', JString (rc_api_version r)),
     (lit ''receipt_id'', JString (rc_receipt_id r)),
     (lit ''chat_id'', json_opt_str (rc_chat_id r)),
     (lit ''model'', json_opt_str (rc_model r)),
     (lit ''workload_id'', JString (rc_workload_id r)),
     (lit ''workload_keyset_digest'', JString (rc_workload_keyset_digest r)),
     (lit ''endpoint'', JString (rc_endpoint r)),
     (lit ''method'', JString (rc_method r)),
     (lit ''served_at'', json_u64 (rc_served_at r)),
     (lit ''event_log'', Array (map event_value (rc_event_log r))),
     (lit ''signature'', signature_value include_signature_value (rc_signature r))]"

section \<open>Events\<close>

definition EVENT_REQUEST_RECEIVED :: str where
  "EVENT_REQUEST_RECEIVED = lit ''request.received''"
definition EVENT_REQUEST_FORWARDED :: str where
  "EVENT_REQUEST_FORWARDED = lit ''request.forwarded''"
definition EVENT_MIDDLEWARE_FORWARDED :: str where
  "EVENT_MIDDLEWARE_FORWARDED = lit ''middleware.forwarded''"
definition EVENT_ROUTE_SELECTED :: str where
  "EVENT_ROUTE_SELECTED = lit ''route.selected''"
definition EVENT_UPSTREAM_VERIFIED :: str where
  "EVENT_UPSTREAM_VERIFIED = lit ''upstream.verified''"
definition EVENT_RESPONSE_RECEIVED :: str where
  "EVENT_RESPONSE_RECEIVED = lit ''response.received''"
definition EVENT_RESPONSE_RETURNED :: str where
  "EVENT_RESPONSE_RETURNED = lit ''response.returned''"
definition EVENT_TRANSPARENCY_REQUEST_MODIFIED :: str where
  "EVENT_TRANSPARENCY_REQUEST_MODIFIED = lit ''transparency.request_modified''"
definition EVENT_TRANSPARENCY_RESPONSE_MODIFIED :: str where
  "EVENT_TRANSPARENCY_RESPONSE_MODIFIED = lit ''transparency.response_modified''"

lemmas event_names =
  EVENT_REQUEST_RECEIVED_def EVENT_REQUEST_FORWARDED_def EVENT_MIDDLEWARE_FORWARDED_def
  EVENT_ROUTE_SELECTED_def EVENT_UPSTREAM_VERIFIED_def EVENT_RESPONSE_RECEIVED_def
  EVENT_RESPONSE_RETURNED_def EVENT_TRANSPARENCY_REQUEST_MODIFIED_def
  EVENT_TRANSPARENCY_RESPONSE_MODIFIED_def

datatype receipt_error =
    FirstEventMustBeRequestReceived str
  | MissingRequiredEvent str
  | EmptyReceipt
  | ReservedField str
  | ReservedEventType str
  | InvalidVerificationResult str
  | ReceiptCanonical canonical_error
  | ReceiptKey key_error

datatype verification_result = Verified | Failed

fun verification_result_str :: "verification_result \<Rightarrow> str" where
  "verification_result_str Verified = lit ''verified''"
| "verification_result_str Failed = lit ''failed''"

datatype channel_binding =
    TlsSpkiSha256 (binding_origin: str) (spki_sha256: str)
  | TlsCertificateSha256 (binding_origin: str) (certificate_sha256: str)
  | E2eePublicKeySha256 (binding_provider: str) (binding_key_id: "str option")
      (binding_algorithm: str) (public_key_sha256: str)

text \<open>The derived serialisation: internally tagged, \<open>key_id\<close> skipped when absent.\<close>

fun binding_value :: "channel_binding \<Rightarrow> json" where
  "binding_value (TlsSpkiSha256 origin spki) =
     Object [(lit ''type'', JString (lit ''tls_spki_sha256'')), (lit ''origin'', JString origin),
             (lit ''spki_sha256'', JString spki)]"
| "binding_value (TlsCertificateSha256 origin certificate) =
     Object [(lit ''type'', JString (lit ''tls_certificate_sha256'')), (lit ''origin'', JString origin),
             (lit ''certificate_sha256'', JString certificate)]"
| "binding_value (E2eePublicKeySha256 provider key_id algorithm key) =
     Object ([(lit ''type'', JString (lit ''e2ee_public_key_sha256'')), (lit ''provider'', JString provider)]
             @ (case key_id of None \<Rightarrow> [] | Some k \<Rightarrow> [(lit ''key_id'', JString k)])
             @ [(lit ''algorithm'', JString algorithm), (lit ''public_key_sha256'', JString key)])"

record upstream_verified_event =
  uv_upstream_name :: str
  uv_provider_type :: "str option"
  uv_model_id :: str
  uv_url_origin :: "str option"
  uv_verifier_id :: str
  uv_result :: verification_result
  uv_required :: bool
  uv_reason :: "str option"
  uv_evidence :: "json option"
  uv_channel_bindings :: "channel_binding list"
  uv_provider_claims :: "json option"

definition default_upstream_verified_event :: upstream_verified_event where
  "default_upstream_verified_event = \<lparr>uv_upstream_name = [], uv_provider_type = None, uv_model_id = [],
     uv_url_origin = None, uv_verifier_id = [], uv_result = Failed, uv_required = False,
     uv_reason = None, uv_evidence = None, uv_channel_bindings = [], uv_provider_claims = None\<rparr>"

datatype transparency_event_kind = RequestModified | ResponseModified

fun transparency_event_type :: "transparency_event_kind \<Rightarrow> str" where
  "transparency_event_type RequestModified = EVENT_TRANSPARENCY_REQUEST_MODIFIED"
| "transparency_event_type ResponseModified = EVENT_TRANSPARENCY_RESPONSE_MODIFIED"

definition to_fields :: "upstream_verified_event \<Rightarrow> json" where
  "to_fields e = Object [
     (lit ''upstream_name'', JString (uv_upstream_name e)),
     (lit ''provider_type'', json_opt_str (uv_provider_type e)),
     (lit ''model_id'', JString (uv_model_id e)),
     (lit ''url_origin'', json_opt_str (uv_url_origin e)),
     (lit ''verifier_id'', JString (uv_verifier_id e)),
     (lit ''result'', JString (verification_result_str (uv_result e))),
     (lit ''required'', Bool (uv_required e)),
     (lit ''reason'', json_opt_str (uv_reason e)),
     (lit ''channel_bindings'', Array (map binding_value (uv_channel_bindings e))),
     (lit ''provider_claims'', (case uv_provider_claims e of None \<Rightarrow> Null | Some c \<Rightarrow> c))]"

section \<open>The builder\<close>

record receipt_builder =
  rb_receipt_id :: str
  rb_chat_id :: "str option"
  rb_model :: "str option"
  rb_workload_id :: str
  rb_workload_keyset_digest :: str
  rb_endpoint :: str
  rb_method :: str
  rb_served_at :: u64
  rb_events :: "receipt_event list"
  rb_next_seq :: u64

definition new_builder ::
    "str \<Rightarrow> str option \<Rightarrow> str option \<Rightarrow> str \<Rightarrow> str \<Rightarrow> str \<Rightarrow> str \<Rightarrow> u64 \<Rightarrow> receipt_builder" where
  "new_builder receipt_id chat_id model wid digest endpoint meth served_at =
     \<lparr>rb_receipt_id = receipt_id, rb_chat_id = chat_id, rb_model = model, rb_workload_id = wid,
      rb_workload_keyset_digest = digest, rb_endpoint = endpoint, rb_method = meth,
      rb_served_at = served_at, rb_events = [], rb_next_seq = 0\<rparr>"

definition reserved_key :: "json \<Rightarrow> str option" where
  "reserved_key flds =
     (case flds of
        Object obj \<Rightarrow> find (\<lambda>k. k = lit ''seq'' \<or> k = lit ''type'') (keys obj)
      | _ \<Rightarrow> None)"

definition append_event :: "receipt_builder \<Rightarrow> str \<Rightarrow> json \<Rightarrow> receipt_error + receipt_builder" where
  "append_event b event_type flds =
     (if rb_next_seq b = 0 \<and> event_type \<noteq> EVENT_REQUEST_RECEIVED
      then Inl (FirstEventMustBeRequestReceived event_type)
      else case reserved_key flds of
             Some k \<Rightarrow> Inl (ReservedField k)
           | None \<Rightarrow>
               Inr (b\<lparr>rb_events := rb_events b @ [\<lparr>ev_seq = rb_next_seq b, ev_type = event_type, ev_fields = flds\<rparr>],
                      rb_next_seq := rb_next_seq b + 1\<rparr>))"

definition add_body_hash ::
    "(bytes \<Rightarrow> bytes) \<Rightarrow> (bytes \<Rightarrow> str) \<Rightarrow> str \<Rightarrow> receipt_builder \<Rightarrow> bytes \<Rightarrow> receipt_error + (str \<times> receipt_builder)" where
  "add_body_hash sha256 hex_encode event_type b body =
     (let digest = sha256_hex sha256 hex_encode body in
      bind_result (append_event b event_type (Object [(lit ''body_hash'', JString digest)])) (\<lambda>b'.
      Inr (digest, b')))"

definition add_request_received ::
    "(bytes \<Rightarrow> bytes) \<Rightarrow> (bytes \<Rightarrow> str) \<Rightarrow> receipt_builder \<Rightarrow> bytes \<Rightarrow> receipt_error + (str \<times> receipt_builder)" where
  "add_request_received sha256 hex_encode = add_body_hash sha256 hex_encode EVENT_REQUEST_RECEIVED"

definition add_request_forwarded ::
    "(bytes \<Rightarrow> bytes) \<Rightarrow> (bytes \<Rightarrow> str) \<Rightarrow> receipt_builder \<Rightarrow> bytes \<Rightarrow> receipt_error + (str \<times> receipt_builder)" where
  "add_request_forwarded sha256 hex_encode = add_body_hash sha256 hex_encode EVENT_REQUEST_FORWARDED"

definition add_middleware_forwarded ::
    "(bytes \<Rightarrow> bytes) \<Rightarrow> (bytes \<Rightarrow> str) \<Rightarrow> receipt_builder \<Rightarrow> bytes \<Rightarrow> receipt_error + (str \<times> receipt_builder)" where
  "add_middleware_forwarded sha256 hex_encode = add_body_hash sha256 hex_encode EVENT_MIDDLEWARE_FORWARDED"

definition add_route_selected :: "receipt_builder \<Rightarrow> str \<Rightarrow> receipt_error + receipt_builder" where
  "add_route_selected b target_route_id =
     append_event b EVENT_ROUTE_SELECTED (Object [(lit ''target_route_id'', JString target_route_id)])"

definition add_upstream_verified :: "receipt_builder \<Rightarrow> upstream_verified_event \<Rightarrow> receipt_error + receipt_builder" where
  "add_upstream_verified b event = append_event b EVENT_UPSTREAM_VERIFIED (to_fields event)"

definition add_upstream_verified_with_session ::
    "receipt_builder \<Rightarrow> upstream_verified_event \<Rightarrow> str \<Rightarrow> json \<Rightarrow> receipt_error + receipt_builder" where
  "add_upstream_verified_with_session b event session_id claims =
     (let flds = (case to_fields event of
            Object obj \<Rightarrow> Object (obj_insert (obj_insert obj (lit ''session_id'') (JString session_id))
                                 (lit ''claims'') claims)
          | v \<Rightarrow> v)
      in append_event b EVENT_UPSTREAM_VERIFIED flds)"

definition add_transparency_event :: "receipt_builder \<Rightarrow> transparency_event_kind \<Rightarrow> receipt_error + receipt_builder" where
  "add_transparency_event b kind = append_event b (transparency_event_type kind) (Object [])"

definition add_response_received_hash :: "receipt_builder \<Rightarrow> str \<Rightarrow> receipt_error + receipt_builder" where
  "add_response_received_hash b cleartext_hash =
     append_event b EVENT_RESPONSE_RECEIVED (Object [(lit ''cleartext_hash'', JString cleartext_hash)])"

definition add_response_received ::
    "(bytes \<Rightarrow> bytes) \<Rightarrow> (bytes \<Rightarrow> str) \<Rightarrow> receipt_builder \<Rightarrow> bytes \<Rightarrow> receipt_error + (str \<times> receipt_builder)" where
  "add_response_received sha256 hex_encode b cleartext =
     (let digest = sha256_hex sha256 hex_encode cleartext in
      bind_result (add_response_received_hash b digest) (\<lambda>b'. Inr (digest, b')))"

definition add_response_returned_hashes :: "receipt_builder \<Rightarrow> str \<Rightarrow> str \<Rightarrow> receipt_error + receipt_builder" where
  "add_response_returned_hashes b cleartext_hash wire_hash =
     append_event b EVENT_RESPONSE_RETURNED
       (Object [(lit ''cleartext_hash'', JString cleartext_hash), (lit ''wire_hash'', JString wire_hash)])"

definition add_response_returned ::
    "(bytes \<Rightarrow> bytes) \<Rightarrow> (bytes \<Rightarrow> str) \<Rightarrow> receipt_builder \<Rightarrow> bytes \<Rightarrow> bytes \<Rightarrow>
     receipt_error + ((str \<times> str) \<times> receipt_builder)" where
  "add_response_returned sha256 hex_encode b cleartext wire =
     (let cleartext_hash = sha256_hex sha256 hex_encode cleartext;
          wire_hash = sha256_hex sha256 hex_encode wire in
      bind_result (add_response_returned_hashes b cleartext_hash wire_hash) (\<lambda>b'.
      Inr ((cleartext_hash, wire_hash), b')))"

definition add_extension_event :: "receipt_builder \<Rightarrow> str \<Rightarrow> json \<Rightarrow> receipt_error + receipt_builder" where
  "add_extension_event b event_type flds =
     (if event_type \<in> {EVENT_REQUEST_RECEIVED, EVENT_REQUEST_FORWARDED, EVENT_UPSTREAM_VERIFIED,
                       EVENT_RESPONSE_RECEIVED, EVENT_RESPONSE_RETURNED}
      then Inl (ReservedEventType event_type)
      else append_event b event_type flds)"

definition set_chat_id :: "receipt_builder \<Rightarrow> str option \<Rightarrow> receipt_builder" where
  "set_chat_id b chat_id = b\<lparr>rb_chat_id := chat_id\<rparr>"

fun set_first_model_id :: "str \<Rightarrow> receipt_event list \<Rightarrow> receipt_event list" where
  "set_first_model_id model_id [] = []"
| "set_first_model_id model_id (e # es) =
     (if ev_type e = EVENT_UPSTREAM_VERIFIED
      then (case ev_fields e of
              Object flds \<Rightarrow> e\<lparr>ev_fields := Object (obj_insert flds (lit ''model_id'') (JString model_id))\<rparr>
            | _ \<Rightarrow> e) # es
      else e # set_first_model_id model_id es)"

definition set_upstream_verified_model_id :: "receipt_builder \<Rightarrow> str option \<Rightarrow> receipt_builder" where
  "set_upstream_verified_model_id b model_id =
     (let model_id = (case model_id of None \<Rightarrow> lit ''unknown'' | Some m \<Rightarrow> m)
      in b\<lparr>rb_events := set_first_model_id model_id (rb_events b)\<rparr>)"

definition unsigned_receipt :: "receipt_builder \<Rightarrow> keyed_public_key \<Rightarrow> str \<Rightarrow> receipt" where
  "unsigned_receipt b key value_hex =
     \<lparr>rc_api_version = lit ''aci/1'', rc_receipt_id = rb_receipt_id b, rc_chat_id = rb_chat_id b,
      rc_model = rb_model b, rc_workload_id = rb_workload_id b,
      rc_workload_keyset_digest = rb_workload_keyset_digest b, rc_endpoint = rb_endpoint b,
      rc_method = rb_method b, rc_served_at = rb_served_at b, rc_event_log = rb_events b,
      rc_signature = \<lparr>sig_algo = kpk_algo key, sig_key_id = kpk_key_id key, sig_value_hex = value_hex\<rparr>\<rparr>"

definition required_events :: "str list" where
  "required_events = [EVENT_REQUEST_RECEIVED, EVENT_REQUEST_FORWARDED, EVENT_RESPONSE_RETURNED]"

definition finalize :: "(bytes \<Rightarrow> str) \<Rightarrow> key_provider \<Rightarrow> str \<Rightarrow> receipt_builder \<Rightarrow> receipt_error + receipt" where
  "finalize hex_encode ks key_id b =
     (if rb_events b = [] then Inl EmptyReceipt
      else case find (\<lambda>required. required \<notin> set (map ev_type (rb_events b))) required_events of
        Some required \<Rightarrow> Inl (MissingRequiredEvent required)
      | None \<Rightarrow>
          (case find (\<lambda>k. kpk_key_id k = key_id) (receipt_keys ks) of
             None \<Rightarrow> Inl (ReceiptKey (UnknownReceiptKeyId key_id))
           | Some receipt_key \<Rightarrow>
               bind_result (map_err ReceiptCanonical
                 (canonicalize (receipt_value False (unsigned_receipt b receipt_key [])))) (\<lambda>canonical_bytes.
               bind_result (map_err ReceiptKey (sign_receipt ks (kpk_key_id receipt_key) canonical_bytes)) (\<lambda>sig.
               Inr (unsigned_receipt b receipt_key (hex_encode sig))))))"

definition canonical_bytes_for_signing :: "receipt \<Rightarrow> receipt_error + bytes" where
  "canonical_bytes_for_signing r = map_err ReceiptCanonical (canonicalize (receipt_value False r))"

section \<open>The event log\<close>

lemma reserved_key_None:
  "reserved_key (Object m) = None \<longleftrightarrow> lit ''seq'' \<notin> set (keys m) \<and> lit ''type'' \<notin> set (keys m)"
  by (auto simp: reserved_key_def find_None_iff)

text \<open>What every log a builder assembles satisfies, and the builder's invariant.\<close>

definition log_ok :: "receipt_event list \<Rightarrow> bool" where
  "log_ok es \<longleftrightarrow>
     (\<forall>i < length es. ev_seq (es ! i) = of_nat i) \<and>
     (es \<noteq> [] \<longrightarrow> ev_type (es ! 0) = EVENT_REQUEST_RECEIVED) \<and>
     (\<forall>e \<in> set es. reserved_key (ev_fields e) = None)"

definition builder_inv :: "receipt_builder \<Rightarrow> bool" where
  "builder_inv b \<longleftrightarrow> log_ok (rb_events b) \<and> rb_next_seq b = of_nat (length (rb_events b))"

lemma builder_inv_new: "builder_inv (new_builder i c m w d e t s)"
  by (simp add: builder_inv_def log_ok_def new_builder_def)

lemma append_event_Inr:
  "append_event b t f = Inr b' \<longleftrightarrow>
     \<not> (rb_next_seq b = 0 \<and> t \<noteq> EVENT_REQUEST_RECEIVED) \<and> reserved_key f = None \<and>
     b' = b\<lparr>rb_events := rb_events b @ [\<lparr>ev_seq = rb_next_seq b, ev_type = t, ev_fields = f\<rparr>],
            rb_next_seq := rb_next_seq b + 1\<rparr>"
  by (auto simp: append_event_def split: option.splits)

lemma builder_inv_append: "builder_inv b \<Longrightarrow> append_event b t f = Inr b' \<Longrightarrow> builder_inv b'"
  unfolding append_event_Inr builder_inv_def log_ok_def
  by (cases "rb_events b = []") (auto simp: nth_append less_Suc_eq)

lemma set_first_model_id_shape:
  "map ev_type (set_first_model_id m es) = map ev_type es"
  "map ev_seq (set_first_model_id m es) = map ev_seq es"
  by (induction es) (auto split: json.splits)

lemma reserved_key_insert:
  "reserved_key (Object f) = None \<Longrightarrow> k \<noteq> lit ''seq'' \<Longrightarrow> k \<noteq> lit ''type'' \<Longrightarrow>
   reserved_key (Object (obj_insert f k v)) = None"
  by (auto simp: reserved_key_None keys_obj_insert)

lemma set_first_model_id_reserved:
  "\<forall>e \<in> set es. reserved_key (ev_fields e) = None \<Longrightarrow>
   \<forall>e \<in> set (set_first_model_id m es). reserved_key (ev_fields e) = None"
  by (induction es) (auto split: json.splits intro!: reserved_key_insert)

lemma builder_inv_set_model: "builder_inv b \<Longrightarrow> builder_inv (set_upstream_verified_model_id b m)"
proof -
  assume inv: "builder_inv b"
  define es where "es = rb_events b"
  define n where "n = (case m of None \<Rightarrow> lit ''unknown'' | Some x \<Rightarrow> x)"
  have len: "length (set_first_model_id n es) = length es"
    using arg_cong [OF set_first_model_id_shape(1), of length] by simp
  have "ev_seq (set_first_model_id n es ! i) = ev_seq (es ! i)"
    "ev_type (set_first_model_id n es ! i) = ev_type (es ! i)" if "i < length es" for i
    using that len set_first_model_id_shape [of n es] by (metis nth_map)+
  note same = this this(2) [of 0]
  have "set_first_model_id n es = [] \<longleftrightarrow> es = []" using len by auto
  then have "log_ok (set_first_model_id n es)"
    using same inv len set_first_model_id_reserved [of es n]
    by (simp add: builder_inv_def log_ok_def es_def)
  then show ?thesis
    using inv len by (simp add: builder_inv_def set_upstream_verified_model_id_def es_def n_def)
qed

text \<open>
  Every state of a builder: a new one, the builder after a successful append (all
  \<open>add_*\<close> operations append), or after one of the two setters.
\<close>

inductive built :: "receipt_builder \<Rightarrow> bool" where
  built_new: "built (new_builder i c m w d e t s)"
| built_append: "built b \<Longrightarrow> append_event b t f = Inr b' \<Longrightarrow> built b'"
| built_chat: "built b \<Longrightarrow> built (set_chat_id b c)"
| built_model: "built b \<Longrightarrow> built (set_upstream_verified_model_id b m)"

lemma built_inv: "built b \<Longrightarrow> builder_inv b"
proof (induction rule: built.induct)
  case (built_chat b c)
  then show ?case by (simp add: builder_inv_def set_chat_id_def)
qed (auto intro: builder_inv_new builder_inv_append builder_inv_set_model)

lemma built_adds [intro]:
  "built b \<Longrightarrow> add_request_received sha hx b body = Inr (d, b') \<Longrightarrow> built b'"
  "built b \<Longrightarrow> add_request_forwarded sha hx b body = Inr (d, b') \<Longrightarrow> built b'"
  "built b \<Longrightarrow> add_middleware_forwarded sha hx b body = Inr (d, b') \<Longrightarrow> built b'"
  "built b \<Longrightarrow> add_route_selected b route = Inr b' \<Longrightarrow> built b'"
  "built b \<Longrightarrow> add_upstream_verified b event = Inr b' \<Longrightarrow> built b'"
  "built b \<Longrightarrow> add_upstream_verified_with_session b event sid claims = Inr b' \<Longrightarrow> built b'"
  "built b \<Longrightarrow> add_transparency_event b kind = Inr b' \<Longrightarrow> built b'"
  "built b \<Longrightarrow> add_response_received sha hx b body = Inr (d, b') \<Longrightarrow> built b'"
  "built b \<Longrightarrow> add_response_received_hash b h = Inr b' \<Longrightarrow> built b'"
  "built b \<Longrightarrow> add_response_returned sha hx b body wire = Inr (dd, b') \<Longrightarrow> built b'"
  "built b \<Longrightarrow> add_response_returned_hashes b h h' = Inr b' \<Longrightarrow> built b'"
  "built b \<Longrightarrow> add_extension_event b t f = Inr b' \<Longrightarrow> built b'"
  by (auto simp: add_request_received_def add_request_forwarded_def add_middleware_forwarded_def
      add_body_hash_def add_route_selected_def add_upstream_verified_def
      add_upstream_verified_with_session_def add_transparency_event_def add_response_received_def
      add_response_received_hash_def add_response_returned_def add_response_returned_hashes_def
      add_extension_event_def bind_result_Inr Let_def split: if_splits intro: built_append)

section \<open>Finishing\<close>

lemma finalize_Inr:
  "finalize hex_encode ks key_id b = Inr r \<longleftrightarrow>
     rb_events b \<noteq> [] \<and> set required_events \<subseteq> set (map ev_type (rb_events b)) \<and>
     (\<exists>key bs sig. find (\<lambda>k. kpk_key_id k = key_id) (receipt_keys ks) = Some key \<and>
        canonicalize (receipt_value False (unsigned_receipt b key [])) = Inr bs \<and>
        sign_receipt ks (kpk_key_id key) bs = Inr sig \<and>
        r = unsigned_receipt b key (hex_encode sig))"
proof -
  let ?missing = "find (\<lambda>q. q \<notin> set (map ev_type (rb_events b))) required_events"
  have miss: "?missing = None \<longleftrightarrow> set required_events \<subseteq> set (map ev_type (rb_events b))"
    by (auto simp: find_None_iff)
  show ?thesis
  proof (cases ?missing)
    case None
    with miss show ?thesis
      by (auto simp: finalize_def bind_result_Inr map_err_Inr simp del: set_map split: option.splits)
  next
    case (Some q)
    with miss have "\<not> set required_events \<subseteq> set (map ev_type (rb_events b))" by (simp del: set_map)
    with Some show ?thesis by (simp add: finalize_def del: set_map)
  qed
qed

lemma receipt_value_unsigned:
  "receipt_value False (unsigned_receipt b key v) = receipt_value False (unsigned_receipt b key [])"
  by (simp add: receipt_value_def unsigned_receipt_def signature_value_def)

section \<open>What the signed bytes cover\<close>

definition good_event :: "receipt_event \<Rightarrow> bool" where
  "good_event e \<longleftrightarrow>
     (case ev_fields e of Object m \<Rightarrow> wf_json (Object m) \<and> reserved_key (Object m) = None | _ \<Rightarrow> False)"

lemma obj_get_foldl_insert:
  "distinct (keys m) \<Longrightarrow>
   obj_get (foldl (\<lambda>acc (k, v). obj_insert acc k v) acc m) k =
     (case obj_get m k of Some v \<Rightarrow> Some v | None \<Rightarrow> obj_get acc k)"
proof (induction m arbitrary: acc)
  case (Cons p m)
  obtain k' v where p: "p = (k', v)" by (cases p)
  show ?case
  proof (cases "k' = k")
    case True
    with Cons.prems p have "obj_get m k = None" by (simp add: obj_get_None)
    with True Cons p show ?thesis by simp
  next
    case False
    with Cons p show ?thesis by (simp split: option.splits)
  qed
qed simp

lemma wf_foldl_insert:
  "wf_json (Object acc) \<Longrightarrow> \<forall>p \<in> set m. wf_json (snd p) \<Longrightarrow>
   wf_json (Object (foldl (\<lambda>acc (k, v). obj_insert acc k v) acc m))"
proof (induction m arbitrary: acc)
  case (Cons p m)
  obtain k v where p: "p = (k, v)" by (cases p)
  have "wf_json (Object (obj_insert acc k v))"
    using Cons.prems p by (intro wf_obj_insert) simp_all
  with Cons p show ?case by (simp del: wf_json.simps)
qed simp

lemma good_event_Object: "good_event e \<Longrightarrow> \<exists>m. ev_fields e = Object m \<and> wf_json (Object m) \<and>
    lit ''seq'' \<notin> set (keys m) \<and> lit ''type'' \<notin> set (keys m)"
  by (auto simp: good_event_def reserved_key_None split: json.splits)

lemma event_value_get:
  assumes "good_event e"
  shows "get (event_value e) k =
    (if k = lit ''seq'' then Some (json_u64 (ev_seq e))
     else if k = lit ''type'' then Some (JString (ev_type e))
     else get (ev_fields e) k)"
proof -
  obtain m where m: "ev_fields e = Object m" "distinct (keys m)" "lit ''seq'' \<notin> set (keys m)" "lit ''type'' \<notin> set (keys m)"
    using good_event_Object [OF assms] by auto
  then have "obj_get m (lit ''seq'') = None" "obj_get m (lit ''type'') = None"
    by (simp_all add: obj_get_None)
  with m show ?thesis
    by (auto simp: event_value_def Let_def obj_get_foldl_insert split: option.splits)
qed

lemma event_value_wf: "good_event e \<Longrightarrow> wf_json (event_value e)"
proof -
  assume "good_event e"
  then obtain m where m: "ev_fields e = Object m" "wf_json (Object m)" using good_event_Object by blast
  have "wf_json (Object [(lit ''seq'', json_u64 (ev_seq e)), (lit ''type'', JString (ev_type e))])" by simp
  from wf_foldl_insert [OF this, of m] m show ?thesis
    by (simp add: event_value_def Let_def del: wf_json.simps) simp
qed

definition covered_event :: "receipt_event \<Rightarrow> u64 \<times> str \<times> lvalue" where
  "covered_event e = (ev_seq e, ev_type e, logical (ev_fields e))"

lemma event_value_inject:
  assumes "good_event a" "good_event b" "logical (event_value a) = logical (event_value b)"
  shows "covered_event a = covered_event b"
proof -
  note eq = logical_get [OF assms(3), unfolded event_value_get [OF assms(1)] event_value_get [OF assms(2)]]
  obtain m n where m: "ev_fields a = Object m" "ev_fields b = Object n"
    "lit ''seq'' \<notin> set (keys m)" "lit ''type'' \<notin> set (keys m)" "lit ''seq'' \<notin> set (keys n)" "lit ''type'' \<notin> set (keys n)"
    using good_event_Object [OF assms(1)] good_event_Object [OF assms(2)] by auto
  have "map_option logical (obj_get m k) = map_option logical (obj_get n k)" for k
    using eq [of k] m by (cases "k = lit ''seq'' \<or> k = lit ''type''") (auto simp: obj_get_None [THEN iffD2])
  then have "logical (ev_fields a) = logical (ev_fields b)" using m by simp
  with eq [of "lit ''seq''"] eq [of "lit ''type''"] show ?thesis by (simp add: covered_event_def)
qed

lemma receipt_value_wf:
  assumes "\<forall>e \<in> set (rc_event_log r). good_event e"
  shows "wf_json (receipt_value s r)"
  using assms by (simp add: receipt_value_def signature_value_def event_value_wf)

text \<open>Everything a receipt says except the signature value itself.\<close>

definition covered :: "receipt \<Rightarrow> receipt \<times> (u64 \<times> str \<times> lvalue) list" where
  "covered r = (r\<lparr>rc_event_log := [], rc_signature := (rc_signature r)\<lparr>sig_value_hex := []\<rparr>\<rparr>,
                map covered_event (rc_event_log r))"

lemma events_inject:
  "\<forall>e \<in> set es. good_event e \<Longrightarrow> \<forall>e \<in> set es'. good_event e \<Longrightarrow>
   map (\<lambda>e. logical (event_value e)) es = map (\<lambda>e. logical (event_value e)) es' \<Longrightarrow>
   map covered_event es = map covered_event es'"
proof (induction es arbitrary: es')
  case (Cons e es)
  then obtain e' es'' where es': "es' = e' # es''" by (cases es') auto
  with Cons.prems have "covered_event e = covered_event e'" by (intro event_value_inject) simp_all
  with Cons es' show ?case by simp
qed simp

lemma receipt_value_inject:
  assumes "\<forall>e \<in> set (rc_event_log r). good_event e" "\<forall>e \<in> set (rc_event_log r'). good_event e"
    and "logical (receipt_value False r) = logical (receipt_value False r')"
  shows "covered r = covered r'"
proof -
  note eq = logical_get [OF assms(3), unfolded receipt_value_def]
  have "map covered_event (rc_event_log r) = map covered_event (rc_event_log r')"
    using eq [of "lit ''event_log''"] events_inject [OF assms(1,2)] by (simp add: comp_def)
  moreover have "(rc_signature r)\<lparr>sig_value_hex := []\<rparr> = (rc_signature r')\<lparr>sig_value_hex := []\<rparr>"
  proof -
    have "logical (signature_value False (rc_signature r)) = logical (signature_value False (rc_signature r'))"
      using eq [of "lit ''signature''"] by simp
    from logical_get [OF this, of "lit ''algo''"] logical_get [OF this, of "lit ''key_id''"]
    show ?thesis by (simp add: signature_value_def)
  qed
  moreover have "rc_api_version r = rc_api_version r'" "rc_receipt_id r = rc_receipt_id r'"
    "rc_workload_id r = rc_workload_id r'" "rc_workload_keyset_digest r = rc_workload_keyset_digest r'"
    using eq [of "lit ''api_version''"] eq [of "lit ''receipt_id''"] eq [of "lit ''workload_id''"]
      eq [of "lit ''workload_keyset_digest''"] by simp_all
  moreover have "rc_chat_id r = rc_chat_id r'" "rc_model r = rc_model r'" "rc_endpoint r = rc_endpoint r'"
    "rc_method r = rc_method r'" "rc_served_at r = rc_served_at r'"
    using eq [of "lit ''chat_id''"] eq [of "lit ''model''"] eq [of "lit ''endpoint''"]
      eq [of "lit ''method''"] eq [of "lit ''served_at''"] by simp_all
  ultimately show ?thesis by (simp add: covered_def)
qed

section \<open>Properties\<close>

text \<open>
  C14. The log of every finished receipt: it is not empty, its first event is
  \<open>request.received\<close>, event number \<open>i\<close> carries sequence number \<open>i\<close>, the three required
  events are there, and no event's own fields contain \<open>seq\<close> or \<open>type\<close>, so flattening an
  event into one JSON object loses nothing.
\<close>

theorem finalized_log_shape:
  assumes "built b" "finalize hex_encode ks key_id b = Inr r"
  shows "rc_event_log r \<noteq> [] \<and> ev_type (rc_event_log r ! 0) = EVENT_REQUEST_RECEIVED
    \<and> (\<forall>i < length (rc_event_log r). ev_seq (rc_event_log r ! i) = of_nat i)
    \<and> {EVENT_REQUEST_RECEIVED, EVENT_REQUEST_FORWARDED, EVENT_RESPONSE_RETURNED} \<subseteq> ev_type ` set (rc_event_log r)
    \<and> (\<forall>e \<in> set (rc_event_log r). \<forall>m. ev_fields e = Object m \<longrightarrow>
          lit ''seq'' \<notin> set (keys m) \<and> lit ''type'' \<notin> set (keys m))"
proof -
  have log: "rc_event_log r = rb_events b" "rb_events b \<noteq> []"
    "set required_events \<subseteq> ev_type ` set (rb_events b)"
    using assms(2) by (auto simp: finalize_Inr unsigned_receipt_def)
  have "log_ok (rb_events b)" using built_inv [OF assms(1)] by (simp add: builder_inv_def)
  then show ?thesis using log by (auto simp: log_ok_def required_events_def reserved_key_None [symmetric])
qed

definition sample_receipt_builder :: receipt_builder where
  "sample_receipt_builder =
     \<lparr>rb_receipt_id = lit ''r'', rb_chat_id = None, rb_model = None, rb_workload_id = [],
      rb_workload_keyset_digest = [], rb_endpoint = [], rb_method = lit ''POST'', rb_served_at = 7,
      rb_events = [\<lparr>ev_seq = 0, ev_type = EVENT_REQUEST_RECEIVED, ev_fields = Object []\<rparr>,
                   \<lparr>ev_seq = 1, ev_type = EVENT_REQUEST_FORWARDED, ev_fields = Object []\<rparr>,
                   \<lparr>ev_seq = 2, ev_type = EVENT_RESPONSE_RETURNED, ev_fields = Object []\<rparr>],
      rb_next_seq = 3\<rparr>"

definition sample_key_provider :: key_provider where
  "sample_key_provider =
     \<lparr>identity_public_key = \<lparr>pkm_algo = lit ''ed25519'', pkm_public_key_hex = []\<rparr>,
      sign_keyset_endorsement = Inr, sign_keyset_revocation = Inr,
      receipt_keys = [\<lparr>kpk_key_id = lit ''k'', kpk_algo = lit ''ed25519'', kpk_public_key_hex = []\<rparr>],
      sign_receipt = (\<lambda>_ bs. Inr bs), e2ee_keys = [], tls_spkis = [], is_test_only = False\<rparr>"

lemma sample_receipt_built: "built sample_receipt_builder"
proof -
  let ?b0 = "new_builder (lit ''r'') None None [] [] [] (lit ''POST'') 7"
  have 0: "built ?b0" by (rule built_new)
  obtain b1 where 1: "append_event ?b0 EVENT_REQUEST_RECEIVED (Object []) = Inr b1"
    by (simp add: append_event_def new_builder_def reserved_key_def)
  obtain b2 where 2: "append_event b1 EVENT_REQUEST_FORWARDED (Object []) = Inr b2"
    using 1 by (auto simp: append_event_def new_builder_def reserved_key_def)
  have 3: "append_event b2 EVENT_RESPONSE_RETURNED (Object []) = Inr sample_receipt_builder"
    using 1 2 by (auto simp: append_event_def new_builder_def reserved_key_def sample_receipt_builder_def)
  show ?thesis using built_append [OF built_append [OF built_append [OF 0 1] 2] 3] .
qed

lemma sample_receipt_final:
  "\<exists>r. finalize (\<lambda>_. lit ''00'') sample_key_provider (lit ''k'') sample_receipt_builder = Inr r"
proof -
  let ?r = "unsigned_receipt sample_receipt_builder \<lparr>kpk_key_id = lit ''k'', kpk_algo = lit ''ed25519'', kpk_public_key_hex = []\<rparr> []"
  have "wf_json (receipt_value False ?r)" "float_free (receipt_value False ?r)"
    by (auto simp: receipt_value_def unsigned_receipt_def signature_value_def sample_receipt_builder_def event_value_def)
  then obtain bs where "canonicalize (receipt_value False ?r) = Inr bs" using canonicalize_defined by blast
  then show ?thesis
    by (auto simp: finalize_Inr sample_key_provider_def required_events_def)
       (auto simp: sample_receipt_builder_def)
qed

theorem finalized_log_shape_witness:
  "\<exists>r. finalize (\<lambda>_. lit ''00'') sample_key_provider (lit ''k'') sample_receipt_builder = Inr r \<and>
       ev_type (rc_event_log r ! 0) = EVENT_REQUEST_RECEIVED"
  using sample_receipt_final finalized_log_shape [OF sample_receipt_built] by blast

text \<open>
  A finished receipt is signed over exactly the bytes a verifier recomputes from it:
  the signature value is the hexadecimal signature, under the requested key of the
  provider, of \<open>canonical_bytes_for_signing\<close> of the receipt itself.
\<close>

theorem finalize_signs_own_bytes:
  assumes "finalize hex_encode ks key_id b = Inr r"
  shows "\<exists>key bs sig. key \<in> set (receipt_keys ks) \<and> kpk_key_id key = key_id
    \<and> sig_key_id (rc_signature r) = key_id \<and> sig_algo (rc_signature r) = kpk_algo key
    \<and> canonical_bytes_for_signing r = Inr bs \<and> sign_receipt ks key_id bs = Inr sig
    \<and> sig_value_hex (rc_signature r) = hex_encode sig"
proof -
  obtain key bs sig where k: "find (\<lambda>k. kpk_key_id k = key_id) (receipt_keys ks) = Some key"
    "canonicalize (receipt_value False (unsigned_receipt b key [])) = Inr bs"
    "sign_receipt ks (kpk_key_id key) bs = Inr sig" "r = unsigned_receipt b key (hex_encode sig)"
    using assms by (auto simp: finalize_Inr)
  have key: "key \<in> set (receipt_keys ks)" "kpk_key_id key = key_id"
    using k(1) by (auto simp: find_Some_iff)
  have "canonical_bytes_for_signing r = Inr bs"
    using k(2,4) receipt_value_unsigned [of b key "hex_encode sig"]
    by (simp add: canonical_bytes_for_signing_def)
  with k key show ?thesis by (auto simp: unsigned_receipt_def)
qed

theorem finalize_signs_own_bytes_witness:
  "\<exists>r bs. finalize (\<lambda>_. lit ''00'') sample_key_provider (lit ''k'') sample_receipt_builder = Inr r \<and>
          canonical_bytes_for_signing r = Inr bs \<and> sig_value_hex (rc_signature r) = lit ''00''"
  using sample_receipt_final finalize_signs_own_bytes by blast



end
