(* ===== verification/Expiry.thy ===== *)
theory Expiry
  imports Prelude "HOL-Library.AList"
begin

text \<open>
  The expiry index shared by the receipt store and the session store: an ordered map from
  deadlines to the set of ids that expire then (\<open>BTreeMap<u64, HashSet<String>>\<close>), kept
  as a list of buckets in ascending order. A \<open>HashMap\<close> of the source is an association
  list with distinct keys (\<open>AList.update\<close>, \<open>AList.delete\<close>, \<open>map_of\<close>), a \<open>HashSet\<close> a
  list without repetition.

  The locale \<open>expiring\<close> is the interface between the index and the table it indexes: given
  how removing one id changes the table, the eviction loop removes exactly the ids whose
  deadline has passed and keeps index and table consistent.
\<close>

section \<open>Buckets\<close>

type_synonym 'k buckets = "(u64 \<times> 'k list) list"

text \<open>\<open>by_expiry.entry(e).or_default().insert(k)\<close>\<close>

fun bucket_add :: "u64 \<Rightarrow> 'k \<Rightarrow> 'k buckets \<Rightarrow> 'k buckets" where
  "bucket_add e k [] = [(e, [k])]"
| "bucket_add e k ((e', ks) # bs) =
     (if e < e' then (e, [k]) # (e', ks) # bs
      else if e = e' then (e', List.insert k ks) # bs
      else (e', ks) # bucket_add e k bs)"

text \<open>\<open>drop_expiry_hint\<close>: remove the id from its bucket, and the bucket when it is empty.\<close>

fun bucket_drop :: "u64 \<Rightarrow> 'k \<Rightarrow> 'k buckets \<Rightarrow> 'k buckets" where
  "bucket_drop e k [] = []"
| "bucket_drop e k ((e', ks) # bs) =
     (if e' = e then (if removeAll k ks = [] then bs else (e', removeAll k ks) # bs)
      else (e', ks) # bucket_drop e k bs)"

text \<open>
  The \<open>while\<close> loop of \<open>evict_expired\<close>: pop the first bucket while its deadline is at or
  before \<open>now\<close>, removing each of its ids from the table with \<open>rm\<close>.
\<close>

fun evict_buckets :: "('s \<Rightarrow> 'k \<Rightarrow> 's) \<Rightarrow> u64 \<Rightarrow> 'k buckets \<Rightarrow> 's \<Rightarrow> 'k buckets \<times> 's" where
  "evict_buckets rm now [] s = ([], s)"
| "evict_buckets rm now ((e, ids) # bs) s =
     (if e > now then ((e, ids) # bs, s) else evict_buckets rm now bs (foldl rm s ids))"

section \<open>Well-formed indexes\<close>

fun wf_buckets :: "'k buckets \<Rightarrow> bool" where
  "wf_buckets [] = True"
| "wf_buckets ((e, ks) # bs) = (ks \<noteq> [] \<and> (\<forall>p \<in> set bs. e < fst p) \<and> wf_buckets bs)"

definition holds :: "'k buckets \<Rightarrow> u64 \<Rightarrow> 'k \<Rightarrow> bool" where
  "holds bs e k \<longleftrightarrow> (\<exists>ks. (e, ks) \<in> set bs \<and> k \<in> set ks)"

lemma holds_simps [simp]:
  "\<not> holds [] e k"
  "holds ((e', ks) # bs) e k \<longleftrightarrow> e = e' \<and> k \<in> set ks \<or> holds bs e k"
  by (auto simp: holds_def)

lemma keys_bucket_add: "fst ` set (bucket_add e k bs) = insert e (fst ` set bs)"
  by (induction e k bs rule: bucket_add.induct) auto

lemma wf_bucket_add: "wf_buckets bs \<Longrightarrow> wf_buckets (bucket_add e k bs)"
proof (induction e k bs rule: bucket_add.induct)
  case (2 e k e' ks bs)
  have "e' < fst p" if "e' < e" "p \<in> set (bucket_add e k bs)" for p
  proof -
    have "fst p \<in> insert e (fst ` set bs)"
      unfolding keys_bucket_add [of e k bs, symmetric] using that(2) by (rule imageI)
    with that(1) 2(2) show ?thesis by auto
  qed
  with 2 show ?case by (auto simp: List.insert_def intro: less_trans)
qed simp

lemma holds_bucket_add: "holds (bucket_add e k bs) e' k' \<longleftrightarrow> e' = e \<and> k' = k \<or> holds bs e' k'"
  by (induction e k bs rule: bucket_add.induct) auto

lemma keys_bucket_drop: "fst ` set (bucket_drop e k bs) \<subseteq> fst ` set bs"
  by (induction e k bs rule: bucket_drop.induct) auto

lemma wf_bucket_drop: "wf_buckets bs \<Longrightarrow> wf_buckets (bucket_drop e k bs)"
proof (induction e k bs rule: bucket_drop.induct)
  case (2 e k e' ks bs)
  have "e' < fst p" if "p \<in> set (bucket_drop e k bs)" for p
  proof -
    have "fst p \<in> fst ` set bs" by (rule subsetD [OF keys_bucket_drop imageI [OF that]])
    with 2(2) show ?thesis by auto
  qed
  with 2 show ?case by auto
qed simp

lemma holds_key: "holds bs e k \<Longrightarrow> \<exists>p \<in> set bs. fst p = e"
  by (force simp: holds_def)

lemma holds_bucket_drop:
  "wf_buckets bs \<Longrightarrow> holds (bucket_drop e k bs) e' k' \<longleftrightarrow> holds bs e' k' \<and> \<not> (e' = e \<and> k' = k)"
proof (induction e k bs rule: bucket_drop.induct)
  case (2 e k f ks bs)
  have "\<not> holds bs f x" for x using 2(2) holds_key [of bs f x] by auto
  moreover have "removeAll k ks = [] \<longleftrightarrow> set ks \<subseteq> {k}"
    by (metis Diff_eq_empty_iff set_empty set_removeAll)
  ultimately show ?case using 2 by auto
qed simp

section \<open>The interface of the indexed table\<close>

locale expiring =
  fixes rm :: "'s \<Rightarrow> 'k \<Rightarrow> 's"
    and deadline :: "'s \<Rightarrow> 'k \<Rightarrow> u64 option"
    and invar :: "'s \<Rightarrow> bool"
  assumes deadline_rm: "invar s \<Longrightarrow> deadline (rm s k) = (deadline s)(k := None)"
    and invar_rm: "invar s \<Longrightarrow> invar (rm s k)"
begin

definition consistent :: "'k buckets \<Rightarrow> 's \<Rightarrow> bool" where
  "consistent bs s \<longleftrightarrow> wf_buckets bs \<and> invar s \<and> (\<forall>e k. holds bs e k \<longleftrightarrow> deadline s k = Some e)"

lemma rm_all:
  "invar s \<Longrightarrow> invar (foldl rm s ks) \<and> (\<forall>k. deadline (foldl rm s ks) k = (if k \<in> set ks then None else deadline s k))"
  by (induction ks arbitrary: s) (auto simp: invar_rm deadline_rm)

lemma evict_consistent:
  "consistent bs s \<Longrightarrow> evict_buckets rm now bs s = (bs', s') \<Longrightarrow>
   consistent bs' s' \<and>
   (\<forall>k. deadline s' k = (case deadline s k of Some e \<Rightarrow> if e \<le> now then None else Some e | None \<Rightarrow> None))"
proof (induction bs arbitrary: s)
  case Nil
  then have "deadline s k = None" for k by (cases "deadline s k") (auto simp: consistent_def)
  with Nil show ?case by auto
next
  case (Cons b bs)
  obtain e ids where b: "b = (e, ids)" by (cases b)
  note prems = Cons.prems [unfolded b]
  have wf: "wf_buckets ((e, ids) # bs)" "invar s" "\<And>f k. holds ((e, ids) # bs) f k \<longleftrightarrow> deadline s k = Some f"
    using prems(1) by (auto simp: consistent_def)
  show ?case
  proof (cases "e > now")
    case True
    have "now < f" if "deadline s k = Some f" for f k
    proof -
      have "holds ((e, ids) # bs) f k" using that wf(3) by blast
      then have "e \<le> f" using wf(1) holds_key [of bs f k] by (auto intro: less_imp_le)
      with True show ?thesis by simp
    qed
    with prems True show ?thesis by (auto split: option.splits dest: leD)
  next
    case False
    let ?s = "foldl rm s ids"
    have none: "\<not> holds bs e k" for k using wf(1) holds_key [of bs e k] by auto
    have dl: "deadline ?s k = (if k \<in> set ids then None else deadline s k)" "invar ?s" for k
      using rm_all [OF wf(2)] by auto
    have ids: "k \<in> set ids \<longleftrightarrow> deadline s k = Some e" for k using wf(3) [of e k] none by simp
    have "holds bs f k \<longleftrightarrow> deadline ?s k = Some f" for f k
      using wf(3) [of f k] none [of k] dl(1) [of k] ids [of k] by (cases "f = e") auto
    then have "consistent bs ?s" unfolding consistent_def using wf dl(2) by simp
    from Cons.IH [OF this] prems(2) False have
      "consistent bs' s'" "deadline s' k = (case deadline ?s k of Some e \<Rightarrow> if e \<le> now then None else Some e | None \<Rightarrow> None)" for k
      by auto
    moreover have "deadline s k = Some e \<Longrightarrow> e \<le> now" for k using False by simp
    ultimately show ?thesis using dl(1) ids by (auto split: option.splits)
  qed
qed

lemma evict_buckets_foldl: "\<exists>ids. snd (evict_buckets rm now bs s) = foldl rm s ids"
proof (induction bs arbitrary: s)
  case Nil
  show ?case by (auto intro: exI [of _ "[]"])
next
  case (Cons b bs)
  obtain e ks where b: "b = (e, ks)" by (cases b)
  obtain ids where "snd (evict_buckets rm now bs (foldl rm s ks)) = foldl rm (foldl rm s ks) ids"
    using Cons by blast
  then show ?case using b
    by (cases "e > now") (auto intro: exI [of _ "[]"] exI [of _ "ks @ ids"])
qed

text \<open>Evicting is removing, one by one, exactly the ids whose deadline has passed.\<close>

lemma evict_removes:
  assumes "consistent bs s" "evict_buckets rm now bs s = (bs', s')"
  obtains ids where "s' = foldl rm s ids" "consistent bs' s'"
    "\<And>k e. deadline s k = Some e \<Longrightarrow> k \<in> set ids \<longleftrightarrow> e \<le> now"
proof -
  obtain ids where ids: "s' = foldl rm s ids"
    using evict_buckets_foldl [of now bs s] assms(2) by auto
  have "k \<in> set ids \<longleftrightarrow> e \<le> now" if "deadline s k = Some e" for k e
  proof -
    have "deadline s' k = (if e \<le> now then None else Some e)"
      using evict_consistent [OF assms] that by simp
    moreover have "deadline s' k = (if k \<in> set ids then None else Some e)"
      using rm_all [of s ids] assms(1) that by (simp add: ids consistent_def)
    ultimately show ?thesis by (simp split: if_splits)
  qed
  with ids evict_consistent [OF assms] show ?thesis by (intro that) auto
qed

lemma consistent_add:
  "wf_buckets bs \<Longrightarrow> (\<And>e k. holds bs e k \<longleftrightarrow> d k = Some e) \<Longrightarrow> d k0 = None \<Longrightarrow>
   invar s \<Longrightarrow> deadline s = d(k0 \<mapsto> e0) \<Longrightarrow> consistent (bucket_add e0 k0 bs) s"
  by (auto simp: consistent_def wf_bucket_add holds_bucket_add)

lemma consistent_move:
  assumes "consistent bs s" "invar s'" "deadline s' = (deadline s)(k \<mapsto> e)"
    and "bs' = (case deadline s k of Some d \<Rightarrow> if d \<noteq> e then bucket_drop d k bs else bs | None \<Rightarrow> bs)"
  shows "consistent (bucket_add e k bs') s'"
proof -
  have wf: "wf_buckets bs" and h: "\<And>f i. holds bs f i \<longleftrightarrow> deadline s i = Some f"
    using assms(1) by (auto simp: consistent_def)
  have "wf_buckets bs'" using wf assms(4) by (auto simp: wf_bucket_drop split: option.splits)
  moreover have "holds (bucket_add e k bs') f i \<longleftrightarrow> deadline s' i = Some f" for f i
    using h [of f i] wf assms(3,4) by (auto simp: holds_bucket_add holds_bucket_drop split: option.splits if_splits)
  ultimately show ?thesis using assms(2) by (simp add: consistent_def wf_bucket_add)
qed

lemma consistent_rm:
  "consistent bs s \<Longrightarrow> deadline s k = Some e \<Longrightarrow> consistent (bucket_drop e k bs) (rm s k)"
  by (auto simp: consistent_def wf_bucket_drop holds_bucket_drop deadline_rm invar_rm)

end

end
