(* ===== verification/Receipt_Store.thy ===== *)
theory Receipt_Store
  imports Receipt Expiry
begin

text \<open>
  The in-memory receipt store (\<open>src/aggregator/service/receipt_store.rs\<close>): three indexes
  (by receipt id, by chat id, by expiry) updated together. The \<open>ReceiptStore\<close> trait is the
  locale \<open>receipt_store_contract\<close>; the store is an interpretation of it, with the
  primary index as the abstract state. The lock of the source makes every
  operation atomic, so operations are state transformers.
\<close>

section \<open>The code\<close>

record receipt_owner =
  auth_token_sha256 :: str

record stored_receipt =
  sr_receipt :: receipt
  sr_owner :: "receipt_owner option"
  sr_expires_at :: u64

record receipt_store =
  by_receipt :: "(str \<times> stored_receipt) list"
  by_chat :: "(str \<times> str) list"
  by_expiry :: "str buckets"

definition default_receipt_store :: receipt_store where
  "default_receipt_store = \<lparr>by_receipt = [], by_chat = [], by_expiry = []\<rparr>"

definition drop_chat_mapping :: "receipt_store \<Rightarrow> stored_receipt \<Rightarrow> str \<Rightarrow> receipt_store" where
  "drop_chat_mapping s entry receipt_id =
     (case rc_chat_id (sr_receipt entry) of
        None \<Rightarrow> s
      | Some chat_id \<Rightarrow>
          if map_of (by_chat s) chat_id = Some receipt_id
          then s\<lparr>by_chat := AList.delete chat_id (by_chat s)\<rparr> else s)"

definition drop_expiry_hint :: "receipt_store \<Rightarrow> str \<Rightarrow> u64 \<Rightarrow> receipt_store" where
  "drop_expiry_hint s receipt_id expires_at =
     s\<lparr>by_expiry := bucket_drop expires_at receipt_id (by_expiry s)\<rparr>"

definition remove_receipt :: "receipt_store \<Rightarrow> str \<Rightarrow> receipt_store" where
  "remove_receipt s receipt_id =
     (case map_of (by_receipt s) receipt_id of
        None \<Rightarrow> s
      | Some entry \<Rightarrow>
          (let s = s\<lparr>by_receipt := AList.delete receipt_id (by_receipt s)\<rparr>;
               s = drop_chat_mapping s entry receipt_id
           in drop_expiry_hint s receipt_id (sr_expires_at entry)))"

definition insert_receipt :: "receipt_store \<Rightarrow> receipt \<Rightarrow> receipt_owner option \<Rightarrow> u64 \<Rightarrow> receipt_store" where
  "insert_receipt s receipt owner expires_at =
     (let receipt_id = rc_receipt_id receipt;
          s = remove_receipt s receipt_id;
          s = (case rc_chat_id receipt of
                 None \<Rightarrow> s
               | Some chat_id \<Rightarrow> s\<lparr>by_chat := AList.update chat_id receipt_id (by_chat s)\<rparr>);
          s = s\<lparr>by_expiry := bucket_add expires_at receipt_id (by_expiry s)\<rparr>
      in s\<lparr>by_receipt := AList.update receipt_id
             \<lparr>sr_receipt = receipt, sr_owner = owner, sr_expires_at = expires_at\<rparr> (by_receipt s)\<rparr>)"

text \<open>The body of the loop of \<open>evict_expired\<close>: remove one id of a popped bucket.\<close>

definition evict_receipt :: "receipt_store \<Rightarrow> str \<Rightarrow> receipt_store" where
  "evict_receipt s receipt_id =
     (case map_of (by_receipt s) receipt_id of
        None \<Rightarrow> s
      | Some entry \<Rightarrow>
          drop_chat_mapping (s\<lparr>by_receipt := AList.delete receipt_id (by_receipt s)\<rparr>) entry receipt_id)"

definition evict_expired_receipts :: "receipt_store \<Rightarrow> u64 \<Rightarrow> receipt_store" where
  "evict_expired_receipts s now =
     (case evict_buckets evict_receipt now (by_expiry s) s of
        (bs, s') \<Rightarrow> s'\<lparr>by_expiry := bs\<rparr>)"

definition put_receipt :: "receipt_store \<Rightarrow> receipt \<Rightarrow> receipt_owner option \<Rightarrow> u64 \<Rightarrow> u64 \<Rightarrow> receipt_store" where
  "put_receipt s receipt owner now expires_at =
     insert_receipt (evict_expired_receipts s now) receipt owner expires_at"

definition get_by_receipt_id :: "receipt_store \<Rightarrow> str \<Rightarrow> u64 \<Rightarrow> receipt option \<times> receipt_store" where
  "get_by_receipt_id s receipt_id now =
     (case map_of (by_receipt s) receipt_id of
        None \<Rightarrow> (None, s)
      | Some entry \<Rightarrow>
          if now \<ge> sr_expires_at entry then (None, remove_receipt s receipt_id)
          else (Some (sr_receipt entry), s))"

definition get_by_chat_id :: "receipt_store \<Rightarrow> str \<Rightarrow> u64 \<Rightarrow> receipt option \<times> receipt_store" where
  "get_by_chat_id s chat_id now =
     (case map_of (by_chat s) chat_id of
        None \<Rightarrow> (None, s)
      | Some receipt_id \<Rightarrow>
          (case map_of (by_receipt s) receipt_id of
             None \<Rightarrow> (None, s)
           | Some entry \<Rightarrow>
               if now \<ge> sr_expires_at entry then (None, remove_receipt s receipt_id)
               else (Some (sr_receipt entry), s)))"

definition owner_of :: "receipt_store \<Rightarrow> str \<Rightarrow> u64 \<Rightarrow> receipt_owner option \<times> receipt_store" where
  "owner_of s receipt_id now =
     (case map_of (by_receipt s) receipt_id of
        None \<Rightarrow> (None, s)
      | Some entry \<Rightarrow>
          if now \<ge> sr_expires_at entry then (None, remove_receipt s receipt_id)
          else (sr_owner entry, s))"

section \<open>The contract of the trait\<close>

text \<open>
  \<open>view s\<close> is what the store holds, \<open>chat s\<close> which receipt a chat id names. A lookup at
  time \<open>now\<close> sees an entry while \<open>now\<close> is before its deadline; reading may drop the
  expired entry it hit and nothing else.
\<close>

definition live :: "(str \<rightharpoonup> stored_receipt) \<Rightarrow> u64 \<Rightarrow> str \<rightharpoonup> stored_receipt" where
  "live v now = (\<lambda>k. case v k of Some e \<Rightarrow> if now < sr_expires_at e then Some e else None | None \<Rightarrow> None)"

locale receipt_store_contract =
  fixes put :: "'s \<Rightarrow> receipt \<Rightarrow> receipt_owner option \<Rightarrow> u64 \<Rightarrow> u64 \<Rightarrow> 's"
    and get_id :: "'s \<Rightarrow> str \<Rightarrow> u64 \<Rightarrow> receipt option \<times> 's"
    and get_chat :: "'s \<Rightarrow> str \<Rightarrow> u64 \<Rightarrow> receipt option \<times> 's"
    and owner :: "'s \<Rightarrow> str \<Rightarrow> u64 \<Rightarrow> receipt_owner option \<times> 's"
    and view :: "'s \<Rightarrow> str \<rightharpoonup> stored_receipt"
    and chat :: "'s \<Rightarrow> str \<rightharpoonup> str"
    and invar :: "'s \<Rightarrow> bool"
  assumes invar_put: "invar s \<Longrightarrow> invar (put s r ow now e)"
    and view_put: "invar s \<Longrightarrow> view (put s r ow now e) =
      (live (view s) now)(rc_receipt_id r \<mapsto> \<lparr>sr_receipt = r, sr_owner = ow, sr_expires_at = e\<rparr>)"
    and chat_put: "invar s \<Longrightarrow> chat (put s r ow now e) c =
      (if rc_chat_id r = Some c then Some (rc_receipt_id r)
       else case chat s c of
              Some i \<Rightarrow> if i \<noteq> rc_receipt_id r \<and> live (view s) now i \<noteq> None then Some i else None
            | None \<Rightarrow> None)"
    and chat_view: "invar s \<Longrightarrow> chat s c = Some i \<Longrightarrow>
      \<exists>x. view s i = Some x \<and> rc_chat_id (sr_receipt x) = Some c"
    and view_id: "invar s \<Longrightarrow> view s i = Some x \<Longrightarrow> rc_receipt_id (sr_receipt x) = i"
    and get_id: "invar s \<Longrightarrow> fst (get_id s i now) = map_option sr_receipt (live (view s) now i)"
    and get_chat: "invar s \<Longrightarrow> fst (get_chat s c now) =
      Option.bind (chat s c) (\<lambda>i. map_option sr_receipt (live (view s) now i))"
    and owner: "invar s \<Longrightarrow> fst (owner s i now) = Option.bind (live (view s) now i) sr_owner"
    and invar_get: "invar s \<Longrightarrow> invar (snd (get_id s i now)) \<and> invar (snd (get_chat s c now)) \<and> invar (snd (owner s i now))"
    and view_get: "invar s \<Longrightarrow> live (view (snd (get_id s i now))) now = live (view s) now
      \<and> live (view (snd (get_chat s c now))) now = live (view s) now
      \<and> live (view (snd (owner s i now))) now = live (view s) now"
begin

lemma get_after_put:
  "invar s \<Longrightarrow> now' < e \<Longrightarrow> fst (get_id (put s r ow now e) (rc_receipt_id r) now') = Some r"
  by (simp add: get_id invar_put view_put live_def)

lemma get_chat_after_put:
  "invar s \<Longrightarrow> now' < e \<Longrightarrow> rc_chat_id r = Some c \<Longrightarrow> fst (get_chat (put s r ow now e) c now') = Some r"
  by (simp add: get_chat invar_put view_put chat_put live_def)

lemma owner_after_put:
  "invar s \<Longrightarrow> now' < e \<Longrightarrow> fst (owner (put s r ow now e) (rc_receipt_id r) now') = ow"
  by (simp add: owner invar_put view_put live_def)

lemma other_after_put:
  assumes "invar s" "i \<noteq> rc_receipt_id r" "now \<le> now'"
  shows "fst (get_id (put s r ow now e) i now') = fst (get_id s i now')"
  using assms by (auto simp: get_id invar_put view_put live_def split: option.splits)

lemma expired_not_served:
  assumes "invar s" "view s i = Some e" "sr_expires_at e \<le> now"
  shows "fst (get_id s i now) = None" "fst (owner s i now) = None"
  using assms by (auto simp: get_id owner live_def)

end

section \<open>Invariant\<close>

definition deadline_of :: "receipt_store \<Rightarrow> str \<Rightarrow> u64 option" where
  "deadline_of s k = map_option sr_expires_at (map_of (by_receipt s) k)"

definition tables_ok :: "receipt_store \<Rightarrow> bool" where
  "tables_ok s \<longleftrightarrow>
     (\<forall>k e. map_of (by_receipt s) k = Some e \<longrightarrow> rc_receipt_id (sr_receipt e) = k) \<and>
     (\<forall>c i. map_of (by_chat s) c = Some i \<longrightarrow>
        (\<exists>e. map_of (by_receipt s) i = Some e \<and> rc_chat_id (sr_receipt e) = Some c))"

lemma drop_chat_mapping_simps [simp]:
  "by_receipt (drop_chat_mapping s e i) = by_receipt s"
  "by_expiry (drop_chat_mapping s e i) = by_expiry s"
  by (auto simp: drop_chat_mapping_def split: option.splits)

lemma by_chat_drop [simp]:
  "map_of (by_chat (drop_chat_mapping s e i)) c =
     (if rc_chat_id (sr_receipt e) = Some c \<and> map_of (by_chat s) c = Some i then None else map_of (by_chat s) c)"
  by (auto simp: drop_chat_mapping_def delete_conv split: option.splits)

lemma evict_receipt_simps [simp]:
  "map_of (by_receipt (evict_receipt s i)) = (map_of (by_receipt s))(i := None)"
  "by_expiry (evict_receipt s i) = by_expiry s"
  by (auto simp: evict_receipt_def delete_conv split: option.splits)

lemma tables_ok_chat:
  "tables_ok s \<Longrightarrow> map_of (by_chat s) c = Some i \<Longrightarrow>
   \<exists>e. map_of (by_receipt s) i = Some e \<and> rc_chat_id (sr_receipt e) = Some c"
  by (simp add: tables_ok_def)

lemma by_chat_evict:
  "tables_ok s \<Longrightarrow> map_of (by_chat (evict_receipt s i)) c =
     (if map_of (by_chat s) c = Some i then None else map_of (by_chat s) c)"
  using tables_ok_chat [of s c i] by (auto simp: evict_receipt_def split: option.splits)

lemma tables_ok_evict: "tables_ok s \<Longrightarrow> tables_ok (evict_receipt s i)"
  unfolding tables_ok_def [of "evict_receipt s i"] by (auto simp: by_chat_evict) (auto simp: tables_ok_def)

interpretation receipts: expiring evict_receipt deadline_of tables_ok
  by unfold_locales (auto simp: deadline_of_def tables_ok_evict)

definition receipt_store_inv :: "receipt_store \<Rightarrow> bool" where
  "receipt_store_inv s \<longleftrightarrow> receipts.consistent (by_expiry s) s"

lemma evict_all:
  "tables_ok s \<Longrightarrow>
   map_of (by_receipt (foldl evict_receipt s ids)) k = (if k \<in> set ids then None else map_of (by_receipt s) k) \<and>
   map_of (by_chat (foldl evict_receipt s ids)) c =
     (case map_of (by_chat s) c of Some i \<Rightarrow> if i \<in> set ids then None else Some i | None \<Rightarrow> None)"
  by (induction ids arbitrary: s) (auto simp: tables_ok_evict by_chat_evict split: option.splits)

lemma by_expiry_irrelevant [simp]:
  "receipts.consistent bs (s\<lparr>by_expiry := bs'\<rparr>) = receipts.consistent bs s"
  by (simp add: receipts.consistent_def tables_ok_def deadline_of_def)

lemma live_cong: "map_option sr_expires_at (v k) = Some e \<Longrightarrow> live v now k = (if e \<le> now then None else v k)"
  by (auto simp: live_def split: option.splits)

lemma evict_expired_receipts_view:
  assumes "receipt_store_inv s"
  shows "receipt_store_inv (evict_expired_receipts s now)"
    and "map_of (by_receipt (evict_expired_receipts s now)) = live (map_of (by_receipt s)) now"
    and "map_of (by_chat (evict_expired_receipts s now)) c =
      (case map_of (by_chat s) c of
         Some i \<Rightarrow> if live (map_of (by_receipt s)) now i \<noteq> None then Some i else None | None \<Rightarrow> None)"
proof -
  obtain bs' s' where ev: "evict_buckets evict_receipt now (by_expiry s) s = (bs', s')" by fastforce
  have con: "receipts.consistent (by_expiry s) s" and ok: "tables_ok s"
    using assms by (auto simp: receipt_store_inv_def receipts.consistent_def)
  obtain ids where ids: "s' = foldl evict_receipt s ids" "receipts.consistent bs' s'"
    "\<And>k e. deadline_of s k = Some e \<Longrightarrow> k \<in> set ids \<longleftrightarrow> e \<le> now"
    using receipts.evict_removes [OF con ev] by metis
  have live: "live (map_of (by_receipt s)) now k = (if k \<in> set ids then None else map_of (by_receipt s) k)" for k
    using ids(3) [of k] by (cases "map_of (by_receipt s) k") (auto simp: live_def deadline_of_def)
  show "receipt_store_inv (evict_expired_receipts s now)"
    using ids(2) by (simp add: receipt_store_inv_def evict_expired_receipts_def ev)
  show "map_of (by_receipt (evict_expired_receipts s now)) = live (map_of (by_receipt s)) now"
    using evict_all [OF ok] by (auto simp: evict_expired_receipts_def ev ids(1) live)
  show "map_of (by_chat (evict_expired_receipts s now)) c =
      (case map_of (by_chat s) c of
         Some i \<Rightarrow> if live (map_of (by_receipt s)) now i \<noteq> None then Some i else None | None \<Rightarrow> None)"
    using evict_all [OF ok, of ids] tables_ok_chat [OF ok, of c]
    by (auto simp: evict_expired_receipts_def ev ids(1) live split: option.splits)
qed

lemma remove_receipt_evict:
  "remove_receipt s i = (case deadline_of s i of
     None \<Rightarrow> s | Some e \<Rightarrow> (evict_receipt s i)\<lparr>by_expiry := bucket_drop e i (by_expiry s)\<rparr>)"
  by (auto simp: remove_receipt_def evict_receipt_def deadline_of_def drop_expiry_hint_def split: option.splits)

lemma remove_receipt_view:
  assumes "receipt_store_inv s"
  shows "receipt_store_inv (remove_receipt s i)"
    and "map_of (by_receipt (remove_receipt s i)) = (map_of (by_receipt s))(i := None)"
    and "map_of (by_chat (remove_receipt s i)) c =
      (if map_of (by_chat s) c = Some i then None else map_of (by_chat s) c)"
proof -
  have con: "receipts.consistent (by_expiry s) s" and ok: "tables_ok s"
    using assms by (auto simp: receipt_store_inv_def receipts.consistent_def)
  have none: "map_of (by_receipt s) i = None \<Longrightarrow> map_of (by_chat s) c \<noteq> Some i"
    using tables_ok_chat [OF ok, of c i] by auto
  show "receipt_store_inv (remove_receipt s i)"
    using con receipts.consistent_rm [OF con, of i]
    by (auto simp: receipt_store_inv_def remove_receipt_evict split: option.splits)
  show "map_of (by_receipt (remove_receipt s i)) = (map_of (by_receipt s))(i := None)"
    by (auto simp: remove_receipt_evict deadline_of_def split: option.splits)
  show "map_of (by_chat (remove_receipt s i)) c =
      (if map_of (by_chat s) c = Some i then None else map_of (by_chat s) c)"
    using none by (auto simp: remove_receipt_evict deadline_of_def by_chat_evict [OF ok] split: option.splits)
qed

lemma insert_receipt_view:
  fixes s :: receipt_store and r :: receipt and ow :: "receipt_owner option" and e :: u64
  assumes inv: "receipt_store_inv s"
  defines "s' \<equiv> insert_receipt s r ow e" and "x \<equiv> \<lparr>sr_receipt = r, sr_owner = ow, sr_expires_at = e\<rparr>"
  shows "receipt_store_inv s'"
    and "map_of (by_receipt s') = (map_of (by_receipt s))(rc_receipt_id r \<mapsto> x)"
    and "map_of (by_chat s') c =
      (if rc_chat_id r = Some c then Some (rc_receipt_id r)
       else if map_of (by_chat s) c = Some (rc_receipt_id r) then None else map_of (by_chat s) c)"
proof -
  let ?i = "rc_receipt_id r" and ?s = "remove_receipt s (rc_receipt_id r)"
  note view = remove_receipt_view [OF inv, of ?i]
  show rec: "map_of (by_receipt s') = (map_of (by_receipt s))(?i \<mapsto> x)"
    by (auto simp: s'_def x_def insert_receipt_def Let_def update_conv view(2) split: option.splits)
  show chat: "map_of (by_chat s') c =
      (if rc_chat_id r = Some c then Some ?i
       else if map_of (by_chat s) c = Some ?i then None else map_of (by_chat s) c)" for c
    by (auto simp: s'_def insert_receipt_def Let_def update_conv view(3) split: option.splits)
  have con: "receipts.consistent (by_expiry ?s) ?s" using view(1) by (simp add: receipt_store_inv_def)
  have ok: "tables_ok s" using inv by (simp add: receipt_store_inv_def receipts.consistent_def)
  have "tables_ok s'"
    unfolding tables_ok_def [of s'] using ok tables_ok_chat [OF ok]
    by (auto simp: rec chat x_def) (auto simp: tables_ok_def)
  moreover have "deadline_of s' = (deadline_of ?s)(?i \<mapsto> e)"
    by (auto simp: deadline_of_def rec x_def view(2) fun_eq_iff)
  moreover have "by_expiry s' = bucket_add e ?i (by_expiry ?s)"
    by (auto simp: s'_def insert_receipt_def Let_def split: option.splits)
  moreover have "deadline_of ?s ?i = None" by (simp add: deadline_of_def view(2))
  ultimately show "receipt_store_inv s'"
    using con receipts.consistent_add [of "by_expiry ?s" "deadline_of ?s" ?i s' e]
    by (simp add: receipt_store_inv_def receipts.consistent_def)
qed

lemmas put_receipt_view =
  insert_receipt_view [OF evict_expired_receipts_view(1), folded put_receipt_def]

lemma live_remove: "v k = Some x \<Longrightarrow> sr_expires_at x \<le> now \<Longrightarrow> live (v(k := None)) now = live v now"
  by (auto simp: live_def fun_eq_iff)

interpretation receipt_map: receipt_store_contract put_receipt get_by_receipt_id get_by_chat_id owner_of
  "\<lambda>s. map_of (by_receipt s)" "\<lambda>s. map_of (by_chat s)" receipt_store_inv
proof
  fix s r ow now e c i x assume inv: "receipt_store_inv s"
  show "receipt_store_inv (put_receipt s r ow now e)" by (rule put_receipt_view(1) [OF inv])
  show "map_of (by_receipt (put_receipt s r ow now e)) =
      (live (map_of (by_receipt s)) now)(rc_receipt_id r \<mapsto> \<lparr>sr_receipt = r, sr_owner = ow, sr_expires_at = e\<rparr>)"
    by (simp add: put_receipt_view(2) [OF inv] evict_expired_receipts_view(2) [OF inv])
  show "map_of (by_chat (put_receipt s r ow now e)) c =
      (if rc_chat_id r = Some c then Some (rc_receipt_id r)
       else case map_of (by_chat s) c of
              Some i \<Rightarrow> if i \<noteq> rc_receipt_id r \<and> live (map_of (by_receipt s)) now i \<noteq> None then Some i else None
            | None \<Rightarrow> None)"
    by (auto simp: put_receipt_view(3) [OF inv] evict_expired_receipts_view(3) [OF inv] split: option.splits)
  have ok: "tables_ok s" using inv by (simp add: receipt_store_inv_def receipts.consistent_def)
  show "map_of (by_chat s) c = Some i \<Longrightarrow>
      \<exists>x. map_of (by_receipt s) i = Some x \<and> rc_chat_id (sr_receipt x) = Some c"
    by (rule tables_ok_chat [OF ok])
  show "map_of (by_receipt s) i = Some x \<Longrightarrow> rc_receipt_id (sr_receipt x) = i"
    using ok by (simp add: tables_ok_def)
  show "fst (get_by_receipt_id s i now) = map_option sr_receipt (live (map_of (by_receipt s)) now i)"
    "fst (get_by_chat_id s c now) =
      Option.bind (map_of (by_chat s) c) (\<lambda>i. map_option sr_receipt (live (map_of (by_receipt s)) now i))"
    "fst (owner_of s i now) = Option.bind (live (map_of (by_receipt s)) now i) sr_owner"
    by (auto simp: get_by_receipt_id_def get_by_chat_id_def owner_of_def live_def split: option.splits)
  show "receipt_store_inv (snd (get_by_receipt_id s i now)) \<and> receipt_store_inv (snd (get_by_chat_id s c now))
      \<and> receipt_store_inv (snd (owner_of s i now))"
    using inv by (auto simp: get_by_receipt_id_def get_by_chat_id_def owner_of_def remove_receipt_view split: option.splits)
  show "live (map_of (by_receipt (snd (get_by_receipt_id s i now)))) now = live (map_of (by_receipt s)) now
      \<and> live (map_of (by_receipt (snd (get_by_chat_id s c now)))) now = live (map_of (by_receipt s)) now
      \<and> live (map_of (by_receipt (snd (owner_of s i now)))) now = live (map_of (by_receipt s)) now"
    using inv by (auto simp: get_by_receipt_id_def get_by_chat_id_def owner_of_def remove_receipt_view live_remove
        split: option.splits)
qed

section \<open>Reachable stores\<close>

inductive store_run :: "receipt_store \<Rightarrow> bool" where
  init: "store_run default_receipt_store"
| put: "store_run s \<Longrightarrow> store_run (put_receipt s r ow now e)"
| by_id: "store_run s \<Longrightarrow> store_run (snd (get_by_receipt_id s i now))"
| by_chat: "store_run s \<Longrightarrow> store_run (snd (get_by_chat_id s c now))"
| owner: "store_run s \<Longrightarrow> store_run (snd (owner_of s i now))"

lemma store_run_inv: "store_run s \<Longrightarrow> receipt_store_inv s"
proof (induction rule: store_run.induct)
  case init
  show ?case
    by (simp add: receipt_store_inv_def default_receipt_store_def receipts.consistent_def tables_ok_def deadline_of_def)
qed (simp_all add: receipt_map.invar_put receipt_map.invar_get)

section \<open>Properties\<close>


definition sample_receipt :: receipt where
  "sample_receipt = unsigned_receipt (set_chat_id sample_receipt_builder (Some (lit ''chat-1'')))
     \<lparr>kpk_key_id = lit ''k'', kpk_algo = lit ''ed25519'', kpk_public_key_hex = []\<rparr> []"

lemma sample_receipt_ids [simp]:
  "rc_receipt_id sample_receipt = lit ''r''" "rc_chat_id sample_receipt = Some (lit ''chat-1'')"
  by (simp_all add: sample_receipt_def unsigned_receipt_def sample_receipt_builder_def set_chat_id_def)


text \<open>
  The store does not grow with dead data: right after a \<open>put\<close> at time \<open>now\<close>, every
  stored receipt is either the one just stored or still before its deadline, every chat
  mapping leads to a stored receipt of that chat, and the expiry index lists exactly the
  stored receipts under their deadlines.
\<close>

theorem put_receipt_evicts:
  assumes "store_run s"
  shows "let s' = put_receipt s r ow now e in
    (\<forall>i x. map_of (by_receipt s') i = Some x \<longrightarrow> i = rc_receipt_id r \<or> now < sr_expires_at x)
    \<and> (\<forall>c i. map_of (by_chat s') c = Some i \<longrightarrow>
         (\<exists>x. map_of (by_receipt s') i = Some x \<and> rc_chat_id (sr_receipt x) = Some c))
    \<and> (\<forall>d i. holds (by_expiry s') d i \<longleftrightarrow> map_option sr_expires_at (map_of (by_receipt s') i) = Some d)"
proof -
  define s' where "s' = put_receipt s r ow now e"
  note inv = store_run_inv [OF assms(1)]
  have inv': "receipt_store_inv s'" unfolding s'_def by (rule receipt_map.invar_put [OF inv])
  have "now < sr_expires_at x" if "map_of (by_receipt s') i = Some x" "i \<noteq> rc_receipt_id r" for i x
    using that receipt_map.view_put [OF inv, of r ow now e]
    by (auto simp: s'_def live_def split: option.splits if_splits)
  with receipt_map.chat_view [OF inv'] inv' show ?thesis
    by (auto simp: receipt_store_inv_def receipts.consistent_def deadline_of_def Let_def simp flip: s'_def)
qed

theorem put_receipt_evicts_witness:
  "map_of (by_receipt (put_receipt (put_receipt default_receipt_store sample_receipt None 5 10)
     (sample_receipt\<lparr>rc_receipt_id := lit ''r2'', rc_chat_id := None\<rparr>) None 10 20)) (lit ''r'') = None"
  using put_receipt_evicts [OF store_run.put [OF store_run.init], of sample_receipt None 5 10
      "sample_receipt\<lparr>rc_receipt_id := lit ''r2'', rc_chat_id := None\<rparr>" None 10 20]
  by (simp add: put_receipt_def evict_expired_receipts_def default_receipt_store_def insert_receipt_def
      remove_receipt_def evict_receipt_def drop_chat_mapping_def Let_def delete_conv update_conv)

end
