(* ===== verification/Strings.thy ===== *)
theory Strings
  imports Canonical
begin

text \<open>
  The string operations of Rust's standard library that the source uses, on sequences of
  characters, with the facts the components need: what trimming leaves, what stripping a
  prefix means, that lower-casing is idempotent.
\<close>

definition is_whitespace :: "uchar \<Rightarrow> bool" where
  "is_whitespace c =
     (let n = code_point c in
      9 \<le> n \<and> n \<le> 13 \<or> n = 32 \<or> n = 0x85 \<or> n = 0xA0 \<or> n = 0x1680 \<or> 0x2000 \<le> n \<and> n \<le> 0x200A \<or>
      n = 0x2028 \<or> n = 0x2029 \<or> n = 0x202F \<or> n = 0x205F \<or> n = 0x3000)"

definition is_ascii_whitespace :: "u8 \<Rightarrow> bool" where
  "is_ascii_whitespace b \<longleftrightarrow> b \<in> {9, 10, 12, 13, 32}"

definition trim_end_matches :: "(uchar \<Rightarrow> bool) \<Rightarrow> str \<Rightarrow> str" where
  "trim_end_matches p s = rev (dropWhile p (rev s))"

definition trim :: "str \<Rightarrow> str" where
  "trim s = trim_end_matches is_whitespace (dropWhile is_whitespace s)"

definition strip_prefix :: "str \<Rightarrow> str \<Rightarrow> str option" where
  "strip_prefix p s = (if take (length p) s = p then Some (drop (length p) s) else None)"

definition ascii_lowercase_char :: "uchar \<Rightarrow> uchar" where
  "ascii_lowercase_char c =
     (if 65 \<le> code_point c \<and> code_point c \<le> 90 then uchar_of_nat (code_point c + 32) else c)"

definition to_ascii_lowercase :: "str \<Rightarrow> str" where
  "to_ascii_lowercase = map ascii_lowercase_char"

definition ch :: "char \<Rightarrow> uchar" where
  "ch = uchar_of_char"

text \<open>\<open>str::as_bytes\<close>\<close>

definition as_bytes :: "str \<Rightarrow> bytes" where
  "as_bytes s = concat (map encode_utf8 s)"

text \<open>The part before the first \<open>c\<close> and the part after it.\<close>

fun split_once :: "uchar \<Rightarrow> str \<Rightarrow> (str \<times> str) option" where
  "split_once c [] = None"
| "split_once c (x # xs) =
     (if x = c then Some ([], xs)
      else map_option (\<lambda>(a, b). (x # a, b)) (split_once c xs))"

text \<open>\<open>str::split_once\<close> with a string pattern.\<close>

fun split_once_str :: "str \<Rightarrow> str \<Rightarrow> (str \<times> str) option" where
  "split_once_str p s =
     (if take (length p) s = p then Some ([], drop (length p) s)
      else case s of
             [] \<Rightarrow> None
           | x # xs \<Rightarrow> map_option (\<lambda>(a, b). (x # a, b)) (split_once_str p xs))"

declare split_once_str.simps [simp del]

section \<open>Facts\<close>

lemma split_once_Some: "split_once c s = Some (a, b) \<longleftrightarrow> s = a @ c # b \<and> c \<notin> set a"
proof (induction s arbitrary: a)
  case (Cons x xs)
  show ?case
  proof (cases a)
    case Nil
    then show ?thesis by auto
  next
    case (Cons y ys)
    then show ?thesis using Cons.IH [of ys] by auto
  qed
qed simp

lemma split_once_None: "split_once c s = None \<longleftrightarrow> c \<notin> set s"
  by (induction s) auto

lemma strip_prefix_Some [simp]: "strip_prefix p s = Some r \<longleftrightarrow> s = p @ r"
proof
  assume "strip_prefix p s = Some r"
  then have "take (length p) s = p" "drop (length p) s = r" by (simp_all add: strip_prefix_def split: if_splits)
  then show "s = p @ r" using append_take_drop_id [of "length p" s] by simp
qed (simp add: strip_prefix_def)

lemma strip_prefix_append [simp]: "strip_prefix p (p @ r) = Some r"
  by simp

lemma trim_end_matches_last: "trim_end_matches p s = [] \<or> \<not> p (last (trim_end_matches p s))"
proof (cases "dropWhile p (rev s)")
  case (Cons x xs)
  then have "\<not> p x" using hd_dropWhile [of p "rev s"] by simp
  with Cons show ?thesis by (simp add: trim_end_matches_def)
qed (simp add: trim_end_matches_def)

lemma trim_end_matches_id: "s = [] \<or> \<not> p (last s) \<Longrightarrow> trim_end_matches p s = s"
  by (cases s rule: rev_cases) (auto simp: trim_end_matches_def)

lemma trim_end_matches_set: "set (trim_end_matches p s) \<subseteq> set s"
  by (auto simp: trim_end_matches_def dest: set_dropWhileD)

lemma trim_id: "(\<And>c. c \<in> set s \<Longrightarrow> \<not> is_whitespace c) \<Longrightarrow> trim s = s"
  by (cases s) (auto simp: trim_def intro!: trim_end_matches_id)

lemma trim_Nil: "trim s = [] \<longleftrightarrow> (\<forall>c \<in> set s. is_whitespace c)"
proof
  assume "trim s = []"
  then have all: "\<forall>c \<in> set (dropWhile is_whitespace s). is_whitespace c"
    by (simp add: trim_def trim_end_matches_def dropWhile_eq_Nil_conv)
  have "dropWhile is_whitespace s = []"
    using all hd_dropWhile [of is_whitespace s] hd_in_set [of "dropWhile is_whitespace s"] by auto
  then show "\<forall>c \<in> set s. is_whitespace c" by (simp add: dropWhile_eq_Nil_conv)
qed (auto simp: trim_def trim_end_matches_def dest: set_dropWhileD)

lemma code_point_uchar_of_nat:
  "n < 0x110000 \<Longrightarrow> \<not> (0xD800 \<le> n \<and> n < 0xE000) \<Longrightarrow> code_point (uchar_of_nat n) = n"
  by transfer simp

lemma uchar_of_nat_code_point [simp]: "uchar_of_nat (code_point c) = c"
proof -
  have "\<not> (0xD800 \<le> code_point c \<and> code_point c < 0xE000)"
    using code_point_not_surrogate [of c] by linarith
  with code_point_uchar_of_nat [OF code_point_bound] have "code_point (uchar_of_nat (code_point c)) = code_point c"
    by blast
  then show ?thesis by simp
qed

lemma code_point_ascii_lowercase:
  "code_point (ascii_lowercase_char c) =
     (if 65 \<le> code_point c \<and> code_point c \<le> 90 then code_point c + 32 else code_point c)"
  by (simp add: ascii_lowercase_char_def code_point_uchar_of_nat)

lemma ascii_lowercase_idem [simp]: "ascii_lowercase_char (ascii_lowercase_char c) = ascii_lowercase_char c"
  by (simp add: code_point_ascii_lowercase flip: code_point_inject_iff)

lemma to_ascii_lowercase_idem [simp]: "to_ascii_lowercase (to_ascii_lowercase s) = to_ascii_lowercase s"
  by (simp add: to_ascii_lowercase_def)

lemma to_ascii_lowercase_Nil [simp]: "to_ascii_lowercase s = [] \<longleftrightarrow> s = []"
  by (simp add: to_ascii_lowercase_def)

lemma as_bytes_inject [simp]: "as_bytes s = as_bytes t \<longleftrightarrow> s = t"
proof
  show "as_bytes s = as_bytes t \<Longrightarrow> s = t"
  proof (induction s arbitrary: t)
    case Nil
    then show ?case by (cases t) (auto simp: as_bytes_def encode_utf8_nonempty)
  next
    case (Cons c s)
    then obtain d u where t: "t = d # u" by (cases t) (auto simp: as_bytes_def encode_utf8_nonempty)
    have "encode_utf8 c @ as_bytes s = encode_utf8 d @ as_bytes u"
      using Cons.prems by (simp add: t as_bytes_def)
    then have "(code_point c, as_bytes s) = (code_point d, as_bytes u)"
      unfolding utf8_decode_encode [symmetric] by simp
    with Cons.IH t show ?case by simp
  qed
qed simp

text \<open>An injective text form of bytes (one character per byte), used in examples.\<close>

definition latin1 :: "bytes \<Rightarrow> str" where
  "latin1 = map (\<lambda>b. uchar_of_nat (unat b))"

lemma inj_latin1: "inj latin1"
  unfolding latin1_def
proof (intro inj_mapI injI)
  fix a b :: u8 assume "uchar_of_nat (unat a) = uchar_of_nat (unat b)"
  then have "code_point (uchar_of_nat (unat a)) = code_point (uchar_of_nat (unat b))" by simp
  moreover have "unat x < 256" for x :: u8 using unsigned_less [of x] by simp
  from this [of a] this [of b] have "unat a < 0xD800" "unat b < 0xD800" by linarith+
  ultimately show "a = b" by (auto simp: code_point_uchar_of_nat intro: unsigned_word_eqI)
qed

section \<open>Decoding UTF-8\<close>

text \<open>
  \<open>str::from_utf8\<close>: decode a character by its first byte and accept it only if its
  encoding is the bytes read (so no overlong forms, surrogates or truncated sequences).
\<close>

definition utf8_width :: "u8 \<Rightarrow> nat" where
  "utf8_width b = (if unat b < 0x80 then 1 else if unat b < 0xE0 then 2 else if unat b < 0xF0 then 3 else 4)"

definition decode_char :: "bytes \<Rightarrow> (uchar \<times> bytes) option" where
  "decode_char bs =
     (case bs of
        [] \<Rightarrow> None
      | b # _ \<Rightarrow>
          let k = utf8_width b; c = uchar_of_nat (fst (utf8_decode bs))
          in if k \<le> length bs \<and> take k bs = encode_utf8 c then Some (c, drop k bs) else None)"

lemma decode_char_shorter: "decode_char bs = Some (c, r) \<Longrightarrow> bs = encode_utf8 c @ r \<and> length r < length bs"
proof -
  assume d: "decode_char bs = Some (c, r)"
  then obtain b bs' where bs: "bs = b # bs'" by (cases bs) (auto simp: decode_char_def)
  have "take (utf8_width b) bs = encode_utf8 c" "drop (utf8_width b) bs = r"
    using d by (auto simp: decode_char_def bs Let_def split: if_splits)
  then have "bs = encode_utf8 c @ r" using append_take_drop_id [of "utf8_width b" bs] by simp
  then show ?thesis using encode_utf8_nonempty [of c] by simp
qed

function from_utf8 :: "bytes \<Rightarrow> str option" where
  "from_utf8 bs =
     (if bs = [] then Some []
      else case decode_char bs of
             None \<Rightarrow> None
           | Some (c, r) \<Rightarrow> map_option ((#) c) (from_utf8 r))"
  by pat_completeness auto
termination
  by (relation "measure length") (auto dest: decode_char_shorter)

declare from_utf8.simps [simp del]

lemma decode_char_encode: "decode_char (encode_utf8 c @ r) = Some (c, r)"
proof -
  obtain b bs where e: "encode_utf8 c = b # bs" using encode_utf8_Cons by blast
  have "utf8_width b = length (encode_utf8 c)"
    using e code_point_bound [of c]
    by (auto simp add: encode_utf8_def utf8_width_def Let_def split: if_splits simp del: of_nat_add of_nat_numeral)
  moreover have "uchar_of_nat (fst (utf8_decode (encode_utf8 c @ r))) = c"
    by (simp add: utf8_decode_encode uchar_of_nat_code_point)
  ultimately show ?thesis using e by (simp add: decode_char_def Let_def)
qed

lemma from_utf8_as_bytes: "from_utf8 (as_bytes s) = Some s"
  by (induction s) (simp_all add: as_bytes_def from_utf8.simps decode_char_encode encode_utf8_nonempty)

lemma from_utf8_Some: "from_utf8 bs = Some s \<longleftrightarrow> bs = as_bytes s"
proof
  show "from_utf8 bs = Some s \<Longrightarrow> bs = as_bytes s"
  proof (induction bs arbitrary: s rule: from_utf8.induct)
    case (1 bs)
    show ?case
    proof (cases "bs = []")
      case True
      with 1 show ?thesis by (simp add: from_utf8.simps as_bytes_def)
    next
      case False
      then obtain c r t where "decode_char bs = Some (c, r)" "from_utf8 r = Some t" "s = c # t"
        using 1(2) by (auto simp: from_utf8.simps [of bs] split: option.splits prod.splits)
      with 1(1) False decode_char_shorter show ?thesis by (fastforce simp: as_bytes_def)
    qed
  qed
qed (simp add: from_utf8_as_bytes)

section \<open>Lossy decoding\<close>

text \<open>
  \<open>String::from_utf8_lossy\<close>: every maximal ill-formed subsequence becomes one replacement
  character. \<open>ill_formed_width\<close> is the length of the one at the head: how far the bytes
  still begin some well-formed character.
\<close>

definition second_byte_ok :: "u8 \<Rightarrow> u8 \<Rightarrow> bool" where
  "second_byte_ok b c \<longleftrightarrow>
     (if b = 0xE0 then 0xA0 \<le> c \<and> c \<le> 0xBF
      else if b = 0xED then 0x80 \<le> c \<and> c \<le> 0x9F
      else if b = 0xF0 then 0x90 \<le> c \<and> c \<le> 0xBF
      else if b = 0xF4 then 0x80 \<le> c \<and> c \<le> 0x8F
      else 0xE1 \<le> b \<and> b \<le> 0xF3 \<and> 0x80 \<le> c \<and> c \<le> 0xBF)"

definition ill_formed_width :: "bytes \<Rightarrow> nat" where
  "ill_formed_width bs =
     (case bs of
        b # c # r \<Rightarrow>
          if \<not> second_byte_ok b c then 1
          else if 0xF0 \<le> b then (case r of d # _ \<Rightarrow> if 0x80 \<le> d \<and> d \<le> 0xBF then 3 else 2 | [] \<Rightarrow> 2)
          else 2
      | _ \<Rightarrow> 1)"

function from_utf8_lossy :: "bytes \<Rightarrow> str" where
  "from_utf8_lossy bs =
     (if bs = [] then []
      else case decode_char bs of
             Some (c, r) \<Rightarrow> c # from_utf8_lossy r
           | None \<Rightarrow> uchar_of_nat 0xFFFD # from_utf8_lossy (drop (ill_formed_width bs) bs))"
  by pat_completeness auto
termination
  by (relation "measure length") (auto dest: decode_char_shorter simp: ill_formed_width_def split: list.splits)

declare from_utf8_lossy.simps [simp del]

lemma from_utf8_lossy_as_bytes: "from_utf8_lossy (as_bytes s) = s"
  by (induction s) (simp_all add: as_bytes_def from_utf8_lossy.simps decode_char_encode encode_utf8_nonempty)

section \<open>Comparing and splitting\<close>

definition eq_ignore_ascii_case :: "str \<Rightarrow> str \<Rightarrow> bool" where
  "eq_ignore_ascii_case s t \<longleftrightarrow> to_ascii_lowercase s = to_ascii_lowercase t"

text \<open>\<open>str::split\<close> by a character: one part more than there are separators.\<close>

fun split_char :: "uchar \<Rightarrow> str \<Rightarrow> str list" where
  "split_char c [] = [[]]"
| "split_char c (x # xs) =
     (if x = c then [] # split_char c xs
      else case split_char c xs of p # ps \<Rightarrow> (x # p) # ps | [] \<Rightarrow> [[x]])"

lemma length_split_char: "length (split_char c s) = Suc (length (filter (\<lambda>x. x = c) s))"
  by (induction c s rule: split_char.induct) (auto split: list.splits)

definition is_ascii_hexdigit :: "u8 \<Rightarrow> bool" where
  "is_ascii_hexdigit b \<longleftrightarrow> (0x30 \<le> b \<and> b \<le> 0x39) \<or> (0x41 \<le> b \<and> b \<le> 0x46) \<or> (0x61 \<le> b \<and> b \<le> 0x66)"

definition is_ascii_hexdigit_char :: "uchar \<Rightarrow> bool" where
  "is_ascii_hexdigit_char c \<longleftrightarrow> code_point c < 128 \<and> is_ascii_hexdigit (of_nat (code_point c))"

end
