(* ===== verification/Receipt_Api.thy ===== *)
theory Receipt_Api
  imports Receipt_Store Strings
begin

text \<open>
  Who may read a receipt: the bearer-token guards of \<open>src/http/app/util.rs\<close>, the service's
  lookups (\<open>src/aggregator/service/receipts.rs\<close>, \<open>helpers.rs\<close>) and the two receipt
  endpoints of \<open>src/http/app/handlers.rs\<close>.

  A handler reads the store several times, each time under its own lock and with its own
  reading of the clock. The model keeps that: \<open>clock n\<close> is the time the \<open>n\<close>-th call
  reads, and \<open>env n\<close> what other requests did to the store before it.
\<close>

section \<open>Responses and guards\<close>

text \<open>\<open>header_str\<close>: the value of a header, when it is visible ASCII.\<close>

type_synonym headers = "str \<Rightarrow> str option"

record response =
  status :: nat
  body :: json

definition error_response :: "nat \<Rightarrow> str \<Rightarrow> str \<Rightarrow> response" where
  "error_response st error_type message =
     \<lparr>status = st,
      body = Object [(lit ''error'', Object [
        (lit ''message'', JString message), (lit ''type'', JString error_type),
        (lit ''code'', Null), (lit ''param'', Null)])]\<rparr>"

definition extract_bearer :: "headers \<Rightarrow> str option" where
  "extract_bearer headers =
     (case headers (lit ''authorization'') of
        None \<Rightarrow> None
      | Some v \<Rightarrow>
          (case (case strip_prefix (lit ''Bearer '') v of
                   Some t \<Rightarrow> Some t | None \<Rightarrow> strip_prefix (lit ''bearer '') v) of
             None \<Rightarrow> None
           | Some t \<Rightarrow> let token = trim t in if token = [] then None else Some token))"

definition from_bearer :: "(bytes \<Rightarrow> bytes) \<Rightarrow> (bytes \<Rightarrow> str) \<Rightarrow> str \<Rightarrow> receipt_owner" where
  "from_bearer sha256 hex_encode token =
     \<lparr>auth_token_sha256 = sha256_hex sha256 hex_encode (as_bytes token)\<rparr>"

definition enforce_token :: "str \<Rightarrow> str \<Rightarrow> headers \<Rightarrow> str \<Rightarrow> response option" where
  "enforce_token missing invalid headers expected =
     (case extract_bearer headers of
        None \<Rightarrow> Some (error_response 401 (lit ''unauthorized'') missing)
      | Some token \<Rightarrow>
          if token = expected then None else Some (error_response 403 (lit ''forbidden'') invalid))"

definition enforce_admin :: "str option \<Rightarrow> headers \<Rightarrow> response option" where
  "enforce_admin admin_token headers =
     (case admin_token of
        None \<Rightarrow> Some (error_response 404 (lit ''not_found'') (lit ''admin upstream config endpoint is not enabled''))
      | Some expected \<Rightarrow>
          enforce_token (lit ''admin bearer token required'') (lit ''invalid admin bearer token'') headers expected)"

definition enforce_api :: "str option \<Rightarrow> headers \<Rightarrow> response option" where
  "enforce_api api_token headers =
     (case api_token of
        None \<Rightarrow> None
      | Some expected \<Rightarrow>
          enforce_token (lit ''api bearer token required'') (lit ''invalid api bearer token'') headers expected)"

text \<open>The owner guard on the owner \<open>owner_of_receipt\<close> returned.\<close>

definition enforce_owner ::
    "(bytes \<Rightarrow> bytes) \<Rightarrow> (bytes \<Rightarrow> str) \<Rightarrow> receipt_owner option \<Rightarrow> headers \<Rightarrow> response option" where
  "enforce_owner sha256 hex_encode recorded headers =
     (case recorded of
        None \<Rightarrow> None
      | Some recorded_owner \<Rightarrow>
          (case extract_bearer headers of
             None \<Rightarrow> Some (error_response 401 (lit ''unauthorized'')
               (lit ''this receipt is owned; authenticate with the original bearer token''))
           | Some token \<Rightarrow>
               if from_bearer sha256 hex_encode token = recorded_owner then None
               else Some (error_response 403 (lit ''redaction_required'')
                 (lit ''the presented credential does not match the receipt owner''))))"

section \<open>Legacy signature text\<close>

definition strip_sha256_prefix :: "str \<Rightarrow> str option" where
  "strip_sha256_prefix v = strip_prefix (lit ''sha256:'') v"

definition event_hash :: "str \<Rightarrow> str \<Rightarrow> receipt \<Rightarrow> str option" where
  "event_hash type field receipt =
     (case find (\<lambda>e. ev_type e = type) (rc_event_log receipt) of
        None \<Rightarrow> None
      | Some e \<Rightarrow>
          (case get (ev_fields e) field of
             None \<Rightarrow> None
           | Some v \<Rightarrow> (case as_str v of None \<Rightarrow> None | Some h \<Rightarrow> strip_sha256_prefix h)))"

definition legacy_signature_text :: "receipt \<Rightarrow> str option" where
  "legacy_signature_text receipt =
     (case event_hash EVENT_REQUEST_RECEIVED (lit ''body_hash'') receipt of
        None \<Rightarrow> None
      | Some request_hash \<Rightarrow>
          (case event_hash EVENT_RESPONSE_RETURNED (lit ''wire_hash'') receipt of
             None \<Rightarrow> None
           | Some response_hash \<Rightarrow> Some (request_hash @ lit '':'' @ response_hash)))"

record legacy_signature =
  ls_signing_algo :: str
  ls_signing_address :: str
  ls_signature :: str

datatype lookup_error = Key_Error key_error | Receipt_Error receipt_error

definition LEGACY_ALGO_ECDSA :: str where
  "LEGACY_ALGO_ECDSA = lit ''ecdsa''"

definition legacy_signature_for_receipt ::
    "(str \<Rightarrow> str \<Rightarrow> key_error + legacy_signature) \<Rightarrow> receipt \<Rightarrow> str option \<Rightarrow> lookup_error + (str \<times> legacy_signature)" where
  "legacy_signature_for_receipt sign_legacy_message receipt signing_algo =
     (case legacy_signature_text receipt of
        None \<Rightarrow> Inl (Receipt_Error (MissingRequiredEvent EVENT_RESPONSE_RETURNED))
      | Some text \<Rightarrow>
          (case sign_legacy_message (case signing_algo of Some a \<Rightarrow> a | None \<Rightarrow> LEGACY_ALGO_ECDSA) text of
             Inl e \<Rightarrow> Inl (Key_Error e)
           | Inr sig \<Rightarrow> Inr (text, sig)))"

section \<open>The receipt endpoints\<close>

definition not_found_response :: "str \<Rightarrow> response" where
  "not_found_response message = error_response 404 (lit ''not_found'') message"

definition quoted :: "string \<Rightarrow> str" where
  "quoted s = ch (CHR 0x27) # lit s @ [ch (CHR 0x27)]"

definition invalid_signing_algo_response :: response where
  "invalid_signing_algo_response = error_response 400 (lit ''invalid_signing_algo'')
     (lit ''Invalid signing algorithm. Must be '' @ quoted ''ed25519'' @ lit '' or '' @ quoted ''ecdsa'')"

text \<open>Look a receipt up in one index, then, if that finds nothing, in the other.\<close>

definition lookup_either ::
    "(receipt_store \<Rightarrow> str \<Rightarrow> u64 \<Rightarrow> receipt option \<times> receipt_store) \<Rightarrow>
     (receipt_store \<Rightarrow> str \<Rightarrow> u64 \<Rightarrow> receipt option \<times> receipt_store) \<Rightarrow>
     (nat \<Rightarrow> receipt_store \<Rightarrow> receipt_store) \<Rightarrow> (nat \<Rightarrow> u64) \<Rightarrow> receipt_store \<Rightarrow> str \<Rightarrow>
     receipt option \<times> receipt_store" where
  "lookup_either first second env clock s rid =
     (case first (env 0 s) rid (clock 0) of
        (Some r, s) \<Rightarrow> (Some r, s)
      | (None, s) \<Rightarrow> second (env 1 s) rid (clock 1))"

definition aci_receipt ::
    "(bytes \<Rightarrow> bytes) \<Rightarrow> (bytes \<Rightarrow> str) \<Rightarrow> (nat \<Rightarrow> receipt_store \<Rightarrow> receipt_store) \<Rightarrow> (nat \<Rightarrow> u64) \<Rightarrow>
     receipt_store \<Rightarrow> headers \<Rightarrow> str \<Rightarrow> response \<times> receipt_store" where
  "aci_receipt sha256 hex_encode env clock s headers rid =
     (case lookup_either get_by_receipt_id get_by_chat_id env clock s rid of
        (None, s) \<Rightarrow> (not_found_response (lit ''Receipt id (receipt_id or chat_id) not found or expired''), s)
      | (Some receipt, s) \<Rightarrow>
          (case owner_of (env 2 s) (rc_receipt_id receipt) (clock 2) of
             (recorded, s) \<Rightarrow>
               (case enforce_owner sha256 hex_encode recorded headers of
                  Some resp \<Rightarrow> (resp, s)
                | None \<Rightarrow> (\<lparr>status = 200, body = receipt_value True receipt\<rparr>, s))))"

definition receipt_by_chat_id ::
    "(bytes \<Rightarrow> bytes) \<Rightarrow> (bytes \<Rightarrow> str) \<Rightarrow> (str \<Rightarrow> str \<Rightarrow> key_error + legacy_signature) \<Rightarrow> (lookup_error \<Rightarrow> str) \<Rightarrow>
     (nat \<Rightarrow> receipt_store \<Rightarrow> receipt_store) \<Rightarrow> (nat \<Rightarrow> u64) \<Rightarrow> receipt_store \<Rightarrow> headers \<Rightarrow> str \<Rightarrow> str option \<Rightarrow>
     response \<times> receipt_store" where
  "receipt_by_chat_id sha256 hex_encode sign_legacy display env clock s headers rid signing_algo =
     (case lookup_either get_by_chat_id get_by_receipt_id env clock s rid of
        (None, s) \<Rightarrow> (not_found_response (lit ''Receipt id (chat_id or receipt_id) not found or expired''), s)
      | (Some receipt, s) \<Rightarrow>
          (case owner_of (env 2 s) (rc_receipt_id receipt) (clock 2) of
             (recorded, s) \<Rightarrow>
               (case enforce_owner sha256 hex_encode recorded headers of
                  Some resp \<Rightarrow> (resp, s)
                | None \<Rightarrow>
                    (case legacy_signature_for_receipt sign_legacy receipt signing_algo of
                       Inr (text, sig) \<Rightarrow>
                         (\<lparr>status = 200, body = Object [
                            (lit ''api_version'', JString (lit ''aci/1'')),
                            (lit ''text'', JString text),
                            (lit ''signature'', JString (ls_signature sig)),
                            (lit ''signing_address'', JString (ls_signing_address sig)),
                            (lit ''signing_algo'', JString (ls_signing_algo sig)),
                            (lit ''receipt'', receipt_value True receipt)]\<rparr>, s)
                     | Inl (Key_Error (UnsupportedAlgo _)) \<Rightarrow> (invalid_signing_algo_response, s)
                     | Inl other \<Rightarrow> (error_response 500 (lit ''internal_error'') (display other), s)))))"

section \<open>Who is served\<close>

definition authorised :: "(bytes \<Rightarrow> bytes) \<Rightarrow> (bytes \<Rightarrow> str) \<Rightarrow> receipt_owner option \<Rightarrow> headers \<Rightarrow> bool" where
  "authorised sha256 hex_encode recorded headers =
     (case recorded of
        None \<Rightarrow> True
      | Some ow \<Rightarrow> (case extract_bearer headers of None \<Rightarrow> False | Some t \<Rightarrow> from_bearer sha256 hex_encode t = ow))"

lemma enforce_owner_None:
  "enforce_owner sha hex recorded headers = None \<longleftrightarrow> authorised sha hex recorded headers"
  by (auto simp: enforce_owner_def authorised_def split: option.splits)

lemma enforce_owner_status:
  "enforce_owner sha hex recorded headers = Some r \<Longrightarrow> status r = (if extract_bearer headers = None then 401 else 403)"
  by (auto simp: enforce_owner_def error_response_def split: option.splits if_splits)

text \<open>What the store holds for an id at a time: under the receipt id, else under the chat id.\<close>

definition entry_for :: "receipt_store \<Rightarrow> u64 \<Rightarrow> str \<Rightarrow> stored_receipt option" where
  "entry_for s now rid =
     (case live (map_of (by_receipt s)) now rid of
        Some x \<Rightarrow> Some x
      | None \<Rightarrow> Option.bind (map_of (by_chat s) rid) (live (map_of (by_receipt s)) now))"

lemma live_entry_id:
  assumes "receipt_store_inv s" "live (map_of (by_receipt s)) now i = Some x"
  shows "rc_receipt_id (sr_receipt x) = i"
  using assms receipt_map.view_id [of s i x] by (auto simp: live_def split: option.splits if_splits)

text \<open>With one clock reading and no interference, the lookup and the owner check see the same entry.\<close>

lemma lookup_owner_fixed:
  fixes now :: u64
  assumes "receipt_store_inv s"
    and "lookup_either get_by_receipt_id get_by_chat_id (\<lambda>_ s. s) (\<lambda>_. now) s rid = (found, s')"
  shows "found = map_option sr_receipt (entry_for s now rid)"
    and "entry_for s now rid = Some x \<Longrightarrow> fst (owner_of s' (rc_receipt_id (sr_receipt x)) now) = sr_owner x"
proof -
  let ?live = "live (map_of (by_receipt s)) now"
  note inv = assms(1)
  obtain r1 s1 where g: "get_by_receipt_id s rid now = (r1, s1)" by fastforce
  have r1: "r1 = map_option sr_receipt (?live rid)"
    using receipt_map.get_id [OF inv, of rid now] g by simp
  have s1: "receipt_store_inv s1" using receipt_map.invar_get [OF inv, of rid now] g by simp
  have live1: "live (map_of (by_receipt s1)) now = ?live"
    using receipt_map.view_get [OF inv, of rid now] g by simp
  have found: "found = map_option sr_receipt (entry_for s now rid)
      \<and> receipt_store_inv s' \<and> live (map_of (by_receipt s')) now = ?live"
  proof (cases "?live rid")
    case (Some x)
    then show ?thesis using assms(2) g r1 s1 live1 by (simp add: lookup_either_def entry_for_def)
  next
    case None
    have chat: "Option.bind (map_of (by_chat s1) rid) ?live = Option.bind (map_of (by_chat s) rid) ?live"
      using inv None g
      by (auto simp: get_by_receipt_id_def remove_receipt_view split: option.splits if_splits)
    have get: "get_by_chat_id s1 rid now = (found, s')" using assms(2) g r1 None by (simp add: lookup_either_def)
    have "found = map_option sr_receipt (Option.bind (map_of (by_chat s1) rid) ?live)"
      using receipt_map.get_chat [OF s1, of rid now] get live1 by (cases "map_of (by_chat s1) rid") simp_all
    then show ?thesis
      using receipt_map.invar_get [OF s1, of _ now rid] receipt_map.view_get [OF s1, of _ now rid] live1 get None chat
      by (simp add: entry_for_def)
  qed
  then show "found = map_option sr_receipt (entry_for s now rid)" by blast
  assume x: "entry_for s now rid = Some x"
  then obtain i where "?live i = Some x"
    by (auto simp: entry_for_def bind_eq_Some_conv split: option.splits)
  with found live_entry_id [OF inv this]
  show "fst (owner_of s' (rc_receipt_id (sr_receipt x)) now) = sr_owner x"
    by (simp add: receipt_map.owner)
qed

section \<open>Properties\<close>

text \<open>
  C21. An owned receipt is served to its owner and to nobody else: in a reachable store,
  with one clock reading, the ACI receipt endpoint answers a request for a receipt
  recorded for token \<open>t0\<close> with status 200 and the signed receipt exactly when the request
  carries a bearer token that is \<open>t0\<close> or has its SHA-256 digest; otherwise with 401 (no
  token) or 403 (another token).
\<close>

theorem owned_receipt_served_to_owner:
  assumes "store_run s" and "entry_for s now rid = Some x"
    and "sr_owner x = Some (from_bearer sha256 hex_encode t0)" and "inj hex_encode"
  shows "let resp = fst (aci_receipt sha256 hex_encode (\<lambda>_ s. s) (\<lambda>_. now) s headers rid) in
    case extract_bearer headers of
      None \<Rightarrow> status resp = 401
    | Some t \<Rightarrow> if t = t0 \<or> sha256 (as_bytes t) = sha256 (as_bytes t0)
                then resp = \<lparr>status = 200, body = receipt_value True (sr_receipt x)\<rparr> else status resp = 403"
proof -
  define resp where "resp = fst (aci_receipt sha256 hex_encode (\<lambda>_ s. s) (\<lambda>_. now) s headers rid)"
  obtain found s' where l: "lookup_either get_by_receipt_id get_by_chat_id (\<lambda>_ s. s) (\<lambda>_. now) s rid = (found, s')"
    by fastforce
  note look = lookup_owner_fixed [OF store_run_inv [OF assms(1)] l]
  have f: "found = Some (sr_receipt x)" using look(1) assms(2) by simp
  obtain s'' where "owner_of s' (rc_receipt_id (sr_receipt x)) now = (sr_owner x, s'')"
    using look(2) [OF assms(2)] by (cases "owner_of s' (rc_receipt_id (sr_receipt x)) now") auto
  then have resp: "resp = (case enforce_owner sha256 hex_encode (sr_owner x) headers of
      Some r \<Rightarrow> r | None \<Rightarrow> \<lparr>status = 200, body = receipt_value True (sr_receipt x)\<rparr>)"
    by (simp add: resp_def aci_receipt_def l f split: option.splits)
  have eq: "from_bearer sha256 hex_encode t = from_bearer sha256 hex_encode t0 \<longleftrightarrow>
      sha256 (as_bytes t) = sha256 (as_bytes t0)" for t
    using assms(4) by (auto simp: from_bearer_def sha256_hex_def inj_eq)
  show ?thesis
    unfolding resp_def [symmetric] Let_def
    by (auto simp: resp assms(3) enforce_owner_def eq error_response_def split: option.splits)
qed

definition owned_store :: receipt_store where
  "owned_store = put_receipt default_receipt_store sample_receipt
     (Some (from_bearer (\<lambda>x. x) latin1 (lit ''tok''))) 5 10"

lemma owned_store_run: "store_run owned_store"
  unfolding owned_store_def by (rule store_run.put [OF store_run.init])

lemma owned_store_entry:
  "map_of (by_receipt owned_store) (lit ''r'') =
     Some \<lparr>sr_receipt = sample_receipt,
       sr_owner = Some (from_bearer (\<lambda>x. x) latin1 (lit ''tok'')), sr_expires_at = 10\<rparr>"
  using receipt_map.view_put [OF store_run_inv [OF store_run.init]] by (simp add: owned_store_def)

theorem owned_receipt_served_to_owner_witness:
  "status (fst (aci_receipt (\<lambda>x. x) latin1 (\<lambda>_ s. s) (\<lambda>_. 9) owned_store
     (\<lambda>_. None) (lit ''r''))) = 401"
  using owned_receipt_served_to_owner [OF owned_store_run _ _ inj_latin1, of 9 "lit ''r''" _ "\<lambda>x. x" "lit ''tok''" "\<lambda>_. None"]
  by (simp add: entry_for_def live_def owned_store_entry extract_bearer_def)

text \<open>
  The owner check is not made at the time of the lookup: when the deadline of an
  owned receipt falls between the clock reading of the lookup and that of the owner
  check, the endpoint finds no owner any more, takes the receipt for an anonymous one and
  serves it whatever the request's headers are.
\<close>

theorem owner_check_expiry_race:
  assumes "store_run s" and "map_of (by_receipt s) rid = Some x"
    and "clock 0 < sr_expires_at x" and "sr_expires_at x \<le> clock 2"
  shows "fst (aci_receipt sha256 hex_encode (\<lambda>_ s. s) clock s headers rid)
    = \<lparr>status = 200, body = receipt_value True (sr_receipt x)\<rparr>"
proof -
  have "get_by_receipt_id s rid (clock 0) = (Some (sr_receipt x), s)"
    using assms(2,3) by (simp add: get_by_receipt_id_def)
  moreover have "rc_receipt_id (sr_receipt x) = rid"
    using receipt_map.view_id [OF store_run_inv [OF assms(1)] assms(2)] .
  moreover have "owner_of s rid (clock 2) = (None, remove_receipt s rid)"
    using assms(2,4) by (simp add: owner_of_def)
  ultimately show ?thesis by (simp add: aci_receipt_def lookup_either_def enforce_owner_def)
qed

theorem owner_check_expiry_race_witness:
  "status (fst (aci_receipt (\<lambda>x. x) latin1 (\<lambda>_ s. s) (\<lambda>n. if n = 0 then 9 else 10)
     owned_store (\<lambda>_. None) (lit ''r''))) = 200"
  using owner_check_expiry_race [OF owned_store_run owned_store_entry, of "\<lambda>n. if n = 0 then 9 else 10"] by simp

end
