(* ===== verification/Session.thy ===== *)
theory Session
  imports Receipt Strings
begin

text \<open>
  Attested sessions (\<open>src/aggregator/session.rs\<close>): tri-state claims, the evidence
  reference, the session record and its content-addressed id. A \<open>BTreeMap<String, Value>\<close>
  is the list of its members in key order; the id hashes the canonical text of the
  verified material, so the facts about it come from the facts about canonical JSON.
\<close>

section \<open>The code\<close>

datatype claim_status = Asserted | Refuted | Unknown

datatype claim_source = HardwareProven | VerifierDerived | ProviderAsserted | OperatorAsserted

record claim =
  cl_status :: claim_status
  cl_source :: "claim_source option"
  cl_reason :: "str option"

definition claim_unknown :: claim where
  "claim_unknown = \<lparr>cl_status = Unknown, cl_source = None, cl_reason = None\<rparr>"

definition claim_asserted :: "claim_source \<Rightarrow> str \<Rightarrow> claim" where
  "claim_asserted source reason = \<lparr>cl_status = Asserted, cl_source = Some source, cl_reason = Some reason\<rparr>"

definition claim_refuted :: "claim_source \<Rightarrow> str \<Rightarrow> claim" where
  "claim_refuted source reason = \<lparr>cl_status = Refuted, cl_source = Some source, cl_reason = Some reason\<rparr>"

record session_claims =
  tee_attested :: claim
  gpu_attested :: claim
  tcb_up_to_date :: claim
  os_known_good :: claim
  serving_software_known_good :: claim
  model_weights_provenance :: claim
  claims_extra :: obj

definition default_session_claims :: session_claims where
  "default_session_claims =
     \<lparr>tee_attested = claim_unknown, gpu_attested = claim_unknown, tcb_up_to_date = claim_unknown,
      os_known_good = claim_unknown, serving_software_known_good = claim_unknown,
      model_weights_provenance = claim_unknown, claims_extra = []\<rparr>"

record evidence_ref =
  evr_digest :: "str option"
  evr_data_uri :: "str option"

definition evidence_from_value :: "json \<Rightarrow> evidence_ref" where
  "evidence_from_value v =
     \<lparr>evr_digest = Option.bind (get v (lit ''digest'')) as_str,
      evr_data_uri = Option.bind (get v (lit ''data'')) as_str\<rparr>"

definition digest_matches_data ::
    "(bytes \<Rightarrow> bytes) \<Rightarrow> (bytes \<Rightarrow> str) \<Rightarrow> (bytes \<Rightarrow> bytes option) \<Rightarrow> evidence_ref \<Rightarrow> bool" where
  "digest_matches_data sha256 hex_encode base64_decode e =
     (case (evr_digest e, evr_data_uri e) of
        (Some digest, Some data_uri) \<Rightarrow>
          (case split_once_str (lit '';base64,'') data_uri of
             None \<Rightarrow> True
           | Some (_, b64) \<Rightarrow>
               (case base64_decode (as_bytes b64) of
                  Some bytes \<Rightarrow> sha256_hex sha256 hex_encode bytes = digest
                | None \<Rightarrow> False))
      | _ \<Rightarrow> True)"

record workload_identity_ref =
  wir_signing_address :: "str option"
  wir_extra :: obj

definition identity_is_empty :: "workload_identity_ref \<Rightarrow> bool" where
  "identity_is_empty i \<longleftrightarrow> wir_signing_address i = None \<and> wir_extra i = []"

record attested_session =
  as_api_version :: str
  as_session_id :: str
  as_upstream_name :: str
  as_endpoint :: "str option"
  as_verifier_id :: str
  as_established_at :: u64
  as_expires_at :: u64
  as_identity :: "workload_identity_ref option"
  as_channel_binding :: "channel_binding list"
  as_claims :: session_claims
  as_evidence :: evidence_ref

text \<open>The derived serialisation; \<open>opt_member\<close> is \<open>skip_serializing_if = "Option::is_none"\<close>.\<close>

definition opt_member :: "string \<Rightarrow> json option \<Rightarrow> obj" where
  "opt_member k v = (case v of None \<Rightarrow> [] | Some x \<Rightarrow> [(lit k, x)])"

fun claim_status_str :: "claim_status \<Rightarrow> str" where
  "claim_status_str Asserted = lit ''asserted''"
| "claim_status_str Refuted = lit ''refuted''"
| "claim_status_str Unknown = lit ''unknown''"

fun claim_source_str :: "claim_source \<Rightarrow> str" where
  "claim_source_str HardwareProven = lit ''hardware_proven''"
| "claim_source_str VerifierDerived = lit ''verifier_derived''"
| "claim_source_str ProviderAsserted = lit ''provider_asserted''"
| "claim_source_str OperatorAsserted = lit ''operator_asserted''"

definition claim_value :: "claim \<Rightarrow> json" where
  "claim_value c = Object ((lit ''status'', JString (claim_status_str (cl_status c)))
     # opt_member ''source'' (map_option (JString \<circ> claim_source_str) (cl_source c))
     @ opt_member ''reason'' (map_option JString (cl_reason c)))"

definition extra_member :: "obj \<Rightarrow> obj" where
  "extra_member m = opt_member ''extra'' (if m = [] then None else Some (Object m))"

definition session_claims_value :: "session_claims \<Rightarrow> json" where
  "session_claims_value c = Object ([
     (lit ''tee_attested'', claim_value (tee_attested c)),
     (lit ''gpu_attested'', claim_value (gpu_attested c)),
     (lit ''tcb_up_to_date'', claim_value (tcb_up_to_date c)),
     (lit ''os_known_good'', claim_value (os_known_good c)),
     (lit ''serving_software_known_good'', claim_value (serving_software_known_good c)),
     (lit ''model_weights_provenance'', claim_value (model_weights_provenance c))]
     @ extra_member (claims_extra c))"

definition identity_value :: "workload_identity_ref \<Rightarrow> json" where
  "identity_value i = Object (opt_member ''signing_address'' (map_option JString (wir_signing_address i))
     @ extra_member (wir_extra i))"

definition content_material :: "attested_session \<Rightarrow> json" where
  "content_material s = Object [
     (lit ''upstream_name'', JString (as_upstream_name s)),
     (lit ''endpoint'', json_opt_str (as_endpoint s)),
     (lit ''verifier_id'', JString (as_verifier_id s)),
     (lit ''identity'', case as_identity s of None \<Rightarrow> Null | Some i \<Rightarrow> identity_value i),
     (lit ''channel_binding'', Array (map binding_value (as_channel_binding s))),
     (lit ''claims'', session_claims_value (as_claims s)),
     (lit ''evidence_digest'', json_opt_str (evr_digest (as_evidence s)))]"

definition content_id :: "(bytes \<Rightarrow> bytes) \<Rightarrow> (bytes \<Rightarrow> str) \<Rightarrow> attested_session \<Rightarrow> canonical_error + str" where
  "content_id sha256 hex_encode s =
     bind_result (jcs_sha256_hex sha256 hex_encode (content_material s)) (\<lambda>digest.
       Inr (lit ''as_'' @ (case strip_prefix (lit ''sha256:'') digest of Some d \<Rightarrow> d | None \<Rightarrow> digest)))"

definition SESSION_API_VERSION :: str where
  "SESSION_API_VERSION = lit ''aci/1''"

definition seal ::
    "(bytes \<Rightarrow> bytes) \<Rightarrow> (bytes \<Rightarrow> str) \<Rightarrow> str \<Rightarrow> str option \<Rightarrow> str \<Rightarrow> workload_identity_ref option \<Rightarrow>
     channel_binding list \<Rightarrow> session_claims \<Rightarrow> evidence_ref \<Rightarrow> u64 \<Rightarrow> u64 \<Rightarrow> canonical_error + attested_session" where
  "seal sha256 hex_encode upstream_name endpoint verifier_id identity channel_binding claims evidence
        established_at expires_at =
     (let session = \<lparr>as_api_version = SESSION_API_VERSION, as_session_id = [], as_upstream_name = upstream_name,
            as_endpoint = endpoint, as_verifier_id = verifier_id, as_established_at = established_at,
            as_expires_at = expires_at, as_identity = identity, as_channel_binding = channel_binding,
            as_claims = claims, as_evidence = evidence\<rparr>
      in bind_result (content_id sha256 hex_encode session) (\<lambda>i. Inr (session\<lparr>as_session_id := i\<rparr>)))"

section \<open>Serialisation is injective\<close>

text \<open>What a map of provider values says: its members as a logical map.\<close>

definition wf_extra :: "obj \<Rightarrow> bool" where
  "wf_extra m \<longleftrightarrow> wf_json (Object m)"

lemma opt_member_simps [simp]:
  "keys (opt_member k v) = (if v = None then [] else [lit k])"
  "obj_get (opt_member k v) f = (if f = lit k then v else None)"
  "set (opt_member k v) = (case v of None \<Rightarrow> {} | Some x \<Rightarrow> {(lit k, x)})"
  by (auto simp: opt_member_def split: option.splits)

lemma obj_get_append [simp]:
  "obj_get (m @ n) k = (case obj_get m k of None \<Rightarrow> obj_get n k | Some v \<Rightarrow> Some v)"
  by (induction m k rule: obj_get.induct) auto

lemma keys_append [simp]: "keys (m @ n) = keys m @ keys n"
  by (simp add: keys_def)

lemma binding_wf [value_wf, simp]: "wf_json (binding_value b)" "float_free (binding_value b)"
  by (cases b; auto split: option.splits)+

lemma binding_value_get:
  "get (binding_value (TlsSpkiSha256 x y)) (lit ''type'') = Some (JString (lit ''tls_spki_sha256''))"
  "get (binding_value (TlsSpkiSha256 x y)) (lit ''origin'') = Some (JString x)"
  "get (binding_value (TlsSpkiSha256 x y)) (lit ''spki_sha256'') = Some (JString y)"
  "get (binding_value (TlsCertificateSha256 x y)) (lit ''type'') = Some (JString (lit ''tls_certificate_sha256''))"
  "get (binding_value (TlsCertificateSha256 x y)) (lit ''origin'') = Some (JString x)"
  "get (binding_value (TlsCertificateSha256 x y)) (lit ''certificate_sha256'') = Some (JString y)"
  "get (binding_value (E2eePublicKeySha256 p k l m)) (lit ''type'') = Some (JString (lit ''e2ee_public_key_sha256''))"
  "get (binding_value (E2eePublicKeySha256 p k l m)) (lit ''provider'') = Some (JString p)"
  "get (binding_value (E2eePublicKeySha256 p k l m)) (lit ''key_id'') = map_option JString k"
  "get (binding_value (E2eePublicKeySha256 p k l m)) (lit ''algorithm'') = Some (JString l)"
  "get (binding_value (E2eePublicKeySha256 p k l m)) (lit ''public_key_sha256'') = Some (JString m)"
  by (simp_all split: option.splits)

lemma map_logical_JString [simp]:
  "map_option logical (map_option JString a) = map_option logical (map_option JString b) \<longleftrightarrow> a = b"
  by (cases a; cases b) simp_all

lemma binding_value_inject [simp]: "logical (binding_value a) = logical (binding_value b) \<longleftrightarrow> a = b"
proof
  assume "logical (binding_value a) = logical (binding_value b)"
  note eq = logical_get [OF this]
  show "a = b"
    using eq [of "lit ''type''"]
    apply (cases a; cases b; simp only: binding_value_get option.map option.inject logical.simps lvalue.inject lit_inject)
            apply simp_all
    subgoal using eq [of "lit ''origin''"] eq [of "lit ''spki_sha256''"] by (simp add: binding_value_get del: binding_value.simps)
    subgoal using eq [of "lit ''origin''"] eq [of "lit ''certificate_sha256''"] by (simp add: binding_value_get del: binding_value.simps)
    subgoal using eq [of "lit ''provider''"] eq [of "lit ''key_id''"] eq [of "lit ''algorithm''"] eq [of "lit ''public_key_sha256''"]
      by (simp add: binding_value_get del: binding_value.simps)
    done
qed simp

lemma status_str_inject [simp]: "claim_status_str a = claim_status_str b \<longleftrightarrow> a = b"
  by (cases a; cases b) simp_all

lemma source_str_inject [simp]: "claim_source_str a = claim_source_str b \<longleftrightarrow> a = b"
  by (cases a; cases b) simp_all

lemma claim_wf [value_wf, simp]: "wf_json (claim_value c)" "float_free (claim_value c)"
  by (auto simp: claim_value_def split: option.splits)

lemma claim_value_inject [simp]: "logical (claim_value a) = logical (claim_value b) \<longleftrightarrow> a = b"
proof
  assume "logical (claim_value a) = logical (claim_value b)"
  note eq = logical_get [OF this]
  from eq [of "lit ''status''"] eq [of "lit ''source''"] eq [of "lit ''reason''"]
  have "cl_status a = cl_status b" "cl_source a = cl_source b" "cl_reason a = cl_reason b"
    by (cases "cl_source a"; cases "cl_source b"; simp add: claim_value_def)+
  then show "a = b" by simp
qed simp

text \<open>The typed claims and the meaning of the provider-owned members.\<close>

definition claims_view :: "session_claims \<Rightarrow> claim list \<times> lvalue" where
  "claims_view c =
     ([tee_attested c, gpu_attested c, tcb_up_to_date c, os_known_good c, serving_software_known_good c,
       model_weights_provenance c], logical (Object (claims_extra c)))"

definition identity_view :: "workload_identity_ref \<Rightarrow> str option \<times> lvalue" where
  "identity_view i = (wir_signing_address i, logical (Object (wir_extra i)))"

lemma extra_member_get:
  "obj_get (extra_member m) (lit ''extra'') = (if m = [] then None else Some (Object m))"
  "f \<noteq> lit ''extra'' \<Longrightarrow> obj_get (extra_member m) f = None"
  by (simp_all add: extra_member_def)

lemma extra_value_inject:
  assumes "map_option logical (if m = [] then None else Some (Object m)) =
    map_option logical (if n = [] then None else Some (Object n))"
  shows "logical (Object m) = logical (Object n)"
  using assms by (simp split: if_splits del: logical.simps)

lemma session_claims_value_view:
  assumes "logical (session_claims_value a) = logical (session_claims_value b)"
  shows "claims_view a = claims_view b"
proof -
  note eq = logical_get [OF assms]
  have "map_option logical (obj_get (extra_member (claims_extra a)) (lit ''extra'')) =
      map_option logical (obj_get (extra_member (claims_extra b)) (lit ''extra''))"
    using eq [of "lit ''extra''"] by (simp add: session_claims_value_def)
  then have "logical (Object (claims_extra a)) = logical (Object (claims_extra b))"
    unfolding extra_member_get by (rule extra_value_inject)
  with eq [of "lit ''tee_attested''"] eq [of "lit ''gpu_attested''"] eq [of "lit ''tcb_up_to_date''"]
    eq [of "lit ''os_known_good''"] eq [of "lit ''serving_software_known_good''"]
    eq [of "lit ''model_weights_provenance''"]
  show ?thesis unfolding claims_view_def by (simp add: session_claims_value_def)
qed

lemma identity_value_view:
  assumes "logical (identity_value a) = logical (identity_value b)"
  shows "identity_view a = identity_view b"
proof -
  note eq = logical_get [OF assms]
  have "map_option logical (obj_get (extra_member (wir_extra a)) (lit ''extra'')) =
      map_option logical (obj_get (extra_member (wir_extra b)) (lit ''extra''))"
    using eq [of "lit ''extra''"] by (simp add: identity_value_def)
  then have "logical (Object (wir_extra a)) = logical (Object (wir_extra b))"
    unfolding extra_member_get by (rule extra_value_inject)
  with eq [of "lit ''signing_address''"] show ?thesis
    by (cases "wir_signing_address a"; cases "wir_signing_address b")
       (simp_all add: identity_view_def identity_value_def extra_member_get)
qed

lemma identity_not_null:
  "logical (identity_value i) \<noteq> LNull" "LNull \<noteq> logical (identity_value i)"
  by (simp_all add: identity_value_def)

text \<open>
  What a session says that its id commits to: everything except its own id, the version
  tag, the two timestamps and the evidence bytes (the digest of the evidence is in it).
\<close>

definition material_view where
  "material_view s =
     (as_upstream_name s, as_endpoint s, as_verifier_id s, map_option identity_view (as_identity s),
      as_channel_binding s, claims_view (as_claims s), evr_digest (as_evidence s))"

definition wf_session :: "attested_session \<Rightarrow> bool" where
  "wf_session s \<longleftrightarrow> wf_extra (claims_extra (as_claims s)) \<and>
     (case as_identity s of None \<Rightarrow> True | Some i \<Rightarrow> wf_extra (wir_extra i))"

lemma claims_wf: "wf_extra (claims_extra c) \<Longrightarrow> wf_json (session_claims_value c)"
  by (auto simp: session_claims_value_def extra_member_def wf_extra_def)

lemma identity_wf: "wf_extra (wir_extra i) \<Longrightarrow> wf_json (identity_value i)"
  by (auto simp: identity_value_def extra_member_def wf_extra_def split: option.splits)

lemma content_material_wf: "wf_session s \<Longrightarrow> wf_json (content_material s)"
  by (auto simp: content_material_def wf_session_def claims_wf identity_wf json_opt_str_def split: option.splits)

lemma content_material_view:
  assumes "logical (content_material s) = logical (content_material t)"
  shows "material_view s = material_view t"
proof -
  note eq = logical_get [OF assms]
  have "logical (case as_identity s of None \<Rightarrow> Null | Some i \<Rightarrow> identity_value i) =
      logical (case as_identity t of None \<Rightarrow> Null | Some i \<Rightarrow> identity_value i)"
    using eq [of "lit ''identity''"] by (simp add: content_material_def)
  then have "map_option identity_view (as_identity s) = map_option identity_view (as_identity t)"
    by (cases "as_identity s"; cases "as_identity t") (auto simp: identity_not_null intro: identity_value_view)
  moreover have "logical (Array (map binding_value (as_channel_binding s))) =
      logical (Array (map binding_value (as_channel_binding t)))"
    using eq [of "lit ''channel_binding''"] by (simp add: content_material_def)
  then have "as_channel_binding s = as_channel_binding t"
    unfolding map_logical_inject [OF binding_value_inject] .
  moreover have "claims_view (as_claims s) = claims_view (as_claims t)"
    using eq [of "lit ''claims''"] by (intro session_claims_value_view) (simp add: content_material_def)
  ultimately show ?thesis
    using eq [of "lit ''upstream_name''"] eq [of "lit ''endpoint''"] eq [of "lit ''verifier_id''"]
      eq [of "lit ''evidence_digest''"]
    by (simp add: material_view_def) (simp add: content_material_def)
qed

lemma extra_value_cong:
  assumes "logical (Object m) = logical (Object n)"
  shows "map_option logical (obj_get (extra_member m) f) = map_option logical (obj_get (extra_member n) f)"
proof -
  have "obj_get m k = None \<longleftrightarrow> obj_get n k = None" for k
    using logical_get [OF assms, of k] by (cases "obj_get m k"; cases "obj_get n k") simp_all
  then have "m = [] \<longleftrightarrow> n = []"
    by (cases m; cases n) (auto simp: obj_get_None keys_def split: if_splits)
  with assms show ?thesis by (cases "f = lit ''extra''") (simp_all add: extra_member_get del: logical.simps)
qed

lemma extra_object_cong:
  assumes "logical (Object m) = logical (Object n)"
  shows "logical (Object (extra_member m)) = logical (Object (extra_member n))"
  by (rule logical_obj_eqI) (rule extra_value_cong [OF assms])

lemma logical_append:
  assumes "logical (Object m) = logical (Object m')" "logical (Object n) = logical (Object n')"
  shows "logical (Object (m @ n)) = logical (Object (m' @ n'))"
proof (rule logical_obj_eqI)
  fix k
  have "map_option logical (obj_get m k) = map_option logical (obj_get m' k)"
    "map_option logical (obj_get n k) = map_option logical (obj_get n' k)"
    using logical_get [OF assms(1), of k] logical_get [OF assms(2), of k] by simp_all
  then show "map_option logical (obj_get (m @ n) k) = map_option logical (obj_get (m' @ n') k)"
    by (cases "obj_get m k"; cases "obj_get m' k") simp_all
qed

lemma claims_view_value:
  assumes "claims_view a = claims_view b"
  shows "logical (session_claims_value a) = logical (session_claims_value b)"
proof -
  have "logical (Object (extra_member (claims_extra a))) = logical (Object (extra_member (claims_extra b)))"
    using assms by (intro extra_object_cong) (simp add: claims_view_def del: logical.simps)
  then show ?thesis
    unfolding session_claims_value_def using assms
    by (intro logical_append) (simp_all add: claims_view_def del: logical.simps)
qed

lemma identity_view_value:
  assumes "identity_view a = identity_view b"
  shows "logical (identity_value a) = logical (identity_value b)"
proof -
  have "logical (Object (extra_member (wir_extra a))) = logical (Object (extra_member (wir_extra b)))"
    using assms by (intro extra_object_cong) (simp add: identity_view_def del: logical.simps)
  then show ?thesis
    unfolding identity_value_def using assms
    by (intro logical_append) (simp_all add: identity_view_def del: logical.simps)
qed

lemma material_view_value:
  assumes "material_view s = material_view t"
  shows "logical (content_material s) = logical (content_material t)"
proof -
  have "logical (case as_identity s of None \<Rightarrow> Null | Some i \<Rightarrow> identity_value i) =
      logical (case as_identity t of None \<Rightarrow> Null | Some i \<Rightarrow> identity_value i)"
    using assms by (cases "as_identity s"; cases "as_identity t")
      (auto simp: material_view_def intro: identity_view_value)
  moreover have "logical (session_claims_value (as_claims s)) = logical (session_claims_value (as_claims t))"
    using assms by (intro claims_view_value) (simp add: material_view_def)
  ultimately show ?thesis using assms unfolding content_material_def
    by (intro logical_obj_eqI) (simp add: content_material_def material_view_def del: logical.simps)
qed

definition plain_session :: "attested_session \<Rightarrow> bool" where
  "plain_session s \<longleftrightarrow> wf_session s \<and> float_free (Object (claims_extra (as_claims s))) \<and>
     (case as_identity s of None \<Rightarrow> True | Some i \<Rightarrow> float_free (Object (wir_extra i)))"

lemma claims_float_free: "float_free (Object (claims_extra c)) \<Longrightarrow> float_free (session_claims_value c)"
  by (auto simp: session_claims_value_def extra_member_def)

lemma identity_float_free: "float_free (Object (wir_extra i)) \<Longrightarrow> float_free (identity_value i)"
  by (auto simp: identity_value_def extra_member_def split: option.splits)

lemma content_material_plain:
  assumes "plain_session s" shows "wf_json (content_material s)" "float_free (content_material s)"
  using assms content_material_wf [of s]
  by (auto simp: plain_session_def content_material_def claims_float_free identity_float_free json_opt_str_def
      split: option.splits simp del: wf_json.simps float_free.simps(3))
     (auto simp: claims_float_free identity_float_free)

lemma content_id_closed:
  assumes "canonicalize (content_material s) = Inr bs"
  shows "content_id sha256 hex_encode s = Inr (lit ''as_'' @ hex_encode (sha256 bs))"
proof -
  have "jcs_sha256_hex sha256 hex_encode (content_material s) = Inr (lit ''sha256:'' @ hex_encode (sha256 bs))"
    using assms by (simp add: jcs_sha256_hex_Inr)
  then show ?thesis by (simp add: content_id_def)
qed

lemma content_id_defined: "plain_session s \<Longrightarrow> \<exists>i. content_id sha256 hex_encode s = Inr i"
  using canonicalize_defined [OF content_material_plain] content_id_closed by metis

lemma content_id_eq_iff:
  assumes "plain_session s" "plain_session t"
  shows "content_id sha256 hex_encode s = content_id sha256 hex_encode t \<longleftrightarrow>
    material_view s = material_view t \<or> collision (\<lambda>x. hex_encode (sha256 x)) (content_material s) (content_material t)"
proof -
  note plain = content_material_plain [OF assms(1)] content_material_plain [OF assms(2)]
  obtain x y where xy: "canonicalize (content_material s) = Inr x" "canonicalize (content_material t) = Inr y"
    using canonicalize_defined plain by metis
  have "x = y \<longleftrightarrow> logical (content_material s) = logical (content_material t)"
    using canonicalize_logical [OF plain(1,3,2,4)] xy by simp
  also have "\<dots> \<longleftrightarrow> material_view s = material_view t"
    using content_material_view material_view_value by blast
  finally show ?thesis by (auto simp: content_id_closed [OF xy(1)] content_id_closed [OF xy(2)] collision_def xy)
qed

lemma content_id_sealed [simp]:
  "content_id sha256 hex_encode (s\<lparr>as_session_id := i\<rparr>) = content_id sha256 hex_encode s"
  "content_id sha256 hex_encode (s\<lparr>as_expires_at := e\<rparr>) = content_id sha256 hex_encode s"
  by (simp_all add: content_id_def content_material_def)

lemma seal_content_id:
  "seal sha256 hex_encode up ep vid idn bind cl evr est expi = Inr s \<Longrightarrow>
   content_id sha256 hex_encode s = Inr (as_session_id s)"
  by (auto simp: seal_def Let_def bind_result_Inr) (simp add: content_id_def content_material_def)

section \<open>Properties\<close>

text \<open>
  C22. Session ids are content addresses: two sessions (with provider values free of
  floats) have the same content id if and only if they were verified with the same
  material (upstream, endpoint, verifier, identity, channel bindings, every claim and the
  evidence digest; not the timestamps), or their canonical texts are a hash collision.
\<close>

theorem content_id_commits:
  assumes "plain_session s" and "plain_session t"
  shows "content_id sha256 hex_encode s = content_id sha256 hex_encode t \<longleftrightarrow>
    material_view s = material_view t \<or> collision (\<lambda>x. hex_encode (sha256 x)) (content_material s) (content_material t)"
  using assms by (rule content_id_eq_iff)

definition sample_session :: attested_session where
  "sample_session = \<lparr>as_api_version = SESSION_API_VERSION, as_session_id = [], as_upstream_name = lit ''up'',
     as_endpoint = None, as_verifier_id = lit ''v'', as_established_at = 5, as_expires_at = 10,
     as_identity = None, as_channel_binding = [TlsSpkiSha256 (lit ''https://u'') (lit ''aa'')],
     as_claims = default_session_claims, as_evidence = \<lparr>evr_digest = None, evr_data_uri = None\<rparr>\<rparr>"

lemma sample_session_plain [simp]: "plain_session sample_session" "plain_session (sample_session\<lparr>as_channel_binding := b\<rparr>)"
  by (simp_all add: plain_session_def wf_session_def wf_extra_def sample_session_def default_session_claims_def)

theorem content_id_commits_witness:
  "content_id (\<lambda>x. x) latin1 sample_session \<noteq> content_id (\<lambda>x. x) latin1 (sample_session\<lparr>as_channel_binding := []\<rparr>)"
proof -
  have "\<not> collision latin1 v w" for v w
    using inj_latin1 by (auto simp: collision_def inj_eq split: sum.splits)
  moreover have "material_view sample_session \<noteq> material_view (sample_session\<lparr>as_channel_binding := []\<rparr>)"
    by (simp add: material_view_def sample_session_def)
  ultimately show ?thesis
    using content_id_commits [of sample_session "sample_session\<lparr>as_channel_binding := []\<rparr>" "\<lambda>x. x" latin1] by simp
qed

end
