(* ===== verification/Session_Store.thy ===== *)
theory Session_Store
  imports Session Expiry
begin

text \<open>
  The stores of attested sessions (\<open>src/aggregator/session_store.rs\<close>): the in-memory index
  shared by both, the in-memory store, and the append-only log with its replay, append and
  compaction. The \<open>SessionStore\<close> trait is the locale \<open>session_store_contract\<close>, and both
  stores are interpretations of it.

  The log is a sequence of bytes. What \<open>serde_json\<close> does is a parameter: how a record is
  printed, how a line is parsed. The mutexes of the source make each operation atomic.
\<close>

section \<open>The index\<close>

record session_index =
  ix_by_id :: "(str \<times> attested_session) list"
  ix_by_expiry :: "str buckets"

definition default_index :: session_index where
  "default_index = \<lparr>ix_by_id = [], ix_by_expiry = []\<rparr>"

definition index_drop_expiry_hint :: "session_index \<Rightarrow> str \<Rightarrow> u64 \<Rightarrow> session_index" where
  "index_drop_expiry_hint ix i expires_at =
     ix\<lparr>ix_by_expiry := bucket_drop expires_at i (ix_by_expiry ix)\<rparr>"

definition index_insert :: "session_index \<Rightarrow> attested_session \<Rightarrow> session_index" where
  "index_insert ix session =
     (let i = as_session_id session;
          expires_at = as_expires_at session;
          prev = map_of (ix_by_id ix) i;
          ix = ix\<lparr>ix_by_id := AList.update i session (ix_by_id ix)\<rparr>;
          ix = (case prev of
                  Some p \<Rightarrow> if as_expires_at p \<noteq> expires_at
                            then index_drop_expiry_hint ix i (as_expires_at p) else ix
                | None \<Rightarrow> ix)
      in ix\<lparr>ix_by_expiry := bucket_add expires_at i (ix_by_expiry ix)\<rparr>)"

definition index_remove :: "session_index \<Rightarrow> str \<Rightarrow> session_index" where
  "index_remove ix i = ix\<lparr>ix_by_id := AList.delete i (ix_by_id ix)\<rparr>"

definition index_evict_expired :: "session_index \<Rightarrow> u64 \<Rightarrow> session_index" where
  "index_evict_expired ix now =
     (case evict_buckets index_remove now (ix_by_expiry ix) ix of
        (bs, ix') \<Rightarrow> ix'\<lparr>ix_by_expiry := bs\<rparr>)"

definition put_and_evict :: "session_index \<Rightarrow> attested_session \<Rightarrow> u64 \<Rightarrow> session_index" where
  "put_and_evict ix session ts = index_evict_expired (index_insert ix session) ts"

definition index_get :: "session_index \<Rightarrow> str \<Rightarrow> u64 \<Rightarrow> attested_session option \<times> session_index" where
  "index_get ix i now =
     (case map_of (ix_by_id ix) i of
        Some session \<Rightarrow>
          if now \<ge> as_expires_at session
          then (None, index_drop_expiry_hint (index_remove ix i) i (as_expires_at session))
          else (Some session, ix)
      | None \<Rightarrow> (None, ix))"

definition index_renew :: "session_index \<Rightarrow> str \<Rightarrow> u64 \<Rightarrow> u64 \<Rightarrow> bool \<times> session_index" where
  "index_renew ix i new_expires_at now =
     (let ix = index_evict_expired ix now in
      case map_of (ix_by_id ix) i of
        None \<Rightarrow> (False, ix)
      | Some session \<Rightarrow>
          let old_expires_at = as_expires_at session in
          if old_expires_at = new_expires_at then (True, ix)
          else
            let ix = ix\<lparr>ix_by_id := AList.update i (session\<lparr>as_expires_at := new_expires_at\<rparr>) (ix_by_id ix)\<rparr>;
                ix = index_drop_expiry_hint ix i old_expires_at
            in (True, ix\<lparr>ix_by_expiry := bucket_add new_expires_at i (ix_by_expiry ix)\<rparr>))"

definition newest_first :: "attested_session \<Rightarrow> attested_session \<Rightarrow> ordering" where
  "newest_first a b =
     then_with (cmp (as_established_at b) (as_established_at a)) (cmp (as_session_id a) (as_session_id b))"

definition sort_sessions_newest_first :: "attested_session list \<Rightarrow> attested_session list" where
  "sort_sessions_newest_first = sort_by newest_first"

definition index_list :: "session_index \<Rightarrow> str option \<Rightarrow> u64 \<Rightarrow> attested_session list" where
  "index_list ix upstream_name now =
     sort_sessions_newest_first
       (filter (\<lambda>s. case upstream_name of None \<Rightarrow> True | Some p \<Rightarrow> as_upstream_name s = p)
         (filter (\<lambda>s. now < as_expires_at s) (map snd (ix_by_id ix))))"

section \<open>The two stores\<close>

datatype io_error = WouldBlock | InvalidData | OtherIo

text \<open>The in-memory store is the index itself.\<close>

definition in_memory_put :: "session_index \<Rightarrow> attested_session \<Rightarrow> u64 \<Rightarrow> (io_error + u64) \<times> session_index" where
  "in_memory_put ix session ts = (Inr 0, put_and_evict ix session ts)"

record session_log_record =
  slr_seq :: u64
  slr_ts :: u64
  slr_type :: str
  slr_payload :: json

record jsonl_store =
  js_log :: bytes
  js_next_seq :: u64
  js_index :: session_index

definition RECORD_TYPE_SESSION :: str where
  "RECORD_TYPE_SESSION = lit ''session''"

text \<open>
  \<open>print\<close> is how the library writes a record; \<open>written\<close> is the outcome of the write:
  \<open>None\<close> when all of it was written, \<open>Some n\<close> when an error stopped it after \<open>n\<close> bytes.
\<close>

type_synonym record_printer = "u64 \<Rightarrow> u64 \<Rightarrow> str \<Rightarrow> attested_session \<Rightarrow> bytes"

definition jsonl_put ::
    "record_printer \<Rightarrow> nat option \<Rightarrow> jsonl_store \<Rightarrow> attested_session \<Rightarrow> u64 \<Rightarrow> (io_error + u64) \<times> jsonl_store" where
  "jsonl_put print written st session ts =
     (let seq = js_next_seq st in
      case checked_add seq 1 of
        None \<Rightarrow> (Inl InvalidData, st)
      | Some next_seq \<Rightarrow>
          let line = print seq ts RECORD_TYPE_SESSION session @ [10] in
          case written of
            Some n \<Rightarrow> (Inl OtherIo, st\<lparr>js_log := js_log st @ take n line\<rparr>)
          | None \<Rightarrow> (Inr seq, \<lparr>js_log = js_log st @ line, js_next_seq = next_seq,
                              js_index = put_and_evict (js_index st) session ts\<rparr>))"

definition jsonl_get :: "jsonl_store \<Rightarrow> str \<Rightarrow> u64 \<Rightarrow> attested_session option \<times> jsonl_store" where
  "jsonl_get st i now = (case index_get (js_index st) i now of (r, ix) \<Rightarrow> (r, st\<lparr>js_index := ix\<rparr>))"

definition jsonl_renew :: "jsonl_store \<Rightarrow> str \<Rightarrow> u64 \<Rightarrow> u64 \<Rightarrow> bool \<times> jsonl_store" where
  "jsonl_renew st i e now = (case index_renew (js_index st) i e now of (r, ix) \<Rightarrow> (r, st\<lparr>js_index := ix\<rparr>))"

definition jsonl_list :: "jsonl_store \<Rightarrow> str option \<Rightarrow> u64 \<Rightarrow> attested_session list" where
  "jsonl_list st = index_list (js_index st)"

text \<open>The lines of the file, without their terminators, and trimming of ASCII white space.\<close>

function lines_of :: "bytes \<Rightarrow> bytes list" where
  "lines_of bs =
     (if bs = [] then []
      else takeWhile (\<lambda>b. b \<noteq> 10) bs # lines_of (drop 1 (dropWhile (\<lambda>b. b \<noteq> 10) bs)))"
  by pat_completeness auto
termination
proof (relation "measure length")
  fix bs :: bytes assume "bs \<noteq> []"
  then have "length (dropWhile (\<lambda>b. b \<noteq> 10) bs) \<le> length bs" "length bs > 0"
    by (simp_all add: length_dropWhile_le)
  then have "length (dropWhile (\<lambda>b. b \<noteq> 10) bs) - 1 < length bs" by linarith
  then show "(drop 1 (dropWhile (\<lambda>b. b \<noteq> 10) bs), bs) \<in> measure length" by simp
qed simp

declare lines_of.simps [simp del]

definition trim_ascii :: "bytes \<Rightarrow> bytes" where
  "trim_ascii bs = rev (dropWhile is_ascii_whitespace (rev (dropWhile is_ascii_whitespace bs)))"

text \<open>One line of the replay loop.\<close>

definition replay_line ::
    "(bytes \<Rightarrow> bytes) \<Rightarrow> (bytes \<Rightarrow> str) \<Rightarrow> (bytes \<Rightarrow> bytes option) \<Rightarrow>
     (bytes \<Rightarrow> session_log_record option) \<Rightarrow> (json \<Rightarrow> attested_session option) \<Rightarrow>
     u64 \<times> session_index \<Rightarrow> bytes \<Rightarrow> u64 \<times> session_index" where
  "replay_line sha256 hex_encode base64_decode parse_record parse_session st buf =
     (case st of (next_seq, index) \<Rightarrow>
        let trimmed = trim_ascii buf in
        if trimmed = [] then (next_seq, index)
        else case parse_record trimmed of
               None \<Rightarrow> (next_seq, index)
             | Some record \<Rightarrow>
                 (case checked_add (slr_seq record) 1 of
                    None \<Rightarrow> (next_seq, index)
                  | Some seq_after \<Rightarrow>
                      (max next_seq seq_after,
                       if slr_type record = RECORD_TYPE_SESSION
                       then case parse_session (slr_payload record) of
                              None \<Rightarrow> index
                            | Some session \<Rightarrow>
                                if content_id sha256 hex_encode session = Inr (as_session_id session)
                                   \<and> digest_matches_data sha256 hex_encode base64_decode (as_evidence session)
                                then index_insert index session else index
                       else index)))"

definition jsonl_open ::
    "(bytes \<Rightarrow> bytes) \<Rightarrow> (bytes \<Rightarrow> str) \<Rightarrow> (bytes \<Rightarrow> bytes option) \<Rightarrow>
     (bytes \<Rightarrow> session_log_record option) \<Rightarrow> (json \<Rightarrow> attested_session option) \<Rightarrow>
     bool \<Rightarrow> bytes option \<Rightarrow> io_error + jsonl_store" where
  "jsonl_open sha256 hex_encode base64_decode parse_record parse_session locked file =
     (if locked then Inl WouldBlock
      else let content = (case file of None \<Rightarrow> [] | Some bs \<Rightarrow> bs);
               (next_seq, index) =
                 foldl (replay_line sha256 hex_encode base64_decode parse_record parse_session)
                   (0, default_index) (lines_of content)
           in Inr \<lparr>js_log = content, js_next_seq = next_seq, js_index = index\<rparr>)"

text \<open>\<open>ok\<close> is whether every file operation up to and including the rename succeeded.\<close>

definition compact_log :: "record_printer \<Rightarrow> bool \<Rightarrow> jsonl_store \<Rightarrow> u64 \<Rightarrow> (io_error + nat) \<times> jsonl_store" where
  "compact_log print ok st now =
     (let index = index_evict_expired (js_index st) now;
          live = map snd (ix_by_id index)
      in if \<not> ok then (Inl OtherIo, st\<lparr>js_index := index\<rparr>)
         else (Inr (length live),
               \<lparr>js_log = concat (map (\<lambda>(seq, session). print (of_nat seq) now RECORD_TYPE_SESSION session @ [10])
                                   (enumerate 0 live)),
                js_next_seq = of_nat (length live), js_index = index\<rparr>))"

section \<open>Facts about the index\<close>

definition live_sessions :: "(str \<rightharpoonup> attested_session) \<Rightarrow> u64 \<Rightarrow> str \<rightharpoonup> attested_session" where
  "live_sessions v now =
     (\<lambda>k. case v k of Some s \<Rightarrow> if now < as_expires_at s then Some s else None | None \<Rightarrow> None)"

definition index_deadline :: "session_index \<Rightarrow> str \<Rightarrow> u64 option" where
  "index_deadline ix k = map_option as_expires_at (map_of (ix_by_id ix) k)"

definition ids_ok :: "session_index \<Rightarrow> bool" where
  "ids_ok ix \<longleftrightarrow> distinct (map fst (ix_by_id ix)) \<and>
     (\<forall>k s. map_of (ix_by_id ix) k = Some s \<longrightarrow> as_session_id s = k)"

lemma index_remove_view [simp]:
  "map_of (ix_by_id (index_remove ix i)) = (map_of (ix_by_id ix))(i := None)"
  "ix_by_expiry (index_remove ix i) = ix_by_expiry ix"
  by (auto simp: index_remove_def delete_conv)

lemma ids_ok_remove: "ids_ok ix \<Longrightarrow> ids_ok (index_remove ix i)"
  by (auto simp: ids_ok_def) (auto simp: index_remove_def intro: distinct_delete)

lemma ids_ok_update:
  "ids_ok ix \<Longrightarrow> as_session_id s = i \<Longrightarrow> ids_ok (ix\<lparr>ix_by_id := AList.update i s (ix_by_id ix)\<rparr>)"
  by (auto simp: ids_ok_def update_conv intro: distinct_update)

interpretation sessions: expiring index_remove index_deadline ids_ok
  by unfold_locales (auto simp: index_deadline_def ids_ok_remove)

definition index_inv :: "session_index \<Rightarrow> bool" where
  "index_inv ix \<longleftrightarrow> sessions.consistent (ix_by_expiry ix) ix"

lemma ix_by_expiry_irrelevant [simp]:
  "ids_ok (ix\<lparr>ix_by_expiry := bs\<rparr>) = ids_ok ix"
  "index_deadline (ix\<lparr>ix_by_expiry := bs\<rparr>) = index_deadline ix"
  "sessions.consistent bs' (ix\<lparr>ix_by_expiry := bs\<rparr>) = sessions.consistent bs' ix"
  by (simp_all add: sessions.consistent_def ids_ok_def index_deadline_def fun_eq_iff)

lemma index_remove_all:
  "map_of (ix_by_id (foldl index_remove ix ids)) k = (if k \<in> set ids then None else map_of (ix_by_id ix) k)"
  by (induction ids arbitrary: ix) auto

lemma index_evict_expired_view:
  assumes "index_inv ix"
  shows "index_inv (index_evict_expired ix now)"
    and "map_of (ix_by_id (index_evict_expired ix now)) = live_sessions (map_of (ix_by_id ix)) now"
proof -
  obtain bs' ix' where ev: "evict_buckets index_remove now (ix_by_expiry ix) ix = (bs', ix')" by fastforce
  obtain ids where ids: "ix' = foldl index_remove ix ids" "sessions.consistent bs' ix'"
    "\<And>k e. index_deadline ix k = Some e \<Longrightarrow> k \<in> set ids \<longleftrightarrow> e \<le> now"
    using sessions.evict_removes [OF _ ev] assms unfolding index_inv_def by metis
  show "index_inv (index_evict_expired ix now)"
    using ids(2) by (simp add: index_inv_def index_evict_expired_def ev)
  show "map_of (ix_by_id (index_evict_expired ix now)) = live_sessions (map_of (ix_by_id ix)) now"
  proof
    fix k show "map_of (ix_by_id (index_evict_expired ix now)) k = live_sessions (map_of (ix_by_id ix)) now k"
      using ids(3) [of k]
      by (cases "map_of (ix_by_id ix) k")
         (auto simp: index_evict_expired_def ev ids(1) index_remove_all live_sessions_def index_deadline_def)
  qed
qed

lemma index_set_inv:
  assumes "index_inv ix" "as_session_id s = i" "as_expires_at s = e"
    and "bs = (case index_deadline ix i of
           Some d \<Rightarrow> if d \<noteq> e then bucket_drop d i (ix_by_expiry ix) else ix_by_expiry ix
         | None \<Rightarrow> ix_by_expiry ix)"
  shows "index_inv \<lparr>ix_by_id = AList.update i s (ix_by_id ix), ix_by_expiry = bucket_add e i bs\<rparr>"
proof -
  let ?ix = "ix\<lparr>ix_by_id := AList.update i s (ix_by_id ix)\<rparr>"
  have "ids_ok ?ix" using assms(1,2) by (intro ids_ok_update) (auto simp: index_inv_def sessions.consistent_def)
  moreover have "index_deadline ?ix = (index_deadline ix)(i \<mapsto> e)"
    using assms(3) by (auto simp: index_deadline_def update_conv fun_eq_iff)
  ultimately have "sessions.consistent (bucket_add e i bs) (?ix\<lparr>ix_by_expiry := bucket_add e i bs\<rparr>)"
    using sessions.consistent_move [of "ix_by_expiry ix" ix ?ix i e bs] assms(1,4)
    by (simp add: index_inv_def del: session_index.update_convs)
  then show ?thesis by (cases ix) (simp add: index_inv_def)
qed

lemma index_insert_view:
  assumes "index_inv ix"
  shows "index_inv (index_insert ix s)"
    and "map_of (ix_by_id (index_insert ix s)) = (map_of (ix_by_id ix))(as_session_id s \<mapsto> s)"
proof -
  show "index_inv (index_insert ix s)"
    using index_set_inv [OF assms refl refl refl, of s]
    by (cases ix) (auto simp: index_insert_def Let_def index_drop_expiry_hint_def index_deadline_def
        split: option.splits if_splits)
  show "map_of (ix_by_id (index_insert ix s)) = (map_of (ix_by_id ix))(as_session_id s \<mapsto> s)"
    by (auto simp: index_insert_def Let_def index_drop_expiry_hint_def update_conv split: option.splits)
qed

lemma index_ids: "index_inv ix \<Longrightarrow> map_of (ix_by_id ix) i = Some s \<Longrightarrow> as_session_id s = i"
  by (simp add: index_inv_def sessions.consistent_def ids_ok_def)

lemma live_sessions_SomeD: "live_sessions v now i = Some s \<Longrightarrow> v i = Some s \<and> now < as_expires_at s"
  by (auto simp: live_sessions_def split: option.splits if_splits)

lemma live_live: "now \<le> t \<Longrightarrow> live_sessions (live_sessions v now) t j = live_sessions v t j"
  by (auto simp: live_sessions_def split: option.splits)

lemma live_update:
  "live_sessions (v(i \<mapsto> x)) t j = (if j = i then (if t < as_expires_at x then Some x else None) else live_sessions v t j)"
  by (simp add: live_sessions_def)

lemma index_get_view:
  assumes "index_inv ix"
  shows "fst (index_get ix i now) = live_sessions (map_of (ix_by_id ix)) now i"
    and "index_inv (snd (index_get ix i now))"
    and "map_of (ix_by_id (snd (index_get ix i now))) =
      (case map_of (ix_by_id ix) i of
         Some s \<Rightarrow> if as_expires_at s \<le> now then (map_of (ix_by_id ix))(i := None) else map_of (ix_by_id ix)
       | None \<Rightarrow> map_of (ix_by_id ix))"
proof -
  show "fst (index_get ix i now) = live_sessions (map_of (ix_by_id ix)) now i"
    by (auto simp: index_get_def live_sessions_def split: option.splits)
  show "index_inv (snd (index_get ix i now))"
    using assms sessions.consistent_rm [of "ix_by_expiry ix" ix i]
    by (auto simp: index_get_def index_inv_def index_drop_expiry_hint_def index_deadline_def split: option.splits)
  show "map_of (ix_by_id (snd (index_get ix i now))) =
      (case map_of (ix_by_id ix) i of
         Some s \<Rightarrow> if as_expires_at s \<le> now then (map_of (ix_by_id ix))(i := None) else map_of (ix_by_id ix)
       | None \<Rightarrow> map_of (ix_by_id ix))"
    by (auto simp: index_get_def index_drop_expiry_hint_def split: option.splits)
qed

lemma index_renew_view:
  fixes ix :: session_index and now :: u64
  assumes "index_inv ix"
  defines "v \<equiv> live_sessions (map_of (ix_by_id ix)) now"
  shows "fst (index_renew ix i e now) \<longleftrightarrow> v i \<noteq> None"
    and "index_inv (snd (index_renew ix i e now))"
    and "map_of (ix_by_id (snd (index_renew ix i e now))) =
      (case v i of Some s \<Rightarrow> v(i \<mapsto> s\<lparr>as_expires_at := e\<rparr>) | None \<Rightarrow> v)"
proof -
  let ?ix = "index_evict_expired ix now"
  note ev = index_evict_expired_view [OF assms(1), of now, folded v_def]
  show "fst (index_renew ix i e now) \<longleftrightarrow> v i \<noteq> None"
    by (auto simp: index_renew_def Let_def ev(2) split: option.splits)
  show "index_inv (snd (index_renew ix i e now))"
  proof (cases "v i")
    case (Some s)
    obtain bi be where ix': "?ix = \<lparr>ix_by_id = bi, ix_by_expiry = be\<rparr>" by (cases ?ix)
    have m: "map_of bi i = Some s" and inv: "index_inv \<lparr>ix_by_id = bi, ix_by_expiry = be\<rparr>"
      using ev Some by (simp_all add: ix')
    have "as_session_id s = i" using index_ids [OF inv, of i s] m by simp
    then have "index_inv \<lparr>ix_by_id = AList.update i (s\<lparr>as_expires_at := e\<rparr>) bi,
        ix_by_expiry = bucket_add e i (if as_expires_at s \<noteq> e then bucket_drop (as_expires_at s) i be else be)\<rparr>"
      using index_set_inv [OF inv, of "s\<lparr>as_expires_at := e\<rparr>" i e]
      by (cases "as_expires_at s = e") (simp_all add: index_deadline_def m)
    then show ?thesis using m inv
      by (simp add: index_renew_def Let_def ix' index_drop_expiry_hint_def split: if_splits)
  qed (simp add: index_renew_def Let_def ev)
  have "v i = Some s \<Longrightarrow> v(i \<mapsto> s) = v" for s by (simp add: fun_upd_idem)
  then show "map_of (ix_by_id (snd (index_renew ix i e now))) =
      (case v i of Some s \<Rightarrow> v(i \<mapsto> s\<lparr>as_expires_at := e\<rparr>) | None \<Rightarrow> v)"
    by (auto simp: index_renew_def Let_def ev(2) index_drop_expiry_hint_def update_conv split: option.splits)
qed

section \<open>The contract of the trait\<close>

definition wanted :: "str option \<Rightarrow> attested_session \<Rightarrow> bool" where
  "wanted upstream_name s = (case upstream_name of None \<Rightarrow> True | Some p \<Rightarrow> as_upstream_name s = p)"

locale session_store_contract =
  fixes put :: "'s \<Rightarrow> attested_session \<Rightarrow> u64 \<Rightarrow> (io_error + u64) \<times> 's"
    and get_session :: "'s \<Rightarrow> str \<Rightarrow> u64 \<Rightarrow> attested_session option \<times> 's"
    and renew :: "'s \<Rightarrow> str \<Rightarrow> u64 \<Rightarrow> u64 \<Rightarrow> bool \<times> 's"
    and list_sessions :: "'s \<Rightarrow> str option \<Rightarrow> u64 \<Rightarrow> attested_session list"
    and view :: "'s \<Rightarrow> str \<rightharpoonup> attested_session"
    and invar :: "'s \<Rightarrow> bool"
  assumes invar_put: "invar s \<Longrightarrow> invar (snd (put s x ts))"
    and view_put: "invar s \<Longrightarrow> view (snd (put s x ts)) =
      (case fst (put s x ts) of
         Inr _ \<Rightarrow> live_sessions ((view s)(as_session_id x \<mapsto> x)) ts | Inl _ \<Rightarrow> view s)"
    and get: "invar s \<Longrightarrow> fst (get_session s i now) = live_sessions (view s) now i"
    and invar_get: "invar s \<Longrightarrow> invar (snd (get_session s i now))"
    and view_get: "invar s \<Longrightarrow> live_sessions (view (snd (get_session s i now))) now = live_sessions (view s) now"
    and renew: "invar s \<Longrightarrow> fst (renew s i e now) \<longleftrightarrow> live_sessions (view s) now i \<noteq> None"
    and invar_renew: "invar s \<Longrightarrow> invar (snd (renew s i e now))"
    and view_renew: "invar s \<Longrightarrow> view (snd (renew s i e now)) =
      (case live_sessions (view s) now i of
         Some x \<Rightarrow> (live_sessions (view s) now)(i \<mapsto> x\<lparr>as_expires_at := e\<rparr>)
       | None \<Rightarrow> live_sessions (view s) now)"
    and list_set: "invar s \<Longrightarrow> set (list_sessions s u now) =
      {x. live_sessions (view s) now (as_session_id x) = Some x \<and> wanted u x}"
    and list_sorted: "invar s \<Longrightarrow> sorted_wrt (\<lambda>a b. newest_first a b = Less) (list_sessions s u now)"
begin

lemma get_after_put:
  "invar s \<Longrightarrow> fst (put s x ts) = Inr n \<Longrightarrow> ts < as_expires_at x \<Longrightarrow> now < as_expires_at x \<Longrightarrow>
   fst (get_session (snd (put s x ts)) (as_session_id x) now) = Some x"
  by (simp add: get invar_put view_put live_sessions_def)

lemma get_after_renew:
  "invar s \<Longrightarrow> fst (renew s i e now) \<Longrightarrow> now' < e \<Longrightarrow>
   \<exists>x. live_sessions (view s) now i = Some x \<and>
       fst (get_session (snd (renew s i e now)) i now') = Some (x\<lparr>as_expires_at := e\<rparr>)"
  by (auto simp: renew get invar_renew view_renew live_sessions_def split: option.splits if_splits)

lemma no_resurrection:
  "invar s \<Longrightarrow> live_sessions (view s) now i = None \<Longrightarrow>
   \<not> fst (renew s i e now) \<and> fst (get_session (snd (renew s i e now)) i now) = None"
  by (simp add: renew get invar_renew view_renew) (simp add: live_sessions_def)

end

lemma newest_first_iff:
  "newest_first a b = Less \<longleftrightarrow> as_established_at b < as_established_at a
     \<or> as_established_at a = as_established_at b \<and> as_session_id a < as_session_id b"
  "newest_first a b = Greater \<longleftrightarrow> as_established_at a < as_established_at b
     \<or> as_established_at a = as_established_at b \<and> as_session_id b < as_session_id a"
  "newest_first a b = Equal \<longleftrightarrow> as_established_at a = as_established_at b \<and> as_session_id a = as_session_id b"
  by (auto simp: newest_first_def)

lemma newest_first_le:
  "newest_first a b \<noteq> Greater \<longleftrightarrow> as_established_at b < as_established_at a
     \<or> as_established_at a = as_established_at b \<and> as_session_id a \<le> as_session_id b"
  unfolding newest_first_iff by (auto simp: not_less)

lemma newest_first_strict:
  assumes "inj_on as_session_id A" shows "strict_comparator_on newest_first A"
proof
  fix x y z assume "x \<in> A" "y \<in> A" "x \<noteq> y"
  then show "newest_first x y \<noteq> Equal" using assms by (auto simp: newest_first_iff dest: inj_onD)
  show "newest_first x y = Greater \<longleftrightarrow> newest_first y x = Less" unfolding newest_first_iff by auto
  show "newest_first x y \<noteq> Greater \<Longrightarrow> newest_first y z \<noteq> Greater \<Longrightarrow> newest_first x z \<noteq> Greater"
    unfolding newest_first_le by (elim disjE conjE) auto
qed

lemma index_values:
  assumes "index_inv ix"
  shows "map as_session_id (map snd (ix_by_id ix)) = map fst (ix_by_id ix)"
    and "distinct (map as_session_id (map snd (ix_by_id ix)))"
    and "x \<in> set (map snd (ix_by_id ix)) \<longleftrightarrow> map_of (ix_by_id ix) (as_session_id x) = Some x"
proof -
  have d: "distinct (map fst (ix_by_id ix))"
    and ids: "\<And>k s. map_of (ix_by_id ix) k = Some s \<Longrightarrow> as_session_id s = k"
    using assms by (auto simp: index_inv_def sessions.consistent_def ids_ok_def)
  show eq: "map as_session_id (map snd (ix_by_id ix)) = map fst (ix_by_id ix)"
    using ids map_of_is_SomeI [OF d] by auto
  show "distinct (map as_session_id (map snd (ix_by_id ix)))" unfolding eq by (rule d)
  show "x \<in> set (map snd (ix_by_id ix)) \<longleftrightarrow> map_of (ix_by_id ix) (as_session_id x) = Some x"
  proof
    assume "x \<in> set (map snd (ix_by_id ix))"
    then obtain k where "(k, x) \<in> set (ix_by_id ix)" by auto
    then have "map_of (ix_by_id ix) k = Some x" using d by simp
    then show "map_of (ix_by_id ix) (as_session_id x) = Some x" using ids by metis
  next
    assume "map_of (ix_by_id ix) (as_session_id x) = Some x"
    from map_of_SomeD [OF this] show "x \<in> set (map snd (ix_by_id ix))" by force
  qed
qed

lemma index_list_facts:
  assumes "index_inv ix"
  shows "set (index_list ix u now) =
      {x. live_sessions (map_of (ix_by_id ix)) now (as_session_id x) = Some x \<and> wanted u x}"
    and "sorted_wrt (\<lambda>a b. newest_first a b = Less) (index_list ix u now)"
proof -
  let ?xs = "map snd (ix_by_id ix)"
  let ?ys = "filter (\<lambda>s. wanted u s \<and> now < as_expires_at s) ?xs"
  have list: "index_list ix u now = sort_by newest_first ?ys"
    by (simp add: index_list_def sort_sessions_newest_first_def wanted_def conj_commute)
  show "set (index_list ix u now) =
      {x. live_sessions (map_of (ix_by_id ix)) now (as_session_id x) = Some x \<and> wanted u x}"
    using index_values(3) [OF assms] by (auto simp: list live_sessions_def split: option.splits if_splits)
  have "distinct (map as_session_id ?ys)" using index_values(2) [OF assms] by (rule distinct_map_filter)
  then have inj: "inj_on as_session_id (set ?ys)" and d: "distinct ?ys"
    by (simp_all add: distinct_map del: filter_map)
  show "sorted_wrt (\<lambda>a b. newest_first a b = Less) (index_list ix u now)"
    unfolding list
    by (rule strict_comparator_on.strictly_sorted_sort_by [OF newest_first_strict [OF inj] d subset_refl])
qed

interpretation in_memory: session_store_contract in_memory_put index_get index_renew index_list
  "\<lambda>ix. map_of (ix_by_id ix)" index_inv
proof
  fix ix x ts i now e u assume inv: "index_inv ix"
  note ins = index_insert_view [OF inv, of x]
  show "index_inv (snd (in_memory_put ix x ts))"
    by (simp add: in_memory_put_def put_and_evict_def index_evict_expired_view(1) [OF ins(1)])
  show "map_of (ix_by_id (snd (in_memory_put ix x ts))) =
      (case fst (in_memory_put ix x ts) of
         Inr _ \<Rightarrow> live_sessions ((map_of (ix_by_id ix))(as_session_id x \<mapsto> x)) ts | Inl _ \<Rightarrow> map_of (ix_by_id ix))"
    by (simp add: in_memory_put_def put_and_evict_def index_evict_expired_view(2) [OF ins(1)] ins(2))
  show "fst (index_get ix i now) = live_sessions (map_of (ix_by_id ix)) now i"
    "index_inv (snd (index_get ix i now))"
    by (rule index_get_view [OF inv])+
  show "live_sessions (map_of (ix_by_id (snd (index_get ix i now)))) now = live_sessions (map_of (ix_by_id ix)) now"
    by (auto simp: index_get_view(3) [OF inv] live_sessions_def fun_eq_iff split: option.splits)
  show "fst (index_renew ix i e now) \<longleftrightarrow> live_sessions (map_of (ix_by_id ix)) now i \<noteq> None"
    "index_inv (snd (index_renew ix i e now))"
    "map_of (ix_by_id (snd (index_renew ix i e now))) =
      (case live_sessions (map_of (ix_by_id ix)) now i of
         Some x \<Rightarrow> (live_sessions (map_of (ix_by_id ix)) now)(i \<mapsto> x\<lparr>as_expires_at := e\<rparr>)
       | None \<Rightarrow> live_sessions (map_of (ix_by_id ix)) now)"
    by (rule index_renew_view [OF inv])+
  show "set (index_list ix u now) =
      {x. live_sessions (map_of (ix_by_id ix)) now (as_session_id x) = Some x \<and> wanted u x}"
    "sorted_wrt (\<lambda>a b. newest_first a b = Less) (index_list ix u now)"
    by (rule index_list_facts [OF inv])+
qed

interpretation jsonl: session_store_contract "jsonl_put print written" jsonl_get jsonl_renew jsonl_list
  "\<lambda>st. map_of (ix_by_id (js_index st))" "\<lambda>st. index_inv (js_index st)"
  for print written
proof
  fix st :: jsonl_store and x ts i now e u assume inv: "index_inv (js_index st)"
  note put = in_memory.invar_put [OF inv, of x ts] in_memory.view_put [OF inv, of x ts]
  show "index_inv (js_index (snd (jsonl_put print written st x ts)))"
    using put inv by (simp add: jsonl_put_def in_memory_put_def Let_def split: option.splits)
  show "map_of (ix_by_id (js_index (snd (jsonl_put print written st x ts)))) =
      (case fst (jsonl_put print written st x ts) of
         Inr _ \<Rightarrow> live_sessions ((map_of (ix_by_id (js_index st)))(as_session_id x \<mapsto> x)) ts
       | Inl _ \<Rightarrow> map_of (ix_by_id (js_index st)))"
    using put by (simp add: jsonl_put_def in_memory_put_def Let_def split: option.splits)
qed (simp_all add: jsonl_get_def jsonl_renew_def jsonl_list_def case_prod_beta in_memory.get in_memory.invar_get
    in_memory.view_get in_memory.renew in_memory.invar_renew in_memory.view_renew in_memory.list_set in_memory.list_sorted)

section \<open>Replay and compaction\<close>

definition view_of :: "jsonl_store \<Rightarrow> str \<rightharpoonup> attested_session" where
  "view_of st = map_of (ix_by_id (js_index st))"

text \<open>A session whose id is the hash of its contents and whose evidence bytes match their digest.\<close>

definition intact ::
    "(bytes \<Rightarrow> bytes) \<Rightarrow> (bytes \<Rightarrow> str) \<Rightarrow> (bytes \<Rightarrow> bytes option) \<Rightarrow> attested_session \<Rightarrow> bool" where
  "intact sha256 hex_encode base64_decode s \<longleftrightarrow>
     content_id sha256 hex_encode s = Inr (as_session_id s) \<and>
     digest_matches_data sha256 hex_encode base64_decode (as_evidence s)"

definition all_intact where
  "all_intact sha256 hex_encode base64_decode ix \<longleftrightarrow>
     (\<forall>k s. map_of (ix_by_id ix) k = Some s \<longrightarrow> intact sha256 hex_encode base64_decode s)"

lemma replay_line_inv:
  assumes "index_inv ix" "all_intact sha hex b64 ix"
    and "replay_line sha hex b64 pr ps (n, ix) buf = (n', ix')"
  shows "index_inv ix' \<and> all_intact sha hex b64 ix' \<and> n \<le> n'"
  using assms index_insert_view [OF assms(1)]
  by (auto simp: replay_line_def Let_def all_intact_def intact_def split: option.splits if_splits)

lemma replay_inv:
  assumes "index_inv ix" "all_intact sha hex b64 ix"
    and "foldl (replay_line sha hex b64 pr ps) (n, ix) ls = (n', ix')"
  shows "index_inv ix' \<and> all_intact sha hex b64 ix' \<and> n \<le> n'"
  using assms
proof (induction ls arbitrary: n ix)
  case (Cons l ls)
  obtain n1 ix1 where step: "replay_line sha hex b64 pr ps (n, ix) l = (n1, ix1)" by fastforce
  note one = replay_line_inv [OF Cons.prems(1,2) step]
  have "foldl (replay_line sha hex b64 pr ps) (n1, ix1) ls = (n', ix')" using Cons.prems(3) step by simp
  then show ?case using Cons.IH [of ix1 n1] one by auto
qed simp

lemma default_index_inv: "index_inv default_index" "all_intact sha hex b64 default_index"
  by (simp_all add: index_inv_def default_index_def sessions.consistent_def ids_ok_def index_deadline_def all_intact_def)

lemma jsonl_open_inv:
  "jsonl_open sha hex b64 pr ps locked file = Inr st \<Longrightarrow> index_inv (js_index st) \<and> all_intact sha hex b64 (js_index st)"
  using replay_inv [OF default_index_inv]
  by (auto simp: jsonl_open_def Let_def split: prod.splits if_splits)

text \<open>What the printer and the parsers owe each other on a session (the library's round trip).\<close>

definition printable ::
    "record_printer \<Rightarrow> (bytes \<Rightarrow> session_log_record option) \<Rightarrow> (json \<Rightarrow> attested_session option) \<Rightarrow> attested_session \<Rightarrow> bool" where
  "printable print parse_record parse_session s \<longleftrightarrow>
     (\<forall>seq ts. let line = print seq ts RECORD_TYPE_SESSION s in
        10 \<notin> set line \<and> line \<noteq> [] \<and> trim_ascii line = line \<and>
        (\<exists>v. parse_record line = Some \<lparr>slr_seq = seq, slr_ts = ts, slr_type = RECORD_TYPE_SESSION, slr_payload = v\<rparr>
             \<and> parse_session v = Some s))"

lemma lines_of_Cons:
  assumes "10 \<notin> set l" shows "lines_of (l @ 10 # rest) = l # lines_of rest"
proof -
  have l: "b \<noteq> 10" if "b \<in> set l" for b using that assms by auto
  have "takeWhile (\<lambda>b. b \<noteq> 10) (l @ 10 # rest) = l"
    by (subst takeWhile_append2) (simp_all add: l)
  moreover have "dropWhile (\<lambda>b. b \<noteq> 10) (l @ 10 # rest) = 10 # rest"
    by (subst dropWhile_append2) (simp_all add: l)
  ultimately show ?thesis by (subst lines_of.simps) simp
qed

lemma lines_of_concat: "\<forall>l \<in> set ls. 10 \<notin> set l \<Longrightarrow> lines_of (concat (map (\<lambda>l. l @ [10]) ls)) = ls"
  by (induction ls) (simp_all add: lines_of_Cons lines_of.simps [of "[]"])

lemma replay_printed:
  assumes "printable print pr ps s" "intact sha hex b64 s" "seq < u64_max"
  shows "replay_line sha hex b64 pr ps (n, ix) (print seq ts RECORD_TYPE_SESSION s) = (max n (seq + 1), index_insert ix s)"
proof -
  let ?l = "print seq ts RECORD_TYPE_SESSION s"
  obtain v where "trim_ascii ?l = ?l" "?l \<noteq> []" "ps v = Some s"
    "pr ?l = Some \<lparr>slr_seq = seq, slr_ts = ts, slr_type = RECORD_TYPE_SESSION, slr_payload = v\<rparr>"
    using assms(1) unfolding printable_def Let_def by blast
  moreover have "checked_add seq 1 = Some (seq + 1)" by (rule checked_add_1 [OF assms(3)])
  ultimately show ?thesis using assms(2) by (simp add: replay_line_def intact_def)
qed

lemma replay_all:
  assumes "\<forall>s \<in> set xs. printable print pr ps s \<and> intact sha hex b64 s" "k + length xs < 2 ^ 64"
  shows "foldl (replay_line sha hex b64 pr ps) (of_nat k, ix)
      (map (\<lambda>(seq, s). print (of_nat seq) ts RECORD_TYPE_SESSION s) (enumerate k xs)) =
    (of_nat (k + length xs), foldl index_insert ix xs)"
  using assms
proof (induction xs arbitrary: k ix)
  case (Cons x xs)
  have k: "unat (of_nat k :: u64) = k" "unat (of_nat (Suc k) :: u64) = Suc k"
    using Cons.prems(2) by (simp_all add: unat_of_nat del: of_nat_Suc)
  then have less: "(of_nat k :: u64) < u64_max" using Cons.prems(2) by (simp add: word_less_nat_alt)
  have "max (of_nat k) (of_nat k + 1) = (of_nat (Suc k) :: u64)"
    using k by (simp add: max_def word_le_nat_alt add.commute [of _ 1])
  then have step: "replay_line sha hex b64 pr ps (of_nat k, ix) (print (of_nat k) ts RECORD_TYPE_SESSION x) =
      (of_nat (Suc k), index_insert ix x)"
    using Cons.prems(1) by (subst replay_printed [OF _ _ less]) simp_all
  show ?case using Cons.IH [of "Suc k" "index_insert ix x"] Cons.prems
    by (simp add: step add_ac del: of_nat_Suc of_nat_add)
qed simp

lemma insert_all_view:
  "index_inv ix \<Longrightarrow> distinct (map as_session_id xs) \<Longrightarrow>
   index_inv (foldl index_insert ix xs) \<and>
   (map_of (ix_by_id (foldl index_insert ix xs)) k = Some s \<longleftrightarrow>
      s \<in> set xs \<and> as_session_id s = k \<or> k \<notin> as_session_id ` set xs \<and> map_of (ix_by_id ix) k = Some s)"
proof (induction xs arbitrary: ix)
  case (Cons x xs)
  note ins = index_insert_view [OF Cons.prems(1), of x]
  have d: "as_session_id x \<notin> as_session_id ` set xs" "distinct (map as_session_id xs)" using Cons.prems(2) by simp_all
  then have "s \<in> set xs \<Longrightarrow> as_session_id s \<noteq> as_session_id x" by (metis imageI)
  then show ?case using Cons.IH [OF ins(1) d(2)] d(1) by (auto simp: ins(2))
qed simp

lemma map_ext_Some: "(\<And>k s. f k = Some s \<longleftrightarrow> g k = Some s) \<Longrightarrow> f = g"
  by (rule ext) (metis option.exhaust)

lemma compact_log_replays:
  assumes inv: "index_inv (js_index st)" and c: "compact_log print True st now = (Inr n, st')"
    and good: "\<forall>s \<in> ran (view_of st'). printable print pr ps s \<and> intact sha hex b64 s"
    and n: "n < 2 ^ 64"
  shows "\<exists>st''. jsonl_open sha hex b64 pr ps False (Some (js_log st')) = Inr st'' \<and>
    view_of st'' = live_sessions (view_of st) now \<and> js_next_seq st'' = of_nat n"
proof -
  let ?ix = "index_evict_expired (js_index st) now"
  define xs where "xs = map snd (ix_by_id ?ix)"
  note ev = index_evict_expired_view [OF inv, of now]
  let ?print = "\<lambda>(seq, s). print (of_nat seq) now RECORD_TYPE_SESSION s"
  have st': "js_index st' = ?ix" "n = length xs"
    "js_log st' = concat (map (\<lambda>l. l @ [10]) (map ?print (enumerate 0 xs)))"
    using c by (auto simp: compact_log_def Let_def xs_def comp_def case_prod_beta')
  have mem: "s \<in> set xs \<longleftrightarrow> map_of (ix_by_id ?ix) (as_session_id s) = Some s" for s
    unfolding xs_def by (rule index_values(3) [OF ev(1)])
  have ok: "\<forall>s \<in> set xs. printable print pr ps s \<and> intact sha hex b64 s"
    using good mem by (auto simp: view_of_def st'(1) ran_def)
  have "\<forall>l \<in> set (map ?print (enumerate 0 xs)). 10 \<notin> set l"
    using ok by (auto simp: printable_def Let_def in_set_enumerate_eq)
  then have lines: "lines_of (js_log st') = map ?print (enumerate 0 xs)"
    unfolding st'(3) by (rule lines_of_concat)
  define ix' where "ix' = foldl index_insert default_index xs"
  have new: "map_of (ix_by_id ix') k = Some s \<longleftrightarrow> s \<in> set xs \<and> as_session_id s = k" for k s
    using insert_all_view [OF default_index_inv(1), of xs k s] index_values(2) [OF ev(1)]
    by (simp add: ix'_def xs_def default_index_def)
  have "map_of (ix_by_id ?ix) k = Some s \<longleftrightarrow> s \<in> set xs \<and> as_session_id s = k" for k s
    using mem [of s] index_ids [OF ev(1), of k s] by auto
  with new have view: "map_of (ix_by_id ix') = map_of (ix_by_id ?ix)" by (intro map_ext_Some) simp
  have "foldl (replay_line sha hex b64 pr ps) (0, default_index) (lines_of (js_log st')) = (of_nat n, ix')"
    using replay_all [OF ok, of 0 default_index now] n unfolding lines ix'_def st'(2) by simp
  then have "jsonl_open sha hex b64 pr ps False (Some (js_log st')) =
      Inr \<lparr>js_log = js_log st', js_next_seq = of_nat n, js_index = ix'\<rparr>"
    by (simp add: jsonl_open_def Let_def)
  then show ?thesis by (simp add: view_of_def view ev(2))
qed

section \<open>Reachable logs\<close>

text \<open>
  Whatever file it was opened on, a store then evolves by appends of sealed sessions (with
  any outcome of the write), reads, renewals and compactions.
\<close>

inductive log_run ::
    "(bytes \<Rightarrow> bytes) \<Rightarrow> (bytes \<Rightarrow> str) \<Rightarrow> (bytes \<Rightarrow> bytes option) \<Rightarrow> (bytes \<Rightarrow> session_log_record option) \<Rightarrow>
     (json \<Rightarrow> attested_session option) \<Rightarrow> record_printer \<Rightarrow> jsonl_store \<Rightarrow> bool"
  for sha hex b64 pr ps print where
  opened: "jsonl_open sha hex b64 pr ps locked file = Inr st \<Longrightarrow> log_run sha hex b64 pr ps print st"
| put: "log_run sha hex b64 pr ps print st \<Longrightarrow> intact sha hex b64 x \<Longrightarrow>
    log_run sha hex b64 pr ps print (snd (jsonl_put print written st x ts))"
| read: "log_run sha hex b64 pr ps print st \<Longrightarrow> log_run sha hex b64 pr ps print (snd (jsonl_get st i now))"
| renewed: "log_run sha hex b64 pr ps print st \<Longrightarrow> log_run sha hex b64 pr ps print (snd (jsonl_renew st i e now))"
| compacted: "log_run sha hex b64 pr ps print st \<Longrightarrow> log_run sha hex b64 pr ps print (snd (compact_log print ok st now))"

lemma intact_renewed [simp]: "intact sha hex b64 (s\<lparr>as_expires_at := e\<rparr>) = intact sha hex b64 s"
  by (simp add: intact_def)

lemma all_intact_view: "all_intact sha hex b64 (js_index st) \<longleftrightarrow> (\<forall>s \<in> ran (view_of st). intact sha hex b64 s)"
  by (auto simp: all_intact_def view_of_def ran_def)

lemma ran_live: "ran (live_sessions v now) \<subseteq> ran v"
  by (auto simp: ran_def live_sessions_def split: option.splits if_splits)

lemma ran_upd_subset: "ran (v(i \<mapsto> x)) \<subseteq> insert x (ran v)"
  by (auto simp: ran_def)

lemma view_jsonl_get: "index_inv (js_index st) \<Longrightarrow> ran (view_of (snd (jsonl_get st i now))) \<subseteq> ran (view_of st)"
  by (auto simp: view_of_def jsonl_get_def case_prod_beta index_get_view(3) ran_def split: option.splits if_splits)

lemma log_run_inv:
  "log_run sha hex b64 pr ps print st \<Longrightarrow>
   index_inv (js_index st) \<and> (\<forall>s \<in> ran (view_of st). intact sha hex b64 s)"
proof (induction rule: log_run.induct)
  case (opened locked content st)
  then show ?case using jsonl_open_inv all_intact_view by blast
next
  case (put st x written ts)
  then have inv: "index_inv (js_index st)" by blast
  have "ran (view_of (snd (jsonl_put print written st x ts))) \<subseteq> insert x (ran (view_of st))"
    using jsonl.view_put [OF inv, of print written x ts] ran_upd_subset [of "view_of st" "as_session_id x" x]
      ran_live [of "(view_of st)(as_session_id x \<mapsto> x)" ts]
    by (auto simp: view_of_def split: sum.splits)
  with put jsonl.invar_put [OF inv] show ?case by blast
next
  case (read st i now)
  then show ?case using jsonl.invar_get view_jsonl_get by blast
next
  case (renewed st i e now)
  then have inv: "index_inv (js_index st)" by blast
  have "s \<in> ran (view_of (snd (jsonl_renew st i e now))) \<Longrightarrow>
      \<exists>s' \<in> ran (view_of st). s = s' \<or> s = s'\<lparr>as_expires_at := e\<rparr>" for s
    using jsonl.view_renew [OF inv, of i e now]
    by (auto simp: view_of_def ran_def live_sessions_def split: option.splits if_splits)
  with renewed jsonl.invar_renew [OF inv] show ?case by fastforce
next
  case (compacted st ok now)
  then have inv: "index_inv (js_index st)" by blast
  note ev = index_evict_expired_view [OF inv, of now]
  have "js_index (snd (compact_log print ok st now)) = index_evict_expired (js_index st) now"
    by (simp add: compact_log_def Let_def)
  with compacted ev ran_live [of "view_of st" now] show ?case by (auto simp: view_of_def)
qed

section \<open>Properties\<close>


definition sealed_sample :: attested_session where
  "sealed_sample = sample_session\<lparr>as_session_id := projr (content_id (\<lambda>x. x) latin1 sample_session)\<rparr>"

lemma sealed_sample_intact: "intact (\<lambda>x. x) latin1 b64 sealed_sample"
proof -
  obtain i where "content_id (\<lambda>x. x) latin1 sample_session = Inr i"
    using content_id_defined [OF sample_session_plain(1)] by blast
  then show ?thesis
    by (simp add: intact_def sealed_sample_def digest_matches_data_def) (simp add: sample_session_def)
qed

definition sample_log :: jsonl_store where
  "sample_log = snd (jsonl_put (\<lambda>_ _ _ _. [1]) None \<lparr>js_log = [], js_next_seq = 0, js_index = default_index\<rparr> sealed_sample 5)"

lemma sample_log_run:
  "log_run (\<lambda>x. x) latin1 (\<lambda>_. None) pr ps (\<lambda>_ _ _ _. [1]) sample_log"
  unfolding sample_log_def
  by (rule log_run.put [OF log_run.opened [of _ _ _ _ _ False None] sealed_sample_intact])
     (simp add: jsonl_open_def lines_of.simps)

lemma sample_log_get: "fst (jsonl_get sample_log (as_session_id sealed_sample) 7) = Some sealed_sample"
  unfolding sample_log_def
  by (rule jsonl.get_after_put [where n = 0])
     (simp_all add: default_index_inv jsonl_put_def checked_add_def sealed_sample_def sample_session_def)



text \<open>A printer that writes the sequence number and the time as bytes, and its parser.\<close>

definition word_text :: "u64 \<Rightarrow> bytes" where
  "word_text n = replicate (unat n) 49 @ [50]"

definition sample_print :: record_printer where
  "sample_print seq ts ty s = word_text seq @ word_text ts"

definition sample_read :: "bytes \<Rightarrow> session_log_record option" where
  "sample_read l =
     (let a = takeWhile (\<lambda>b. b = 49) l; r = drop (Suc (length a)) l; b = takeWhile (\<lambda>b. b = 49) r
      in Some \<lparr>slr_seq = of_nat (length a), slr_ts = of_nat (length b), slr_type = RECORD_TYPE_SESSION, slr_payload = Null\<rparr>)"

lemma takeWhile_word_text: "takeWhile (\<lambda>b. b = 49) (word_text n @ r) = replicate (unat n) 49"
  by (simp add: word_text_def takeWhile_append)

lemma trim_ascii_id:
  assumes "\<And>b. b \<in> set l \<Longrightarrow> \<not> is_ascii_whitespace b" shows "trim_ascii l = l"
proof -
  have *: "dropWhile is_ascii_whitespace k = k" if "set k \<subseteq> set l" for k
    using that assms by (cases k) auto
  show ?thesis unfolding trim_ascii_def by (simp add: *)
qed

lemma sample_printable: "printable sample_print sample_read (\<lambda>_. Some s) s"
proof -
  have ws: "b = 49 \<or> b = 50" if "b \<in> set (word_text m @ word_text n)" for m n b
    using that by (auto simp: word_text_def)
  have "\<not> is_ascii_whitespace b" if "b \<in> set (word_text m @ word_text n)" for m n b
    using ws [OF that] by (auto simp: is_ascii_whitespace_def)
  then have "trim_ascii (word_text m @ word_text n) = word_text m @ word_text n" for m n
    by (rule trim_ascii_id)
  moreover have "10 \<notin> set (word_text m @ word_text n)" for m n using ws [of 10 m n] by auto
  moreover have "drop (Suc (unat m)) (word_text m @ word_text n) = word_text n" for m n
    by (simp add: word_text_def)
  ultimately show ?thesis
    using takeWhile_word_text [of _ "[]"]
    by (simp add: printable_def Let_def sample_print_def sample_read_def takeWhile_word_text)
       (simp add: word_text_def)
qed


text \<open>
  Listing is determined by what is stored: in a reachable store the listing for an
  upstream at a time is the one strictly newest-first list (ties by id) of the sessions
  that are live then and belong to that upstream, whatever the iteration order of the
  underlying hash map.
\<close>

theorem list_sessions_determined:
  assumes "log_run sha256 hex_encode base64_decode parse_record parse_session print st"
  shows "jsonl_list st upstream now = ys \<longleftrightarrow>
    sorted_wrt (\<lambda>a b. newest_first a b = Less) ys \<and>
    set ys = {s. live_sessions (view_of st) now (as_session_id s) = Some s \<and> wanted upstream s}"
proof -
  have inv: "index_inv (js_index st)" using log_run_inv [OF assms] by blast
  let ?P = "\<lambda>ys. sorted_wrt (\<lambda>a b. newest_first a b = Less) ys \<and>
    set ys = {s. live_sessions (view_of st) now (as_session_id s) = Some s \<and> wanted upstream s}"
  have list: "?P (jsonl_list st upstream now)"
    using jsonl.list_set [OF inv] jsonl.list_sorted [OF inv] by (simp add: view_of_def)
  have irrefl: "newest_first s s \<noteq> Less" for s by (simp add: newest_first_iff)
  have unique: "xs = ys" if "?P xs" "?P ys" for xs ys
  proof -
    have inj: "inj_on as_session_id (set xs)"
    proof (rule inj_onI)
      fix a b assume "a \<in> set xs" "b \<in> set xs" and eq: "as_session_id a = as_session_id b"
      then have "live_sessions (view_of st) now (as_session_id a) = Some a"
        "live_sessions (view_of st) now (as_session_id b) = Some b"
        using that(1) by blast+
      from trans [OF this(1) [unfolded eq, symmetric] this(2)] show "a = b" by (rule option.inject [THEN iffD1])
    qed
    have d: "distinct zs" if "sorted_wrt (\<lambda>a b. newest_first a b = Less) zs" for zs
      using that by (induction zs) (auto simp: irrefl)
    have "sorted_wrt (\<lambda>a b. newest_first a b \<noteq> Greater) zs" if "sorted_wrt (\<lambda>a b. newest_first a b = Less) zs" for zs
      using that by (rule sorted_wrt_mono_rel [rotated]) simp
    then show ?thesis
      using that d [of xs] d [of ys]
      by (intro strict_comparator_on.sorted_by_unique [OF newest_first_strict [OF inj]]) simp_all
  qed
  show ?thesis
  proof
    assume "jsonl_list st upstream now = ys"
    then show "?P ys" using list by (rule subst)
  next
    assume "?P ys"
    then show "jsonl_list st upstream now = ys" by (rule unique [OF list])
  qed
qed

theorem list_sessions_determined_witness:
  "jsonl_list sample_log None 7 = [sealed_sample]"
proof -
  have "view_of sample_log = [as_session_id sealed_sample \<mapsto> sealed_sample]"
    by (simp add: sample_log_def view_of_def jsonl_put_def checked_add_def put_and_evict_def index_insert_def
        default_index_def index_evict_expired_def Let_def sealed_sample_def sample_session_def)
  then show ?thesis
    unfolding list_sessions_determined [OF sample_log_run]
    by (auto simp: live_sessions_def wanted_def) (simp_all add: sealed_sample_def sample_session_def)
qed

text \<open>
  Renewal extends a live session and never brings back a dead one: in a reachable
  store, renewing succeeds exactly when the session is still live; then until the new
  deadline the store serves it with that deadline, and otherwise it serves nothing for it;
  every other session is left as it was.
\<close>

theorem renew_session_live_only:
  assumes "log_run sha256 hex_encode base64_decode parse_record parse_session print st"
  shows "let (renewed, st') = jsonl_renew st i e now in
    (renewed \<longleftrightarrow> fst (jsonl_get st i now) \<noteq> None)
    \<and> (\<forall>t. fst (jsonl_get st' i t) =
         (if t < e then map_option (\<lambda>s. s\<lparr>as_expires_at := e\<rparr>) (fst (jsonl_get st i now)) else None))
    \<and> (\<forall>j t. j \<noteq> i \<and> now \<le> t \<longrightarrow> fst (jsonl_get st' j t) = fst (jsonl_get st j t))"
proof -
  have inv: "index_inv (js_index st)" using log_run_inv [OF assms] by blast
  obtain r st' where r: "jsonl_renew st i e now = (r, st')" by fastforce
  have inv': "index_inv (js_index st')" using jsonl.invar_renew [OF inv, of i e now] r by simp
  have view: "view_of st' = (case live_sessions (view_of st) now i of
      Some x \<Rightarrow> (live_sessions (view_of st) now)(i \<mapsto> x\<lparr>as_expires_at := e\<rparr>) | None \<Rightarrow> live_sessions (view_of st) now)"
    using jsonl.view_renew [OF inv, of i e now, folded view_of_def] r by simp
  have get: "fst (jsonl_get st j t) = live_sessions (view_of st) t j" "fst (jsonl_get st' j t) = live_sessions (view_of st') t j"
    for j t by (simp_all add: jsonl.get [OF inv] jsonl.get [OF inv'] view_of_def)
  have "r \<longleftrightarrow> live_sessions (view_of st) now i \<noteq> None"
    using jsonl.renew [OF inv, of i e now] r by (simp add: view_of_def)
  then show ?thesis
  proof (cases "live_sessions (view_of st) now i")
    case None
    have "live_sessions (live_sessions (view_of st) now) t i = None" for t
      using None by (simp add: live_sessions_def [of "live_sessions (view_of st) now"])
    with None \<open>r \<longleftrightarrow> _\<close> show ?thesis by (simp add: r get view live_live)
  next
    case (Some x)
    with \<open>r \<longleftrightarrow> _\<close> show ?thesis by (simp add: r get view live_live live_update)
  qed
qed

theorem renew_session_live_only_witness:
  "fst (jsonl_get (snd (jsonl_renew sample_log (as_session_id sealed_sample) 20 7)) (as_session_id sealed_sample) 19)
     = Some (sealed_sample\<lparr>as_expires_at := 20\<rparr>)"
  using renew_session_live_only [OF sample_log_run, of "as_session_id sealed_sample" 20 7] sample_log_get
  by (simp add: case_prod_beta)

end
