(* ===== verification/Keyset_Epoch.thy ===== *)
theory Keyset_Epoch
  imports Receipt Strings
begin

text \<open>
  Keyset revocation and the managed keyset epoch: the revocation store
  (\<open>src/aggregator/revocation_store.rs\<close>), the epoch the launcher resolves at startup
  (\<open>src/aggregator/keyset_epoch.rs\<close>, with the keyset closure of \<open>src/main.rs\<close>), and the
  construction and revocation operations of the service (\<open>src/aggregator/service/mod.rs\<close>).

  A state file is what reading it gives: nothing, an error, or text; writing it goes
  through a temporary file and a rename, so it either replaces the text or leaves it.
  The text of a record is a parameter (\<open>print\<close>, \<open>parse\<close>).
\<close>

section \<open>State files\<close>

datatype state_file = Absent | Unreadable | Text str

datatype file_error = File_Io | File_Invalid

text \<open>Read a record: an absent or blank file is no record, an unparsable one an error.\<close>

definition load_file :: "(str \<Rightarrow> 'a option) \<Rightarrow> state_file \<Rightarrow> file_error + 'a option" where
  "load_file parse f =
     (case f of
        Absent \<Rightarrow> Inr None
      | Unreadable \<Rightarrow> Inl File_Io
      | Text t \<Rightarrow>
          if trim t = [] then Inr None
          else case parse t of Some x \<Rightarrow> Inr (Some x) | None \<Rightarrow> Inl File_Invalid)"

definition newline :: str where
  "newline = [ch (CHR 0x0A)]"

definition store_file :: "('a \<Rightarrow> str) \<Rightarrow> bool \<Rightarrow> 'a \<Rightarrow> state_file \<Rightarrow> (file_error + unit) \<times> state_file" where
  "store_file print ok x f = (if ok then (Inr (), Text (print x @ newline)) else (Inl File_Io, f))"

text \<open>What the library's printer and parser owe each other on one record.\<close>

definition reads_back :: "('a \<Rightarrow> str) \<Rightarrow> (str \<Rightarrow> 'a option) \<Rightarrow> 'a \<Rightarrow> bool" where
  "reads_back print parse x \<longleftrightarrow> parse (print x @ newline) = Some x \<and> trim (print x @ newline) \<noteq> []"

lemma load_store: "reads_back print parse x \<Longrightarrow> load_file parse (Text (print x @ newline)) = Inr (Some x)"
  by (simp add: reads_back_def load_file_def)

section \<open>Revocations\<close>

record revocation_signature =
  rvs_algo :: str
  rvs_value_hex :: str

record revocation_statement =
  rv_workload_id :: str
  rv_workload_keyset_digest :: str
  rv_purpose :: str
  rv_revocation :: revocation_signature
  rv_revoked_at :: u64

definition new_statement :: "str \<Rightarrow> str \<Rightarrow> str \<Rightarrow> str \<Rightarrow> u64 \<Rightarrow> revocation_statement" where
  "new_statement wid digest algo value_hex revoked_at =
     \<lparr>rv_workload_id = wid, rv_workload_keyset_digest = digest, rv_purpose = KEYSET_REVOCATION_PURPOSE,
      rv_revocation = \<lparr>rvs_algo = algo, rvs_value_hex = value_hex\<rparr>, rv_revoked_at = revoked_at\<rparr>"

text \<open>\<open>rst_file\<close> is \<open>None\<close> for a store without a backing file.\<close>

record revocation_store =
  rst_file :: "state_file option"
  rst_statements :: "revocation_statement list"

definition in_memory_revocations :: revocation_store where
  "in_memory_revocations = \<lparr>rst_file = None, rst_statements = []\<rparr>"

definition open_revocations ::
    "(str \<Rightarrow> revocation_statement list option) \<Rightarrow> state_file \<Rightarrow> file_error + revocation_store" where
  "open_revocations parse f =
     bind_result (load_file parse f) (\<lambda>r.
       Inr \<lparr>rst_file = Some f, rst_statements = (case r of None \<Rightarrow> [] | Some xs \<Rightarrow> xs)\<rparr>)"

definition is_revoked :: "revocation_store \<Rightarrow> str \<Rightarrow> bool" where
  "is_revoked st digest \<longleftrightarrow> list_ex (\<lambda>s. rv_workload_keyset_digest s = digest) (rst_statements st)"

definition persist_revocations ::
    "(revocation_statement list \<Rightarrow> str) \<Rightarrow> bool \<Rightarrow> revocation_store \<Rightarrow> (file_error + unit) \<times> revocation_store" where
  "persist_revocations print ok st =
     (case rst_file st of
        None \<Rightarrow> (Inr (), st)
      | Some f \<Rightarrow> (case store_file print ok (rst_statements st) f of (r, f') \<Rightarrow> (r, st\<lparr>rst_file := Some f'\<rparr>)))"

definition record_revocation ::
    "(revocation_statement list \<Rightarrow> str) \<Rightarrow> bool \<Rightarrow> revocation_store \<Rightarrow> revocation_statement \<Rightarrow>
     (file_error + unit) \<times> revocation_store" where
  "record_revocation print ok st statement =
     (if list_ex (\<lambda>s. rv_workload_keyset_digest s = rv_workload_keyset_digest statement) (rst_statements st)
      then (Inr (), st)
      else persist_revocations print ok (st\<lparr>rst_statements := rst_statements st @ [statement]\<rparr>))"

section \<open>Keyset epochs\<close>

record persisted_keyset_epoch =
  pk_version :: u64
  pk_not_after :: u64
  pk_material_fingerprint :: str

definition epoch_of :: "persisted_keyset_epoch \<Rightarrow> keyset_epoch" where
  "epoch_of p = \<lparr>epoch_version = pk_version p, epoch_not_after = pk_not_after p\<rparr>"

definition resolve_epoch :: "persisted_keyset_epoch option \<Rightarrow> str \<Rightarrow> u64 \<Rightarrow> u64 \<Rightarrow> persisted_keyset_epoch" where
  "resolve_epoch previous fingerprint now window =
     (case previous of
        Some prev \<Rightarrow>
          if pk_material_fingerprint prev = fingerprint \<and> pk_not_after prev > now then prev
          else \<lparr>pk_version = pk_version prev + 1, pk_not_after = saturating_add now window,
                pk_material_fingerprint = fingerprint\<rparr>
      | None \<Rightarrow> \<lparr>pk_version = 1, pk_not_after = saturating_add now window, pk_material_fingerprint = fingerprint\<rparr>)"

definition roll_forward :: "u64 \<Rightarrow> u64 \<Rightarrow> persisted_keyset_epoch \<Rightarrow> persisted_keyset_epoch" where
  "roll_forward now window previous =
     \<lparr>pk_version = pk_version previous + 1, pk_not_after = saturating_add now window,
      pk_material_fingerprint = pk_material_fingerprint previous\<rparr>"

text \<open>The bounded loop: \<open>n\<close> is the number of iterations left.\<close>

fun roll_loop ::
    "(persisted_keyset_epoch \<Rightarrow> canonical_error + str) \<Rightarrow> (str \<Rightarrow> bool) \<Rightarrow> u64 \<Rightarrow> u64 \<Rightarrow> nat \<Rightarrow>
     persisted_keyset_epoch \<Rightarrow> file_error + persisted_keyset_epoch" where
  "roll_loop digest revoked now window 0 resolved = Inr resolved"
| "roll_loop digest revoked now window (Suc n) resolved =
     (case digest resolved of
        Inl e \<Rightarrow> Inl File_Invalid
      | Inr d \<Rightarrow> if \<not> revoked d then Inr resolved
                 else roll_loop digest revoked now window n (roll_forward now window resolved))"

text \<open>The keyset closure of the launcher: fixed key material under a candidate epoch.\<close>

definition make_keyset ::
    "workload_identity \<Rightarrow> keyed_public_key list \<Rightarrow> keyed_public_key list \<Rightarrow> tls_spki list \<Rightarrow> keyset_epoch \<Rightarrow> workload_keyset" where
  "make_keyset identity rkeys ekeys tls epoch =
     \<lparr>ks_workload_identity = identity, ks_keyset_epoch = epoch, ks_receipt_signing_keys = rkeys,
      ks_e2ee_public_keys = ekeys, ks_tls_public_keys = tls\<rparr>"

definition resolve_launcher_epoch ::
    "(bytes \<Rightarrow> bytes) \<Rightarrow> (bytes \<Rightarrow> str) \<Rightarrow> (persisted_keyset_epoch \<Rightarrow> str) \<Rightarrow> (str \<Rightarrow> persisted_keyset_epoch option) \<Rightarrow>
     bool \<Rightarrow> state_file \<Rightarrow> (keyset_epoch \<Rightarrow> workload_keyset) \<Rightarrow> revocation_store \<Rightarrow> u64 \<Rightarrow> u64 \<Rightarrow>
     (file_error + keyset_epoch) \<times> state_file" where
  "resolve_launcher_epoch sha256 hex_encode print parse ok f mk revocations now window =
     (case keyset_material_fingerprint sha256 hex_encode (mk \<lparr>epoch_version = 0, epoch_not_after = 0\<rparr>) of
        Inl e \<Rightarrow> (Inl File_Invalid, f)
      | Inr fingerprint \<Rightarrow>
          (case load_file parse f of
             Inl e \<Rightarrow> (Inl e, f)
           | Inr previous \<Rightarrow>
               let max_rolls = length (rst_statements revocations) + 1 in
               (case roll_loop (\<lambda>p. workload_keyset_digest sha256 hex_encode (mk (epoch_of p))) (is_revoked revocations)
                       now window (max_rolls + 1) (resolve_epoch previous fingerprint now window) of
                  Inl e \<Rightarrow> (Inl e, f)
                | Inr resolved \<Rightarrow>
                    if previous \<noteq> Some resolved
                    then (case store_file print ok resolved f of
                            (Inl e, f') \<Rightarrow> (Inl e, f')
                          | (Inr _, f') \<Rightarrow> (Inr (epoch_of resolved), f'))
                    else (Inr (epoch_of resolved), f))))"

section \<open>The service's keyset\<close>

record source_provenance =
  sp_repo_url :: "str option"
  sp_repo_commit :: "str option"
  sp_image_digest :: "str option"
  sp_image_provenance :: "json option"

definition is_unknown :: "source_provenance \<Rightarrow> bool" where
  "is_unknown sp \<longleftrightarrow> sp_repo_url sp = None \<and> sp_repo_commit sp = None \<and> sp_image_digest sp = None
     \<and> sp_image_provenance sp = None"

datatype start_error = TestKeysInProduction | InvalidSourceProvenance | Start_Canonical canonical_error | NoReceiptKey

definition nonempty :: "str option \<Rightarrow> bool" where
  "nonempty x = (case x of None \<Rightarrow> False | Some s \<Rightarrow> s \<noteq> [])"

definition validate_source_provenance :: "source_provenance \<Rightarrow> start_error + unit" where
  "validate_source_provenance sp =
     (if is_unknown sp then Inr ()
      else let has_repo = nonempty (sp_repo_url sp) \<and> nonempty (sp_repo_commit sp);
               has_image = nonempty (sp_image_digest sp)
           in if has_repo \<or> has_image then Inr () else Inl InvalidSourceProvenance)"

record service_capabilities =
  sc_supported_e2ee_versions :: "str list"

record service_config =
  cfg_vendor :: str
  cfg_tee_type :: str
  cfg_source_provenance :: source_provenance
  cfg_keyset_epoch :: keyset_epoch
  cfg_identity_subject :: "str option"
  cfg_service_capabilities :: service_capabilities
  cfg_freshness_seconds :: u64
  cfg_receipt_ttl_seconds :: u64
  cfg_upstream_required_default :: bool
  cfg_allow_test_keys :: bool
  cfg_tls_public_keys :: "tls_spki list option"

text \<open>The part of the service fixed at construction.\<close>

record service_identity =
  svc_keyset :: workload_keyset
  svc_workload_id :: str
  svc_workload_keyset_digest :: str
  svc_default_receipt_key_id :: str

definition new_service ::
    "(bytes \<Rightarrow> bytes) \<Rightarrow> (bytes \<Rightarrow> str) \<Rightarrow> key_provider \<Rightarrow> service_config \<Rightarrow> start_error + service_identity" where
  "new_service sha256 hex_encode kp config =
     (if is_test_only kp \<and> \<not> cfg_allow_test_keys config then Inl TestKeysInProduction
      else bind_result (validate_source_provenance (cfg_source_provenance config)) (\<lambda>_.
        let identity = \<lparr>wi_public_key = identity_public_key kp, wi_subject = cfg_identity_subject config\<rparr>;
            tls = (case cfg_tls_public_keys config of Some t \<Rightarrow> t | None \<Rightarrow> tls_spkis kp);
            keyset = \<lparr>ks_workload_identity = identity, ks_keyset_epoch = cfg_keyset_epoch config,
                      ks_receipt_signing_keys = receipt_keys kp, ks_e2ee_public_keys = e2ee_keys kp,
                      ks_tls_public_keys = tls\<rparr>
        in bind_result (map_err Start_Canonical (workload_id sha256 hex_encode identity)) (\<lambda>wid.
           bind_result (map_err Start_Canonical (workload_keyset_digest sha256 hex_encode keyset)) (\<lambda>digest.
             case receipt_keys kp of
               [] \<Rightarrow> Inl NoReceiptKey
             | k # _ \<Rightarrow> Inr \<lparr>svc_keyset = keyset, svc_workload_id = wid, svc_workload_keyset_digest = digest,
                             svc_default_receipt_key_id = kpk_key_id k\<rparr>))))"

definition is_keyset_revoked :: "service_identity \<Rightarrow> revocation_store \<Rightarrow> bool" where
  "is_keyset_revoked svc st = is_revoked st (svc_workload_keyset_digest svc)"

datatype revoke_error = Revoke_Canonical canonical_error | Revoke_Key key_error | Revoke_Store file_error

definition revoke_current_keyset ::
    "(bytes \<Rightarrow> str) \<Rightarrow> (revocation_statement list \<Rightarrow> str) \<Rightarrow> bool \<Rightarrow> key_provider \<Rightarrow> service_identity \<Rightarrow> u64 \<Rightarrow>
     revocation_store \<Rightarrow> (revoke_error + revocation_statement) \<times> revocation_store" where
  "revoke_current_keyset hex_encode print ok kp svc now st =
     (case keyset_revocation_payload (svc_workload_keyset_digest svc) of
        Inl e \<Rightarrow> (Inl (Revoke_Canonical e), st)
      | Inr payload \<Rightarrow>
          (case sign_keyset_revocation kp payload of
             Inl e \<Rightarrow> (Inl (Revoke_Key e), st)
           | Inr signature \<Rightarrow>
               let statement = new_statement (svc_workload_id svc) (svc_workload_keyset_digest svc)
                     (pkm_algo (identity_public_key kp)) (hex_encode signature) now
               in case record_revocation print ok st statement of
                    (Inl e, st') \<Rightarrow> (Inl (Revoke_Store e), st')
                  | (Inr _, st') \<Rightarrow> (Inr statement, st')))"

section \<open>The loop\<close>

lemma roll_loop_steps:
  assumes "\<And>p. \<exists>d. digest p = Inr d"
  shows "\<exists>k \<le> n. roll_loop digest revoked now w n r = Inr ((roll_forward now w ^^ k) r)
    \<and> (k < n \<longrightarrow> (\<exists>d. digest ((roll_forward now w ^^ k) r) = Inr d \<and> \<not> revoked d))
    \<and> (\<forall>i < k. \<exists>d. digest ((roll_forward now w ^^ i) r) = Inr d \<and> revoked d)"
proof (induction n arbitrary: r)
  case (Suc n)
  obtain d where d: "digest r = Inr d" using assms by blast
  show ?case
  proof (cases "revoked d")
    case False
    with d show ?thesis by (intro exI [of _ 0]) simp
  next
    case True
    let ?r = "roll_forward now w r"
    obtain k where k: "k \<le> n" "roll_loop digest revoked now w n ?r = Inr ((roll_forward now w ^^ k) ?r)"
      "k < n \<longrightarrow> (\<exists>d. digest ((roll_forward now w ^^ k) ?r) = Inr d \<and> \<not> revoked d)"
      "\<forall>i < k. \<exists>d. digest ((roll_forward now w ^^ i) ?r) = Inr d \<and> revoked d"
      using Suc by blast
    have "\<exists>d. digest ((roll_forward now w ^^ i) r) = Inr d \<and> revoked d" if "i < Suc k" for i
      using that k(4) d True by (cases i) (auto simp: funpow_swap1)
    with k d True show ?thesis by (intro exI [of _ "Suc k"]) (auto simp: funpow_swap1)
  qed
qed simp

lemma version_funpow: "pk_version ((roll_forward now w ^^ k) r) = pk_version r + of_nat k"
  by (induction k) (simp_all add: roll_forward_def)

lemma word_add_of_nat_inject:
  fixes v :: u64
  assumes "i < j" "j < 2 ^ 64" shows "v + of_nat i \<noteq> v + of_nat j"
proof
  assume "v + of_nat i = v + of_nat j"
  then have "(of_nat i :: u64) = of_nat j" by simp
  then have "unat (of_nat i :: u64) = unat (of_nat j :: u64)" by simp
  with assms show False by (simp add: unat_of_nat)
qed

text \<open>More candidates than revoked digests: two candidates share a digest.\<close>

lemma revoked_pigeonhole:
  assumes "\<forall>i < n. is_revoked st (f i)" "length (rst_statements st) < n"
  shows "\<exists>i j. i < j \<and> j < n \<and> f i = f j"
proof -
  let ?D = "set (map rv_workload_keyset_digest (rst_statements st))"
  have "f ` {..<n} \<subseteq> ?D" using assms(1) by (force simp: is_revoked_def list_ex_iff)
  then have "card (f ` {..<n}) \<le> card ?D" by (intro card_mono) auto
  also have "\<dots> \<le> length (rst_statements st)" by (metis card_length length_map)
  finally have "\<not> inj_on f {..<n}" using assms(2) by (auto dest!: card_image)
  then obtain a b where "a < n" "b < n" "a \<noteq> b" "f a = f b" by (auto simp: inj_on_def)
  then show ?thesis by (metis linorder_neqE_nat)
qed

lemma roll_loop_lands:
  assumes mk: "\<And>e. ks_keyset_epoch (mk e) = e" and len: "length (rst_statements st) + 2 < 2 ^ 64"
    and loop: "roll_loop (\<lambda>p. workload_keyset_digest sha hex (mk (epoch_of p))) (is_revoked st) now w
      (length (rst_statements st) + 2) r = Inr r'"
  shows "(\<exists>d. workload_keyset_digest sha hex (mk (epoch_of r')) = Inr d \<and> \<not> is_revoked st d)
    \<or> (\<exists>i j. i < j \<and> j \<le> length (rst_statements st) + 1 \<and>
        collision (\<lambda>x. hex (sha x)) (keyset_value (mk (epoch_of ((roll_forward now w ^^ i) r))))
          (keyset_value (mk (epoch_of ((roll_forward now w ^^ j) r)))))"
proof -
  let ?n = "length (rst_statements st) + 2" and ?roll = "\<lambda>k. (roll_forward now w ^^ k) r"
  let ?dig = "\<lambda>p. workload_keyset_digest sha hex (mk (epoch_of p))"
  obtain k where k: "k \<le> ?n" "r' = ?roll k" "k < ?n \<longrightarrow> (\<exists>d. ?dig (?roll k) = Inr d \<and> \<not> is_revoked st d)"
    "\<forall>i < k. \<exists>d. ?dig (?roll i) = Inr d \<and> is_revoked st d"
    using roll_loop_steps [of ?dig ?n "is_revoked st" now w r] workload_keyset_digest_defined loop by auto
  show ?thesis
  proof (cases "k < ?n")
    case True
    with k show ?thesis by blast
  next
    case False
    with k have "\<forall>i < ?n. is_revoked st (projr (?dig (?roll i)))" by fastforce
    then obtain i j where ij: "i < j" "j < ?n" "projr (?dig (?roll i)) = projr (?dig (?roll j))"
      using revoked_pigeonhole [of ?n st "\<lambda>i. projr (?dig (?roll i))"] by auto
    then obtain d where d: "?dig (?roll i) = Inr d" "?dig (?roll j) = Inr d"
      using workload_keyset_digest_defined [of sha hex "mk (epoch_of (?roll i))"]
        workload_keyset_digest_defined [of sha hex "mk (epoch_of (?roll j))"] by auto
    have "pk_version (?roll i) \<noteq> pk_version (?roll j)"
      unfolding version_funpow using ij len by (intro word_add_of_nat_inject) auto
    then have "epoch_of (?roll i) \<noteq> epoch_of (?roll j)" by (simp add: epoch_of_def)
    then have "mk (epoch_of (?roll i)) \<noteq> mk (epoch_of (?roll j))" using mk by metis
    with keyset_digest_inject [OF d] ij show ?thesis by (metis Suc_1 add_Suc_right less_Suc_eq_le nat_1_add_1 plus_1_eq_Suc add.commute)
  qed
qed

lemma fingerprint_defined: "\<exists>d. keyset_material_fingerprint sha hex k = Inr d"
proof -
  have "keyset_material_fingerprint sha hex k = jcs_sha256_hex sha hex (material_value k)"
    by (simp add: keyset_material_fingerprint_def material_value_def Let_def)
  then show ?thesis by (simp add: jcs_digest_defined)
qed

lemma make_keyset_epoch [simp]: "ks_keyset_epoch (make_keyset i rk ek tls e) = e"
  by (simp add: make_keyset_def)

text \<open>What a successful resolution went through.\<close>

lemma resolve_launcher_epoch_Inr:
  assumes "resolve_launcher_epoch sha hex print parse ok f mk st now w = (Inr e, f')"
  obtains fp previous r k where
    "keyset_material_fingerprint sha hex (mk \<lparr>epoch_version = 0, epoch_not_after = 0\<rparr>) = Inr fp"
    "load_file parse f = Inr previous" "e = epoch_of r"
    "roll_loop (\<lambda>p. workload_keyset_digest sha hex (mk (epoch_of p))) (is_revoked st) now w
      (length (rst_statements st) + 2) (resolve_epoch previous fp now w) = Inr r"
    "r = (roll_forward now w ^^ k) (resolve_epoch previous fp now w)" "k \<le> length (rst_statements st) + 2"
    "f' = (if previous = Some r then f else Text (print r @ newline))"
proof -
  obtain fp where fp: "keyset_material_fingerprint sha hex (mk \<lparr>epoch_version = 0, epoch_not_after = 0\<rparr>) = Inr fp"
    using fingerprint_defined by blast
  obtain previous where prev: "load_file parse f = Inr previous"
    using assms by (auto simp: resolve_launcher_epoch_def fp split: sum.splits)
  let ?dig = "\<lambda>p. workload_keyset_digest sha hex (mk (epoch_of p))"
  let ?n = "length (rst_statements st) + 2"
  obtain k where k: "k \<le> ?n" "roll_loop ?dig (is_revoked st) now w ?n (resolve_epoch previous fp now w)
      = Inr ((roll_forward now w ^^ k) (resolve_epoch previous fp now w))"
    using roll_loop_steps [of ?dig ?n "is_revoked st" now w "resolve_epoch previous fp now w"]
      workload_keyset_digest_defined by blast
  show ?thesis
    using assms fp prev k
    by (intro that [of fp previous "(roll_forward now w ^^ k) (resolve_epoch previous fp now w)" k])
       (auto simp: resolve_launcher_epoch_def store_file_def Let_def split: if_splits sum.splits)
qed

lemma new_service_keyset:
  assumes "new_service sha hex kp cfg = Inr svc"
  shows "svc_keyset svc = make_keyset \<lparr>wi_public_key = identity_public_key kp, wi_subject = cfg_identity_subject cfg\<rparr>
      (receipt_keys kp) (e2ee_keys kp) (case cfg_tls_public_keys cfg of Some t \<Rightarrow> t | None \<Rightarrow> tls_spkis kp)
      (cfg_keyset_epoch cfg)"
    and "workload_keyset_digest sha hex (svc_keyset svc) = Inr (svc_workload_keyset_digest svc)"
  using assms
  by (cases "receipt_keys kp";
      auto simp: new_service_def make_keyset_def Let_def bind_result_Inr map_err_Inr split: if_splits)+

lemma launcher_epoch_defined:
  assumes "load_file parse f = Inr previous"
  shows "\<exists>e f'. resolve_launcher_epoch sha256 hex_encode print parse True f mk st now window = (Inr e, f')"
proof -
  let ?dig = "\<lambda>p. workload_keyset_digest sha256 hex_encode (mk (epoch_of p))"
  obtain fp where fp: "keyset_material_fingerprint sha256 hex_encode (mk \<lparr>epoch_version = 0, epoch_not_after = 0\<rparr>) = Inr fp"
    using fingerprint_defined by blast
  obtain r where "roll_loop ?dig (is_revoked st) now window (length (rst_statements st) + 1 + 1)
      (resolve_epoch previous fp now window) = Inr r"
    using roll_loop_steps [of ?dig] workload_keyset_digest_defined by blast
  then show ?thesis by (simp add: resolve_launcher_epoch_def fp assms store_file_def Let_def)
qed

lemma no_collision_latin1: "\<not> collision latin1 v w"
  using inj_latin1 by (auto simp: collision_def inj_eq split: sum.splits)

definition sample_config :: "keyset_epoch \<Rightarrow> service_config" where
  "sample_config e = \<lparr>cfg_vendor = [], cfg_tee_type = [], cfg_source_provenance = \<lparr>sp_repo_url = None, sp_repo_commit = None, sp_image_digest = None,
     sp_image_provenance = None\<rparr>, cfg_keyset_epoch = e, cfg_identity_subject = None,
     cfg_service_capabilities = \<lparr>sc_supported_e2ee_versions = []\<rparr>, cfg_freshness_seconds = 60, cfg_receipt_ttl_seconds = 60,
     cfg_upstream_required_default = True, cfg_allow_test_keys = False, cfg_tls_public_keys = None\<rparr>"

lemma sample_service: "\<exists>svc. new_service sha hex sample_key_provider (sample_config e) = Inr svc"
proof -
  have "\<exists>d. workload_id_for_key sha hex k = Inr d" for k
    by (simp add: workload_id_for_key_def jcs_digest_defined)
  then obtain wid where "workload_id sha hex \<lparr>wi_public_key = identity_public_key sample_key_provider, wi_subject = None\<rparr> = Inr wid"
    by (auto simp: workload_id_def)
  moreover obtain d where "workload_keyset_digest sha hex \<lparr>ks_workload_identity = \<lparr>wi_public_key = identity_public_key sample_key_provider, wi_subject = None\<rparr>,
      ks_keyset_epoch = e, ks_receipt_signing_keys = receipt_keys sample_key_provider, ks_e2ee_public_keys = e2ee_keys sample_key_provider,
      ks_tls_public_keys = tls_spkis sample_key_provider\<rparr> = Inr d"
    using workload_keyset_digest_defined by blast
  ultimately show ?thesis
    by (simp add: new_service_def sample_config_def validate_source_provenance_def is_unknown_def Let_def
        bind_result_Inr map_err_Inr)
       (simp add: sample_key_provider_def)
qed

text \<open>A text form of the epoch record: two unary numbers and the fingerprint.\<close>

definition sample_epoch_print :: "persisted_keyset_epoch \<Rightarrow> str" where
  "sample_epoch_print p = replicate (unat (pk_version p)) (ch CHR ''a'') @ ch CHR ''b'' #
     replicate (unat (pk_not_after p)) (ch CHR ''a'') @ ch CHR ''b'' # pk_material_fingerprint p"

definition sample_epoch_parse :: "str \<Rightarrow> persisted_keyset_epoch option" where
  "sample_epoch_parse t =
     (let x = takeWhile (\<lambda>c. c = ch CHR ''a'') t; r = drop (Suc (length x)) t; y = takeWhile (\<lambda>c. c = ch CHR ''a'') r
      in Some \<lparr>pk_version = of_nat (length x), pk_not_after = of_nat (length y),
               pk_material_fingerprint = butlast (drop (Suc (length y)) r)\<rparr>)"

lemma sample_epoch_reads_back: "reads_back sample_epoch_print sample_epoch_parse p"
proof -
  have ab: "ch CHR ''b'' \<noteq> ch CHR ''a''" by (simp add: ch_def)
  have "\<not> is_whitespace (ch CHR ''b'')" by (simp add: is_whitespace_def ch_def)
  then have "trim (sample_epoch_print p @ newline) \<noteq> []"
    by (auto simp: trim_Nil sample_epoch_print_def)
  moreover have "takeWhile (\<lambda>c. c = ch CHR ''a'') (replicate n (ch CHR ''a'') @ ch CHR ''b'' # r) = replicate n (ch CHR ''a'')" for n r
    using ab by (simp add: takeWhile_append)
  ultimately show ?thesis
    by (simp add: reads_back_def sample_epoch_print_def sample_epoch_parse_def newline_def Let_def)
qed

section \<open>Properties\<close>

text \<open>
  C11. A restart never serves a revoked keyset: when the launcher resolves an epoch
  against the revocation store and the service is then built from the same key material
  with that epoch, the service's keyset digest is not revoked; or two of the candidate
  keysets the loop tried (same keys, different epoch versions) collide under the hash.
\<close>

theorem startup_keyset_not_revoked:
  assumes "resolve_launcher_epoch sha256 hex_encode print parse ok f
      (make_keyset \<lparr>wi_public_key = identity_public_key kp, wi_subject = cfg_identity_subject cfg\<rparr> (receipt_keys kp)
        (e2ee_keys kp) (case cfg_tls_public_keys cfg of Some t \<Rightarrow> t | None \<Rightarrow> tls_spkis kp))
      st now window = (Inr e, f')"
    and "new_service sha256 hex_encode kp cfg = Inr svc" and "cfg_keyset_epoch cfg = e"
    and "length (rst_statements st) + 2 < 2 ^ 64"
  shows "\<not> is_keyset_revoked svc st \<or>
    (\<exists>first i j. i < j \<and> j \<le> length (rst_statements st) + 1 \<and>
       collision (\<lambda>x. hex_encode (sha256 x))
         (keyset_value ((svc_keyset svc)\<lparr>ks_keyset_epoch := epoch_of ((roll_forward now window ^^ i) first)\<rparr>))
         (keyset_value ((svc_keyset svc)\<lparr>ks_keyset_epoch := epoch_of ((roll_forward now window ^^ j) first)\<rparr>)))"
proof -
  let ?mk = "make_keyset \<lparr>wi_public_key = identity_public_key kp, wi_subject = cfg_identity_subject cfg\<rparr> (receipt_keys kp)
        (e2ee_keys kp) (case cfg_tls_public_keys cfg of Some t \<Rightarrow> t | None \<Rightarrow> tls_spkis kp)"
  note svc = new_service_keyset [OF assms(2)]
  have mk: "?mk e' = (svc_keyset svc)\<lparr>ks_keyset_epoch := e'\<rparr>" for e' by (simp add: svc(1) make_keyset_def)
  obtain fp previous r k where r: "e = epoch_of r"
    "roll_loop (\<lambda>p. workload_keyset_digest sha256 hex_encode (?mk (epoch_of p))) (is_revoked st) now window
      (length (rst_statements st) + 2) (resolve_epoch previous fp now window) = Inr r"
    using resolve_launcher_epoch_Inr [OF assms(1)] by metis
  have dig: "workload_keyset_digest sha256 hex_encode (?mk (epoch_of r)) = Inr (svc_workload_keyset_digest svc)"
    using svc assms(3) r(1) by simp
  from roll_loop_lands [OF _ assms(4) r(2)] show ?thesis
    using dig by (auto simp: is_keyset_revoked_def mk)
qed

theorem startup_keyset_not_revoked_witness:
  "\<exists>st e f' svc. length (rst_statements st) = 1 \<and>
     new_service (\<lambda>x. x) latin1 sample_key_provider (sample_config e) = Inr svc \<and>
     rv_workload_keyset_digest (hd (rst_statements st)) =
       projr (workload_keyset_digest (\<lambda>x. x) latin1 ((svc_keyset svc)\<lparr>ks_keyset_epoch := \<lparr>epoch_version = 1, epoch_not_after = 15\<rparr>\<rparr>)) \<and>
     \<not> is_keyset_revoked svc st"
proof -
  let ?mk = "make_keyset \<lparr>wi_public_key = identity_public_key sample_key_provider, wi_subject = None\<rparr>
    (receipt_keys sample_key_provider) (e2ee_keys sample_key_provider) (tls_spkis sample_key_provider)"
  define d where "d = projr (workload_keyset_digest (\<lambda>x. x) latin1 (?mk \<lparr>epoch_version = 1, epoch_not_after = 15\<rparr>))"
  define st where "st = \<lparr>rst_file = None, rst_statements = [new_statement [] d [] [] 0]\<rparr>"
  obtain e f' where e: "resolve_launcher_epoch (\<lambda>x. x) latin1 sample_epoch_print sample_epoch_parse True Absent ?mk st 5 10 = (Inr e, f')"
    using launcher_epoch_defined [of sample_epoch_parse Absent None] by (simp add: load_file_def) blast
  obtain svc where svc: "new_service (\<lambda>x. x) latin1 sample_key_provider (sample_config e) = Inr svc"
    using sample_service by blast
  have "\<not> is_keyset_revoked svc st"
    using startup_keyset_not_revoked [OF _ svc, of sample_epoch_print sample_epoch_parse True Absent st 5 10 e f'] e
    by (simp add: sample_config_def st_def no_collision_latin1)
  moreover have "svc_keyset svc = ?mk e" using new_service_keyset(1) [OF svc] by (simp add: sample_config_def)
  ultimately show ?thesis using svc
    by (intro exI [of _ st] exI [of _ e] exI [of _ svc]) (simp add: st_def new_statement_def d_def make_keyset_def)
qed



text \<open>
  C25. Versions are monotone and never reused: from a stored state, without overflow of
  the version, the resolved epoch's version is not smaller than the stored one; equal
  versions mean the very same epoch for the same key material; and the state file then
  holds the epoch that was returned, which is after \<open>now\<close>.
\<close>

theorem epoch_version_monotone:
  assumes "resolve_launcher_epoch sha256 hex_encode print parse ok f mk st now window = (Inr e, f')"
    and "load_file parse f = Inr (Some prev)" and "\<And>p. reads_back print parse p"
    and "unat (pk_version prev) + length (rst_statements st) + 4 < 2 ^ 64"
    and "0 < window" "now < u64_max"
  shows "pk_version prev \<le> epoch_version e
    \<and> (epoch_version e = pk_version prev \<longrightarrow> e = epoch_of prev \<and>
         keyset_material_fingerprint sha256 hex_encode (mk \<lparr>epoch_version = 0, epoch_not_after = 0\<rparr>)
           = Inr (pk_material_fingerprint prev))
    \<and> (\<exists>p. load_file parse f' = Inr (Some p) \<and> epoch_of p = e) \<and> now < epoch_not_after e"
proof -
  obtain fp previous r k where
    fp: "keyset_material_fingerprint sha256 hex_encode (mk \<lparr>epoch_version = 0, epoch_not_after = 0\<rparr>) = Inr fp"
    and prev: "load_file parse f = Inr previous" and r1: "e = epoch_of r"
    and "roll_loop (\<lambda>p. workload_keyset_digest sha256 hex_encode (mk (epoch_of p))) (is_revoked st) now window
      (length (rst_statements st) + 2) (resolve_epoch previous fp now window) = Inr r"
    and r2: "r = (roll_forward now window ^^ k) (resolve_epoch previous fp now window)"
    and r3: "k \<le> length (rst_statements st) + 2" and r4: "f' = (if previous = Some r then f else Text (print r @ newline))"
    by (rule resolve_launcher_epoch_Inr [OF assms(1)])
  have "previous = Some prev" using prev assms(2) by simp
  note r = r1 r2 [unfolded this] r3 r4 [unfolded this]
  let ?r0 = "resolve_epoch (Some prev) fp now window"
  define m :: nat where "m = (if ?r0 = prev then 0 else 1) + k"
  have same: "pk_version ?r0 = pk_version prev + 1 \<or> ?r0 = prev \<and> fp = pk_material_fingerprint prev \<and> now < pk_not_after prev"
    by (auto simp: resolve_epoch_def)
  have ne: "pk_version prev + 1 \<noteq> pk_version prev" by simp
  have v: "pk_version r = pk_version prev + of_nat m"
    using same ne by (auto simp: r(2) version_funpow m_def)
  have bound: "unat (pk_version prev) + m < 2 ^ 64" using r(3) assms(4) by (simp add: m_def)
  then have "unat (of_nat m :: u64) = m" by (simp add: unat_of_nat)
  with bound have uv: "unat (pk_version r) = unat (pk_version prev) + m"
    unfolding v by (simp add: unat_word_ariths)
  have "unat (saturating_add now window) > unat now"
    using assms(5,6) by (auto simp: unat_saturating_add word_less_nat_alt)
  then have sat: "now < saturating_add now window" by (simp add: word_less_nat_alt)
  have after: "now < pk_not_after r"
    using sat same by (cases k) (auto simp: r(2) roll_forward_def resolve_epoch_def)
  have "pk_version r = pk_version prev \<Longrightarrow> m = 0" using uv by simp
  then have eq: "pk_version r = pk_version prev \<Longrightarrow> r = prev \<and> fp = pk_material_fingerprint prev"
    using same ne by (auto simp: m_def r(2) split: if_splits)
  have "load_file parse f' = Inr (Some r)" using r(4) assms(2) load_store [OF assms(3)] by auto
  moreover have "pk_version prev \<le> pk_version r" using uv by (simp add: word_le_nat_alt)
  ultimately show ?thesis using after eq fp by (auto simp: r(1)) (auto simp: epoch_of_def)
qed

theorem epoch_version_monotone_witness:
  "\<exists>e f'. resolve_launcher_epoch (\<lambda>x. x) latin1 sample_epoch_print sample_epoch_parse True
       (Text (sample_epoch_print \<lparr>pk_version = 7, pk_not_after = 3, pk_material_fingerprint = []\<rparr> @ newline))
       (make_keyset \<lparr>wi_public_key = \<lparr>pkm_algo = [], pkm_public_key_hex = []\<rparr>, wi_subject = None\<rparr> [] [] [])
       in_memory_revocations 5 10 = (Inr e, f') \<and> 7 \<le> epoch_version e \<and> 5 < epoch_not_after e"
proof -
  let ?p = "\<lparr>pk_version = 7, pk_not_after = 3, pk_material_fingerprint = []\<rparr> :: persisted_keyset_epoch"
  have load: "load_file sample_epoch_parse (Text (sample_epoch_print ?p @ newline)) = Inr (Some ?p)"
    by (rule load_store [OF sample_epoch_reads_back])
  obtain e f' where e: "resolve_launcher_epoch (\<lambda>x. x) latin1 sample_epoch_print sample_epoch_parse True
       (Text (sample_epoch_print ?p @ newline))
       (make_keyset \<lparr>wi_public_key = \<lparr>pkm_algo = [], pkm_public_key_hex = []\<rparr>, wi_subject = None\<rparr> [] [] [])
       in_memory_revocations 5 10 = (Inr e, f')"
    using launcher_epoch_defined [OF load] by blast
  from epoch_version_monotone [OF e load sample_epoch_reads_back] e show ?thesis
    by (auto simp: in_memory_revocations_def u64_max_def)
qed

text \<open>
  Revocations survive a restart: when recording a statement for a digest not yet in
  the store reports success on a file-backed store, opening the file again gives a store
  with the same statements, in which the digest is revoked.
\<close>

theorem revocation_durable:
  assumes "rst_file st = Some f" and "\<not> is_revoked st (rv_workload_keyset_digest s)"
    and "record_revocation print ok st s = (Inr (), st')"
    and "reads_back print parse (rst_statements st @ [s])"
  shows "\<exists>f' st''. rst_file st' = Some f' \<and> open_revocations parse f' = Inr st''
    \<and> rst_statements st'' = rst_statements st' \<and> is_revoked st'' (rv_workload_keyset_digest s)"
proof -
  have st': "st' = \<lparr>rst_file = Some (Text (print (rst_statements st @ [s]) @ newline)), rst_statements = rst_statements st @ [s]\<rparr>"
    using assms(1-3)
    by (cases st) (auto simp: record_revocation_def is_revoked_def persist_revocations_def store_file_def split: if_splits)
  then show ?thesis
    by (simp add: open_revocations_def load_store [OF assms(4)] bind_result_def is_revoked_def)
qed

definition sample_statement :: revocation_statement where
  "sample_statement = new_statement [] (lit ''sha256:aa'') [] [] 0"

theorem revocation_durable_witness:
  "\<exists>st' f' st''. record_revocation (\<lambda>_. lit ''x'') True \<lparr>rst_file = Some Absent, rst_statements = []\<rparr> sample_statement = (Inr (), st')
     \<and> rst_file st' = Some f' \<and> open_revocations (\<lambda>_. Some [sample_statement]) f' = Inr st'' \<and> is_revoked st'' (lit ''sha256:aa'')"
proof -
  let ?st = "\<lparr>rst_file = Some Absent, rst_statements = []\<rparr>"
  obtain st' where r: "record_revocation (\<lambda>_. lit ''x'') True ?st sample_statement = (Inr (), st')"
    by (simp add: record_revocation_def persist_revocations_def store_file_def)
  have "\<not> is_whitespace (uchar_of_char CHR ''x'')" by (simp add: is_whitespace_def)
  then have "reads_back (\<lambda>_. lit ''x'') (\<lambda>_. Some [sample_statement]) (rst_statements ?st @ [sample_statement])"
    by (simp add: reads_back_def trim_Nil lit_def)
  from revocation_durable [OF _ _ r this] r show ?thesis
    by (auto simp: is_revoked_def sample_statement_def new_statement_def)
qed

text \<open>
  Retrying a failed revocation does not persist it: if the write of the state file
  fails, revoking reports the error but keeps the statement in memory; every later
  attempt then reports success without writing, so the file never learns of the
  revocation (and a restart from it resumes the revoked keyset).
\<close>

theorem revocation_retry_not_persisted:
  assumes "rst_file st = Some f" and "\<not> is_keyset_revoked svc st"
    and "\<And>p. \<exists>g. sign_keyset_revocation kp p = Inr g"
  shows "\<exists>st1. revoke_current_keyset hex_encode print False kp svc t st = (Inl (Revoke_Store File_Io), st1)
    \<and> (\<forall>ok t'. \<exists>s. revoke_current_keyset hex_encode print ok kp svc t' st1 = (Inr s, st1))
    \<and> is_keyset_revoked svc st1 \<and> rst_file st1 = Some f"
proof -
  obtain payload where p: "keyset_revocation_payload (svc_workload_keyset_digest svc) = Inr payload"
    using canonicalize_defined [OF revocation_wf] by (auto simp: keyset_revocation_payload_def)
  obtain g where g: "sign_keyset_revocation kp payload = Inr g" using assms(3) by blast
  show ?thesis
    using assms(1,2)
    by (simp add: revoke_current_keyset_def p g record_revocation_def persist_revocations_def store_file_def
        is_keyset_revoked_def is_revoked_def new_statement_def Let_def)
qed

theorem revocation_retry_not_persisted_witness:
  "\<exists>svc st1. \<not> is_keyset_revoked svc \<lparr>rst_file = Some Absent, rst_statements = []\<rparr> \<and>
     revoke_current_keyset latin1 (\<lambda>_. []) False sample_key_provider svc 1 \<lparr>rst_file = Some Absent, rst_statements = []\<rparr>
       = (Inl (Revoke_Store File_Io), st1) \<and>
     (\<exists>s. revoke_current_keyset latin1 (\<lambda>_. []) True sample_key_provider svc 2 st1 = (Inr s, st1)) \<and> rst_file st1 = Some Absent"
proof -
  obtain svc where "new_service (\<lambda>x. x) latin1 sample_key_provider (sample_config \<lparr>epoch_version = 1, epoch_not_after = 2\<rparr>) = Inr svc"
    using sample_service by blast
  let ?st = "\<lparr>rst_file = Some Absent, rst_statements = []\<rparr>"
  have "\<not> is_keyset_revoked svc ?st" "\<exists>g. sign_keyset_revocation sample_key_provider p = Inr g" for p
    by (simp_all add: is_keyset_revoked_def is_revoked_def sample_key_provider_def)
  from revocation_retry_not_persisted [OF _ this, of Absent latin1 "\<lambda>_. []" 1] this(1)
  show ?thesis by simp blast
qed

end
