(* ===== verification/Claims.thy ===== *)
theory Claims
  imports Session
begin

text \<open>
  From a verifier's event to typed claims (\<open>src/aggregator/service/claims.rs\<close>): one claim
  mapper per provider type, the provider's raw facts kept in \<open>extra\<close>, and the slice of a
  fleet's facts that belongs to one instance. The lemmas say what the mappers can and
  cannot assert, and that an instance's claims do not depend on its siblings.
\<close>

section \<open>The code\<close>

text \<open>\<open>BTreeMap::insert\<close>: members in ascending key order, replacing an equal key.\<close>

fun btree_insert :: "obj \<Rightarrow> str \<Rightarrow> json \<Rightarrow> obj" where
  "btree_insert [] k v = [(k, v)]"
| "btree_insert ((k', v') # m) k v =
     (if k < k' then (k, v) # (k', v') # m
      else if k = k' then (k, v) # m
      else (k', v') # btree_insert m k v)"

definition claim_field :: "upstream_verified_event \<Rightarrow> string \<Rightarrow> json option" where
  "claim_field event k = Option.bind (uv_provider_claims event) (\<lambda>c. get c (lit k))"

definition claim_str :: "upstream_verified_event \<Rightarrow> string \<Rightarrow> str option" where
  "claim_str event k = Option.bind (claim_field event k) as_str"

definition claim_bool :: "upstream_verified_event \<Rightarrow> string \<Rightarrow> bool option" where
  "claim_bool event k = Option.bind (claim_field event k) as_bool"

definition hardware_tee_attested :: "upstream_verified_event \<Rightarrow> claim" where
  "hardware_tee_attested event =
     claim_asserted HardwareProven (uv_verifier_id event @ lit '' verified the TEE quote and bound the request channel'')"

definition tcb_up_to_date_claim :: "upstream_verified_event \<Rightarrow> claim" where
  "tcb_up_to_date_claim event =
     (case claim_str event ''tcb_status'' of
        Some status \<Rightarrow>
          if eq_ignore_ascii_case status (lit ''uptodate'')
          then claim_asserted HardwareProven (lit ''platform TCB status '' @ status)
          else claim_refuted HardwareProven (lit ''platform TCB status '' @ status)
      | None \<Rightarrow> claim_unknown)"

definition os_known_good_claim :: "upstream_verified_event \<Rightarrow> claim" where
  "os_known_good_claim event =
     (case claim_bool event ''production_os_image'' of
        Some True \<Rightarrow> claim_asserted VerifierDerived (lit ''attested OS image resolves to a known production image'')
      | Some False \<Rightarrow> claim_refuted VerifierDerived
          (lit ''attested OS image is a dev image (SSH / serial console enabled), not production'')
      | None \<Rightarrow> claim_unknown)"

definition gpu_attested_claim :: "upstream_verified_event \<Rightarrow> claim" where
  "gpu_attested_claim event =
     (case claim_bool event ''gpu_verified'' of
        Some True \<Rightarrow>
          claim_asserted VerifierDerived
            (case claim_str event ''gpu_arch'' of
               Some arch \<Rightarrow>
                 lit ''NVIDIA confidential-computing GPU attestation verified and nonce-bound (arch '' @ arch
                 @ lit ''); attests a genuine CC GPU, not its binding to the serving CPU TEE''
             | None \<Rightarrow>
                 lit ''NVIDIA confidential-computing GPU attestation verified and nonce-bound; attests a genuine CC GPU, not its binding to the serving CPU TEE'')
      | _ \<Rightarrow> claim_unknown)"

definition tinfoil_software_claim :: "upstream_verified_event \<Rightarrow> claim" where
  "tinfoil_software_claim event =
     claim_asserted VerifierDerived
       (case (claim_str event ''config_repo'', claim_str event ''release_digest'') of
          (Some repo, Some digest) \<Rightarrow>
            lit ''Sigstore-verified code measurement matches '' @ repo @ lit '' (release '' @ digest @ lit '')''
        | (Some repo, None) \<Rightarrow> lit ''Sigstore-verified code measurement matches '' @ repo
        | _ \<Rightarrow> lit ''Sigstore-verified code measurement matches the published golden values'')"

datatype mapper_kind = TinfoilClaims | IntelTdxClaims | GenericClaims

definition claim_mapper :: "str option \<Rightarrow> mapper_kind" where
  "claim_mapper provider_type =
     (if provider_type = Some (lit ''tinfoil'') then TinfoilClaims
      else if provider_type = Some (lit ''near-ai'') \<or> provider_type = Some (lit ''chutes'')
              \<or> provider_type = Some (lit ''phala-direct'') then IntelTdxClaims
      else GenericClaims)"

fun mapper_claims :: "mapper_kind \<Rightarrow> upstream_verified_event \<Rightarrow> session_claims" where
  "mapper_claims IntelTdxClaims event =
     default_session_claims
       \<lparr>tee_attested := hardware_tee_attested event, tcb_up_to_date := tcb_up_to_date_claim event,
        os_known_good := os_known_good_claim event, gpu_attested := gpu_attested_claim event\<rparr>"
| "mapper_claims TinfoilClaims event =
     default_session_claims
       \<lparr>tee_attested := hardware_tee_attested event,
        tcb_up_to_date := claim_asserted VerifierDerived
          (lit ''Tinfoil'' @ [ch (CHR 0x27)] @ lit ''s verifier requires an up-to-date TCB for a verified result; no separable TcbStatus is surfaced''),
        serving_software_known_good := tinfoil_software_claim event,
        os_known_good := os_known_good_claim event\<rparr>"
| "mapper_claims GenericClaims event =
     default_session_claims
       \<lparr>tee_attested := claim_asserted VerifierDerived
          (uv_verifier_id event @ lit '' verified the workload identity and bound the channel'')\<rparr>"

definition session_claims_for_event :: "upstream_verified_event \<Rightarrow> session_claims" where
  "session_claims_for_event event =
     (let claims = (if uv_result event = Verified then mapper_claims (claim_mapper (uv_provider_type event)) event
                    else default_session_claims)
      in case uv_provider_claims event of
           Some (Object m) \<Rightarrow> claims\<lparr>claims_extra := foldl (\<lambda>e (k, v). btree_insert e k v) (claims_extra claims) m\<rparr>
         | _ \<Rightarrow> claims)"

definition chutes_instance_id :: "upstream_verified_event \<Rightarrow> channel_binding \<Rightarrow> str option" where
  "chutes_instance_id event binding =
     (if uv_provider_type event \<noteq> Some (lit ''chutes'') then None
      else case binding of E2eePublicKeySha256 _ key_id _ _ \<Rightarrow> key_id | _ \<Rightarrow> None)"

text \<open>Copy the listed members that are present, in the order of the list.\<close>

definition copy_members :: "string list \<Rightarrow> obj \<Rightarrow> obj \<Rightarrow> obj" where
  "copy_members ks src dst =
     foldl (\<lambda>d k. case obj_get src (lit k) of Some v \<Rightarrow> obj_insert d (lit k) v | None \<Rightarrow> d) dst ks"

definition instance_entry :: "obj \<Rightarrow> string \<Rightarrow> str \<Rightarrow> json option" where
  "instance_entry m k instance_id = Option.bind (obj_get m (lit k)) (\<lambda>x. get x instance_id)"

definition per_instance_provider_claims :: "json option \<Rightarrow> str \<Rightarrow> json" where
  "per_instance_provider_claims full instance_id =
     (case full of
        Some (Object m) \<Rightarrow>
          (let pc = copy_members [''trust_boundary'', ''evidence_scope'', ''chute_id'', ''canonical_model_id''] m [];
               pc = obj_insert pc (lit ''instance_id'') (JString instance_id);
               pc = (case instance_entry m ''instance_tcb_statuses'' instance_id of
                       Some status \<Rightarrow> obj_insert pc (lit ''tcb_status'') status | None \<Rightarrow> pc);
               pc = (case instance_entry m ''instance_measurements'' instance_id of
                       Some measurement \<Rightarrow> obj_insert pc (lit ''measurement'') measurement | None \<Rightarrow> pc);
               pc = (case instance_entry m ''instance_gpu'' instance_id of
                       Some (Object gpu) \<Rightarrow> copy_members [''gpu_verified'', ''gpu_arch'', ''gpu_evidence_present''] gpu pc
                     | _ \<Rightarrow> pc)
           in Object pc)
      | _ \<Rightarrow> Object [])"

definition per_instance_session_claims :: "upstream_verified_event \<Rightarrow> str \<Rightarrow> session_claims" where
  "per_instance_session_claims event instance_id =
     session_claims_for_event
       (default_upstream_verified_event
          \<lparr>uv_provider_type := uv_provider_type event, uv_verifier_id := uv_verifier_id event,
           uv_result := uv_result event,
           uv_provider_claims := Some (per_instance_provider_claims (uv_provider_claims event) instance_id)\<rparr>)"

section \<open>Lemmas\<close>

lemma keys_btree_insert: "set (keys (btree_insert m k v)) = insert k (set (keys m))"
  by (induction m k v rule: btree_insert.induct) auto

lemma sorted_btree_insert: "sorted_wrt (<) (keys m) \<Longrightarrow> sorted_wrt (<) (keys (btree_insert m k v))"
proof (induction m k v rule: btree_insert.induct)
  case (2 k' v' m k v)
  have "k' < x" if "k' < k" "x \<in> set (keys (btree_insert m k v))" for x
    using that 2(2) by (auto simp: keys_btree_insert)
  with 2 show ?case by (auto intro: less_trans)
qed simp

lemma obj_get_btree_insert:
  "sorted_wrt (<) (keys m) \<Longrightarrow> obj_get (btree_insert m k v) f = (if f = k then Some v else obj_get m f)"
proof (induction m k v rule: btree_insert.induct)
  case (2 k' v' m k v)
  have "obj_get m f = None" if "f \<le> k'" using that 2(2) by (auto simp: obj_get_None)
  with 2 show ?case by auto
qed auto

lemma btree_insert_all:
  "sorted_wrt (<) (keys e) \<Longrightarrow> distinct (keys m) \<Longrightarrow>
   sorted_wrt (<) (keys (foldl (\<lambda>e (k, v). btree_insert e k v) e m)) \<and>
   obj_get (foldl (\<lambda>e (k, v). btree_insert e k v) e m) f =
     (case obj_get m f of Some v \<Rightarrow> Some v | None \<Rightarrow> obj_get e f)"
proof (induction m arbitrary: e)
  case (Cons p m)
  obtain k v where p: "p = (k, v)" by (cases p)
  have "f = k \<Longrightarrow> obj_get m f = None" using Cons.prems(2) by (simp add: p obj_get_None)
  with Cons.IH [of "btree_insert e k v"] Cons.prems show ?case
    by (auto simp: p sorted_btree_insert obj_get_btree_insert split: option.splits)
qed simp

lemma claim_simps [simp]:
  "cl_status claim_unknown = Unknown" "cl_source claim_unknown = None" "cl_reason claim_unknown = None"
  "cl_status (claim_asserted s r) = Asserted" "cl_source (claim_asserted s r) = Some s" "cl_reason (claim_asserted s r) = Some r"
  "cl_status (claim_refuted s r) = Refuted" "cl_source (claim_refuted s r) = Some s" "cl_reason (claim_refuted s r) = Some r"
  by (simp_all add: claim_unknown_def claim_asserted_def claim_refuted_def)

lemma default_claims_simps [simp]:
  "tee_attested default_session_claims = claim_unknown" "gpu_attested default_session_claims = claim_unknown"
  "tcb_up_to_date default_session_claims = claim_unknown" "os_known_good default_session_claims = claim_unknown"
  "serving_software_known_good default_session_claims = claim_unknown"
  "model_weights_provenance default_session_claims = claim_unknown" "claims_extra default_session_claims = []"
  by (simp_all add: default_session_claims_def)

text \<open>The typed claims come from the mapper alone; the raw facts only fill \<open>extra\<close>.\<close>

lemma event_claims_fields:
  fixes e :: upstream_verified_event
  defines "c \<equiv> session_claims_for_event e"
    and "d \<equiv> (if uv_result e = Verified then mapper_claims (claim_mapper (uv_provider_type e)) e else default_session_claims)"
  shows "tee_attested c = tee_attested d" "gpu_attested c = gpu_attested d" "tcb_up_to_date c = tcb_up_to_date d"
    "os_known_good c = os_known_good d" "serving_software_known_good c = serving_software_known_good d"
    "model_weights_provenance c = model_weights_provenance d"
  by (simp_all add: c_def d_def session_claims_for_event_def Let_def split: option.splits json.splits)

lemma mapper_extra [simp]: "claims_extra (mapper_claims k e) = []"
  by (cases k) simp_all

lemma event_claims_extra:
  "claims_extra (session_claims_for_event e) =
     (case uv_provider_claims e of Some (Object m) \<Rightarrow> foldl (\<lambda>e (k, v). btree_insert e k v) [] m | _ \<Rightarrow> [])"
  by (auto simp: session_claims_for_event_def Let_def split: option.splits json.splits)

lemma copy_members_cong:
  "(\<And>k. k \<in> set ks \<Longrightarrow> obj_get m (lit k) = obj_get n (lit k)) \<Longrightarrow> copy_members ks m d = copy_members ks n d"
  unfolding copy_members_def by (induction ks arbitrary: d) auto

lemma per_instance_slice_cong:
  assumes "\<And>k. k \<in> {''trust_boundary'', ''evidence_scope'', ''chute_id'', ''canonical_model_id''} \<Longrightarrow>
      obj_get m (lit k) = obj_get n (lit k)"
    and "\<And>k. k \<in> {''instance_tcb_statuses'', ''instance_measurements'', ''instance_gpu''} \<Longrightarrow>
      instance_entry m k i = instance_entry n k i"
  shows "per_instance_provider_claims (Some (Object m)) i = per_instance_provider_claims (Some (Object n)) i"
proof -
  have "copy_members [''trust_boundary'', ''evidence_scope'', ''chute_id'', ''canonical_model_id''] m [] =
      copy_members [''trust_boundary'', ''evidence_scope'', ''chute_id'', ''canonical_model_id''] n []"
    by (rule copy_members_cong) (use assms(1) in auto)
  then show ?thesis using assms(2) by (simp add: per_instance_provider_claims_def)
qed

section \<open>Properties\<close>

definition claim_ok :: "claim \<Rightarrow> bool" where
  "claim_ok c \<longleftrightarrow> (cl_status c = Unknown \<longleftrightarrow> cl_source c = None) \<and> (cl_source c = None \<longleftrightarrow> cl_reason c = None)"


text \<open>
  Sibling isolation: the claims sealed for one instance of a fleet depend only on the
  shared facts and on that instance's own entries. Two events of the same provider,
  verifier and result whose provider facts agree on these give the same claims, whatever
  else differs: fleet-wide aggregates, lists, or the entries of other instances.
\<close>

theorem per_instance_claims_isolated:
  assumes "uv_provider_claims e = Some (Object m)" and "uv_provider_claims e' = Some (Object n)"
    and "uv_provider_type e = uv_provider_type e'" and "uv_verifier_id e = uv_verifier_id e'" and "uv_result e = uv_result e'"
    and "\<And>k. k \<in> {''trust_boundary'', ''evidence_scope'', ''chute_id'', ''canonical_model_id''} \<Longrightarrow>
      obj_get m (lit k) = obj_get n (lit k)"
    and "\<And>k. k \<in> {''instance_tcb_statuses'', ''instance_measurements'', ''instance_gpu''} \<Longrightarrow>
      instance_entry m k i = instance_entry n k i"
  shows "per_instance_session_claims e i = per_instance_session_claims e' i"
  using per_instance_slice_cong [OF assms(6,7)] assms(1-5) by (simp add: per_instance_session_claims_def)

theorem per_instance_claims_isolated_witness:
  "per_instance_session_claims (default_upstream_verified_event\<lparr>uv_provider_claims :=
     Some (Object [(lit ''instance_gpu'', Object [(lit ''a'', Null)])])\<rparr>) (lit ''a'') =
   per_instance_session_claims (default_upstream_verified_event\<lparr>uv_provider_claims :=
     Some (Object [(lit ''gpu_verified'', Bool True),
                   (lit ''instance_gpu'', Object [(lit ''b'', Bool True), (lit ''a'', Null)])])\<rparr>) (lit ''a'')"
  by (rule per_instance_claims_isolated [of _ "[(lit ''instance_gpu'', Object [(lit ''a'', Null)])]" _
        "[(lit ''gpu_verified'', Bool True), (lit ''instance_gpu'', Object [(lit ''b'', Bool True), (lit ''a'', Null)])]"])
     (auto simp: instance_entry_def)

text \<open>
  The provider's facts are kept verbatim: for a well-formed object of facts, verified
  or not, every member of it and nothing else is in the session's \<open>extra\<close> members, which
  are in strictly ascending key order.
\<close>

theorem provider_claims_preserved:
  assumes "uv_provider_claims e = Some (Object m)" and "wf_json (Object m)"
  shows "obj_get (claims_extra (session_claims_for_event e)) k = obj_get m k
    \<and> sorted_wrt (<) (keys (claims_extra (session_claims_for_event e)))"
  using btree_insert_all [of "[]" m k] assms by (auto simp: event_claims_extra split: option.splits)

theorem provider_claims_preserved_witness:
  "claims_extra (session_claims_for_event (default_upstream_verified_event\<lparr>uv_provider_claims :=
     Some (Object [(lit ''b'', Null), (lit ''a'', Bool True)])\<rparr>)) = [(lit ''a'', Bool True), (lit ''b'', Null)] \<and>
   sorted_wrt (<) (keys (claims_extra (session_claims_for_event (default_upstream_verified_event\<lparr>uv_provider_claims :=
     Some (Object [(lit ''b'', Null), (lit ''a'', Bool True)])\<rparr>))))"
  using provider_claims_preserved [of "default_upstream_verified_event\<lparr>uv_provider_claims :=
     Some (Object [(lit ''b'', Null), (lit ''a'', Bool True)])\<rparr>" "[(lit ''b'', Null), (lit ''a'', Bool True)]"]
  by (simp add: event_claims_extra lit_def less_uchar_def)

end
