(* ===== verification/Error_Responses.thy ===== *)
theory Error_Responses
  imports Strings Json "HOL-Library.AList" "HOL-Library.Sublist"
begin

text \<open>
  Client-facing error responses, \<open>src/middleware/errors.rs\<close>: the envelope of each API
  surface, the mapping of upstream statuses, the rebuilding of upstream errors and the
  recognition of errors caused by an image URL of the client's own request. JSON text is
  read and written by the \<open>serde_json\<close> crate, header names and values are checked by the
  \<open>http\<close> crate; both are parameters. Status codes are only compared, so they are naturals.
\<close>

record serde_json =
  from_slice :: "bytes \<Rightarrow> json option"
  to_vec :: "json \<Rightarrow> bytes option"
  from_slice_error :: "bytes \<Rightarrow> str"
  to_vec_error :: "json \<Rightarrow> str"

record http_response =
  hr_status :: nat
  hr_headers :: "(str \<times> str) list"
  hr_body :: bytes

definition unwrap_or_default :: "'a list option \<Rightarrow> 'a list" where
  "unwrap_or_default x = (case x of Some v \<Rightarrow> v | None \<Rightarrow> [])"

section \<open>Statuses and types\<close>

datatype surface = Openai | Anthropic

definition error_type :: "surface \<Rightarrow> nat \<Rightarrow> str" where
  "error_type surface status =
     (case surface of
        Anthropic \<Rightarrow>
          if status = 400 then lit ''invalid_request_error''
          else if status = 401 then lit ''authentication_error''
          else if status = 402 then lit ''billing_error''
          else if status = 403 then lit ''permission_error''
          else if status = 404 then lit ''not_found_error''
          else if status = 429 then lit ''rate_limit_error''
          else if status = 504 then lit ''timeout_error''
          else if status \<ge> 500 then lit ''api_error''
          else lit ''invalid_request_error''
      | Openai \<Rightarrow>
          if status = 401 then lit ''authentication_error''
          else if status = 402 then lit ''insufficient_quota''
          else if status = 403 then lit ''permission_error''
          else if status = 404 then lit ''not_found_error''
          else if status = 429 then lit ''rate_limit_error''
          else if status = 503 then lit ''service_unavailable''
          else if status = 504 then lit ''timeout_error''
          else if status \<ge> 500 then lit ''upstream_error''
          else lit ''invalid_request_error'')"

definition map_upstream_status :: "nat \<Rightarrow> nat" where
  "map_upstream_status status =
     (if status \<in> {400, 404, 422} then status
      else if status = 429 then 429
      else if status = 503 then 503
      else if status = 504 then 504
      else 502)"

definition is_actionable_client_error :: "nat \<Rightarrow> bool" where
  "is_actionable_client_error status \<longleftrightarrow>
     400 \<le> status \<and> status < 500 \<and> \<not> (401 \<le> status \<and> status \<le> 403 \<or> status = 429)"

definition upstream_message :: "nat \<Rightarrow> str" where
  "upstream_message status =
     (if 401 \<le> status \<and> status \<le> 403 then lit ''The upstream provider is currently unavailable''
      else if status = 429 then lit ''Rate limit exceeded. Please retry after some time.''
      else if status = 503 then lit ''The model is currently unavailable. Please try again later.''
      else if status = 504 then lit ''The upstream provider timed out''
      else lit ''The upstream provider returned an error'')"

section \<open>Envelopes\<close>

definition envelope :: "surface \<Rightarrow> str \<Rightarrow> str \<Rightarrow> str option \<Rightarrow> json" where
  "envelope surface ty message request_id =
     (case surface of
        Anthropic \<Rightarrow>
          let value = [(lit ''type'', JString (lit ''error'')),
                       (lit ''error'', Object [(lit ''type'', JString ty), (lit ''message'', JString message)])]
          in Object (case request_id of None \<Rightarrow> value | Some r \<Rightarrow> obj_insert value (lit ''request_id'') (JString r))
      | Openai \<Rightarrow> Object [(lit ''error'', Object [(lit ''message'', JString message), (lit ''type'', JString ty)])])"

definition envelope_bytes :: "serde_json \<Rightarrow> surface \<Rightarrow> str \<Rightarrow> str \<Rightarrow> str option \<Rightarrow> bytes" where
  "envelope_bytes sj surface ty message request_id =
     unwrap_or_default (to_vec sj (envelope surface ty message request_id))"

text \<open>\<open>body["error"]["code"] = ...\<close> on an object whose member \<open>error\<close> is an object.\<close>

definition set_error_code :: "json \<Rightarrow> str \<Rightarrow> json" where
  "set_error_code body code =
     (case body of
        Object m \<Rightarrow>
          (case obj_get m (lit ''error'') of
             Some (Object err) \<Rightarrow>
               Object (obj_insert m (lit ''error'') (Object (obj_insert err (lit ''code'') (JString code))))
           | _ \<Rightarrow> body)
      | _ \<Rightarrow> body)"

definition rate_limit_envelope :: "surface \<Rightarrow> str \<Rightarrow> str option \<Rightarrow> json" where
  "rate_limit_envelope surface message request_id =
     (let body = envelope surface (lit ''rate_limit_error'') message request_id
      in if surface = Openai then set_error_code body (lit ''rate_limit_exceeded'') else body)"

definition rate_limit_envelope_bytes :: "serde_json \<Rightarrow> surface \<Rightarrow> str \<Rightarrow> str option \<Rightarrow> bytes" where
  "rate_limit_envelope_bytes sj surface message request_id =
     unwrap_or_default (to_vec sj (rate_limit_envelope surface message request_id))"

text \<open>
  \<open>i64\<close> arithmetic wraps. The clock is read once, as seconds of a \<open>u64\<close> cast to \<open>i64\<close>;
  a clock before the epoch counts as 0.
\<close>

definition i64_wrap :: "int \<Rightarrow> int" where
  "i64_wrap x = (x + 2 ^ 63) mod 2 ^ 64 - 2 ^ 63"

definition i64_to_string :: "int \<Rightarrow> str" where
  "i64_to_string i = latin1 (dec_int i)"

definition rate_limit_headers :: "u64 option \<Rightarrow> int \<Rightarrow> int \<Rightarrow> (str \<times> str) list" where
  "rate_limit_headers clock limit reset_at =
     (let now = (case clock of Some secs \<Rightarrow> i64_wrap (uint secs) | None \<Rightarrow> 0);
          retry_after = max (i64_wrap (reset_at - now)) 1
      in [(lit ''X-RateLimit-Limit'', i64_to_string limit),
          (lit ''X-RateLimit-Remaining'', lit ''0''),
          (lit ''X-RateLimit-Reset'', i64_to_string reset_at),
          (lit ''Retry-After'', i64_to_string retry_after)])"

text \<open>\<open>HeaderMap::insert\<close> replaces the values of a name.\<close>

record http_headers =
  header_name :: "str \<Rightarrow> str option"
  header_value :: "str \<Rightarrow> str option"

definition status_code :: "nat \<Rightarrow> nat" where
  "status_code status = (if 100 \<le> status \<and> status < 1000 then status else 502)"

definition insert_header :: "http_headers \<Rightarrow> str \<times> str \<Rightarrow> (str \<times> str) list \<Rightarrow> (str \<times> str) list" where
  "insert_header hh nv headers =
     (case (header_name hh (fst nv), header_value hh (snd nv)) of
        (Some name, Some value) \<Rightarrow> AList.update name value headers
      | _ \<Rightarrow> headers)"

definition json_response :: "serde_json \<Rightarrow> http_headers \<Rightarrow> json \<Rightarrow> nat \<Rightarrow> (str \<times> str) list \<Rightarrow> http_response" where
  "json_response sj hh body status extra_headers =
     \<lparr>hr_status = status_code status,
      hr_headers = fold (insert_header hh) extra_headers [(lit ''content-type'', lit ''application/json'')],
      hr_body = unwrap_or_default (to_vec sj body)\<rparr>"

definition surface_error_response ::
    "serde_json \<Rightarrow> http_headers \<Rightarrow> surface \<Rightarrow> nat \<Rightarrow> str \<Rightarrow> str \<Rightarrow> str option \<Rightarrow> http_response" where
  "surface_error_response sj hh surface status ty message request_id =
     json_response sj hh (envelope surface ty message request_id) status []"

definition rate_limit_response ::
    "serde_json \<Rightarrow> http_headers \<Rightarrow> u64 option \<Rightarrow> surface \<Rightarrow> str \<Rightarrow> int \<Rightarrow> int \<Rightarrow> str option \<Rightarrow> http_response" where
  "rate_limit_response sj hh clock surface message limit reset_at request_id =
     json_response sj hh (rate_limit_envelope surface message request_id) 429 (rate_limit_headers clock limit reset_at)"

section \<open>Image input errors\<close>

definition extract_error_message :: "serde_json \<Rightarrow> bytes \<Rightarrow> str option" where
  "extract_error_message sj body =
     (case from_slice sj body of
        None \<Rightarrow> None
      | Some value \<Rightarrow>
          (case get value (lit ''error'') of
             Some (JString message) \<Rightarrow> Some message
           | Some error \<Rightarrow> Option.bind (get error (lit ''message'')) as_str
           | None \<Rightarrow> None))"

definition starts_with :: "str \<Rightarrow> str \<Rightarrow> bool" where
  "starts_with p s \<longleftrightarrow> strip_prefix p s \<noteq> None"

definition url_host :: "str \<Rightarrow> str option" where
  "url_host url =
     (case (case strip_prefix (lit ''https://'') url of Some r \<Rightarrow> Some r | None \<Rightarrow> strip_prefix (lit ''http://'') url) of
        None \<Rightarrow> None
      | Some rest \<Rightarrow>
          let host = takeWhile (\<lambda>c. c \<notin> set (lit ''/:?#'')) rest
          in if host \<noteq> [] then Some host else None)"

definition str_contains :: "str \<Rightarrow> str \<Rightarrow> bool" where
  "str_contains p s \<longleftrightarrow> split_once_str p s \<noteq> None"

text \<open>\<open>str::split\<close> on a predicate: the pieces between separators, empty ones included.\<close>

fun split_where :: "(uchar \<Rightarrow> bool) \<Rightarrow> str \<Rightarrow> str list" where
  "split_where p [] = [[]]"
| "split_where p (c # cs) =
     (if p c then [] # split_where p cs
      else case split_where p cs of [] \<Rightarrow> [[c]] | w # ws \<Rightarrow> (c # w) # ws)"

definition is_ascii_alphanumeric :: "uchar \<Rightarrow> bool" where
  "is_ascii_alphanumeric c \<longleftrightarrow>
     48 \<le> code_point c \<and> code_point c \<le> 57 \<or> 65 \<le> code_point c \<and> code_point c \<le> 90
     \<or> 97 \<le> code_point c \<and> code_point c \<le> 122"

definition host_char :: "uchar \<Rightarrow> bool" where
  "host_char c \<longleftrightarrow> is_ascii_alphanumeric c \<or> c = ch CHR ''.'' \<or> c = ch CHR ''-''"

definition message_references_host :: "str \<Rightarrow> str \<Rightarrow> bool" where
  "message_references_host message host \<longleftrightarrow>
     ch CHR ''.'' \<in> set host \<and> list_ex (\<lambda>token. token = host) (split_where (\<lambda>c. \<not> host_char c) message)"

definition image_part_url :: "json \<Rightarrow> str option" where
  "image_part_url part =
     (case Option.bind (get part (lit ''type'')) as_str of
        None \<Rightarrow> None
      | Some ty \<Rightarrow>
          if ty = lit ''image_url'' \<or> ty = lit ''input_image'' then
            (case get part (lit ''image_url'') of
               None \<Rightarrow> None
             | Some image_url \<Rightarrow>
                 (case as_str image_url of
                    Some s \<Rightarrow> Some s
                  | None \<Rightarrow> Option.bind (get image_url (lit ''url'')) as_str))
          else if ty = lit ''image'' then
            (case get part (lit ''source'') of
               None \<Rightarrow> None
             | Some source \<Rightarrow>
                 if Option.bind (get source (lit ''type'')) as_str = Some (lit ''url'')
                 then Option.bind (get source (lit ''url'')) as_str else None)
          else None)"

text \<open>The parts of one item: the item itself, then its \<open>content\<close> array.\<close>

definition item_parts :: "json \<Rightarrow> json list" where
  "item_parts item = item # unwrap_or_default (Option.bind (get item (lit ''content'')) as_array)"

definition remote_url :: "json \<Rightarrow> str list" where
  "remote_url part =
     (case image_part_url part of
        Some url \<Rightarrow> if starts_with (lit ''https://'') url \<or> starts_with (lit ''http://'') url then [url] else []
      | None \<Rightarrow> [])"

definition remote_image_urls :: "serde_json \<Rightarrow> bytes \<Rightarrow> str list" where
  "remote_image_urls sj request_body =
     (case from_utf8 request_body of
        None \<Rightarrow> []
      | Some t \<Rightarrow>
          if \<not> str_contains (lit ''image'') t then []
          else
            (case from_slice sj (as_bytes t) of
               None \<Rightarrow> []
             | Some value \<Rightarrow>
                 concat (map (\<lambda>key. concat (map (\<lambda>item. concat (map remote_url (item_parts item)))
                                       (unwrap_or_default (Option.bind (get value key) as_array))))
                             [lit ''messages'', lit ''input''])))"

definition image_error_message :: "str \<Rightarrow> str" where
  "image_error_message url =
     lit ''Failed to fetch the image at the provided URL: '' @ url
     @ lit ''. Ensure the URL is correct and publicly accessible.''"

definition names_url :: "str \<Rightarrow> str \<Rightarrow> bool" where
  "names_url message url \<longleftrightarrow>
     str_contains url message
     \<or> (case url_host url of Some host \<Rightarrow> message_references_host message host | None \<Rightarrow> False)"

definition classify_image_input_error :: "serde_json \<Rightarrow> bytes \<Rightarrow> nat \<Rightarrow> bytes \<Rightarrow> str option" where
  "classify_image_input_error sj received_body upstream_status upstream_body =
     (if 200 \<le> upstream_status \<and> upstream_status < 300 then None
      else case extract_error_message sj upstream_body of
             None \<Rightarrow> None
           | Some message \<Rightarrow>
               map_option image_error_message (List.find (names_url message) (remote_image_urls sj received_body)))"

definition MESSAGES_PATH :: str where
  "MESSAGES_PATH = lit ''/v1/messages''"

definition surface_for_path :: "str \<Rightarrow> surface" where
  "surface_for_path path = (if path = MESSAGES_PATH then Anthropic else Openai)"

definition image_input_error_parts ::
    "serde_json \<Rightarrow> surface \<Rightarrow> bytes \<Rightarrow> nat \<Rightarrow> bytes \<Rightarrow> str option \<Rightarrow> (nat \<times> bytes) option" where
  "image_input_error_parts sj surface received_body upstream_status upstream_body request_id =
     map_option (\<lambda>message. (400, envelope_bytes sj surface (error_type surface 400) message request_id))
       (classify_image_input_error sj received_body upstream_status upstream_body)"

section \<open>Normalising upstream errors\<close>

definition normalize_upstream_error_parts ::
    "serde_json \<Rightarrow> surface \<Rightarrow> nat \<Rightarrow> bytes \<Rightarrow> bytes \<Rightarrow> str option \<Rightarrow> nat \<times> bytes" where
  "normalize_upstream_error_parts sj surface upstream_status body received_body request_id =
     (case image_input_error_parts sj surface received_body upstream_status body request_id of
        Some parts \<Rightarrow> parts
      | None \<Rightarrow>
          let generic =
            (let status = map_upstream_status upstream_status
             in (status, envelope_bytes sj surface (error_type surface status) (upstream_message upstream_status) request_id))
          in if is_actionable_client_error upstream_status then
               (case extract_error_message sj body of
                  Some message \<Rightarrow>
                    (upstream_status,
                     envelope_bytes sj surface (error_type surface upstream_status) message request_id)
                | None \<Rightarrow> generic)
             else generic)"

definition parts_response :: "nat \<Rightarrow> bytes \<Rightarrow> http_response" where
  "parts_response status body =
     \<lparr>hr_status = status_code status, hr_headers = [(lit ''content-type'', lit ''application/json'')], hr_body = body\<rparr>"

definition normalize_upstream_error ::
    "serde_json \<Rightarrow> surface \<Rightarrow> nat \<Rightarrow> bytes \<Rightarrow> bytes \<Rightarrow> str option \<Rightarrow> http_response" where
  "normalize_upstream_error sj surface upstream_status body received_body request_id =
     (case normalize_upstream_error_parts sj surface upstream_status body received_body request_id of
        (status, bs) \<Rightarrow> parts_response status bs)"

section \<open>Lemmas\<close>

lemma split_where_nonempty: "split_where p s \<noteq> []"
  by (cases s) (auto split: list.splits)

text \<open>A word is one of the pieces iff it has no separator and is delimited by separators or the ends.\<close>

definition stands_alone :: "(uchar \<Rightarrow> bool) \<Rightarrow> str \<Rightarrow> str \<Rightarrow> bool" where
  "stands_alone p w s \<longleftrightarrow> (\<exists>a b. s = a @ w @ b \<and> (a = [] \<or> p (last a)) \<and> (b = [] \<or> p (hd b)))"

lemma hd_split_where: "hd (split_where p s) = takeWhile (\<lambda>c. \<not> p c) s"
  by (induction s) (auto split: list.splits simp: split_where_nonempty)

lemma tl_split_where:
  "tl (split_where p s) = (case dropWhile (\<lambda>c. \<not> p c) s of [] \<Rightarrow> [] | c # r \<Rightarrow> split_where p r)"
proof (induction s)
  case (Cons c s)
  then show ?case using split_where_nonempty [of p s] by (cases "split_where p s") simp_all
qed simp

lemma split_where_unfold:
  "split_where p s = takeWhile (\<lambda>c. \<not> p c) s # (case dropWhile (\<lambda>c. \<not> p c) s of [] \<Rightarrow> [] | c # r \<Rightarrow> split_where p r)"
  by (metis hd_split_where tl_split_where list.collapse split_where_nonempty)

lemma split_where_sep: "p c \<Longrightarrow> \<forall>x \<in> set u. \<not> p x \<Longrightarrow> split_where p (u @ c # r) = u # split_where p r"
  by (subst split_where_unfold) (simp add: takeWhile_append2 dropWhile_append2)

lemma split_where_piece: "w \<in> set (split_where p s) \<longleftrightarrow> (\<forall>c \<in> set w. \<not> p c) \<and> stands_alone p w s"
proof
  show "w \<in> set (split_where p s) \<Longrightarrow> (\<forall>c \<in> set w. \<not> p c) \<and> stands_alone p w s"
  proof (induction s rule: length_induct)
    case (1 s)
    consider "w = takeWhile (\<lambda>c. \<not> p c) s"
      | c r where "dropWhile (\<lambda>c. \<not> p c) s = c # r" "w \<in> set (split_where p r)"
      using 1(2) set_ConsD [of w "takeWhile (\<lambda>c. \<not> p c) s"] split_where_unfold [of p s]
      by (cases "dropWhile (\<lambda>c. \<not> p c) s") auto
    then show ?case
    proof cases
      case 1
      have "s = [] @ w @ dropWhile (\<lambda>c. \<not> p c) s" by (simp add: 1)
      moreover have "dropWhile (\<lambda>c. \<not> p c) s = [] \<or> p (hd (dropWhile (\<lambda>c. \<not> p c) s))" 
        using hd_dropWhile [of "\<lambda>c. \<not> p c" s] by blast
      ultimately have "stands_alone p w s" unfolding stands_alone_def by blast
      with 1 show ?thesis by (auto dest: set_takeWhileD)
    next
      case (2 c r)
      have s: "s = takeWhile (\<lambda>c. \<not> p c) s @ c # r"
        using takeWhile_dropWhile_id [of "\<lambda>c. \<not> p c" s] unfolding 2(1) by (rule sym)
      have "length r < length s" using length_dropWhile_le [of "\<lambda>c. \<not> p c" s] by (simp add: 2(1))
      with 1(1) 2(2) have w: "\<forall>c \<in> set w. \<not> p c" and "stands_alone p w r" by auto
      then obtain a b where ab: "r = a @ w @ b" "a = [] \<or> p (last a)" "b = [] \<or> p (hd b)"
        unfolding stands_alone_def by blast
      have "p c" using hd_dropWhile [of "\<lambda>c. \<not> p c" s] by (simp add: 2(1))
      then have "p (last (takeWhile (\<lambda>c. \<not> p c) s @ c # a))" using ab(2) by auto
      moreover have "s = (takeWhile (\<lambda>c. \<not> p c) s @ c # a) @ w @ b" using s unfolding ab(1) by simp
      ultimately show ?thesis using ab(3) w unfolding stands_alone_def by blast
    qed
  qed
next
  have "\<forall>c \<in> set w. \<not> p c \<Longrightarrow> a = [] \<or> p (last a) \<Longrightarrow> b = [] \<or> p (hd b) \<Longrightarrow> w \<in> set (split_where p (a @ w @ b))" for a b
  proof (induction a rule: length_induct)
    case (1 a)
    show ?case
    proof (cases "a = []")
      case True
      have "takeWhile (\<lambda>c. \<not> p c) (w @ b) = w" using 1(2,4) by (cases b) (auto simp: takeWhile_append)
      then show ?thesis using True by (subst split_where_unfold) simp
    next
      case False
      then obtain u c v where a: "a = u @ c # v" "p c" "\<forall>x \<in> set u. \<not> p x"
        using 1(3) split_list_first_prop [of a p] last_in_set by blast
      then have "length v < length a" "v = [] \<or> p (last v)" using 1(3) False by (auto split: if_splits)
      with 1 have "w \<in> set (split_where p (v @ w @ b))" by blast
      then show ?thesis by (simp add: a split_where_sep)
    qed
  qed
  then show "(\<forall>c \<in> set w. \<not> p c) \<and> stands_alone p w s \<Longrightarrow> w \<in> set (split_where p s)"
    unfolding stands_alone_def by blast
qed

lemma take_prefix: "take (length p) s = p \<longleftrightarrow> prefix p s"
  by (metis append_eq_conv_conj prefix_def)

lemma str_contains_sublist: "str_contains p s \<longleftrightarrow> sublist p s"
proof (induction s)
  case Nil
  then show ?case by (simp add: str_contains_def split_once_str.simps [of p "[]"])
next
  case (Cons x xs)
  then show ?case
    by (cases "split_once_str p xs")
       (auto simp: str_contains_def split_once_str.simps [of p "x # xs"] sublist_Cons_right take_prefix)
qed

lemma names_url_iff:
  "names_url message url \<longleftrightarrow> sublist url message
     \<or> (\<exists>host. url_host url = Some host \<and> ch CHR ''.'' \<in> set host \<and> (\<forall>c \<in> set host. host_char c)
          \<and> stands_alone (\<lambda>c. \<not> host_char c) host message)"
  by (cases "url_host url")
     (auto simp: names_url_def str_contains_sublist message_references_host_def list_ex_iff split_where_piece)

lemma find_not_None: "List.find P xs \<noteq> None \<longleftrightarrow> (\<exists>x \<in> set xs. P x)"
  by (auto simp: find_None_iff)

lemma is_actionable_error: "is_actionable_client_error status \<Longrightarrow> 400 \<le> status \<and> status < 600"
  by (simp add: is_actionable_client_error_def)

lemma map_upstream_status_error: "400 \<le> map_upstream_status status \<and> map_upstream_status status < 600"
  by (auto simp: map_upstream_status_def)

lemma image_input_error_Some:
  "image_input_error_parts sj surface rb us ub rid = Some (st, bs) \<Longrightarrow>
     \<exists>url \<in> set (remote_image_urls sj rb).
       st = 400 \<and> bs = envelope_bytes sj surface (error_type surface 400) (image_error_message url) rid"
  by (auto simp: image_input_error_parts_def classify_image_input_error_def find_Some_iff
      split: if_splits option.splits)

text \<open>What a rebuilt error can say.\<close>

definition permitted_message :: "serde_json \<Rightarrow> nat \<Rightarrow> bytes \<Rightarrow> bytes \<Rightarrow> nat \<Rightarrow> str \<Rightarrow> bool" where
  "permitted_message sj upstream_status body received_body status message \<longleftrightarrow>
     message = upstream_message upstream_status \<and> status = map_upstream_status upstream_status
     \<or> is_actionable_client_error upstream_status \<and> extract_error_message sj body = Some message \<and> status = upstream_status
     \<or> (\<exists>url \<in> set (remote_image_urls sj received_body). message = image_error_message url \<and> status = 400)"

lemma normalize_permitted:
  assumes "normalize_upstream_error_parts sj surface us body rb rid = (status, bs)"
  shows "\<exists>message. bs = envelope_bytes sj surface (error_type surface status) message rid
    \<and> permitted_message sj us body rb status message"
proof (cases "image_input_error_parts sj surface rb us body rid")
  case None
  then show ?thesis
    using assms unfolding permitted_message_def
    by (cases "is_actionable_client_error us"; cases "extract_error_message sj body")
       (auto simp: normalize_upstream_error_parts_def Let_def)
next
  case (Some parts)
  then have "image_input_error_parts sj surface rb us body rid = Some (status, bs)"
    using assms by (simp add: normalize_upstream_error_parts_def)
  from image_input_error_Some [OF this] show ?thesis unfolding permitted_message_def by blast
qed

lemma permitted_status: "permitted_message sj us body rb status message \<Longrightarrow> 400 \<le> status \<and> status < 600"
  using map_upstream_status_error is_actionable_error by (auto simp: permitted_message_def)

lemma no_images_no_classification:
  "remote_image_urls sj rb = [] \<Longrightarrow> image_input_error_parts sj surface rb us body rid = None"
  by (simp add: image_input_error_parts_def classify_image_input_error_def split: option.splits)

lemma normalize_ignores_body:
  assumes "\<not> is_actionable_client_error us" "remote_image_urls sj rb = []"
  shows "normalize_upstream_error_parts sj surface us body rb rid = normalize_upstream_error_parts sj surface us body' rb rid"
  by (simp add: normalize_upstream_error_parts_def no_images_no_classification [OF assms(2)] assms(1))

section \<open>Properties\<close>

text \<open>
  C26. Provider detail is contained: whatever an upstream answers, the client gets an
  error status, a body that is the gateway's own envelope of the surface with the type of
  that status, and a message that is a fixed text for the status, or the provider's own
  message under an unchanged status that blames the request, or the text about an image
  URL the client itself sent. For a request with no remote image URL and any status that
  does not blame the request, the response does not depend on the upstream's body.
\<close>

theorem upstream_detail_contained:
  "\<exists>status message.
     normalize_upstream_error sj surface us body rb rid =
       \<lparr>hr_status = status, hr_headers = [(lit ''content-type'', lit ''application/json'')],
        hr_body = envelope_bytes sj surface (error_type surface status) message rid\<rparr>
     \<and> 400 \<le> status \<and> status < 600 \<and> permitted_message sj us body rb status message
     \<and> (\<not> is_actionable_client_error us \<and> remote_image_urls sj rb = [] \<longrightarrow>
          (\<forall>body'. normalize_upstream_error sj surface us body' rb rid = normalize_upstream_error sj surface us body rb rid))"
proof -
  obtain status bs where n: "normalize_upstream_error_parts sj surface us body rb rid = (status, bs)" by fastforce
  obtain message where m: "bs = envelope_bytes sj surface (error_type surface status) message rid"
    "permitted_message sj us body rb status message" using normalize_permitted [OF n] by blast
  note b = permitted_status [OF m(2)]
  have "normalize_upstream_error sj surface us body' rb rid = normalize_upstream_error sj surface us body rb rid"
    if "\<not> is_actionable_client_error us" "remote_image_urls sj rb = []" for body'
    using normalize_ignores_body [OF that, of surface body' rid body] by (simp add: normalize_upstream_error_def)
  with b m show ?thesis
    by (intro exI [of _ status] exI [of _ message]) (simp add: normalize_upstream_error_def n parts_response_def status_code_def)
qed

definition sample_serde :: serde_json where
  "sample_serde = \<lparr>from_slice = (\<lambda>_. Some (Object [(lit ''error'', JString (lit ''secret''))])),
                   to_vec = (\<lambda>_. Some []), from_slice_error = (\<lambda>_. []), to_vec_error = (\<lambda>_. [])\<rparr>"

theorem upstream_detail_contained_witness:
  "\<not> is_actionable_client_error 500 \<and> remote_image_urls sample_serde [] = []
   \<and> normalize_upstream_error sample_serde Openai 500 [1] [] None = normalize_upstream_error sample_serde Openai 500 [] [] None"
proof -
  have "\<not> is_actionable_client_error 500" "remote_image_urls sample_serde [] = []"
    by (simp_all add: is_actionable_client_error_def remote_image_urls_def from_utf8.simps str_contains_sublist)
  then show ?thesis using upstream_detail_contained [of sample_serde Openai 500 "[]" "[]" None] by blast
qed

text \<open>
  An upstream error is taken for a failed image fetch exactly when it is not a
  success, has a message, and the request has a remote image URL that the message
  contains, or whose host is a dotted name the message has as a whole word (delimited by
  characters that are not host characters, or by the ends of the message).
\<close>

theorem image_error_iff:
  "classify_image_input_error sj rb us ub \<noteq> None \<longleftrightarrow>
     \<not> (200 \<le> us \<and> us < 300) \<and>
     (\<exists>message url. extract_error_message sj ub = Some message \<and> url \<in> set (remote_image_urls sj rb) \<and>
        (sublist url message
         \<or> (\<exists>host. url_host url = Some host \<and> ch CHR ''.'' \<in> set host \<and> list_all host_char host
              \<and> stands_alone (\<lambda>c. \<not> host_char c) host message)))"
proof (cases "extract_error_message sj ub")
  case (Some message)
  have "classify_image_input_error sj rb us ub \<noteq> None \<longleftrightarrow>
    \<not> (200 \<le> us \<and> us < 300) \<and> List.find (names_url message) (remote_image_urls sj rb) \<noteq> None"
    by (simp add: classify_image_input_error_def Some)
  then show ?thesis unfolding find_not_None names_url_iff by (simp add: Some list_all_iff Bex_def)
qed (simp add: classify_image_input_error_def)

end
