(* ===== verification/Upstream.thy ===== *)
theory Upstream
  imports Error_Responses Receipt
begin

text \<open>
  Upstream requests, responses and errors, the \<open>UpstreamBackend\<close> trait with its default
  methods (\<open>src/aci/upstream/mod.rs\<close>), the model field of a request body
  (\<open>src/aci/upstream/openai.rs\<close>) and the model router (\<open>src/aci/upstream/router.rs\<close>).
  A backend is a record of its methods over a state \<open>'u\<close> of the outside world; the HTTP
  clients behind a concrete backend are a parameter. A response stream is the list of
  what its polls give. The text of a debug-formatted string (\<open>{:?}\<close>) is a parameter.
\<close>

section \<open>Requests, responses, errors\<close>

record upstream_request =
  urq_body :: bytes
  urq_headers :: "(str \<times> str) list"
  urq_path :: "str option"
  urq_target_route_id :: "str option"

definition default_upstream_request :: upstream_request where
  "default_upstream_request = \<lparr>urq_body = [], urq_headers = [], urq_path = None, urq_target_route_id = None\<rparr>"

record prepared_request =
  pr_request :: upstream_request
  pr_upstream_name :: str
  pr_url_origin :: "str option"
  pr_model_id :: str
  pr_route_id :: "str option"
  pr_is_tee :: "bool option"

record upstream_response =
  us_status_code :: nat
  us_body :: bytes
  us_headers :: "(str \<times> str) list"
  us_served_instance_id :: "str option"

datatype upstream_error =
    Routing str
  | Transport str
  | ChannelBindingMismatch str
  | UpstreamRejected nat str

text \<open>What one poll of a stream gives; a stream is the list of its polls, then its end.\<close>

datatype 'a poll = Pending | Ready 'a

type_synonym body_stream = "(upstream_error + bytes) poll list"

record stream_response =
  ss_status_code :: nat
  ss_headers :: "(str \<times> str) list"
  ss_body :: body_stream
  ss_served_instance_id :: "str option"

section \<open>The model field\<close>

definition request_model_id :: "serde_json \<Rightarrow> bytes \<Rightarrow> str option" where
  "request_model_id sj body =
     (if body = [] then None
      else case from_slice sj body of
             None \<Rightarrow> None
           | Some parsed \<Rightarrow> Option.bind (get parsed (lit ''model'')) as_str)"

definition rewrite_request_model :: "serde_json \<Rightarrow> bytes \<Rightarrow> str \<Rightarrow> upstream_error + bytes" where
  "rewrite_request_model sj body upstream_model_id =
     (case from_slice sj body of
        None \<Rightarrow> Inl (Routing (lit ''invalid JSON request body: '' @ from_slice_error sj body))
      | Some (Object m) \<Rightarrow>
          (case obj_get m (lit ''model'') of
             Some (JString _) \<Rightarrow>
               let parsed = Object (obj_insert m (lit ''model'') (JString upstream_model_id))
               in (case to_vec sj parsed of Some bs \<Rightarrow> Inr bs | None \<Rightarrow> Inl (Routing (to_vec_error sj parsed)))
           | _ \<Rightarrow> Inl (Routing (lit ''request body must contain a string model field'')))
      | Some _ \<Rightarrow> Inl (Routing (lit ''request body must be a JSON object'')))"

section \<open>The backend trait\<close>

record 'u backend =
  be_name :: str
  be_url_origin :: "str option"
  be_prepare :: "upstream_request \<Rightarrow> upstream_error + prepared_request"
  be_forward :: "'u \<Rightarrow> upstream_request \<Rightarrow> (upstream_error + upstream_response) \<times> 'u"
  be_forward_prepared :: "'u \<Rightarrow> prepared_request \<Rightarrow> (upstream_error + upstream_response) \<times> 'u"
  be_forward_verified_prepared ::
    "'u \<Rightarrow> prepared_request \<Rightarrow> upstream_verified_event \<Rightarrow> (upstream_error + upstream_response) \<times> 'u"
  be_forward_stream :: "'u \<Rightarrow> upstream_request \<Rightarrow> (upstream_error + stream_response) \<times> 'u"
  be_forward_stream_prepared :: "'u \<Rightarrow> prepared_request \<Rightarrow> (upstream_error + stream_response) \<times> 'u"
  be_forward_stream_verified_prepared ::
    "'u \<Rightarrow> prepared_request \<Rightarrow> upstream_verified_event \<Rightarrow> (upstream_error + stream_response) \<times> 'u"

definition default_prepare ::
    "serde_json \<Rightarrow> str \<Rightarrow> str option \<Rightarrow> upstream_request \<Rightarrow> upstream_error + prepared_request" where
  "default_prepare sj name url_origin req =
     Inr \<lparr>pr_request = req, pr_upstream_name = name, pr_url_origin = url_origin,
          pr_model_id = unwrap_or_default (request_model_id sj (urq_body req)), pr_route_id = None, pr_is_tee = None\<rparr>"

definition cannot_enforce :: "str \<Rightarrow> upstream_error" where
  "cannot_enforce name =
     Transport (lit ''backend '' @ name @ lit '' cannot enforce upstream channel bindings'')"

definition default_forward_verified_prepared ::
    "str \<Rightarrow> ('u \<Rightarrow> prepared_request \<Rightarrow> (upstream_error + 'r) \<times> 'u) \<Rightarrow>
     'u \<Rightarrow> prepared_request \<Rightarrow> upstream_verified_event \<Rightarrow> (upstream_error + 'r) \<times> 'u" where
  "default_forward_verified_prepared name forward_prepared u req event =
     (if uv_channel_bindings event \<noteq> [] then (Inl (cannot_enforce name), u) else forward_prepared u req)"

definition default_forward_stream ::
    "('u \<Rightarrow> upstream_request \<Rightarrow> (upstream_error + upstream_response) \<times> 'u) \<Rightarrow>
     'u \<Rightarrow> upstream_request \<Rightarrow> (upstream_error + stream_response) \<times> 'u" where
  "default_forward_stream forward u req =
     (case forward u req of
        (Inl e, u') \<Rightarrow> (Inl e, u')
      | (Inr response, u') \<Rightarrow>
          (Inr \<lparr>ss_status_code = us_status_code response, ss_headers = us_headers response,
                ss_body = [Ready (Inr (us_body response))], ss_served_instance_id = us_served_instance_id response\<rparr>, u'))"

text \<open>A backend that only gives its name, origin and \<open>forward\<close>, with every default method.\<close>

definition plain_backend ::
    "serde_json \<Rightarrow> str \<Rightarrow> str option \<Rightarrow>
     ('u \<Rightarrow> upstream_request \<Rightarrow> (upstream_error + upstream_response) \<times> 'u) \<Rightarrow> 'u backend" where
  "plain_backend sj name url_origin forward =
     (let forward_prepared = (\<lambda>u req. forward u (pr_request req));
          forward_stream = default_forward_stream forward;
          forward_stream_prepared = (\<lambda>u req. forward_stream u (pr_request req))
      in \<lparr>be_name = name, be_url_origin = url_origin, be_prepare = default_prepare sj name url_origin,
          be_forward = forward, be_forward_prepared = forward_prepared,
          be_forward_verified_prepared = default_forward_verified_prepared name forward_prepared,
          be_forward_stream = forward_stream, be_forward_stream_prepared = forward_stream_prepared,
          be_forward_stream_verified_prepared = default_forward_verified_prepared name forward_stream_prepared\<rparr>)"

section \<open>The model router\<close>

record 'u model_route =
  mr_public_model_id :: str
  mr_upstream_model_id :: str
  mr_upstream :: "'u backend"
  mr_route_id :: str
  mr_path :: "str option"
  mr_is_tee :: "bool option"

definition new_model_route :: "str \<Rightarrow> str \<Rightarrow> 'u backend \<Rightarrow> str \<Rightarrow> upstream_error + 'u model_route" where
  "new_model_route public_model_id upstream_model_id upstream route_id =
     (if trim public_model_id = [] then Inl (Routing (lit ''public model id must not be empty''))
      else if trim upstream_model_id = [] then Inl (Routing (lit ''upstream model id must not be empty''))
      else if trim route_id = [] then Inl (Routing (lit ''route id must not be empty''))
      else Inr \<lparr>mr_public_model_id = public_model_id, mr_upstream_model_id = upstream_model_id,
                mr_upstream = upstream, mr_route_id = route_id, mr_path = None, mr_is_tee = None\<rparr>)"

definition with_path :: "'u model_route \<Rightarrow> str option \<Rightarrow> 'u model_route" where
  "with_path route path =
     route\<lparr>mr_path := map_option (\<lambda>p. if \<not> starts_with (lit ''/'') p then lit ''/'' @ p else p) path\<rparr>"

definition with_is_tee :: "'u model_route \<Rightarrow> bool option \<Rightarrow> 'u model_route" where
  "with_is_tee route is_tee = route\<lparr>mr_is_tee := is_tee\<rparr>"

record 'u model_router =
  mo_name :: str
  mo_routes :: "(str \<times> 'u model_route) list"
  mo_default_routes :: "(str \<times> str) list"
  mo_order :: "str list"

definition new_model_router :: "str \<Rightarrow> 'u model_router" where
  "new_model_router name = \<lparr>mo_name = name, mo_routes = [], mo_default_routes = [], mo_order = []\<rparr>"

definition add_route ::
    "(str \<Rightarrow> str) \<Rightarrow> 'u model_router \<Rightarrow> 'u model_route \<Rightarrow> upstream_error + 'u model_router" where
  "add_route dbg r route =
     (if map_of (mo_routes r) (mr_route_id route) \<noteq> None
      then Inl (Routing (lit ''duplicate route id '' @ dbg (mr_route_id route)))
      else
        let r = (if map_of (mo_default_routes r) (mr_public_model_id route) = None
                 then r\<lparr>mo_order := mo_order r @ [mr_public_model_id route],
                        mo_default_routes := AList.update (mr_public_model_id route) (mr_route_id route) (mo_default_routes r)\<rparr>
                 else r)
        in Inr (r\<lparr>mo_routes := AList.update (mr_route_id route) route (mo_routes r)\<rparr>))"

definition route_for_id :: "(str \<Rightarrow> str) \<Rightarrow> 'u model_router \<Rightarrow> str \<Rightarrow> upstream_error + 'u model_route" where
  "route_for_id dbg r route_id =
     (case map_of (mo_routes r) route_id of
        Some route \<Rightarrow> Inr route
      | None \<Rightarrow> Inl (Routing (lit ''unknown target route '' @ dbg route_id)))"

definition route_for :: "(str \<Rightarrow> str) \<Rightarrow> 'u model_router \<Rightarrow> str \<Rightarrow> upstream_error + 'u model_route" where
  "route_for dbg r public_model_id =
     (case map_of (mo_default_routes r) public_model_id of
        Some route_id \<Rightarrow> route_for_id dbg r route_id
      | None \<Rightarrow> Inl (Routing (lit ''no upstream route for model '' @ dbg public_model_id)))"

definition route_from_prepared ::
    "(str \<Rightarrow> str) \<Rightarrow> 'u model_router \<Rightarrow> prepared_request \<Rightarrow> upstream_error + 'u model_route" where
  "route_from_prepared dbg r req =
     (case pr_route_id req of
        Some route_id \<Rightarrow> route_for_id dbg r route_id
      | None \<Rightarrow> Inl (Routing (lit ''prepared router request is missing route id'')))"

definition CHAT_COMPLETIONS_PATH :: str where
  "CHAT_COMPLETIONS_PATH = lit ''/v1/chat/completions''"

definition router_prepare ::
    "serde_json \<Rightarrow> (str \<Rightarrow> str) \<Rightarrow> 'u model_router \<Rightarrow> upstream_request \<Rightarrow> upstream_error + prepared_request" where
  "router_prepare sj dbg r req =
     (case request_model_id sj (urq_body req) of
        None \<Rightarrow> Inl (Routing (lit ''request body must contain a string model field''))
      | Some body_model_id \<Rightarrow>
          bind_result (case urq_target_route_id req of
                         Some route_id \<Rightarrow> route_for_id dbg r route_id
                       | None \<Rightarrow> route_for dbg r body_model_id) (\<lambda>route.
          bind_result (rewrite_request_model sj (urq_body req) (mr_upstream_model_id route)) (\<lambda>body.
            let request = req\<lparr>urq_body := body\<rparr>;
                on_chat_surface = (case urq_path request of
                    Some path \<Rightarrow> path = CHAT_COMPLETIONS_PATH \<or> path = MESSAGES_PATH
                  | None \<Rightarrow> True);
                request = (if on_chat_surface
                  then request\<lparr>urq_path := Some (case mr_path route of Some p \<Rightarrow> p | None \<Rightarrow> CHAT_COMPLETIONS_PATH)\<rparr>
                  else request)
            in Inr \<lparr>pr_request = request, pr_upstream_name = be_name (mr_upstream route),
                    pr_url_origin = be_url_origin (mr_upstream route),
                    pr_model_id = mr_upstream_model_id route,
                    pr_route_id = Some (mr_route_id route), pr_is_tee = mr_is_tee route\<rparr>)))"

text \<open>Every forwarding method finds the route of the prepared request and calls its backend.\<close>

definition on_route ::
    "(str \<Rightarrow> str) \<Rightarrow> 'u model_router \<Rightarrow> ('u backend \<Rightarrow> 'u \<Rightarrow> prepared_request \<Rightarrow> (upstream_error + 'r) \<times> 'u) \<Rightarrow>
     'u \<Rightarrow> prepared_request \<Rightarrow> (upstream_error + 'r) \<times> 'u" where
  "on_route dbg r call u req =
     (case route_from_prepared dbg r req of
        Inl e \<Rightarrow> (Inl e, u)
      | Inr route \<Rightarrow> call (mr_upstream route) u req)"

definition prepare_then ::
    "(upstream_request \<Rightarrow> upstream_error + prepared_request) \<Rightarrow>
     ('u \<Rightarrow> prepared_request \<Rightarrow> (upstream_error + 'r) \<times> 'u) \<Rightarrow> 'u \<Rightarrow> upstream_request \<Rightarrow> (upstream_error + 'r) \<times> 'u" where
  "prepare_then prepare call u req =
     (case prepare req of Inl e \<Rightarrow> (Inl e, u) | Inr prepared \<Rightarrow> call u prepared)"

definition router_backend :: "serde_json \<Rightarrow> (str \<Rightarrow> str) \<Rightarrow> 'u model_router \<Rightarrow> 'u backend" where
  "router_backend sj dbg r =
     (let prepare = router_prepare sj dbg r;
          forward_prepared = on_route dbg r (\<lambda>b u req. be_forward b u (pr_request req));
          forward_stream_prepared = on_route dbg r (\<lambda>b u req. be_forward_stream b u (pr_request req))
      in \<lparr>be_name = mo_name r, be_url_origin = None, be_prepare = prepare,
          be_forward = prepare_then prepare forward_prepared,
          be_forward_prepared = forward_prepared,
          be_forward_verified_prepared =
            (\<lambda>u req event. on_route dbg r (\<lambda>b u req. be_forward_verified_prepared b u req event) u req),
          be_forward_stream = prepare_then prepare forward_stream_prepared,
          be_forward_stream_prepared = forward_stream_prepared,
          be_forward_stream_verified_prepared =
            (\<lambda>u req event. on_route dbg r (\<lambda>b u req. be_forward_stream_verified_prepared b u req event) u req)\<rparr>)"

definition model_entry :: "'u model_router \<Rightarrow> 'u model_route \<Rightarrow> json" where
  "model_entry r route = Object [(lit ''id'', JString (mr_public_model_id route)), (lit ''object'', JString (lit ''model'')),
     (lit ''owned_by'', JString (mo_name r))]"

definition listed_routes :: "'u model_router \<Rightarrow> 'u model_route list" where
  "listed_routes r =
     List.map_filter (map_of (mo_routes r)) (List.map_filter (map_of (mo_default_routes r)) (mo_order r))"

definition router_models :: "serde_json \<Rightarrow> 'u model_router \<Rightarrow> upstream_error + upstream_response" where
  "router_models sj r =
     (let value = Object [(lit ''object'', JString (lit ''list'')), (lit ''data'', Array (map (model_entry r) (listed_routes r)))]
      in case to_vec sj value of
           None \<Rightarrow> Inl (Routing (to_vec_error sj value))
         | Some body \<Rightarrow>
             Inr \<lparr>us_status_code = 200, us_body = body,
                  us_headers = [(lit ''content-type'', lit ''application/json'')], us_served_instance_id = None\<rparr>)"

section \<open>What a router built from a list of routes is\<close>

text \<open>\<open>add_route\<close> over a list of routes, as the configuration loader calls it.\<close>

fun add_routes :: "(str \<Rightarrow> str) \<Rightarrow> 'u model_router \<Rightarrow> 'u model_route list \<Rightarrow> upstream_error + 'u model_router" where
  "add_routes dbg r [] = Inr r"
| "add_routes dbg r (x # xs) = bind_result (add_route dbg r x) (\<lambda>r'. add_routes dbg r' xs)"

text \<open>The routes as a list: the specification of the three tables.\<close>

definition first_route :: "'u model_route list \<Rightarrow> str \<Rightarrow> 'u model_route option" where
  "first_route rs m = List.find (\<lambda>x. mr_public_model_id x = m) rs"

definition represents :: "'u model_router \<Rightarrow> 'u model_route list \<Rightarrow> bool" where
  "represents r rs \<longleftrightarrow>
     distinct (map mr_route_id rs) \<and>
     map_of (mo_routes r) = map_of (map (\<lambda>x. (mr_route_id x, x)) rs) \<and>
     map_of (mo_default_routes r) = (\<lambda>m. map_option mr_route_id (first_route rs m)) \<and>
     mo_order r = rev (remdups (rev (map mr_public_model_id rs)))"

lemma first_route_append:
  "first_route (rs @ [x]) m = (case first_route rs m of Some y \<Rightarrow> Some y | None \<Rightarrow> if mr_public_model_id x = m then Some x else None)"
  by (induction rs) (auto simp: first_route_def)

lemma first_route_None: "first_route rs m = None \<longleftrightarrow> m \<notin> mr_public_model_id ` set rs"
  by (auto simp: first_route_def find_None_iff)

lemma first_route_SomeD: "first_route rs m = Some x \<Longrightarrow> x \<in> set rs \<and> mr_public_model_id x = m"
  by (auto simp: first_route_def find_Some_iff)

lemma route_lookup:
  "distinct (map mr_route_id rs) \<Longrightarrow>
   map_of (map (\<lambda>x. (mr_route_id x, x)) rs) i = List.find (\<lambda>x. mr_route_id x = i) rs"
  by (induction rs) auto

lemma map_of_update [simp]: "map_of (AList.update k v m) = (map_of m)(k \<mapsto> v)"
  by (rule update_conv')

lemma represents_new: "represents (new_model_router name) []"
  by (simp add: represents_def new_model_router_def first_route_def)

lemma represents_contains:
  "represents r rs \<Longrightarrow> map_of (mo_routes r) i = None \<longleftrightarrow> i \<notin> set (map mr_route_id rs)"
  by (auto simp: represents_def map_of_eq_None_iff image_image)

lemma represents_add:
  assumes r: "represents r rs" and new: "mr_route_id x \<notin> set (map mr_route_id rs)"
  shows "\<exists>r'. add_route dbg r x = Inr r' \<and> represents r' (rs @ [x]) \<and> mo_name r' = mo_name r"
proof -
  have none: "map_of (mo_routes r) (mr_route_id x) = None" using represents_contains [OF r] new by simp
  have routes: "map_of (map (\<lambda>x. (mr_route_id x, x)) (rs @ [x])) =
      (map_of (map (\<lambda>x. (mr_route_id x, x)) rs))(mr_route_id x \<mapsto> x)"
    using none r by (auto simp: represents_def map_add_def split: option.splits)
  have rr: "map_of (mo_routes r) = map_of (map (\<lambda>x. (mr_route_id x, x)) rs)"
    "map_of (mo_default_routes r) = (\<lambda>m. map_option mr_route_id (first_route rs m))"
    "mo_order r = rev (remdups (rev (map mr_public_model_id rs)))" "distinct (map mr_route_id rs)"
    using r by (simp_all add: represents_def)
  have d: "(\<lambda>m. map_option mr_route_id (first_route (rs @ [x]) m)) =
      (if first_route rs (mr_public_model_id x) = None
       then (map_of (mo_default_routes r))(mr_public_model_id x \<mapsto> mr_route_id x)
       else map_of (mo_default_routes r))"
    by (auto simp: rr(2) first_route_append fun_eq_iff split: option.splits)
  have o: "rev (remdups (rev (map mr_public_model_id (rs @ [x])))) =
      (if first_route rs (mr_public_model_id x) = None then mo_order r @ [mr_public_model_id x] else mo_order r)"
    by (simp add: rr(3) first_route_None)
  define r' where "r' = (if first_route rs (mr_public_model_id x) = None
      then r\<lparr>mo_order := mo_order r @ [mr_public_model_id x],
             mo_default_routes := AList.update (mr_public_model_id x) (mr_route_id x) (mo_default_routes r)\<rparr>
      else r)\<lparr>mo_routes := AList.update (mr_route_id x) x (mo_routes r)\<rparr>"
  have "add_route dbg r x = Inr r'" by (simp add: add_route_def none Let_def r'_def rr(2))
  moreover have "represents r' (rs @ [x])"
    unfolding represents_def d o routes using rr(4) new by (simp add: r'_def rr(1))
  ultimately show ?thesis by (simp add: r'_def)
qed

lemma add_route_duplicate:
  "represents r rs \<Longrightarrow> mr_route_id x \<in> set (map mr_route_id rs) \<Longrightarrow>
   add_route dbg r x = Inl (Routing (lit ''duplicate route id '' @ dbg (mr_route_id x)))"
  using represents_contains [of r rs "mr_route_id x"] by (simp add: add_route_def)

lemma add_routes_represents:
  "represents r rs \<Longrightarrow>
   (case add_routes dbg r xs of
      Inr r' \<Rightarrow> represents r' (rs @ xs) \<and> mo_name r' = mo_name r
    | Inl _ \<Rightarrow> \<not> distinct (map mr_route_id (rs @ xs)))"
proof (induction xs arbitrary: r rs)
  case (Cons x xs)
  show ?case
  proof (cases "mr_route_id x \<in> set (map mr_route_id rs)")
    case True
    with Cons.prems show ?thesis by (auto simp: add_route_duplicate)
  next
    case False
    then obtain r' where "add_route dbg r x = Inr r'" "represents r' (rs @ [x])" "mo_name r' = mo_name r"
      using represents_add [OF Cons.prems] by blast
    with Cons.IH [of r' "rs @ [x]"] show ?thesis by (cases "add_routes dbg r' xs") simp_all
  qed
qed simp

lemma represents_route_for_id:
  "represents r rs \<Longrightarrow> route_for_id dbg r i =
     (case List.find (\<lambda>x. mr_route_id x = i) rs of
        Some x \<Rightarrow> Inr x | None \<Rightarrow> Inl (Routing (lit ''unknown target route '' @ dbg i)))"
  by (simp add: route_for_id_def represents_def route_lookup)

lemma find_route_id:
  "distinct (map mr_route_id rs) \<Longrightarrow> x \<in> set rs \<Longrightarrow> List.find (\<lambda>y. mr_route_id y = mr_route_id x) rs = Some x"
  by (induction rs) (auto simp: image_iff)

lemma represents_route_for:
  assumes "represents r rs"
  shows "route_for dbg r m =
     (case first_route rs m of
        Some x \<Rightarrow> Inr x | None \<Rightarrow> Inl (Routing (lit ''no upstream route for model '' @ dbg m)))"
proof (cases "first_route rs m")
  case (Some x)
  with assms first_route_SomeD [OF Some] show ?thesis
    by (simp add: route_for_def represents_route_for_id [OF assms] find_route_id represents_def)
qed (use assms in \<open>simp add: route_for_def represents_def\<close>)

lemma map_filter_Some: "(\<And>x. x \<in> set xs \<Longrightarrow> f x = Some (g x)) \<Longrightarrow> List.map_filter f xs = map g xs"
  by (induction xs) (auto simp: List.map_filter_def)

lemma represents_listed:
  assumes "represents r rs"
  shows "listed_routes r = map (\<lambda>m. the (first_route rs m)) (mo_order r)"
proof -
  have order: "set (mo_order r) = mr_public_model_id ` set rs" using assms by (simp add: represents_def)
  have ex: "\<exists>x. first_route rs m = Some x" if "m \<in> set (mo_order r)" for m
    using that first_route_None [of rs m] by (auto simp: order)
  have "List.map_filter (map_of (mo_default_routes r)) (mo_order r)
      = map (\<lambda>m. mr_route_id (the (first_route rs m))) (mo_order r)"
    using assms ex by (intro map_filter_Some) (fastforce simp: represents_def)
  moreover have "List.map_filter (map_of (mo_routes r)) (map (\<lambda>m. mr_route_id (the (first_route rs m))) (mo_order r))
      = map (\<lambda>m. the (first_route rs m)) (mo_order r)"
  proof -
    have "map_of (mo_routes r) (mr_route_id (the (first_route rs m))) = Some (the (first_route rs m))"
      if "m \<in> set (mo_order r)" for m
      using ex [OF that] assms first_route_SomeD by (fastforce simp: represents_def route_lookup find_route_id)
    then have "List.map_filter (map_of (mo_routes r) \<circ> (\<lambda>m. mr_route_id (the (first_route rs m)))) (mo_order r)
      = map (\<lambda>m. the (first_route rs m)) (mo_order r)" by (intro map_filter_Some) simp
    then show ?thesis by (simp add: List.map_filter_def filter_map comp_def)
  qed
  ultimately show ?thesis by (simp add: listed_routes_def)
qed

section \<open>Preparing and dispatching\<close>

lemma rewrite_request_model_Inr:
  assumes "rewrite_request_model sj body model = Inr bs"
  shows "\<exists>m. from_slice sj body = Some (Object m) \<and> to_vec sj (Object (obj_insert m (lit ''model'') (JString model))) = Some bs"
  using assms
  by (auto simp: rewrite_request_model_def Let_def split: option.splits json.splits)

lemma router_prepare_Inr:
  assumes "router_prepare sj dbg r req = Inr p"
  obtains model route body where
    "request_model_id sj (urq_body req) = Some model"
    "(case urq_target_route_id req of Some i \<Rightarrow> route_for_id dbg r i | None \<Rightarrow> route_for dbg r model) = Inr route"
    "rewrite_request_model sj (urq_body req) (mr_upstream_model_id route) = Inr body"
    "urq_body (pr_request p) = body" "urq_headers (pr_request p) = urq_headers req"
    "urq_path (pr_request p) =
       (if urq_path req \<in> {None, Some CHAT_COMPLETIONS_PATH, Some MESSAGES_PATH}
        then Some (case mr_path route of Some q \<Rightarrow> q | None \<Rightarrow> CHAT_COMPLETIONS_PATH) else urq_path req)"
    "pr_upstream_name p = be_name (mr_upstream route)" "pr_url_origin p = be_url_origin (mr_upstream route)"
    "pr_model_id p = mr_upstream_model_id route" "pr_route_id p = Some (mr_route_id route)"
    "pr_is_tee p = mr_is_tee route"
  using assms
  by (cases "request_model_id sj (urq_body req)"; cases "urq_path req")
     (auto simp: router_prepare_def bind_result_Inr Let_def)

lemma on_route_represents:
  assumes "represents r rs" "x \<in> set rs" "pr_route_id p = Some (mr_route_id x)"
  shows "on_route dbg r call u p = call (mr_upstream x) u p"
proof -
  have "distinct (map mr_route_id rs)" using assms(1) by (simp add: represents_def)
  then show ?thesis
    by (simp add: on_route_def route_from_prepared_def assms(3) represents_route_for_id [OF assms(1)]
        find_route_id [OF _ assms(2)])
qed

lemma prepared_route:
  assumes r: "represents r rs"
    and route: "(case target of Some i \<Rightarrow> route_for_id dbg r i | None \<Rightarrow> route_for dbg r model) = Inr x"
  shows "x \<in> set rs \<and> (case target of Some i \<Rightarrow> mr_route_id x = i | None \<Rightarrow> first_route rs model = Some x)"
proof (cases target)
  case None
  with route show ?thesis by (auto simp: represents_route_for [OF r] split: option.splits dest: first_route_SomeD)
next
  case (Some i)
  with route show ?thesis by (auto simp: represents_route_for_id [OF r] find_Some_iff split: option.splits)
qed

section \<open>Properties\<close>

text \<open>
  C27. The router's three tables implement a list of routes: building it from a list
  fails exactly when two routes share an id; otherwise a route id finds the route with
  that id, a model finds the first route added for it, and the model listing has one
  entry per model, in the order the models were first added.
\<close>

theorem router_implements_route_list:
  "case add_routes dbg (new_model_router name) rs of
     Inl _ \<Rightarrow> \<not> distinct (map mr_route_id rs)
   | Inr r \<Rightarrow> distinct (map mr_route_id rs)
       \<and> (\<forall>i. route_for_id dbg r i = (case List.find (\<lambda>x. mr_route_id x = i) rs of
             Some x \<Rightarrow> Inr x | None \<Rightarrow> Inl (Routing (lit ''unknown target route '' @ dbg i))))
       \<and> (\<forall>m. route_for dbg r m = (case first_route rs m of
             Some x \<Rightarrow> Inr x | None \<Rightarrow> Inl (Routing (lit ''no upstream route for model '' @ dbg m))))
       \<and> listed_routes r = map (\<lambda>m. the (first_route rs m)) (rev (remdups (rev (map mr_public_model_id rs))))"
proof (cases "add_routes dbg (new_model_router name) rs")
  case (Inl e)
  with add_routes_represents [OF represents_new [of name], of rs dbg] show ?thesis by simp
next
  case (Inr r)
  then have r: "represents r rs"
    using add_routes_represents [OF represents_new [of name], of rs dbg] by simp
  moreover from r have "distinct (map mr_route_id rs)" "mo_order r = rev (remdups (rev (map mr_public_model_id rs)))"
    by (simp_all add: represents_def)
  ultimately show ?thesis
    using Inr by (simp add: represents_route_for_id [OF r] represents_route_for [OF r] represents_listed [OF r])
qed

text \<open>
  A prepared request goes to the upstream it names: the chosen route is the
  targeted one, or the first of the requested model; the prepared request carries that
  route's name, origin, model and classification; its body is the client's object with
  only the model replaced; and forwarding the prepared request, buffered or streaming,
  is forwarding it on that very route's backend.
\<close>

theorem prepared_request_dispatched:
  assumes "add_routes dbg (new_model_router name) rs = Inr r"
    and "router_prepare sj dbg r req = Inr p"
    and "\<And>v bs. to_vec sj v = Some bs \<Longrightarrow> from_slice sj bs = Some v"
  shows "\<exists>x m. x \<in> set rs
    \<and> (case urq_target_route_id req of
         Some i \<Rightarrow> mr_route_id x = i
       | None \<Rightarrow> \<exists>model. request_model_id sj (urq_body req) = Some model \<and> first_route rs model = Some x)
    \<and> pr_upstream_name p = be_name (mr_upstream x) \<and> pr_url_origin p = be_url_origin (mr_upstream x)
    \<and> pr_model_id p = mr_upstream_model_id x \<and> pr_is_tee p = mr_is_tee x
    \<and> from_slice sj (urq_body req) = Some (Object m)
    \<and> from_slice sj (urq_body (pr_request p)) = Some (Object (obj_insert m (lit ''model'') (JString (mr_upstream_model_id x))))
    \<and> (\<forall>u event. be_forward_verified_prepared (router_backend sj dbg r) u p event
         = be_forward_verified_prepared (mr_upstream x) u p event)
    \<and> (\<forall>u event. be_forward_stream_verified_prepared (router_backend sj dbg r) u p event
         = be_forward_stream_verified_prepared (mr_upstream x) u p event)"
proof -
  have r: "represents r rs"
    using assms(1) add_routes_represents [OF represents_new [of name], of rs dbg] by simp
  obtain model x body where p: "request_model_id sj (urq_body req) = Some model"
    "(case urq_target_route_id req of Some i \<Rightarrow> route_for_id dbg r i | None \<Rightarrow> route_for dbg r model) = Inr x"
    "rewrite_request_model sj (urq_body req) (mr_upstream_model_id x) = Inr body"
    "urq_body (pr_request p) = body" "pr_upstream_name p = be_name (mr_upstream x)"
    "pr_url_origin p = be_url_origin (mr_upstream x)" "pr_model_id p = mr_upstream_model_id x"
    "pr_route_id p = Some (mr_route_id x)" "pr_is_tee p = mr_is_tee x"
    by (rule router_prepare_Inr [OF assms(2)])
  obtain m where m: "from_slice sj (urq_body req) = Some (Object m)"
    "to_vec sj (Object (obj_insert m (lit ''model'') (JString (mr_upstream_model_id x)))) = Some body"
    using rewrite_request_model_Inr [OF p(3)] by blast
  note x = prepared_route [OF r p(2)]
  show ?thesis
    using x p(5,6,7,9) m(1) assms(3) [OF m(2)]
    by (intro exI [of _ x] exI [of _ m])
       (auto simp: p(1,4) router_backend_def Let_def on_route_represents [OF r conjunct1 [OF x] p(8)] split: option.splits)
qed

definition sample_model_body :: "string \<Rightarrow> json" where
  "sample_model_body m = Object [(lit ''model'', JString (lit m))]"

definition sample_codec :: serde_json where
  "sample_codec = \<lparr>from_slice = (\<lambda>b. if b = [1] then Some (sample_model_body ''a'') else if b = [2] then Some (sample_model_body ''b'') else None),
     to_vec = (\<lambda>v. if v = sample_model_body ''b'' then Some [2] else None),
     from_slice_error = (\<lambda>_. []), to_vec_error = (\<lambda>_. [])\<rparr>"

definition sample_route :: "unit model_route" where
  "sample_route = \<lparr>mr_public_model_id = lit ''a'', mr_upstream_model_id = lit ''b'',
     mr_upstream = plain_backend sample_codec (lit ''up'') None (\<lambda>u _. (Inl (Transport []), u)), mr_route_id = lit ''r'',
     mr_path = None, mr_is_tee = Some True\<rparr>"

theorem prepared_request_dispatched_witness:
  "\<exists>r p. add_routes (\<lambda>s. s) (new_model_router []) [sample_route] = Inr r
    \<and> router_prepare sample_codec (\<lambda>s. s) r (default_upstream_request\<lparr>urq_body := [1]\<rparr>) = Inr p
    \<and> pr_upstream_name p = lit ''up'' \<and> from_slice sample_codec (urq_body (pr_request p)) = Some (sample_model_body ''b'')"
proof -
  define r where "r = \<lparr>mo_name = [], mo_routes = [(lit ''r'', sample_route)],
    mo_default_routes = [(lit ''a'', lit ''r'')], mo_order = [lit ''a'']\<rparr>"
  have r: "add_routes (\<lambda>s. s) (new_model_router []) [sample_route] = Inr r"
    by (simp add: add_route_def new_model_router_def sample_route_def r_def)
  have "\<exists>p. router_prepare sample_codec (\<lambda>s. s) r (default_upstream_request\<lparr>urq_body := [1]\<rparr>) = Inr p"
    by (simp add: router_prepare_def request_model_id_def sample_codec_def sample_model_body_def default_upstream_request_def
        route_for_def route_for_id_def r_def rewrite_request_model_def sample_route_def Let_def)
  then obtain p where p: "router_prepare sample_codec (\<lambda>s. s) r (default_upstream_request\<lparr>urq_body := [1]\<rparr>) = Inr p" by blast
  have codec: "to_vec sample_codec v = Some bs \<Longrightarrow> from_slice sample_codec bs = Some v" for v bs
    by (auto simp: sample_codec_def split: if_splits)
  from prepared_request_dispatched [OF r p codec] obtain x m where "x = sample_route"
    "pr_upstream_name p = be_name (mr_upstream x)" "from_slice sample_codec [1] = Some (Object m)"
    "from_slice sample_codec (urq_body (pr_request p)) = Some (Object (obj_insert m (lit ''model'') (JString (mr_upstream_model_id x))))"
    by (auto simp: default_upstream_request_def)
  then show ?thesis using r p
    by (auto simp: sample_route_def plain_backend_def Let_def sample_codec_def sample_model_body_def)
qed

end
