(* ===== verification/Service.thy ===== *)
theory Service
  imports Upstream Claims Session_Store Receipt_Store Keyset_Epoch
begin

text \<open>
  The part of the service shared by every forwarding path: metric labels
  (\<open>src/aggregator/metrics.rs\<close>), the request and result types
  (\<open>src/aggregator/service/wire.rs\<close>), body helpers (\<open>helpers.rs\<close>), and from \<open>forward.rs\<close> the
  verification gate, the channel-binding retry loop and the sealing of sessions.

  The service is a record of its collaborators (verifier, upstream, session store,
  clock, randomness, keys) and a handler is a function on the world: the collaborators'
  states, the receipt store, the number of clock readings and random draws so far, and
  a trace of the calls made to collaborators whose order matters.
\<close>

section \<open>Metrics\<close>

datatype counter =
  Requests_Total | Upstream_Verifications_Total | Upstream_Responses_Total | Receipts_Issued_Total | Stream_Errors_Total

datatype request_mode = Buffered | Streaming

fun request_mode_str :: "request_mode \<Rightarrow> str" where
  "request_mode_str Buffered = lit ''buffered''"
| "request_mode_str Streaming = lit ''streaming''"

datatype stream_error_kind = UpstreamNon2xx | UpstreamRead | ReceiptFinalize | StreamE2ee

fun stream_error_kind_str :: "stream_error_kind \<Rightarrow> str" where
  "stream_error_kind_str UpstreamNon2xx = lit ''upstream_non_2xx''"
| "stream_error_kind_str UpstreamRead = lit ''upstream_read''"
| "stream_error_kind_str ReceiptFinalize = lit ''receipt_finalize''"
| "stream_error_kind_str StreamE2ee = lit ''e2ee''"

definition bool_label :: "bool \<Rightarrow> str" where
  "bool_label v = (if v then lit ''true'' else lit ''false'')"

definition status_class :: "nat \<Rightarrow> str" where
  "status_class s =
     (if 100 \<le> s \<and> s \<le> 199 then lit ''1xx''
      else if 200 \<le> s \<and> s \<le> 299 then lit ''2xx''
      else if 300 \<le> s \<and> s \<le> 399 then lit ''3xx''
      else if 400 \<le> s \<and> s \<le> 499 then lit ''4xx''
      else if 500 \<le> s \<and> s \<le> 599 then lit ''5xx''
      else lit ''other'')"

definition model_label :: "str option \<Rightarrow> str" where
  "model_label m = (case m of Some x \<Rightarrow> x | None \<Rightarrow> lit ''unknown'')"

section \<open>Requests and results\<close>

record verification_request =
  vr_upstream_name :: str
  vr_url_origin :: "str option"
  vr_model_id :: str
  vr_forwarded_body_hash :: str
  vr_required :: bool

datatype e2ee_aad_mode = AciV2 | LegacyV1

record e2ee_context =
  ec_version :: str
  ec_algo :: str
  ec_aad_mode :: e2ee_aad_mode
  ec_request_model :: str
  ec_client_public_key_hex :: str
  ec_nonce :: "str option"
  ec_timestamp :: "u64 option"

record e2ee_response_info =
  ei_version :: str
  ei_algo :: str

definition e2ee_info :: "e2ee_context option \<Rightarrow> e2ee_response_info option" where
  "e2ee_info = map_option (\<lambda>ctx. \<lparr>ei_version = ec_version ctx, ei_algo = ec_algo ctx\<rparr>)"

record gateway_context =
  gc_request_id :: str
  gc_user_model :: "str option"
  gc_target_route_id :: "str option"
  gc_user_tier :: "str option"

record chat_request =
  cr_context :: gateway_context
  cr_endpoint_path :: str
  cr_received_body :: bytes
  cr_forwarded_body :: "bytes option"
  cr_upstream_required :: "bool option"
  cr_upstream_verification_event :: "upstream_verified_event option"
  cr_requester :: "receipt_owner option"
  cr_e2ee :: "e2ee_context option"

datatype verification_error = NoVerifierResult | VerifierFailed str

datatype e2ee_error =
    HeaderMissing | InvalidSigningAlgo | InvalidVersion | InvalidPublicKey | ModelKeyMismatch | InvalidNonce
  | ReplayDetected | InvalidTimestamp | InvalidPayloadModel | DecryptionFailed | EncryptionFailed

text \<open>
  The session store error names the session and the error its message is formatted from.
\<close>

datatype service_error =
    UpstreamVerification verification_error
  | E2ee e2ee_error
  | ServiceCanonical canonical_error
  | ServiceReceipt receipt_error
  | ServiceUpstream upstream_error
  | SessionStoreError str io_error

section \<open>Body helpers\<close>

text \<open>The string member \<open>k\<close> of a body whose first visible byte opens an object.\<close>

definition object_string_member :: "serde_json \<Rightarrow> str \<Rightarrow> bytes \<Rightarrow> str option" where
  "object_string_member sj k body =
     (case dropWhile is_ascii_whitespace body of
        [] \<Rightarrow> None
      | b # _ \<Rightarrow>
          if b \<noteq> 0x7B then None
          else Option.bind (from_slice sj body) (\<lambda>parsed. Option.bind (get parsed k) as_str))"

definition extract_chat_id :: "serde_json \<Rightarrow> bytes \<Rightarrow> str option" where
  "extract_chat_id sj body = (if body = [] then None else object_string_member sj (lit ''id'') body)"

definition accepted_response_model :: "serde_json \<Rightarrow> nat \<Rightarrow> bytes \<Rightarrow> str option" where
  "accepted_response_model sj status body =
     (if \<not> (200 \<le> status \<and> status \<le> 299) \<or> body = [] then None else object_string_member sj (lit ''model'') body)"

fun collect_upstream_body :: "body_stream \<Rightarrow> service_error + bytes" where
  "collect_upstream_body [] = Inr []"
| "collect_upstream_body (Pending # rest) = collect_upstream_body rest"
| "collect_upstream_body (Ready (Inl e) # _) = Inl (ServiceUpstream e)"
| "collect_upstream_body (Ready (Inr chunk) # rest) = bind_result (collect_upstream_body rest) (\<lambda>out. Inr (chunk @ out))"

section \<open>The service and the world\<close>

datatype call =
    Inc counter "str list"
  | is_Verify: Verify verification_request
  | is_Invalidate: Invalidate verification_request
  | is_Forward: Forward prepared_request upstream_verified_event

record ('v, 'u, 's) world =
  w_verifier :: 'v
  w_upstream :: 'u
  w_sessions :: 's
  w_receipts :: receipt_store
  w_clock_reads :: nat
  w_draws :: nat
  w_trace :: "call list"

record ('v, 'u, 's) service =
  sv_identity :: service_identity
  sv_config :: service_config
  sv_keys :: key_provider
  sv_sha256 :: "bytes \<Rightarrow> bytes"
  sv_hex_encode :: "bytes \<Rightarrow> str"
  sv_serde :: serde_json
  sv_clock :: "nat \<Rightarrow> u64"
  sv_random :: "nat \<Rightarrow> bytes"
  sv_upstream :: "'u backend"
  sv_verify :: "('v \<Rightarrow> verification_request \<Rightarrow> upstream_verified_event \<times> 'v) option"
  sv_invalidate :: "'v \<Rightarrow> verification_request \<Rightarrow> 'v"
  sv_put_session :: "'s \<Rightarrow> attested_session \<Rightarrow> u64 \<Rightarrow> (io_error + u64) \<times> 's"
  sv_renew_session :: "'s \<Rightarrow> str \<Rightarrow> u64 \<Rightarrow> u64 \<Rightarrow> bool \<times> 's"
  sv_encrypt_response :: "nat \<Rightarrow> bytes \<Rightarrow> e2ee_context \<Rightarrow> str \<Rightarrow> e2ee_error + bytes"

definition now_secs :: "('v, 'u, 's) service \<Rightarrow> ('v, 'u, 's) world \<Rightarrow> u64 \<times> ('v, 'u, 's) world" where
  "now_secs sv w = (sv_clock sv (w_clock_reads w), w\<lparr>w_clock_reads := Suc (w_clock_reads w)\<rparr>)"

definition note_call :: "call \<Rightarrow> ('v, 'u, 's) world \<Rightarrow> ('v, 'u, 's) world" where
  "note_call c w = w\<lparr>w_trace := w_trace w @ [c]\<rparr>"

definition generate_receipt_id :: "('v, 'u, 's) service \<Rightarrow> ('v, 'u, 's) world \<Rightarrow> str \<times> ('v, 'u, 's) world" where
  "generate_receipt_id sv w =
     (lit ''rcpt-'' @ sv_hex_encode sv (sv_random sv (w_draws w)), w\<lparr>w_draws := Suc (w_draws w)\<rparr>)"

text \<open>The metric operations increment a counter at the given label values.\<close>

definition record_request :: "str \<Rightarrow> request_mode \<Rightarrow> bool \<Rightarrow> ('v, 'u, 's) world \<Rightarrow> ('v, 'u, 's) world" where
  "record_request endpoint mode e2ee_applied =
     note_call (Inc Requests_Total [endpoint, request_mode_str mode, bool_label e2ee_applied])"

definition record_upstream_verification :: "upstream_verified_event \<Rightarrow> ('v, 'u, 's) world \<Rightarrow> ('v, 'u, 's) world" where
  "record_upstream_verification event =
     note_call (Inc Upstream_Verifications_Total [verification_result_str (uv_result event), bool_label (uv_required event)])"

definition record_upstream_response ::
    "str \<Rightarrow> request_mode \<Rightarrow> nat \<Rightarrow> str option \<Rightarrow> ('v, 'u, 's) world \<Rightarrow> ('v, 'u, 's) world" where
  "record_upstream_response endpoint mode status model_id =
     note_call (Inc Upstream_Responses_Total [endpoint, request_mode_str mode, status_class status, model_label model_id])"

definition record_receipt_issued :: "str \<Rightarrow> request_mode \<Rightarrow> str option \<Rightarrow> ('v, 'u, 's) world \<Rightarrow> ('v, 'u, 's) world" where
  "record_receipt_issued endpoint mode model_id =
     note_call (Inc Receipts_Issued_Total [endpoint, request_mode_str mode, model_label model_id])"

definition record_stream_error :: "str \<Rightarrow> stream_error_kind \<Rightarrow> ('v, 'u, 's) world \<Rightarrow> ('v, 'u, 's) world" where
  "record_stream_error endpoint kind = note_call (Inc Stream_Errors_Total [endpoint, stream_error_kind_str kind])"

section \<open>Handlers as functions on the world\<close>

type_synonym ('w, 'a) handler = "'w \<Rightarrow> (service_error + 'a) \<times> 'w"

definition and_then :: "('w, 'a) handler \<Rightarrow> ('a \<Rightarrow> ('w, 'b) handler) \<Rightarrow> ('w, 'b) handler" where
  "and_then m f w = (case m w of (Inl e, w') \<Rightarrow> (Inl e, w') | (Inr x, w') \<Rightarrow> f x w')"

definition lift :: "service_error + 'a \<Rightarrow> ('w, 'a) handler" where
  "lift r w = (r, w)"

section \<open>The verification gate\<close>

definition upstream_required_for_prepared :: "prepared_request \<Rightarrow> bool option \<Rightarrow> bool option" where
  "upstream_required_for_prepared prepared requested =
     (if pr_is_tee prepared = Some False then Some False else requested)"

definition effective_required :: "('v, 'u, 's) service \<Rightarrow> bool option \<Rightarrow> bool" where
  "effective_required sv required = (case required of Some b \<Rightarrow> b | None \<Rightarrow> cfg_upstream_required_default (sv_config sv))"

definition upstream_verification_request ::
    "('v, 'u, 's) service \<Rightarrow> prepared_request \<Rightarrow> bool \<Rightarrow> verification_request" where
  "upstream_verification_request sv prepared required =
     \<lparr>vr_upstream_name = pr_upstream_name prepared, vr_url_origin = pr_url_origin prepared,
      vr_model_id = pr_model_id prepared,
      vr_forwarded_body_hash = sha256_hex (sv_sha256 sv) (sv_hex_encode sv) (urq_body (pr_request prepared)),
      vr_required = required\<rparr>"

definition missing_event :: "prepared_request \<Rightarrow> bool \<Rightarrow> upstream_verified_event" where
  "missing_event prepared required =
     default_upstream_verified_event\<lparr>uv_upstream_name := pr_upstream_name prepared, uv_model_id := pr_model_id prepared,
       uv_url_origin := pr_url_origin prepared, uv_verifier_id := lit ''none'', uv_result := Failed,
       uv_required := required, uv_reason := Some (lit ''no upstream verifier configured'')\<rparr>"

text \<open>The event of the caller, or the verifier's answer, if there is a verifier.\<close>

definition consult_verifier ::
    "('v, 'u, 's) service \<Rightarrow> prepared_request \<Rightarrow> bool \<Rightarrow> upstream_verified_event option \<Rightarrow>
     ('v, 'u, 's) world \<Rightarrow> upstream_verified_event option \<times> ('v, 'u, 's) world" where
  "consult_verifier sv prepared required supplied w =
     (case supplied of
        Some event \<Rightarrow> (Some event, w)
      | None \<Rightarrow>
          (case sv_verify sv of
             None \<Rightarrow> (None, w)
           | Some verify \<Rightarrow>
               let request = upstream_verification_request sv prepared required;
                   (event, v) = verify (w_verifier w) request
               in (Some event, note_call (Verify request) (w\<lparr>w_verifier := v\<rparr>))))"

definition recorded_upstream_event ::
    "('v, 'u, 's) service \<Rightarrow> prepared_request \<Rightarrow> bool option \<Rightarrow> upstream_verified_event option \<Rightarrow>
     (('v, 'u, 's) world, upstream_verified_event) handler" where
  "recorded_upstream_event sv prepared upstream_required supplied w =
     (let required = effective_required sv upstream_required;
          (found, w) = consult_verifier sv prepared required supplied w;
          found = map_option (\<lambda>e. e\<lparr>uv_required := required\<rparr>) found;
          event = (case found of Some e \<Rightarrow> e | None \<Rightarrow> missing_event prepared required);
          w = record_upstream_verification event w
      in if required then
           if found = None then (Inl (UpstreamVerification NoVerifierResult), w)
           else if uv_result event \<noteq> Verified
           then (Inl (UpstreamVerification (VerifierFailed
                   (case uv_reason event of Some r \<Rightarrow> r | None \<Rightarrow> lit ''upstream verification failed''))), w)
           else (Inr event, w)
         else (Inr event, w))"

definition invalidate_upstream_event ::
    "('v, 'u, 's) service \<Rightarrow> prepared_request \<Rightarrow> bool option \<Rightarrow> ('v, 'u, 's) world \<Rightarrow> ('v, 'u, 's) world" where
  "invalidate_upstream_event sv prepared upstream_required w =
     (case sv_verify sv of
        None \<Rightarrow> w
      | Some _ \<Rightarrow>
          let request = upstream_verification_request sv prepared (effective_required sv upstream_required)
          in note_call (Invalidate request) (w\<lparr>w_verifier := sv_invalidate sv (w_verifier w) request\<rparr>))"

definition refresh_upstream_event ::
    "('v, 'u, 's) service \<Rightarrow> prepared_request \<Rightarrow> bool option \<Rightarrow> (('v, 'u, 's) world, upstream_verified_event) handler" where
  "refresh_upstream_event sv prepared upstream_required w =
     (let required = effective_required sv upstream_required;
          w = invalidate_upstream_event sv prepared (Some required) w
      in recorded_upstream_event sv prepared (Some required) None w)"

section \<open>Forwarding with re-verification\<close>

definition CHANNEL_BINDING_REVERIFY_ATTEMPTS :: nat where
  "CHANNEL_BINDING_REVERIFY_ATTEMPTS = 2"

datatype 'r reverify_outcome = Forwarded 'r | RefreshFailed service_error | ForwardFailed upstream_error

type_synonym ('u, 'r) forwarder = "'u \<Rightarrow> prepared_request \<Rightarrow> upstream_verified_event \<Rightarrow> (upstream_error + 'r) \<times> 'u"

definition call_forward ::
    "('u, 'r) forwarder \<Rightarrow> prepared_request \<Rightarrow> upstream_verified_event \<Rightarrow> ('v, 'u, 's) world \<Rightarrow>
     (upstream_error + 'r) \<times> ('v, 'u, 's) world" where
  "call_forward forward prepared event w =
     (let (r, u) = forward (w_upstream w) prepared event
      in (r, note_call (Forward prepared event) (w\<lparr>w_upstream := u\<rparr>)))"

fun is_mismatch :: "upstream_error \<Rightarrow> bool" where
  "is_mismatch (ChannelBindingMismatch _) = True"
| "is_mismatch _ = False"

text \<open>
  The retry loop: \<open>attempts\<close> counts the re-verifications made. The recorded event is
  passed and returned, as it is updated in place.
\<close>

function reverify_loop ::
    "('v, 'u, 's) service \<Rightarrow> prepared_request \<Rightarrow> bool option \<Rightarrow> bool \<Rightarrow> bool \<Rightarrow> ('u, 'r) forwarder \<Rightarrow>
     nat \<Rightarrow> upstream_verified_event \<Rightarrow> ('v, 'u, 's) world \<Rightarrow>
     ('r reverify_outcome \<times> upstream_verified_event) \<times> ('v, 'u, 's) world" where
  "reverify_loop sv prepared required supplied always forward attempts event w =
     (case call_forward forward prepared event w of
        (Inr response, w) \<Rightarrow> ((Forwarded response, event), w)
      | (Inl err, w) \<Rightarrow>
          if is_mismatch err \<and> \<not> supplied \<and> attempts < CHANNEL_BINDING_REVERIFY_ATTEMPTS then
            (case refresh_upstream_event sv prepared required w of
               (Inr event, w) \<Rightarrow> reverify_loop sv prepared required supplied always forward (Suc attempts) event w
             | (Inl err, w) \<Rightarrow> ((RefreshFailed err, event), w))
          else
            let w = (if is_mismatch err \<and> (always \<or> \<not> supplied)
                     then invalidate_upstream_event sv prepared required w else w)
            in ((ForwardFailed err, event), w))"
  by pat_completeness auto
termination
  by (relation "measure (\<lambda>(sv, p, r, s, a, f, n, e, w). CHANNEL_BINDING_REVERIFY_ATTEMPTS - n)") auto

declare reverify_loop.simps [simp del]

definition forward_with_binding_reverify ::
    "('v, 'u, 's) service \<Rightarrow> prepared_request \<Rightarrow> upstream_verified_event \<Rightarrow> bool option \<Rightarrow> bool \<Rightarrow> bool \<Rightarrow>
     ('u, 'r) forwarder \<Rightarrow> ('v, 'u, 's) world \<Rightarrow>
     ('r reverify_outcome \<times> upstream_verified_event) \<times> ('v, 'u, 's) world" where
  "forward_with_binding_reverify sv prepared event required supplied always forward w =
     reverify_loop sv prepared required supplied always forward 0 event w"

section \<open>Sealing sessions\<close>

record sealed_session =
  sd_instance_key :: "str option"
  sd_session_id :: str
  sd_claims :: session_claims

definition cite_served_session :: "sealed_session list \<Rightarrow> str option \<Rightarrow> (str \<times> session_claims) option" where
  "cite_served_session sealed served_instance_id =
     map_option (\<lambda>s. (sd_session_id s, sd_claims s))
       (case served_instance_id of
          Some i \<Rightarrow> List.find (\<lambda>s. sd_instance_key s = Some i) sealed
        | None \<Rightarrow> (case sealed of [] \<Rightarrow> None | s # _ \<Rightarrow> Some s))"

definition identity_from_provider_claims :: "json option \<Rightarrow> workload_identity_ref option" where
  "identity_from_provider_claims provider_claims =
     (let identity = \<lparr>wir_signing_address =
            (case provider_claims of
               Some (Object m) \<Rightarrow> Option.bind (obj_get m (lit ''signing_address'')) as_str
             | _ \<Rightarrow> None), wir_extra = []\<rparr>
      in if identity_is_empty identity then None else Some identity)"

definition seal_attested_session ::
    "('v, 'u, 's) service \<Rightarrow> upstream_verified_event \<Rightarrow> workload_identity_ref option \<Rightarrow> channel_binding list \<Rightarrow>
     session_claims \<Rightarrow> evidence_ref \<Rightarrow> u64 \<Rightarrow> u64 \<Rightarrow> (('v, 'u, 's) world, str) handler" where
  "seal_attested_session sv event identity bindings claims evidence now expires_at w =
     (let seal_with = (\<lambda>ev. seal (sv_sha256 sv) (sv_hex_encode sv) (uv_upstream_name event) (uv_url_origin event)
            (uv_verifier_id event) identity bindings claims ev now expires_at)
      in case seal_with \<lparr>evr_digest = evr_digest evidence, evr_data_uri = None\<rparr> of
           Inl e \<Rightarrow> (Inl (ServiceCanonical e), w)
         | Inr probe \<Rightarrow>
             let session_id = as_session_id probe;
                 (renewed, s) = sv_renew_session sv (w_sessions w) session_id expires_at now;
                 w = w\<lparr>w_sessions := s\<rparr>
             in if renewed then (Inr session_id, w)
                else (case seal_with evidence of
                        Inl e \<Rightarrow> (Inl (ServiceCanonical e), w)
                      | Inr session \<Rightarrow>
                          (case sv_put_session sv (w_sessions w) session now of
                             (Inl e, s) \<Rightarrow> (Inl (SessionStoreError session_id e), w\<lparr>w_sessions := s\<rparr>)
                           | (Inr _, s) \<Rightarrow> (Inr session_id, w\<lparr>w_sessions := s\<rparr>))))"

fun seal_bindings ::
    "('v, 'u, 's) service \<Rightarrow> upstream_verified_event \<Rightarrow> workload_identity_ref option \<Rightarrow> u64 \<Rightarrow> u64 \<Rightarrow>
     channel_binding list \<Rightarrow> (('v, 'u, 's) world, sealed_session list) handler" where
  "seal_bindings sv event identity now expires_at [] w = (Inr [], w)"
| "seal_bindings sv event identity now expires_at (binding # bindings) w =
     (let instance_id = chutes_instance_id event binding;
          claims = (case instance_id of
              Some i \<Rightarrow> per_instance_session_claims event i
            | None \<Rightarrow> session_claims_for_event event);
          evidence = (if instance_id \<noteq> None then \<lparr>evr_digest = None, evr_data_uri = None\<rparr>
            else case uv_evidence event of
                   Some v \<Rightarrow> evidence_from_value v
                 | None \<Rightarrow> \<lparr>evr_digest = None, evr_data_uri = None\<rparr>)
      in and_then (seal_attested_session sv event identity [binding] claims evidence now expires_at) (\<lambda>session_id.
         and_then (seal_bindings sv event identity now expires_at bindings) (\<lambda>sealed.
           lift (Inr (\<lparr>sd_instance_key = instance_id, sd_session_id = session_id, sd_claims = claims\<rparr> # sealed)))) w)"

definition record_attested_upstream_session ::
    "('v, 'u, 's) service \<Rightarrow> upstream_verified_event \<Rightarrow> (('v, 'u, 's) world, sealed_session list) handler" where
  "record_attested_upstream_session sv event w =
     (if uv_result event \<noteq> Verified then (Inr [], w)
      else
        let (now, w) = now_secs sv w;
            expires_at = saturating_add now (cfg_receipt_ttl_seconds (sv_config sv));
            identity = identity_from_provider_claims (uv_provider_claims event)
        in seal_bindings sv event identity now expires_at (uv_channel_bindings event) w)"

definition append_upstream_verified ::
    "receipt_builder \<Rightarrow> upstream_verified_event \<Rightarrow> (str \<times> session_claims) option \<Rightarrow> receipt_error + receipt_builder" where
  "append_upstream_verified builder event recorded =
     (case recorded of
        Some (session_id, claims) \<Rightarrow> add_upstream_verified_with_session builder event session_id (session_claims_value claims)
      | None \<Rightarrow> add_upstream_verified builder event)"

definition store_receipt ::
    "('v, 'u, 's) service \<Rightarrow> receipt \<Rightarrow> receipt_owner option \<Rightarrow> ('v, 'u, 's) world \<Rightarrow> ('v, 'u, 's) world" where
  "store_receipt sv receipt requester w =
     (let (now, w) = now_secs sv w;
          expires_at = saturating_add now (cfg_receipt_ttl_seconds (sv_config sv))
      in w\<lparr>w_receipts := put_receipt (w_receipts w) receipt requester now expires_at\<rparr>)"

section \<open>Frame lemmas\<close>

named_theorems world_frame \<open>what an operation leaves of the world\<close>

lemma note_call_frame [world_frame, simp]:
  "w_verifier (note_call c w) = w_verifier w" "w_upstream (note_call c w) = w_upstream w"
  "w_sessions (note_call c w) = w_sessions w" "w_receipts (note_call c w) = w_receipts w"
  "w_clock_reads (note_call c w) = w_clock_reads w" "w_draws (note_call c w) = w_draws w"
  "w_trace (note_call c w) = w_trace w @ [c]"
  by (simp_all add: note_call_def)

lemmas metric_defs = record_request_def record_upstream_verification_def record_upstream_response_def
  record_receipt_issued_def record_stream_error_def

lemma and_then_Inr:
  "and_then m f w = (Inr y, w'') \<longleftrightarrow> (\<exists>x w'. m w = (Inr x, w') \<and> f x w' = (Inr y, w''))"
  by (auto simp: and_then_def split: prod.splits sum.splits)

lemma and_then_cases:
  assumes "and_then m f w = (r, w'')"
  obtains e where "m w = (Inl e, w'')" "r = Inl e" | x w' where "m w = (Inr x, w')" "f x w' = (r, w'')"
  using assms by (auto simp: and_then_def split: prod.splits sum.splits)

lemma lift_simp [simp]: "lift r w = (r, w)"
  by (simp add: lift_def)

text \<open>What only the stores of the world hold, apart from the verifier, the upstream and the trace.\<close>

definition same_stores :: "('v, 'u, 's) world \<Rightarrow> ('v, 'u, 's) world \<Rightarrow> bool" where
  "same_stores w w' \<longleftrightarrow> w_sessions w' = w_sessions w \<and> w_receipts w' = w_receipts w
     \<and> w_clock_reads w' = w_clock_reads w \<and> w_draws w' = w_draws w"

lemma same_stores_refl [simp]: "same_stores w w"
  by (simp add: same_stores_def)

lemma same_stores_trans: "same_stores w w' \<Longrightarrow> same_stores w' w'' \<Longrightarrow> same_stores w w''"
  by (simp add: same_stores_def)

section \<open>The gate\<close>

text \<open>An event the gate lets through for a mode.\<close>

definition gate_passed :: "bool \<Rightarrow> upstream_verified_event \<Rightarrow> bool" where
  "gate_passed required event \<longleftrightarrow> uv_required event = required \<and> (required \<longrightarrow> uv_result event = Verified)"

abbreviation verifies :: "call list \<Rightarrow> nat" where
  "verifies t \<equiv> length (filter is_Verify t)"

abbreviation forwards :: "call list \<Rightarrow> nat" where
  "forwards t \<equiv> length (filter is_Forward t)"

abbreviation invalidations :: "call list \<Rightarrow> nat" where
  "invalidations t \<equiv> length (filter is_Invalidate t)"

lemma effective_required_Some [simp]: "effective_required sv (Some b) = b"
  by (simp add: effective_required_def)

lemma consult_verifier_spec:
  assumes "consult_verifier sv prepared required supplied w = (found, w')"
  shows "\<exists>t. w_trace w' = w_trace w @ t \<and> forwards t = 0 \<and> invalidations t = 0
    \<and> verifies t = (if supplied = None \<and> sv_verify sv \<noteq> None then 1 else 0)
    \<and> w_upstream w' = w_upstream w \<and> same_stores w w'
    \<and> (found = None \<longleftrightarrow> supplied = None \<and> sv_verify sv = None) \<and> (supplied \<noteq> None \<longrightarrow> found = supplied)"
  using assms
  by (cases supplied; cases "sv_verify sv")
     (auto simp: consult_verifier_def Let_def same_stores_def split: prod.splits)

lemma recorded_upstream_event_spec:
  fixes sv :: "('v, 'u, 's) service"
  assumes "recorded_upstream_event sv prepared required supplied w = (r, w')"
  shows "\<exists>t. w_trace w' = w_trace w @ t \<and> forwards t = 0 \<and> invalidations t = 0
    \<and> verifies t = (if supplied = None \<and> sv_verify sv \<noteq> None then 1 else 0)
    \<and> w_upstream w' = w_upstream w \<and> same_stores w w'
    \<and> (case r of Inr event \<Rightarrow> gate_passed (effective_required sv required) event
              | Inl err \<Rightarrow> effective_required sv required \<and> (\<exists>e. err = UpstreamVerification e))"
proof -
  let ?req = "effective_required sv required"
  obtain found w1 where c: "consult_verifier sv prepared ?req supplied w = (found, w1)" by fastforce
  define found' where "found' = map_option (\<lambda>e. e\<lparr>uv_required := ?req\<rparr>) found"
  define event where "event = (case found' of Some e \<Rightarrow> e | None \<Rightarrow> missing_event prepared ?req)"
  have req: "uv_required event = ?req"
    by (cases found) (simp_all add: event_def found'_def missing_event_def)
  define req where "req = ?req"
  have run: "(r, w') =
      (if req then
         if found' = None then (Inl (UpstreamVerification NoVerifierResult), record_upstream_verification event w1)
         else if uv_result event \<noteq> Verified
         then (Inl (UpstreamVerification (VerifierFailed
                 (case uv_reason event of Some r \<Rightarrow> r | None \<Rightarrow> lit ''upstream verification failed''))),
               record_upstream_verification event w1)
         else (Inr event, record_upstream_verification event w1)
       else (Inr event, record_upstream_verification event w1))"
    unfolding assms [symmetric] recorded_upstream_event_def Let_def c prod.case event_def found'_def req_def ..
  then have w': "w' = record_upstream_verification event w1" by (simp split: if_splits)
  have "case r of Inr e \<Rightarrow> e = event \<and> gate_passed ?req event | Inl err \<Rightarrow> ?req \<and> (\<exists>e. err = UpstreamVerification e)"
    using run req unfolding gate_passed_def req_def [symmetric] by (auto split: if_splits)
  then have r: "case r of Inr e \<Rightarrow> gate_passed ?req e | Inl err \<Rightarrow> ?req \<and> (\<exists>e. err = UpstreamVerification e)"
    by (auto split: sum.splits)
  from consult_verifier_spec [OF c] obtain t where t: "w_trace w1 = w_trace w @ t" "forwards t = 0" "invalidations t = 0"
    "verifies t = (if supplied = None \<and> sv_verify sv \<noteq> None then 1 else 0)" "w_upstream w1 = w_upstream w" "same_stores w w1"
    by blast
  show ?thesis
    using t r unfolding w' metric_defs
    by (intro exI [of _ "t @ [Inc Upstream_Verifications_Total
          [verification_result_str (uv_result event), bool_label (uv_required event)]]"])
       (simp add: same_stores_def)
qed

lemma invalidate_spec:
  "\<exists>t. w_trace (invalidate_upstream_event sv prepared required w) = w_trace w @ t \<and> forwards t = 0 \<and> verifies t = 0
    \<and> invalidations t = (if sv_verify sv = None then 0 else 1)
    \<and> w_upstream (invalidate_upstream_event sv prepared required w) = w_upstream w
    \<and> same_stores w (invalidate_upstream_event sv prepared required w)"
  by (auto simp: invalidate_upstream_event_def Let_def same_stores_def split: option.splits)

lemma refresh_spec:
  fixes sv :: "('v, 'u, 's) service"
  assumes "refresh_upstream_event sv prepared required w = (r, w')"
  shows "\<exists>t. w_trace w' = w_trace w @ t \<and> forwards t = 0
    \<and> invalidations t = (if sv_verify sv = None then 0 else 1) \<and> verifies t = (if sv_verify sv = None then 0 else 1)
    \<and> w_upstream w' = w_upstream w \<and> same_stores w w'
    \<and> (case r of Inr event \<Rightarrow> gate_passed (effective_required sv required) event
              | Inl err \<Rightarrow> effective_required sv required \<and> (\<exists>e. err = UpstreamVerification e))"
proof -
  let ?req = "effective_required sv required"
  let ?w1 = "invalidate_upstream_event sv prepared (Some ?req) w"
  have "recorded_upstream_event sv prepared (Some ?req) None ?w1 = (r, w')"
    using assms by (simp add: refresh_upstream_event_def Let_def)
  from recorded_upstream_event_spec [OF this] invalidate_spec [of sv prepared "Some ?req" w]
  obtain t1 t2 where "w_trace ?w1 = w_trace w @ t1" "forwards t1 = 0" "verifies t1 = 0"
    "invalidations t1 = (if sv_verify sv = None then 0 else 1)" "w_upstream ?w1 = w_upstream w" "same_stores w ?w1"
    and "w_trace w' = w_trace ?w1 @ t2" "forwards t2 = 0" "invalidations t2 = 0"
    "verifies t2 = (if sv_verify sv \<noteq> None then 1 else 0)" "w_upstream w' = w_upstream ?w1" "same_stores ?w1 w'"
    and "case r of Inr event \<Rightarrow> gate_passed ?req event | Inl err \<Rightarrow> ?req \<and> (\<exists>e. err = UpstreamVerification e)"
    unfolding effective_required_Some by auto
  then show ?thesis by (intro exI [of _ "t1 @ t2"]) (simp add: same_stores_def)
qed

section \<open>The retry loop\<close>

text \<open>What the calls \<open>t\<close> of the loop are, started after \<open>n\<close> re-verifications.\<close>

definition loop_calls ::
    "('v, 'u, 's) service \<Rightarrow> prepared_request \<Rightarrow> bool option \<Rightarrow> bool \<Rightarrow> bool \<Rightarrow> nat \<Rightarrow> call list \<Rightarrow>
     'r reverify_outcome \<Rightarrow> upstream_verified_event \<Rightarrow> bool" where
  "loop_calls sv prepared required supplied always n t outcome event \<longleftrightarrow>
     1 \<le> forwards t \<and> forwards t + n \<le> Suc CHANNEL_BINDING_REVERIFY_ATTEMPTS
     \<and> verifies t + n \<le> CHANNEL_BINDING_REVERIFY_ATTEMPTS
     \<and> invalidations t + n \<le> Suc CHANNEL_BINDING_REVERIFY_ATTEMPTS
     \<and> (supplied \<longrightarrow> forwards t = 1 \<and> verifies t = 0)
     \<and> (\<forall>q e. Forward q e \<in> set t \<longrightarrow> q = prepared \<and> gate_passed (effective_required sv required) e)
     \<and> (case outcome of
          Forwarded r \<Rightarrow> (\<exists>t0. t = t0 @ [Forward prepared event])
        | RefreshFailed err \<Rightarrow> effective_required sv required \<and> (\<exists>e. err = UpstreamVerification e)
        | ForwardFailed err \<Rightarrow>
            (is_mismatch err \<and> (always \<or> \<not> supplied) \<and> sv_verify sv \<noteq> None \<longrightarrow>
               (\<exists>t0. t = t0 @ [Forward prepared event,
                  Invalidate (upstream_verification_request sv prepared (effective_required sv required))])))"

lemma call_forward_spec:
  "call_forward forward prepared event w = (r, w') \<Longrightarrow>
     w_trace w' = w_trace w @ [Forward prepared event] \<and> same_stores w w'
     \<and> r = fst (forward (w_upstream w) prepared event)"
  by (auto simp: call_forward_def Let_def same_stores_def split: prod.splits)

lemma loop_calls_one:
  assumes "gate_passed (effective_required sv required) event" "n \<le> CHANNEL_BINDING_REVERIFY_ATTEMPTS"
  shows "loop_calls sv prepared required supplied always n [Forward prepared event] (Forwarded r) event"
  using assms by (simp add: loop_calls_def)

lemma loop_calls_failed:
  assumes "gate_passed (effective_required sv required) event" "n \<le> CHANNEL_BINDING_REVERIFY_ATTEMPTS"
    and "w1 = (if is_mismatch err \<and> (always \<or> \<not> supplied) then invalidate_upstream_event sv prepared required w else w)"
  shows "\<exists>t. w_trace w1 = w_trace w @ t \<and> same_stores w w1 \<and>
    loop_calls sv prepared required supplied always n (Forward prepared event # t) (ForwardFailed err) event"
proof (cases "is_mismatch err \<and> (always \<or> \<not> supplied) \<and> sv_verify sv \<noteq> None")
  case True
  then show ?thesis using assms
    by (intro exI [of _ "[Invalidate (upstream_verification_request sv prepared (effective_required sv required))]"])
       (auto simp: invalidate_upstream_event_def Let_def same_stores_def loop_calls_def)
next
  case False
  then have "w1 = w" using assms(3) by (auto simp: invalidate_upstream_event_def split: option.splits)
  then show ?thesis using assms(1,2) False by (intro exI [of _ "[]"]) (auto simp: loop_calls_def)
qed

lemma loop_calls_step:
  assumes "loop_calls sv prepared required supplied always (Suc n) t2 outcome event'"
    and "gate_passed (effective_required sv required) event" "\<not> supplied"
    and "forwards t1 = 0" "invalidations t1 \<le> 1" "verifies t1 \<le> 1"
  shows "loop_calls sv prepared required supplied always n (Forward prepared event # t1 @ t2) outcome event'"
proof -
  have "Forward q e \<notin> set t1" for q e using assms(4) by (auto simp: filter_empty_conv)
  then show ?thesis
    using assms unfolding loop_calls_def
    by (auto split: reverify_outcome.splits)
qed

lemma loop_calls_refresh_failed:
  assumes "gate_passed (effective_required sv required) event" "\<not> supplied" "n < CHANNEL_BINDING_REVERIFY_ATTEMPTS"
    and "forwards t1 = 0" "invalidations t1 \<le> 1" "verifies t1 \<le> 1"
    and "effective_required sv required" "err = UpstreamVerification e"
  shows "loop_calls sv prepared required supplied always n (Forward prepared event # t1) (RefreshFailed err) event'"
proof -
  have "Forward q x \<notin> set t1" for q x using assms(4) by (auto simp: filter_empty_conv)
  then show ?thesis using assms unfolding loop_calls_def by auto
qed

lemma reverify_loop_spec:
  fixes sv :: "('v, 'u, 's) service" and forward :: "('u, 'r) forwarder"
  assumes "reverify_loop sv prepared required supplied always forward n event w = ((outcome, event'), w')"
    and "gate_passed (effective_required sv required) event" and "n \<le> CHANNEL_BINDING_REVERIFY_ATTEMPTS"
  shows "\<exists>t. w_trace w' = w_trace w @ t \<and> same_stores w w' \<and>
    loop_calls sv prepared required supplied always n t outcome event'"
  using assms
proof (induction sv prepared required supplied always forward n event w rule: reverify_loop.induct)
  case (1 sv prepared required supplied always forward n event w)
  obtain r w1 where c: "call_forward forward prepared event w = (r, w1)" by fastforce
  note w1 = call_forward_spec [OF c]
  note step = reverify_loop.simps [of sv prepared required supplied always forward n event w, unfolded c]
  show ?case
  proof (cases r)
    case (Inr response)
    then have "outcome = Forwarded response" "event' = event" "w' = w1"
      using "1.prems"(1) by (simp_all add: step)
    then show ?thesis using w1 loop_calls_one [OF "1.prems"(2,3)] by (intro exI [of _ "[Forward prepared event]"]) simp
  next
    case (Inl err)
    show ?thesis
    proof (cases "is_mismatch err \<and> \<not> supplied \<and> n < CHANNEL_BINDING_REVERIFY_ATTEMPTS")
      case False
      have e: "outcome = ForwardFailed err" "event' = event"
        and w': "w' = (if is_mismatch err \<and> (always \<or> \<not> supplied) then invalidate_upstream_event sv prepared required w1 else w1)"
        using "1.prems"(1) unfolding step Inl prod.case sum.case if_not_P [OF False] Let_def by simp_all
      obtain t where "w_trace w' = w_trace w1 @ t" "same_stores w1 w'"
        "loop_calls sv prepared required supplied always n (Forward prepared event # t) outcome event"
        unfolding e(1) using loop_calls_failed [OF "1.prems"(2,3) w'] by blast
      then show ?thesis using w1 unfolding e(2)
        by (intro exI [of _ "Forward prepared event # t"]) (auto intro: same_stores_trans)
    next
      case True
      obtain r2 w2 where f: "refresh_upstream_event sv prepared required w1 = (r2, w2)" by fastforce
      obtain t1 where t1: "w_trace w2 = w_trace w1 @ t1" "forwards t1 = 0" "invalidations t1 \<le> 1" "verifies t1 \<le> 1"
        "same_stores w1 w2"
        "case r2 of Inr e \<Rightarrow> gate_passed (effective_required sv required) e
           | Inl err \<Rightarrow> effective_required sv required \<and> (\<exists>e. err = UpstreamVerification e)"
        using refresh_spec [OF f] by (auto split: if_splits)
      have s2: "same_stores w w2" using w1 t1(5) same_stores_trans by blast
      show ?thesis
      proof (cases r2)
        case (Inl err2)
        have o: "outcome = RefreshFailed err2" "event' = event" "w' = w2"
          using "1.prems"(1) unfolding step \<open>r = Inl err\<close> f Inl prod.case sum.case if_P [OF True] by simp_all
        obtain e where e: "effective_required sv required" "err2 = UpstreamVerification e" using t1(6) Inl by auto
        have "loop_calls sv prepared required supplied always n (Forward prepared event # t1) outcome event"
          unfolding o(1) using True by (intro loop_calls_refresh_failed [OF "1.prems"(2) _ _ t1(2-4) e]) simp_all
        then show ?thesis
          using s2 w1 t1(1) unfolding o(2,3) by (intro exI [of _ "Forward prepared event # t1"]) simp
      next
        case (Inr event2)
        have loop: "reverify_loop sv prepared required supplied always forward (Suc n) event2 w2 = ((outcome, event'), w')"
          using "1.prems"(1) unfolding step \<open>r = Inl err\<close> f Inr prod.case sum.case if_P [OF True] .
        have g2: "gate_passed (effective_required sv required) event2" using t1(6) Inr by simp
        from True have n: "Suc n \<le> CHANNEL_BINDING_REVERIFY_ATTEMPTS" by simp
        obtain t2 where t2: "w_trace w' = w_trace w2 @ t2" "same_stores w2 w'"
          "loop_calls sv prepared required supplied always (Suc n) t2 outcome event'"
          using "1.IH" [OF c [symmetric] _ True f [symmetric] _ loop g2 n] Inl Inr by blast
        have "loop_calls sv prepared required supplied always n (Forward prepared event # t1 @ t2) outcome event'"
          using loop_calls_step [OF t2(3) "1.prems"(2) _ t1(2-4)] True by blast
        then show ?thesis using t2(1,2) t1(1) w1 s2
          by (intro exI [of _ "Forward prepared event # t1 @ t2"]) (auto intro: same_stores_trans)
      qed
    qed
  qed
qed

section \<open>Sealed sessions resolve\<close>

text \<open>Sessions of a view: addressed by their content, held until a deadline.\<close>

definition addressed :: "(bytes \<Rightarrow> bytes) \<Rightarrow> (bytes \<Rightarrow> str) \<Rightarrow> (str \<rightharpoonup> attested_session) \<Rightarrow> bool" where
  "addressed sha256 hex_encode v \<longleftrightarrow> (\<forall>i x. v i = Some x \<longrightarrow> content_id sha256 hex_encode x = Inr i)"

definition held_until :: "(str \<rightharpoonup> attested_session) \<Rightarrow> u64 \<Rightarrow> str \<Rightarrow> bool" where
  "held_until v e i \<longleftrightarrow> (\<exists>x. v i = Some x \<and> as_expires_at x = e)"

lemma addressed_live: "addressed sha hx v \<Longrightarrow> addressed sha hx (live_sessions v now)"
  by (auto simp: addressed_def dest: live_sessions_SomeD)

lemma addressed_update: "addressed sha hx v \<Longrightarrow> content_id sha hx x = Inr i \<Longrightarrow> addressed sha hx (v(i \<mapsto> x))"
  by (auto simp: addressed_def)

lemma held_live: "now < e \<Longrightarrow> held_until v e i \<Longrightarrow> held_until (live_sessions v now) e i"
  by (auto simp: held_until_def live_sessions_def)

lemma held_update: "held_until v e i \<Longrightarrow> as_expires_at x = e \<Longrightarrow> held_until (v(j \<mapsto> x)) e i"
  by (auto simp: held_until_def)

text \<open>The probe with only the evidence digest has the id of the full seal.\<close>

lemma seal_probe:
  assumes "seal sha hx n o' v i b c \<lparr>evr_digest = evr_digest ev, evr_data_uri = None\<rparr> t e = Inr probe"
    and "seal sha hx n o' v i b c ev t e = Inr session"
  shows "as_session_id session = as_session_id probe \<and> as_expires_at session = e
    \<and> content_id sha hx session = Inr (as_session_id session)"
  using assms seal_content_id [OF assms(2)]
  by (auto simp: seal_def Let_def bind_result_Inr content_id_def content_material_def)

context session_store_contract
begin

lemma renew_held:
  assumes "invar s" "addressed sha hx (view s)" "now < e"
  shows "addressed sha hx (view (snd (renew s i e now)))"
    and "held_until (view s) e j \<Longrightarrow> held_until (view (snd (renew s i e now))) e j"
    and "fst (renew s i e now) \<Longrightarrow> held_until (view (snd (renew s i e now))) e i"
proof -
  note v = view_renew [OF assms(1), of i e now]
  show "addressed sha hx (view (snd (renew s i e now)))"
    using addressed_live [OF assms(2), of now]
    by (auto simp: v addressed_def dest: live_sessions_SomeD split: option.splits)
  show "held_until (view s) e j \<Longrightarrow> held_until (view (snd (renew s i e now))) e j"
    using held_live [OF assms(3)] by (auto simp: v split: option.splits intro: held_update)
  show "fst (renew s i e now) \<Longrightarrow> held_until (view (snd (renew s i e now))) e i"
    by (auto simp: v renew [OF assms(1)] held_until_def)
qed

lemma put_held:
  assumes "invar s" "addressed sha hx (view s)" "now < e" "content_id sha hx x = Inr (as_session_id x)" "as_expires_at x = e"
  shows "addressed sha hx (view (snd (put s x now)))"
    and "held_until (view s) e j \<Longrightarrow> held_until (view (snd (put s x now))) e j"
    and "fst (put s x now) = Inr n \<Longrightarrow> held_until (view (snd (put s x now))) e (as_session_id x)"
proof -
  note v = view_put [OF assms(1), of x now]
  show "addressed sha hx (view (snd (put s x now)))"
    using assms by (auto simp: v split: sum.splits intro!: addressed_live addressed_update)
  show "held_until (view s) e j \<Longrightarrow> held_until (view (snd (put s x now))) e j"
    using assms by (auto simp: v split: sum.splits intro!: held_live held_update)
  show "fst (put s x now) = Inr n \<Longrightarrow> held_until (view (snd (put s x now))) e (as_session_id x)"
    using assms by (auto simp: v intro!: held_live) (simp add: held_until_def)
qed

lemma seal_attested_session_held:
  assumes sv: "sv_put_session sv = put" "sv_renew_session sv = renew"
    and s: "invar (w_sessions w)" "addressed (sv_sha256 sv) (sv_hex_encode sv) (view (w_sessions w))" "now < e"
    and run: "seal_attested_session sv event identity bindings claims evidence now e w = (Inr i, w')"
  shows "invar (w_sessions w') \<and> addressed (sv_sha256 sv) (sv_hex_encode sv) (view (w_sessions w'))
    \<and> held_until (view (w_sessions w')) e i
    \<and> (\<forall>j. held_until (view (w_sessions w)) e j \<longrightarrow> held_until (view (w_sessions w')) e j)
    \<and> w' = w\<lparr>w_sessions := w_sessions w'\<rparr>"
proof -
  define seal_with where "seal_with = (\<lambda>ev. seal (sv_sha256 sv) (sv_hex_encode sv) (uv_upstream_name event) (uv_url_origin event)
    (uv_verifier_id event) identity bindings claims ev now e)"
  have sw: "seal (sv_sha256 sv) (sv_hex_encode sv) (uv_upstream_name event) (uv_url_origin event)
    (uv_verifier_id event) identity bindings claims ev now e = seal_with ev" for ev by (simp add: seal_with_def)
  note run' = run [unfolded seal_attested_session_def Let_def sw]
  obtain probe where probe: "seal_with \<lparr>evr_digest = evr_digest evidence, evr_data_uri = None\<rparr> = Inr probe"
    using run' by (cases "seal_with \<lparr>evr_digest = evr_digest evidence, evr_data_uri = None\<rparr>") auto
  obtain ok s1 where rn: "renew (w_sessions w) (as_session_id probe) e now = (ok, s1)" by fastforce
  note r = renew_held [OF s, where i = "as_session_id probe", unfolded rn, simplified] invar_renew [OF s(1), of "as_session_id probe" e now, unfolded rn, simplified]
  show ?thesis
  proof (cases ok)
    case True
    then have "i = as_session_id probe" "w' = w\<lparr>w_sessions := s1\<rparr>" using run' by (simp_all add: probe sv rn)
    then show ?thesis using r True by simp
  next
    case False
    note run2 = run' [unfolded probe sv sum.case rn prod.case, simplified False, simplified]
    obtain session where session: "seal_with evidence = Inr session" using run2 by (cases "seal_with evidence") auto
    obtain res s2 where pt: "put s1 session now = (res, s2)" by fastforce
    note sp = seal_probe [OF probe [unfolded seal_with_def] session [unfolded seal_with_def]]
    obtain n where res: "res = Inr n" using run2 by (cases res) (auto simp: session pt)
    then have i: "i = as_session_id session" "w' = w\<lparr>w_sessions := s2\<rparr>"
      using run2 sp by (auto simp: session pt)
    note p = put_held [OF r(4) r(1) s(3), where x = session, unfolded pt, simplified] invar_put [OF r(4), of session now, unfolded pt, simplified]
    show ?thesis using p r(2) sp res i by simp
  qed
qed

text \<open>The sealed sessions of a list of bindings, each with the claims of its own instance.\<close>

lemma seal_bindings_held:
  assumes sv: "sv_put_session sv = put" "sv_renew_session sv = renew" and e: "now < e"
    and "invar (w_sessions w)" "addressed (sv_sha256 sv) (sv_hex_encode sv) (view (w_sessions w))"
    and "seal_bindings sv event identity now e bindings w = (Inr sealed, w')"
  shows "invar (w_sessions w') \<and> addressed (sv_sha256 sv) (sv_hex_encode sv) (view (w_sessions w'))
    \<and> (\<forall>x \<in> set sealed. held_until (view (w_sessions w')) e (sd_session_id x))
    \<and> (\<forall>j. held_until (view (w_sessions w)) e j \<longrightarrow> held_until (view (w_sessions w')) e j)
    \<and> w' = w\<lparr>w_sessions := w_sessions w'\<rparr>
    \<and> map sd_instance_key sealed = map (chutes_instance_id event) bindings
    \<and> (\<forall>x \<in> set sealed. sd_claims x = (case sd_instance_key x of
          Some i \<Rightarrow> per_instance_session_claims event i | None \<Rightarrow> session_claims_for_event event))"
  using assms(4-)
proof (induction bindings arbitrary: w sealed)
  case (Cons b bs)
  obtain i claims evidence w1 rest where
    claims: "claims = (case chutes_instance_id event b of
        Some i \<Rightarrow> per_instance_session_claims event i | None \<Rightarrow> session_claims_for_event event)" and
    one: "seal_attested_session sv event identity [b] claims evidence now e w = (Inr i, w1)" and
    more: "seal_bindings sv event identity now e bs w1 = (Inr rest, w')" and
    sealed: "sealed = \<lparr>sd_instance_key = chutes_instance_id event b, sd_session_id = i, sd_claims = claims\<rparr> # rest"
    using Cons.prems(3) by (auto simp: Let_def and_then_Inr)
  note h1 = seal_attested_session_held [OF sv Cons.prems(1,2) e one]
  note h2 = Cons.IH [OF conjunct1 [OF h1] conjunct1 [OF conjunct2 [OF h1]] more]
  have "w' = w\<lparr>w_sessions := w_sessions w'\<rparr>"
    using h1 h2 by (metis (no_types, lifting) world.surjective world.update_convs(3))
  then show ?case using h1 h2 by (simp add: sealed claims)
qed simp

end

section \<open>A sample service\<close>

definition sample_event :: upstream_verified_event where
  "sample_event = default_upstream_verified_event\<lparr>uv_upstream_name := lit ''up'', uv_result := Verified,
     uv_channel_bindings := [TlsSpkiSha256 (lit ''https://u'') (lit ''aa'')]\<rparr>"

definition sample_response :: upstream_response where
  "sample_response = \<lparr>us_status_code = 200, us_body = [2], us_headers = [], us_served_instance_id = None\<rparr>"

definition sample_backend :: "unit backend" where
  "sample_backend = (plain_backend sample_serde (lit ''up'') None (\<lambda>u _. (Inr sample_response, u)))
     \<lparr>be_forward_verified_prepared := (\<lambda>u _ _. (Inr sample_response, u))\<rparr>"

definition sample_sv :: "(unit, unit, jsonl_store) service" where
  "sample_sv =
     \<lparr>sv_identity = \<lparr>svc_keyset = make_keyset \<lparr>wi_public_key = identity_public_key sample_key_provider, wi_subject = None\<rparr>
          [] [] [] \<lparr>epoch_version = 1, epoch_not_after = 1\<rparr>,
        svc_workload_id = [], svc_workload_keyset_digest = [], svc_default_receipt_key_id = lit ''k''\<rparr>,
      sv_config = sample_config \<lparr>epoch_version = 1, epoch_not_after = 1\<rparr>, sv_keys = sample_key_provider,
      sv_sha256 = (\<lambda>x. x), sv_hex_encode = latin1, sv_serde = sample_serde, sv_clock = of_nat, sv_random = (\<lambda>n. [of_nat n]),
      sv_upstream = sample_backend, sv_verify = Some (\<lambda>v r. (sample_event, v)), sv_invalidate = (\<lambda>v r. v),
      sv_put_session = jsonl_put (\<lambda>_ _ _ _. [1]) None, sv_renew_session = jsonl_renew,
      sv_encrypt_response = (\<lambda>n b c p. Inr b)\<rparr>"

definition sample_world :: "(unit, unit, jsonl_store) world" where
  "sample_world = \<lparr>w_verifier = (), w_upstream = (), w_sessions = \<lparr>js_log = [], js_next_seq = 0, js_index = default_index\<rparr>,
     w_receipts = default_receipt_store, w_clock_reads = 0, w_draws = 0, w_trace = []\<rparr>"

end
