(* ===== verification/Streaming.thy ===== *)
theory Streaming
  imports Service
begin

text \<open>
  Streaming responses, \<open>src/aggregator/service/streaming.rs\<close>: the parser that finds the
  chat id and model in the event stream, the transformer that re-encrypts events, and the
  streams that hash what passes through them and publish a draft or sign the receipt at
  the end. A running hash is the bytes it absorbed; encryption of one event is a
  parameter (numbered by the random draw it makes).
\<close>

section \<open>Event-stream lines\<close>

definition strip_bytes :: "bytes \<Rightarrow> bytes \<Rightarrow> bytes option" where
  "strip_bytes p s = (if take (length p) s = p then Some (drop (length p) s) else None)"

definition data_prefix :: bytes where
  "data_prefix = as_bytes (lit ''data:'')"

definition done_marker :: bytes where
  "done_marker = as_bytes (lit ''[DONE]'')"

definition newline_byte :: u8 where
  "newline_byte = 0x0A"

definition pop_cr :: "bytes \<Rightarrow> bytes" where
  "pop_cr line = (if line \<noteq> [] \<and> last line = 0x0D then butlast line else line)"

definition is_comment :: "bytes \<Rightarrow> bool" where
  "is_comment line = (case line of [] \<Rightarrow> False | b # _ \<Rightarrow> b = 0x3A)"

text \<open>The value of a data line, without one leading space.\<close>

definition data_of_line :: "bytes \<Rightarrow> bytes option" where
  "data_of_line line =
     map_option (\<lambda>rest. case strip_bytes [0x20] rest of Some d \<Rightarrow> d | None \<Rightarrow> rest) (strip_bytes data_prefix line)"

section \<open>Chat id and model\<close>

record sse_parser =
  sp_line_buffer :: bytes
  sp_event_data :: bytes
  sp_chat_id :: "str option"
  sp_model_id :: "str option"

definition default_parser :: sse_parser where
  "default_parser = \<lparr>sp_line_buffer = [], sp_event_data = [], sp_chat_id = None, sp_model_id = None\<rparr>"

definition parser_dispatch :: "serde_json \<Rightarrow> sse_parser \<Rightarrow> sse_parser" where
  "parser_dispatch sj p =
     (if sp_event_data p = [] then p
      else
        let data = sp_event_data p;
            p = p\<lparr>sp_event_data := []\<rparr>
        in if data = done_marker then p
           else case from_slice sj data of
                  None \<Rightarrow> p
                | Some parsed \<Rightarrow>
                    let p = (if sp_chat_id p = None
                             then p\<lparr>sp_chat_id := Option.bind (get parsed (lit ''id'')) as_str\<rparr> else p)
                    in if sp_model_id p = None
                       then p\<lparr>sp_model_id := Option.bind (get parsed (lit ''model'')) as_str\<rparr> else p)"

definition parser_line :: "serde_json \<Rightarrow> sse_parser \<Rightarrow> bytes \<Rightarrow> sse_parser" where
  "parser_line sj p line =
     (if line = [] then parser_dispatch sj p
      else if is_comment line then p
      else case data_of_line line of
             None \<Rightarrow> p
           | Some data \<Rightarrow>
               let p = (if sp_event_data p \<noteq> [] then p\<lparr>sp_event_data := sp_event_data p @ [newline_byte]\<rparr> else p)
               in p\<lparr>sp_event_data := sp_event_data p @ data\<rparr>)"

definition parser_done :: "sse_parser \<Rightarrow> bool" where
  "parser_done p \<longleftrightarrow> sp_chat_id p \<noteq> None \<and> sp_model_id p \<noteq> None"

fun observe_bytes :: "serde_json \<Rightarrow> sse_parser \<Rightarrow> bytes \<Rightarrow> sse_parser" where
  "observe_bytes sj p [] = p"
| "observe_bytes sj p (byte # bytes) =
     (if byte = newline_byte then
        let p = parser_line sj (p\<lparr>sp_line_buffer := []\<rparr>) (pop_cr (sp_line_buffer p))
        in if parser_done p then p else observe_bytes sj p bytes
      else observe_bytes sj (p\<lparr>sp_line_buffer := sp_line_buffer p @ [byte]\<rparr>) bytes)"

definition observe :: "serde_json \<Rightarrow> sse_parser \<Rightarrow> bytes \<Rightarrow> sse_parser" where
  "observe sj p chunk = (if parser_done p then p else observe_bytes sj p chunk)"

section \<open>Re-encryption of events\<close>

type_synonym encrypt_event = "nat \<Rightarrow> bytes \<Rightarrow> e2ee_context \<Rightarrow> str \<Rightarrow> e2ee_error + bytes"

record e2ee_transformer =
  et_line_buffer :: bytes
  et_event_lines :: "bytes list"
  et_ctx :: e2ee_context
  et_endpoint_path :: str

definition new_transformer :: "e2ee_context \<Rightarrow> str \<Rightarrow> e2ee_transformer" where
  "new_transformer ctx endpoint_path =
     \<lparr>et_line_buffer = [], et_event_lines = [], et_ctx = ctx, et_endpoint_path = endpoint_path\<rparr>"

fun event_data_loop :: "bool \<Rightarrow> bytes \<Rightarrow> bytes list \<Rightarrow> bytes option" where
  "event_data_loop found out [] = (if found then Some out else None)"
| "event_data_loop found out (line # lines) =
     (if is_comment line then event_data_loop found out lines
      else case data_of_line line of
             None \<Rightarrow> event_data_loop found out lines
           | Some data \<Rightarrow> event_data_loop True ((if found then out @ [newline_byte] else out) @ data) lines)"

definition sse_event_data :: "bytes list \<Rightarrow> bytes option" where
  "sse_event_data = event_data_loop False []"

definition is_sse_data_line :: "bytes \<Rightarrow> bool" where
  "is_sse_data_line line \<longleftrightarrow> strip_bytes data_prefix line \<noteq> None"

definition serialize_original_sse_event :: "bytes list \<Rightarrow> bytes" where
  "serialize_original_sse_event lines = concat (map (\<lambda>line. line @ [newline_byte]) lines) @ [newline_byte]"

text \<open>The second component counts the random draws of the encryption.\<close>

definition dispatch_event ::
    "encrypt_event \<Rightarrow> e2ee_transformer \<times> nat \<Rightarrow> (e2ee_error + bytes) \<times> e2ee_transformer \<times> nat" where
  "dispatch_event encrypt tn =
     (let (t, n) = tn;
          lines = et_event_lines t;
          t = t\<lparr>et_event_lines := []\<rparr>
      in if lines = [] then (Inr [], t, n)
         else case sse_event_data lines of
                None \<Rightarrow> (Inr (serialize_original_sse_event lines), t, n)
              | Some data \<Rightarrow>
                  if data = done_marker then (Inr (serialize_original_sse_event lines), t, n)
                  else (case encrypt n data (et_ctx t) (et_endpoint_path t) of
                          Inl e \<Rightarrow> (Inl e, t, Suc n)
                        | Inr payload \<Rightarrow>
                            (Inr (concat (map (\<lambda>line. line @ [newline_byte]) (filter (\<lambda>l. \<not> is_sse_data_line l) lines))
                                  @ as_bytes (lit ''data: '') @ payload @ [newline_byte, newline_byte]), t, Suc n)))"

definition transformer_line ::
    "encrypt_event \<Rightarrow> e2ee_transformer \<times> nat \<Rightarrow> bytes \<Rightarrow> (e2ee_error + bytes) \<times> e2ee_transformer \<times> nat" where
  "transformer_line encrypt tn line =
     (if line = [] then dispatch_event encrypt tn
      else (Inr [], (fst tn)\<lparr>et_event_lines := et_event_lines (fst tn) @ [line]\<rparr>, snd tn))"

fun push_bytes ::
    "encrypt_event \<Rightarrow> bytes \<Rightarrow> e2ee_transformer \<times> nat \<Rightarrow> bytes \<Rightarrow> (e2ee_error + bytes) \<times> e2ee_transformer \<times> nat" where
  "push_bytes encrypt out tn [] = (Inr out, tn)"
| "push_bytes encrypt out tn (byte # bytes) =
     (if byte = newline_byte then
        (case transformer_line encrypt ((fst tn)\<lparr>et_line_buffer := []\<rparr>, snd tn) (pop_cr (et_line_buffer (fst tn))) of
           (Inl e, tn') \<Rightarrow> (Inl e, tn')
         | (Inr o', tn') \<Rightarrow> push_bytes encrypt (out @ o') tn' bytes)
      else push_bytes encrypt out ((fst tn)\<lparr>et_line_buffer := et_line_buffer (fst tn) @ [byte]\<rparr>, snd tn) bytes)"

definition push_chunk ::
    "encrypt_event \<Rightarrow> e2ee_transformer \<times> nat \<Rightarrow> bytes \<Rightarrow> (e2ee_error + bytes) \<times> e2ee_transformer \<times> nat" where
  "push_chunk encrypt tn chunk = push_bytes encrypt [] tn chunk"

definition finish_transformer ::
    "encrypt_event \<Rightarrow> e2ee_transformer \<times> nat \<Rightarrow> (e2ee_error + bytes) \<times> e2ee_transformer \<times> nat" where
  "finish_transformer encrypt tn =
     (case (if et_line_buffer (fst tn) \<noteq> []
            then transformer_line encrypt ((fst tn)\<lparr>et_line_buffer := []\<rparr>, snd tn) (pop_cr (et_line_buffer (fst tn)))
            else (Inr [], tn)) of
        (Inl e, tn') \<Rightarrow> (Inl e, tn')
      | (Inr out, tn') \<Rightarrow>
          if et_event_lines (fst tn') \<noteq> [] then
            (case dispatch_event encrypt tn' of
               (Inl e, tn'') \<Rightarrow> (Inl e, tn'')
             | (Inr o', tn'') \<Rightarrow> (Inr (out @ o'), tn''))
          else (Inr out, tn'))"

section \<open>The finalizing streams\<close>

record finalizer =
  fz_cleartext :: bytes
  fz_wire :: bytes
  fz_requester :: "receipt_owner option"
  fz_endpoint_path :: str
  fz_parser :: sse_parser
  fz_transformer :: "e2ee_transformer option"
  fz_upstream_ended :: bool
  fz_finished :: bool

definition new_finalizer :: "receipt_owner option \<Rightarrow> str \<Rightarrow> e2ee_transformer option \<Rightarrow> finalizer" where
  "new_finalizer requester endpoint_path transformer =
     \<lparr>fz_cleartext = [], fz_wire = [], fz_requester = requester, fz_endpoint_path = endpoint_path,
      fz_parser = default_parser, fz_transformer = transformer, fz_upstream_ended = False, fz_finished = False\<rparr>"

definition finalizer_hashes :: "('v, 'u, 's) service \<Rightarrow> finalizer \<Rightarrow> str \<times> str" where
  "finalizer_hashes sv f =
     (lit ''sha256:'' @ sv_hex_encode sv (sv_sha256 sv (fz_cleartext f)),
      lit ''sha256:'' @ sv_hex_encode sv (sv_sha256 sv (fz_wire f)))"

definition sign_and_store ::
    "('v, 'u, 's) service \<Rightarrow> finalizer \<Rightarrow> receipt_builder \<Rightarrow> (('v, 'u, 's) world, unit) handler" where
  "sign_and_store sv f builder w =
     (case finalize (sv_hex_encode sv) (sv_keys sv) (svc_default_receipt_key_id (sv_identity sv)) builder of
        Inl e \<Rightarrow> (Inl (ServiceReceipt e), w)
      | Inr receipt \<Rightarrow> (Inr (), store_receipt sv receipt (fz_requester f) w))"

text \<open>
  A finalizing stream: its inner stream, the state its own \<open>finalize_receipt\<close> uses and the
  shared state.
\<close>

record 'f final_stream =
  st_inner :: "(service_error + bytes) poll list"
  st_final :: 'f
  st_shared :: finalizer

type_synonym ('w, 'f) finalize_op = "'f \<Rightarrow> finalizer \<Rightarrow> 'w \<Rightarrow> (service_error + unit) \<times> 'f \<times> 'w"

definition shared_update :: "(finalizer \<Rightarrow> finalizer) \<Rightarrow> 'f final_stream \<Rightarrow> 'f final_stream" where
  "shared_update g s = s\<lparr>st_shared := g (st_shared s)\<rparr>"

definition stream_error ::
    "stream_error_kind \<Rightarrow> service_error \<Rightarrow> 'f final_stream \<Rightarrow> ('v, 'u, 's) world \<Rightarrow>
     (service_error + bytes) option poll \<times> 'f final_stream \<times> ('v, 'u, 's) world" where
  "stream_error kind err s w =
     (Ready (Some (Inl err)), shared_update (\<lambda>f. f\<lparr>fz_finished := True\<rparr>) s,
      record_stream_error (fz_endpoint_path (st_shared s)) kind w)"

definition finalize_stream ::
    "(('v, 'u, 's) world, 'f) finalize_op \<Rightarrow> 'f final_stream \<Rightarrow> ('v, 'u, 's) world \<Rightarrow>
     (service_error + bytes) option poll \<times> 'f final_stream \<times> ('v, 'u, 's) world" where
  "finalize_stream fin s w =
     (let s = shared_update (\<lambda>f. f\<lparr>fz_finished := True\<rparr>) s
      in case fin (st_final s) (st_shared s) w of
           (Inr _, g, w) \<Rightarrow> (Ready None, s\<lparr>st_final := g\<rparr>, w)
         | (Inl err, g, w) \<Rightarrow>
             (Ready (Some (Inl err)), s\<lparr>st_final := g\<rparr>,
              record_stream_error (fz_endpoint_path (st_shared s)) ReceiptFinalize w))"

text \<open>The loop body once the inner stream has ended.\<close>

definition poll_ended ::
    "encrypt_event \<Rightarrow> (('v, 'u, 's) world, 'f) finalize_op \<Rightarrow> 'f final_stream \<Rightarrow> ('v, 'u, 's) world \<Rightarrow>
     (service_error + bytes) option poll \<times> 'f final_stream \<times> ('v, 'u, 's) world" where
  "poll_ended encrypt fin s w =
     (case fz_transformer (st_shared s) of
        None \<Rightarrow> finalize_stream fin s w
      | Some t \<Rightarrow>
          let s = shared_update (\<lambda>f. f\<lparr>fz_transformer := None\<rparr>) s
          in (case finish_transformer encrypt (t, w_draws w) of
                (Inl err, t', n) \<Rightarrow> stream_error StreamE2ee (E2ee err) s (w\<lparr>w_draws := n\<rparr>)
              | (Inr wire, t', n) \<Rightarrow>
                  let w = w\<lparr>w_draws := n\<rparr>
                  in if wire \<noteq> []
                     then (Ready (Some (Inr wire)), shared_update (\<lambda>f. f\<lparr>fz_wire := fz_wire f @ wire\<rparr>) s, w)
                     else finalize_stream fin s w))"

text \<open>The loop over what the inner stream gives.\<close>

fun poll_loop ::
    "serde_json \<Rightarrow> encrypt_event \<Rightarrow> (('v, 'u, 's) world, 'f) finalize_op \<Rightarrow>
     (service_error + bytes) poll list \<Rightarrow> 'f final_stream \<Rightarrow> ('v, 'u, 's) world \<Rightarrow>
     (service_error + bytes) option poll \<times> 'f final_stream \<times> ('v, 'u, 's) world" where
  "poll_loop sj encrypt fin [] s w =
     poll_ended encrypt fin (shared_update (\<lambda>f. f\<lparr>fz_upstream_ended := True\<rparr>) (s\<lparr>st_inner := []\<rparr>)) w"
| "poll_loop sj encrypt fin (Pending # rest) s w = (Pending, s\<lparr>st_inner := rest\<rparr>, w)"
| "poll_loop sj encrypt fin (Ready (Inl err) # rest) s w = stream_error UpstreamRead err (s\<lparr>st_inner := rest\<rparr>) w"
| "poll_loop sj encrypt fin (Ready (Inr chunk) # rest) s w =
     (let s = shared_update (\<lambda>f. f\<lparr>fz_cleartext := fz_cleartext f @ chunk, fz_parser := observe sj (fz_parser f) chunk\<rparr>)
                (s\<lparr>st_inner := rest\<rparr>)
      in case fz_transformer (st_shared s) of
           Some t \<Rightarrow>
             (case push_chunk encrypt (t, w_draws w) chunk of
                (Inl err, t', n) \<Rightarrow>
                  stream_error StreamE2ee (E2ee err) (shared_update (\<lambda>f. f\<lparr>fz_transformer := Some t'\<rparr>) s) (w\<lparr>w_draws := n\<rparr>)
              | (Inr wire, t', n) \<Rightarrow>
                  let s = shared_update (\<lambda>f. f\<lparr>fz_transformer := Some t'\<rparr>) s;
                      w = w\<lparr>w_draws := n\<rparr>
                  in if wire = [] then poll_loop sj encrypt fin rest s w
                     else (Ready (Some (Inr wire)), shared_update (\<lambda>f. f\<lparr>fz_wire := fz_wire f @ wire\<rparr>) s, w))
         | None \<Rightarrow> (Ready (Some (Inr chunk)), shared_update (\<lambda>f. f\<lparr>fz_wire := fz_wire f @ chunk\<rparr>) s, w))"

definition poll_finalizing_stream ::
    "serde_json \<Rightarrow> encrypt_event \<Rightarrow> (('v, 'u, 's) world, 'f) finalize_op \<Rightarrow> 'f final_stream \<Rightarrow> ('v, 'u, 's) world \<Rightarrow>
     (service_error + bytes) option poll \<times> 'f final_stream \<times> ('v, 'u, 's) world" where
  "poll_finalizing_stream sj encrypt fin s w =
     (if fz_finished (st_shared s) then (Ready None, s, w)
      else if fz_upstream_ended (st_shared s) then poll_ended encrypt fin s w
      else poll_loop sj encrypt fin (st_inner s) s w)"

section \<open>The direct stream's receipt\<close>

record receipt_final =
  rf_builder :: "receipt_builder option"
  rf_response_modified :: bool

text \<open>The events after the response, then signing.\<close>

definition stream_builder ::
    "('v, 'u, 's) service \<Rightarrow> bool \<Rightarrow> finalizer \<Rightarrow> receipt_builder \<Rightarrow> receipt_error + receipt_builder" where
  "stream_builder sv response_modified f builder =
     (let (cleartext_hash, wire_hash) = finalizer_hashes sv f;
          builder = set_chat_id builder (sp_chat_id (fz_parser f));
          builder = set_upstream_verified_model_id builder (sp_model_id (fz_parser f))
      in bind_result (if response_modified then add_transparency_event builder ResponseModified else Inr builder)
           (\<lambda>builder. add_response_returned_hashes builder cleartext_hash wire_hash))"

definition finalize_direct ::
    "('v, 'u, 's) service \<Rightarrow> (('v, 'u, 's) world, receipt_final) finalize_op" where
  "finalize_direct sv g f w =
     (case rf_builder g of
        None \<Rightarrow> (Inl (ServiceReceipt EmptyReceipt), g, w)
      | Some builder \<Rightarrow>
          let g = g\<lparr>rf_builder := None\<rparr>
          in (case stream_builder sv (rf_response_modified g) f builder of
                Inl e \<Rightarrow> (Inl (ServiceReceipt e), g, w)
              | Inr builder \<Rightarrow>
                  (case sign_and_store sv f builder w of
                     (Inl e, w) \<Rightarrow> (Inl e, g, w)
                   | (Inr _, w) \<Rightarrow>
                       let model = sp_model_id (fz_parser f);
                           w = record_upstream_response (fz_endpoint_path f) Streaming 200 model w;
                           w = record_receipt_issued (fz_endpoint_path f) Streaming model w
                       in (Inr (), g, w))))"

definition new_receipt_stream ::
    "body_stream \<Rightarrow> receipt_builder \<Rightarrow> receipt_owner option \<Rightarrow> str \<Rightarrow> e2ee_transformer option \<Rightarrow> bool \<Rightarrow>
     receipt_final final_stream" where
  "new_receipt_stream body builder requester endpoint_path transformer response_modified =
     \<lparr>st_inner = map (map_poll (map_err ServiceUpstream)) body,
      st_final = \<lparr>rf_builder = Some builder, rf_response_modified = response_modified\<rparr>,
      st_shared = new_finalizer requester endpoint_path transformer\<rparr>"

section \<open>The middleware's streams\<close>

record receipt_draft =
  rd_receipt_id :: str
  rd_builder :: receipt_builder
  rd_provider_response_hash :: str
  rd_endpoint_path :: str
  rd_request_mode :: request_mode
  rd_response_model :: "str option"

record receipt_journal =
  rj_receipt_id :: "str option"
  rj_draft :: "receipt_draft option"

definition reserve_receipt_id :: "receipt_journal \<Rightarrow> str \<Rightarrow> receipt_journal" where
  "reserve_receipt_id j receipt_id = j\<lparr>rj_receipt_id := Some receipt_id\<rparr>"

definition journal_set :: "receipt_journal \<Rightarrow> receipt_draft \<Rightarrow> receipt_journal" where
  "journal_set j draft = j\<lparr>rj_receipt_id := Some (rd_receipt_id draft), rj_draft := Some draft\<rparr>"

definition journal_take :: "receipt_journal \<Rightarrow> receipt_draft option \<times> receipt_journal" where
  "journal_take j = (rj_draft j, j\<lparr>rj_draft := None\<rparr>)"

definition peek_receipt_id :: "receipt_journal \<Rightarrow> str option" where
  "peek_receipt_id j = rj_receipt_id j"

record drafting_stream =
  ds_inner :: body_stream
  ds_builder :: "receipt_builder option"
  ds_journal :: receipt_journal
  ds_provider_response :: bytes
  ds_receipt_id :: str
  ds_endpoint_path :: str
  ds_parser :: sse_parser
  ds_upstream_status :: nat
  ds_upstream_ended :: bool
  ds_finished :: bool

definition new_drafting_stream ::
    "body_stream \<Rightarrow> receipt_builder \<Rightarrow> receipt_journal \<Rightarrow> str \<Rightarrow> str \<Rightarrow> nat \<Rightarrow> drafting_stream" where
  "new_drafting_stream body builder journal receipt_id endpoint_path status =
     \<lparr>ds_inner = body, ds_builder = Some builder, ds_journal = journal, ds_provider_response = [],
      ds_receipt_id = receipt_id, ds_endpoint_path = endpoint_path, ds_parser = default_parser,
      ds_upstream_status = status, ds_upstream_ended = False, ds_finished = False\<rparr>"

definition publish_draft ::
    "('v, 'u, 's) service \<Rightarrow> drafting_stream \<Rightarrow> ('v, 'u, 's) world \<Rightarrow>
     (service_error + unit) \<times> drafting_stream \<times> ('v, 'u, 's) world" where
  "publish_draft sv d w =
     (let provider_response_hash = lit ''sha256:'' @ sv_hex_encode sv (sv_sha256 sv (ds_provider_response d));
          response_model = sp_model_id (ds_parser d)
      in case ds_builder d of
           None \<Rightarrow> (Inl (ServiceReceipt EmptyReceipt), d, w)
         | Some builder \<Rightarrow>
             let d = d\<lparr>ds_builder := None\<rparr>;
                 builder = set_chat_id builder (sp_chat_id (ds_parser d));
                 builder = set_upstream_verified_model_id builder response_model
             in (case add_response_received_hash builder provider_response_hash of
                   Inl e \<Rightarrow> (Inl (ServiceReceipt e), d, w)
                 | Inr builder \<Rightarrow>
                     let draft = \<lparr>rd_receipt_id = ds_receipt_id d, rd_builder = builder,
                           rd_provider_response_hash = provider_response_hash, rd_endpoint_path = ds_endpoint_path d,
                           rd_request_mode = Streaming, rd_response_model = response_model\<rparr>
                     in (Inr (), d\<lparr>ds_journal := journal_set (ds_journal d) draft\<rparr>,
                         record_upstream_response (ds_endpoint_path d) Streaming (ds_upstream_status d) response_model w)))"

definition poll_drafting_stream ::
    "('v, 'u, 's) service \<Rightarrow> drafting_stream \<Rightarrow> ('v, 'u, 's) world \<Rightarrow>
     (service_error + bytes) option poll \<times> drafting_stream \<times> ('v, 'u, 's) world" where
  "poll_drafting_stream sv d w =
     (if ds_finished d then (Ready None, d, w)
      else
        let ended = (\<lambda>d.
              let d = d\<lparr>ds_finished := True\<rparr>
              in case publish_draft sv d w of
                   (Inr _, d, w) \<Rightarrow> (Ready None, d, w)
                 | (Inl err, d, w) \<Rightarrow>
                     (Ready (Some (Inl err)), d, record_stream_error (ds_endpoint_path d) ReceiptFinalize w))
        in if ds_upstream_ended d then ended d
           else (case ds_inner d of
                   [] \<Rightarrow> ended (d\<lparr>ds_upstream_ended := True\<rparr>)
                 | Pending # rest \<Rightarrow> (Pending, d\<lparr>ds_inner := rest\<rparr>, w)
                 | Ready (Inr chunk) # rest \<Rightarrow>
                     (Ready (Some (Inr chunk)),
                      d\<lparr>ds_inner := rest, ds_provider_response := ds_provider_response d @ chunk,
                        ds_parser := observe (sv_serde sv) (ds_parser d) chunk\<rparr>, w)
                 | Ready (Inl err) # rest \<Rightarrow>
                     (Ready (Some (Inl (ServiceUpstream err))), d\<lparr>ds_inner := rest, ds_finished := True\<rparr>,
                      record_stream_error (ds_endpoint_path d) UpstreamRead w)))"

text \<open>
  The finalizer of the middleware's response takes the draft from the journal, as the
  drafting stream left it.
\<close>

record journal_final =
  jf_journal :: receipt_journal
  jf_response_modified_by_wire :: bool

definition draft_builder ::
    "('v, 'u, 's) service \<Rightarrow> bool \<Rightarrow> finalizer \<Rightarrow> receipt_draft \<Rightarrow> receipt_error + receipt_builder" where
  "draft_builder sv modified_by_wire f draft =
     (let (cleartext_hash, wire_hash) = finalizer_hashes sv f;
          builder = (if sp_chat_id (fz_parser f) \<noteq> None
            then set_chat_id (rd_builder draft) (sp_chat_id (fz_parser f)) else rd_builder draft)
      in bind_result (if rd_provider_response_hash draft \<noteq> cleartext_hash \<or> modified_by_wire
                      then add_transparency_event builder ResponseModified else Inr builder)
           (\<lambda>builder. add_response_returned_hashes builder cleartext_hash wire_hash))"

definition finalize_journal ::
    "('v, 'u, 's) service \<Rightarrow> (('v, 'u, 's) world, journal_final) finalize_op" where
  "finalize_journal sv g f w =
     (case journal_take (jf_journal g) of
        (None, j) \<Rightarrow> (Inr (), g\<lparr>jf_journal := j\<rparr>, w)
      | (Some draft, j) \<Rightarrow>
          let g = g\<lparr>jf_journal := j\<rparr>
          in (case draft_builder sv (jf_response_modified_by_wire g) f draft of
                Inl e \<Rightarrow> (Inl (ServiceReceipt e), g, w)
              | Inr builder \<Rightarrow>
                  (case sign_and_store sv f builder w of
                     (Inl e, w) \<Rightarrow> (Inl e, g, w)
                   | (Inr _, w) \<Rightarrow>
                       (Inr (), g, record_receipt_issued (rd_endpoint_path draft) (rd_request_mode draft)
                                     (rd_response_model draft) w))))"

section \<open>Chunking\<close>

lemma parser_done_buffer [simp]: "parser_done (p\<lparr>sp_line_buffer := x\<rparr>) = parser_done p"
  by (simp add: parser_done_def)

lemma observe_bytes_append:
  "\<not> parser_done p \<Longrightarrow> observe_bytes sj p (a @ b) = observe sj (observe_bytes sj p a) b"
  by (induction a arbitrary: p) (auto simp: observe_def Let_def)

lemma observe_append: "observe sj (observe sj p a) b = observe sj p (a @ b)"
proof (cases "parser_done p")
  case False
  then have "observe sj p x = observe_bytes sj p x" for x by (simp add: observe_def)
  with False show ?thesis by (simp add: observe_bytes_append)
qed (simp add: observe_def)

lemma observe_Nil [simp]: "observe sj p [] = p"
  by (simp add: observe_def)

lemma fold_observe: "fold (\<lambda>c p. observe sj p c) cs p = observe sj p (concat cs)"
  by (induction cs arbitrary: p) (simp_all add: observe_append)

text \<open>Feeding a transformer chunk by chunk, until an error.\<close>

fun push_chunks ::
    "encrypt_event \<Rightarrow> bytes \<Rightarrow> e2ee_transformer \<times> nat \<Rightarrow> bytes list \<Rightarrow> (e2ee_error + bytes) \<times> e2ee_transformer \<times> nat" where
  "push_chunks encrypt out tn [] = (Inr out, tn)"
| "push_chunks encrypt out tn (c # cs) =
     (case push_chunk encrypt tn c of
        (Inl e, tn') \<Rightarrow> (Inl e, tn')
      | (Inr o', tn') \<Rightarrow> push_chunks encrypt (out @ o') tn' cs)"

lemma push_bytes_append:
  "push_bytes encrypt out tn (a @ b) =
     (case push_bytes encrypt out tn a of (Inl e, tn') \<Rightarrow> (Inl e, tn') | (Inr o', tn') \<Rightarrow> push_bytes encrypt o' tn' b)"
  by (induction encrypt out tn a rule: push_bytes.induct) (auto split: prod.splits sum.splits)

lemma push_bytes_out:
  "push_bytes encrypt (out @ out') tn a =
     (case push_bytes encrypt out' tn a of (Inl e, tn') \<Rightarrow> (Inl e, tn') | (Inr o', tn') \<Rightarrow> (Inr (out @ o'), tn'))"
  by (induction encrypt out' tn a rule: push_bytes.induct) (auto split: prod.splits sum.splits)

lemma push_chunks_bytes: "push_chunks encrypt out tn cs = push_bytes encrypt out tn (concat cs)"
proof (induction cs arbitrary: out tn)
  case (Cons c cs)
  show ?case
    using push_bytes_out [of encrypt out "[]" tn c]
    by (auto simp: push_bytes_append push_chunk_def Cons.IH split: prod.splits sum.splits)
qed simp

section \<open>Driving a stream\<close>

text \<open>Polling at most \<open>n\<close> times: the items delivered and whether the stream ended.\<close>

fun drive ::
    "serde_json \<Rightarrow> encrypt_event \<Rightarrow> (('v, 'u, 's) world, 'f) finalize_op \<Rightarrow> nat \<Rightarrow> 'f final_stream \<Rightarrow> ('v, 'u, 's) world \<Rightarrow>
     (service_error + bytes) list \<times> bool \<times> 'f final_stream \<times> ('v, 'u, 's) world" where
  "drive sj encrypt fin 0 s w = ([], False, s, w)"
| "drive sj encrypt fin (Suc n) s w =
     (case poll_finalizing_stream sj encrypt fin s w of
        (Pending, s', w') \<Rightarrow> drive sj encrypt fin n s' w'
      | (Ready None, s', w') \<Rightarrow> ([], True, s', w')
      | (Ready (Some item), s', w') \<Rightarrow>
          (case drive sj encrypt fin n s' w' of (items, rest) \<Rightarrow> (item # items, rest)))"

definition delivered :: "(service_error + bytes) list \<Rightarrow> bytes" where
  "delivered items = concat (map (case_sum (\<lambda>_. []) (\<lambda>c. c)) items)"

fun cleartext_of :: "('e + bytes) poll list \<Rightarrow> bytes" where
  "cleartext_of [] = []"
| "cleartext_of (Ready (Inr c) # rest) = c @ cleartext_of rest"
| "cleartext_of (_ # rest) = cleartext_of rest"

lemma delivered_simps [simp]:
  "delivered [] = []" "delivered (Inr c # items) = c @ delivered items" "delivered (Inl e # items) = delivered items"
  by (simp_all add: delivered_def)

text \<open>The bytes the finalizer will have hashed at the end, and how many polls are left.\<close>

definition all_cleartext :: "'f final_stream \<Rightarrow> bytes" where
  "all_cleartext s = fz_cleartext (st_shared s) @ cleartext_of (st_inner s)"

definition polls_left :: "'f final_stream \<Rightarrow> nat" where
  "polls_left s = length (st_inner s) + (if fz_upstream_ended (st_shared s) then 0 else 1)
     + (if fz_transformer (st_shared s) = None then 0 else 1)"

definition stream_inv :: "'f final_stream \<Rightarrow> bool" where
  "stream_inv s \<longleftrightarrow> (fz_upstream_ended (st_shared s) \<longrightarrow> st_inner s = [])"

text \<open>What one poll of an unfinished stream does.\<close>

definition continues ::
    "'f final_stream \<Rightarrow> 'f final_stream \<Rightarrow> ('v, 'u, 's) world \<Rightarrow> ('v, 'u, 's) world \<Rightarrow> bytes \<Rightarrow> bool" where
  "continues s s' w w' c \<longleftrightarrow>
     \<not> fz_finished (st_shared s') \<and> stream_inv s' \<and> polls_left s' < polls_left s \<and> st_final s' = st_final s
     \<and> all_cleartext s' = all_cleartext s \<and> fz_wire (st_shared s') = fz_wire (st_shared s) @ c
     \<and> fz_requester (st_shared s') = fz_requester (st_shared s) \<and> w_receipts w' = w_receipts w"

definition finalizes ::
    "(('v, 'u, 's) world, 'f) finalize_op \<Rightarrow> 'f final_stream \<Rightarrow> ('v, 'u, 's) world \<Rightarrow> service_error + unit \<Rightarrow> ('v, 'u, 's) world \<Rightarrow> bool" where
  "finalizes fin s w r w' \<longleftrightarrow>
     (\<exists>f w1 g w2. fin (st_final s) f w1 = (r, g, w2) \<and> w_receipts w1 = w_receipts w \<and> w_receipts w' = w_receipts w2
        \<and> fz_wire f = fz_wire (st_shared s) \<and> fz_cleartext f = all_cleartext s \<and> fz_requester f = fz_requester (st_shared s))"

definition poll_outcome ::
    "(('v, 'u, 's) world, 'f) finalize_op \<Rightarrow> 'f final_stream \<Rightarrow> ('v, 'u, 's) world \<Rightarrow>
     (service_error + bytes) option poll \<Rightarrow> 'f final_stream \<Rightarrow> ('v, 'u, 's) world \<Rightarrow> bool" where
  "poll_outcome fin s w p s' w' \<longleftrightarrow>
     (case p of
        Pending \<Rightarrow> continues s s' w w' []
      | Ready (Some (Inr c)) \<Rightarrow> continues s s' w w' c
      | Ready (Some (Inl e)) \<Rightarrow> fz_finished (st_shared s') \<and> (w_receipts w' = w_receipts w \<or> finalizes fin s w (Inl e) w')
      | Ready None \<Rightarrow> fz_finished (st_shared s') \<and> finalizes fin s w (Inr ()) w')"

lemmas shared_simps [simp] = shared_update_def

lemma stream_error_outcome:
  "stream_error kind err s w = (p, s', w') \<Longrightarrow> w_receipts w = w_receipts w0 \<Longrightarrow> poll_outcome fin s0 w0 p s' w'"
  by (auto simp: stream_error_def poll_outcome_def metric_defs)

lemma finalize_stream_outcome:
  assumes "finalize_stream fin s w = (p, s', w')" and "w_receipts w = w_receipts w0" "st_final s = st_final s0"
    and "fz_wire (st_shared s) = fz_wire (st_shared s0)" "fz_cleartext (st_shared s) = all_cleartext s0"
    and "fz_requester (st_shared s) = fz_requester (st_shared s0)"
  shows "poll_outcome fin s0 w0 p s' w'"
proof -
  define f where "f = (st_shared s)\<lparr>fz_finished := True\<rparr>"
  obtain r g w2 where fin: "fin (st_final s) f w = (r, g, w2)" by (metis prod_cases3)
  have "finalizes fin s0 w0 r w2" "w_receipts w'' = w_receipts w2 \<Longrightarrow> finalizes fin s0 w0 r w''" for w''
    using fin assms(2-) unfolding finalizes_def by (metis f_def finalizer.simps(1-3) finalizer.update_convs(8) finalizer.surjective)+
  moreover have "fz_finished f" by (simp add: f_def)
  ultimately show ?thesis
    using assms(1) fin by (cases r) (auto simp: finalize_stream_def Let_def poll_outcome_def metric_defs simp flip: f_def)
qed

text \<open>A state inside the loop, relative to the poll's start; \<open>inner\<close> is what is left to read.\<close>

definition in_loop ::
    "'f final_stream \<Rightarrow> ('v, 'u, 's) world \<Rightarrow> (service_error + bytes) poll list \<Rightarrow> 'f final_stream \<Rightarrow> ('v, 'u, 's) world \<Rightarrow> bool" where
  "in_loop s0 w0 inner s w \<longleftrightarrow>
     fz_cleartext (st_shared s) @ cleartext_of inner = all_cleartext s0 \<and> fz_wire (st_shared s) = fz_wire (st_shared s0)
     \<and> st_final s = st_final s0 \<and> fz_requester (st_shared s) = fz_requester (st_shared s0)
     \<and> \<not> fz_finished (st_shared s) \<and> w_receipts w = w_receipts w0
     \<and> length inner + (if fz_upstream_ended (st_shared s) then 0 else 1)
         + (if fz_transformer (st_shared s) = None then 0 else 1) \<le> polls_left s0"

lemma poll_ended_outcome:
  assumes "poll_ended encrypt fin s w = (p, s', w')" "in_loop s0 w0 [] s w" "st_inner s = []" "fz_upstream_ended (st_shared s)"
  shows "poll_outcome fin s0 w0 p s' w'"
proof (cases "fz_transformer (st_shared s)")
  case None
  with assms(1) have "finalize_stream fin s w = (p, s', w')" by (simp add: poll_ended_def)
  then show ?thesis by (rule finalize_stream_outcome) (use assms(2) in \<open>simp_all add: in_loop_def\<close>)
next
  case (Some t)
  define s1 where "s1 = shared_update (\<lambda>f. f\<lparr>fz_transformer := None\<rparr>) s"
  obtain r t' n where f: "finish_transformer encrypt (t, w_draws w) = (r, t', n)" by (metis prod_cases3)
  show ?thesis
  proof (cases r)
    case (Inl err)
    then have "stream_error StreamE2ee (E2ee err) s1 (w\<lparr>w_draws := n\<rparr>) = (p, s', w')"
      using assms(1) by (simp add: poll_ended_def Some f s1_def)
    then show ?thesis by (rule stream_error_outcome) (use assms(2) in \<open>simp add: in_loop_def\<close>)
  next
    case (Inr wire)
    show ?thesis
    proof (cases "wire = []")
      case True
      then have "finalize_stream fin s1 (w\<lparr>w_draws := n\<rparr>) = (p, s', w')"
        using assms(1) by (simp add: poll_ended_def Some f s1_def Inr)
      then show ?thesis by (rule finalize_stream_outcome) (use assms(2) in \<open>simp_all add: in_loop_def s1_def\<close>)
    next
      case False
      then show ?thesis
        using assms Some by (auto simp: poll_ended_def f Inr Let_def poll_outcome_def continues_def in_loop_def
            stream_inv_def all_cleartext_def polls_left_def)
    qed
  qed
qed

lemma poll_loop_outcome:
  assumes "poll_loop sj encrypt fin inner s w = (p, s', w')" "in_loop s0 w0 inner s w" "\<not> fz_upstream_ended (st_shared s)"
  shows "poll_outcome fin s0 w0 p s' w'"
  using assms
proof (induction sj encrypt fin inner s w rule: poll_loop.induct)
  case (1 sj encrypt fin s w)
  let ?s = "shared_update (\<lambda>f. f\<lparr>fz_upstream_ended := True\<rparr>) (s\<lparr>st_inner := []\<rparr>)"
  have "poll_ended encrypt fin ?s w = (p, s', w')" using "1.prems"(1) by simp
  then show ?case by (rule poll_ended_outcome) (use "1.prems"(2) in \<open>simp_all add: in_loop_def\<close>)
next
  case (2 sj encrypt fin rest s w)
  then show ?case
    by (auto simp: poll_outcome_def continues_def in_loop_def stream_inv_def all_cleartext_def polls_left_def)
next
  case (3 sj encrypt fin err rest s w)
  then have "stream_error UpstreamRead err (s\<lparr>st_inner := rest\<rparr>) w = (p, s', w')" by simp
  then show ?case by (rule stream_error_outcome) (use "3.prems"(2) in \<open>simp add: in_loop_def\<close>)
next
  case (4 sj encrypt fin chunk rest s w)
  define s1 where "s1 = shared_update (\<lambda>f. f\<lparr>fz_cleartext := fz_cleartext f @ chunk, fz_parser := observe sj (fz_parser f) chunk\<rparr>)
    (s\<lparr>st_inner := rest\<rparr>)"
  have s1: "in_loop s0 w0 rest s1 w" "length rest + 1 + (if fz_transformer (st_shared s1) = None then 0 else 1) < polls_left s0"
    "\<not> fz_upstream_ended (st_shared s1)" "st_inner s1 = rest"
    using "4.prems"(2,3) by (auto simp: in_loop_def s1_def)
  show ?case
  proof (cases "fz_transformer (st_shared s1)")
    case None
    then have "p = Ready (Some (Inr chunk))" "s' = shared_update (\<lambda>f. f\<lparr>fz_wire := fz_wire f @ chunk\<rparr>) s1" "w' = w"
      using "4.prems"(1) by (simp_all add: s1_def Let_def)
    then show ?thesis using s1 None
      by (auto simp: poll_outcome_def continues_def in_loop_def stream_inv_def all_cleartext_def polls_left_def)
  next
    case (Some t)
    obtain r t' n where f: "push_chunk encrypt (t, w_draws w) chunk = (r, t', n)" by (metis prod_cases3)
    define s2 where "s2 = shared_update (\<lambda>f. f\<lparr>fz_transformer := Some t'\<rparr>) s1"
    have s2: "in_loop s0 w0 rest s2 (w\<lparr>w_draws := n\<rparr>)" "\<not> fz_upstream_ended (st_shared s2)" "st_inner s2 = rest"
      "fz_transformer (st_shared s2) \<noteq> None"
      using s1 Some by (auto simp: in_loop_def s2_def)
    show ?thesis
    proof (cases r)
      case (Inl err)
      then have "stream_error StreamE2ee (E2ee err) s2 (w\<lparr>w_draws := n\<rparr>) = (p, s', w')"
        using "4.prems"(1) Some by (simp add: f s1_def s2_def Let_def)
      then show ?thesis by (rule stream_error_outcome) (use s1(1) in \<open>simp add: in_loop_def\<close>)
    next
      case (Inr wire)
      show ?thesis
      proof (cases "wire = []")
        case True
        then have "poll_loop sj encrypt fin rest s2 (w\<lparr>w_draws := n\<rparr>) = (p, s', w')"
          using "4.prems"(1) Some by (simp add: f s1_def s2_def Let_def Inr)
        from "4.IH" [OF s1_def Some f [symmetric] Inr refl s2_def refl True this s2(1,2)] show ?thesis .
      next
        case False
        then have "p = Ready (Some (Inr wire))" "s' = shared_update (\<lambda>f. f\<lparr>fz_wire := fz_wire f @ wire\<rparr>) s2"
          "w' = w\<lparr>w_draws := n\<rparr>"
          using "4.prems"(1) Some by (simp_all add: f s1_def s2_def Let_def Inr)
        then show ?thesis using s1(2) s2 Some
          by (auto simp: poll_outcome_def continues_def in_loop_def stream_inv_def all_cleartext_def polls_left_def)
      qed
    qed
  qed
qed

lemma poll_finalizing_stream_outcome:
  assumes "poll_finalizing_stream sj encrypt fin s w = (p, s', w')" "\<not> fz_finished (st_shared s)" "stream_inv s"
  shows "poll_outcome fin s w p s' w'"
proof (cases "fz_upstream_ended (st_shared s)")
  case True
  with assms(3) have "st_inner s = []" by (simp add: stream_inv_def)
  with True assms show ?thesis
    by (intro poll_ended_outcome [of encrypt fin s w p s' w' s w])
       (simp_all add: poll_finalizing_stream_def in_loop_def all_cleartext_def polls_left_def)
next
  case False
  with assms show ?thesis
    by (intro poll_loop_outcome [of sj encrypt fin "st_inner s" s w p s' w' s w])
       (simp_all add: poll_finalizing_stream_def in_loop_def all_cleartext_def polls_left_def)
qed

lemma drive_finished:
  "fz_finished (st_shared s) \<Longrightarrow> 0 < n \<Longrightarrow> drive sj encrypt fin n s w = ([], True, s, w)"
  by (cases n) (simp_all add: poll_finalizing_stream_def)

text \<open>How a stream that has ended left the receipts, by what it delivered.\<close>

definition drive_outcome ::
    "(('v, 'u, 's) world, 'f) finalize_op \<Rightarrow> 'f final_stream \<Rightarrow> ('v, 'u, 's) world \<Rightarrow>
     (service_error + bytes) list \<Rightarrow> ('v, 'u, 's) world \<Rightarrow> bool" where
  "drive_outcome fin s w items w' \<longleftrightarrow>
     (\<exists>f w1 r g w2. fin (st_final s) f w1 = (r, g, w2) \<and> w_receipts w1 = w_receipts w
        \<and> fz_wire f = fz_wire (st_shared s) @ delivered items \<and> fz_cleartext f = all_cleartext s
        \<and> fz_requester f = fz_requester (st_shared s)
        \<and> (if \<exists>e. Inl e \<in> set items
           then w_receipts w' = w_receipts w \<or> w_receipts w' = w_receipts w2 \<and> (\<exists>e. r = Inl e)
           else w_receipts w' = w_receipts w2 \<and> r = Inr ()))"

lemma drive_outcome_step:
  assumes "continues s s1 w w1 c" "drive_outcome fin s1 w1 items w'"
    and "items' = items \<and> c = [] \<or> items' = Inr c # items"
  shows "drive_outcome fin s w items' w'"
proof -
  have e: "(\<exists>e. Inl e \<in> set items') \<longleftrightarrow> (\<exists>e. Inl e \<in> set items)" "delivered items' = c @ delivered items"
    using assms(3) by auto
  have k: "st_final s1 = st_final s" "w_receipts w1 = w_receipts w" "all_cleartext s1 = all_cleartext s"
    "fz_wire (st_shared s1) = fz_wire (st_shared s) @ c" "fz_requester (st_shared s1) = fz_requester (st_shared s)"
    using assms(1) by (auto simp: continues_def)
  from assms(2) show ?thesis unfolding drive_outcome_def e k append_assoc .
qed

lemma drive_spec:
  assumes "\<not> fz_finished (st_shared s)" "stream_inv s" "polls_left s + 2 \<le> n"
    and "drive sj encrypt fin n s w = (items, ended, s', w')"
  shows "ended \<and> drive_outcome fin s w items w'"
  using assms
proof (induction n arbitrary: s w items ended s' w')
  case (Suc n)
  obtain p s1 w1 where poll: "poll_finalizing_stream sj encrypt fin s w = (p, s1, w1)" by (metis prod_cases3)
  note out = poll_finalizing_stream_outcome [OF poll Suc.prems(1,2)]
  obtain items1 ended1 s2 w2 where d: "drive sj encrypt fin n s1 w1 = (items1, ended1, s2, w2)" by (metis prod_cases4)
  have more: "ended1 \<and> drive_outcome fin s1 w1 items1 w2" if "continues s s1 w w1 c" for c
    using Suc.IH [OF _ _ _ d] that Suc.prems(3) by (auto simp: continues_def)
  consider "p = Pending" | c where "p = Ready (Some (Inr c))" | e where "p = Ready (Some (Inl e))" | "p = Ready None"
    by (metis poll.exhaust option.exhaust sum.exhaust)
  then show ?case
  proof cases
    case 1
    then have c: "continues s s1 w w1 []" using out by (simp add: poll_outcome_def)
    have "items = items1" "ended = ended1" "w' = w2" using Suc.prems(4) 1 poll d by simp_all
    then show ?thesis using more [OF c] drive_outcome_step [OF c] by blast
  next
    case (2 c)
    then have c: "continues s s1 w w1 c" using out by (simp add: poll_outcome_def)
    have "items = Inr c # items1" "ended = ended1" "w' = w2" using Suc.prems(4) 2 poll d by simp_all
    then show ?thesis using more [OF c] drive_outcome_step [OF c] by blast
  next
    case (3 e)
    then have f: "fz_finished (st_shared s1)" "w_receipts w1 = w_receipts w \<or> finalizes fin s w (Inl e) w1"
      using out by (simp_all add: poll_outcome_def)
    have "drive sj encrypt fin n s1 w1 = ([], True, s1, w1)" by (rule drive_finished [OF f(1)]) (use Suc.prems(3) in simp)
    then have "items = [Inl e]" "ended" "w' = w1" using Suc.prems(4) 3 poll by simp_all
    moreover obtain f0 :: finalizer where "fz_wire f0 = fz_wire (st_shared s)" "fz_cleartext f0 = all_cleartext s"
      "fz_requester f0 = fz_requester (st_shared s)" by (metis finalizer.select_convs(1-3))
    moreover obtain r g wz where "fin (st_final s) f0 w = (r, g, wz)" by (metis prod_cases3)
    ultimately show ?thesis using f(2) unfolding drive_outcome_def finalizes_def by fastforce
  next
    case 4
    then have "items = []" "ended" "w' = w1" using Suc.prems(4) poll by simp_all
    then show ?thesis using out 4 unfolding poll_outcome_def drive_outcome_def finalizes_def by fastforce
  qed
qed simp

section \<open>The receipt of a direct stream\<close>

lemma add_response_returned_hashes_Inr:
  "add_response_returned_hashes b c h = Inr b' \<Longrightarrow>
   rb_events b' = rb_events b @ [\<lparr>ev_seq = rb_next_seq b, ev_type = EVENT_RESPONSE_RETURNED,
     ev_fields = Object [(lit ''cleartext_hash'', JString c), (lit ''wire_hash'', JString h)]\<rparr>]"
  by (simp add: add_response_returned_hashes_def append_event_Inr)

lemma stream_builder_last:
  "stream_builder sv modified f builder = Inr b \<Longrightarrow>
   \<exists>es q. rb_events b = es @ [\<lparr>ev_seq = q, ev_type = EVENT_RESPONSE_RETURNED,
     ev_fields = Object [(lit ''cleartext_hash'', JString (sha256_hex (sv_sha256 sv) (sv_hex_encode sv) (fz_cleartext f))),
                         (lit ''wire_hash'', JString (sha256_hex (sv_sha256 sv) (sv_hex_encode sv) (fz_wire f)))]\<rparr>]"
  by (auto simp: stream_builder_def finalizer_hashes_def Let_def bind_result_Inr sha256_hex_def
      dest!: add_response_returned_hashes_Inr)

lemma finalize_event_log: "finalize hx ks k b = Inr r \<Longrightarrow> rc_event_log r = rb_events b"
  by (auto simp: finalize_Inr unsigned_receipt_def)

lemma sign_and_store_cases:
  assumes "sign_and_store sv f b w = (r, w')"
  obtains e where "r = Inl e" "w' = w"
  | receipt now where "r = Inr ()" "rc_event_log receipt = rb_events b"
      "w_receipts w' = put_receipt (w_receipts w) receipt (fz_requester f) now
         (saturating_add now (cfg_receipt_ttl_seconds (sv_config sv)))"
proof (cases "finalize (sv_hex_encode sv) (sv_keys sv) (svc_default_receipt_key_id (sv_identity sv)) b")
  case (Inl e)
  then show thesis using assms that(1) by (auto simp: sign_and_store_def)
next
  case (Inr receipt)
  then have "r = Inr ()" "w' = store_receipt sv receipt (fz_requester f) w" using assms by (simp_all add: sign_and_store_def)
  then show thesis
    using that(2) [of receipt "sv_clock sv (w_clock_reads w)"] finalize_event_log [OF Inr]
    by (simp add: store_receipt_def now_secs_def Let_def)
qed

lemma finalize_direct_cases:
  assumes "finalize_direct sv g f w = (r, g', w')" "rf_builder g = Some builder"
  obtains e where "r = Inl e" "w_receipts w' = w_receipts w"
  | receipt now es q where "r = Inr ()"
      "rc_event_log receipt = es @ [\<lparr>ev_seq = q, ev_type = EVENT_RESPONSE_RETURNED,
         ev_fields = Object [(lit ''cleartext_hash'', JString (sha256_hex (sv_sha256 sv) (sv_hex_encode sv) (fz_cleartext f))),
                             (lit ''wire_hash'', JString (sha256_hex (sv_sha256 sv) (sv_hex_encode sv) (fz_wire f)))]\<rparr>]"
      "w_receipts w' = put_receipt (w_receipts w) receipt (fz_requester f) now
         (saturating_add now (cfg_receipt_ttl_seconds (sv_config sv)))"
proof (cases "stream_builder sv (rf_response_modified g) f builder")
  case (Inl e)
  then show thesis using assms that(1) by (auto simp: finalize_direct_def)
next
  case (Inr b)
  obtain r' w1 where ss: "sign_and_store sv f b w = (r', w1)" by fastforce
  obtain es q where es: "rb_events b = es @ [\<lparr>ev_seq = q, ev_type = EVENT_RESPONSE_RETURNED,
     ev_fields = Object [(lit ''cleartext_hash'', JString (sha256_hex (sv_sha256 sv) (sv_hex_encode sv) (fz_cleartext f))),
                         (lit ''wire_hash'', JString (sha256_hex (sv_sha256 sv) (sv_hex_encode sv) (fz_wire f)))]\<rparr>]"
    using stream_builder_last [OF Inr] by blast
  from ss show thesis
  proof (cases rule: sign_and_store_cases)
    case (1 e)
    then show thesis using assms that(1) Inr ss by (auto simp: finalize_direct_def)
  next
    case (2 receipt now)
    then have "r = Inr ()" "w_receipts w' = w_receipts w1"
      using assms Inr ss by (auto simp: finalize_direct_def Let_def metric_defs)
    with 2 es that(2) show thesis by simp
  qed
qed

lemma cleartext_of_lift: "cleartext_of (map (map_poll (map_err h)) body) = cleartext_of body"
proof (induction body)
  case (Cons x xs)
  then show ?case by (cases x; cases "case x of Ready r \<Rightarrow> r") (auto split: poll.splits simp: map_err_def)
qed simp

section \<open>Properties\<close>

text \<open>
  C28. Transport chunking does not matter: splitting the same bytes into chunks in any
  way gives the same chat id and model (and parser state), the same re-encrypted bytes
  in total, and the same failure if there is one.
\<close>

theorem chunking_irrelevant:
  "fold (\<lambda>c p. observe sj p c) cs p = observe sj p (concat cs)
   \<and> push_chunks encrypt [] tn cs = push_chunk encrypt tn (concat cs)"
  by (simp add: fold_observe push_chunks_bytes push_chunk_def)

text \<open>
  C8. A streamed response always ends, within four polls more than the upstream stream
  gives, and its receipt covers exactly what was delivered: if no item was an error, one
  receipt is stored for the requester, whose last event has the hash of all upstream
  bytes and the hash of all bytes delivered to the client; if any item was an error, the
  receipt store is unchanged.
\<close>

theorem stream_receipt_covers_delivery:
  assumes "length body + 4 \<le> n"
  shows "case drive sj encrypt (finalize_direct sv) n
           (new_receipt_stream body builder requester path transformer modified) w of
     (items, ended, s', w') \<Rightarrow> ended \<and>
       (if \<exists>e. Inl e \<in> set items then w_receipts w' = w_receipts w
        else \<exists>receipt now es q.
          w_receipts w' = put_receipt (w_receipts w) receipt requester now
            (saturating_add now (cfg_receipt_ttl_seconds (sv_config sv)))
          \<and> rc_event_log receipt = es @ [\<lparr>ev_seq = q, ev_type = EVENT_RESPONSE_RETURNED,
              ev_fields = Object [
                (lit ''cleartext_hash'', JString (sha256_hex (sv_sha256 sv) (sv_hex_encode sv) (cleartext_of body))),
                (lit ''wire_hash'', JString (sha256_hex (sv_sha256 sv) (sv_hex_encode sv) (delivered items)))]\<rparr>])"
proof -
  define s where "s = new_receipt_stream body builder requester path transformer modified"
  obtain items ended s' w' where d: "drive sj encrypt (finalize_direct sv) n s w = (items, ended, s', w')" by (metis prod_cases4)
  have s: "\<not> fz_finished (st_shared s)" "stream_inv s" "polls_left s + 2 \<le> n" "all_cleartext s = cleartext_of body"
    "rf_builder (st_final s) = Some builder" "fz_wire (st_shared s) = []" "fz_requester (st_shared s) = requester"
    using assms by (simp_all add: s_def new_receipt_stream_def new_finalizer_def stream_inv_def polls_left_def
        all_cleartext_def cleartext_of_lift)
  have ended: "ended" and out: "drive_outcome (finalize_direct sv) s w items w'" using drive_spec [OF s(1-3) d] by auto
  obtain f w1 r g w2 where f: "finalize_direct sv (st_final s) f w1 = (r, g, w2)" "w_receipts w1 = w_receipts w"
    "fz_wire f = delivered items" "fz_cleartext f = cleartext_of body" "fz_requester f = requester"
    and r: "if \<exists>e. Inl e \<in> set items
      then w_receipts w' = w_receipts w \<or> w_receipts w' = w_receipts w2 \<and> (\<exists>e. r = Inl e)
      else w_receipts w' = w_receipts w2 \<and> r = Inr ()"
    using out unfolding drive_outcome_def s by auto
  from f(1) s(5) show ?thesis
  proof (cases rule: finalize_direct_cases)
    case (1 e)
    then show ?thesis using ended r f(2) by (auto simp: d simp flip: s_def split: if_splits)
  next
    case (2 receipt now es q)
    then show ?thesis using ended r f by (auto simp: d simp flip: s_def split: if_splits)
  qed
qed

definition sample_stream_builder :: receipt_builder where
  "sample_stream_builder = sample_receipt_builder\<lparr>rb_events := take 2 (rb_events sample_receipt_builder), rb_next_seq := 2\<rparr>"

lemma sample_stream_signed:
  "\<exists>r. finalize latin1 sample_key_provider (lit ''k'') (sample_stream_builder\<lparr>rb_events := rb_events sample_stream_builder @
     [\<lparr>ev_seq = 2, ev_type = EVENT_RESPONSE_RETURNED,
       ev_fields = Object [(lit ''cleartext_hash'', JString c), (lit ''wire_hash'', JString h)]\<rparr>], rb_next_seq := 3\<rparr>) = Inr r"
  (is "\<exists>r. finalize _ _ _ ?b = Inr r")
proof -
  let ?r = "unsigned_receipt ?b \<lparr>kpk_key_id = lit ''k'', kpk_algo = lit ''ed25519'', kpk_public_key_hex = []\<rparr> []"
  have "wf_json (receipt_value False ?r)" "float_free (receipt_value False ?r)"
    by (auto simp: receipt_value_def unsigned_receipt_def signature_value_def sample_stream_builder_def
        sample_receipt_builder_def event_value_def)
  then obtain bs where "canonicalize (receipt_value False ?r) = Inr bs" using canonicalize_defined by blast
  then show ?thesis
    by (auto simp: finalize_Inr sample_key_provider_def required_events_def)
       (auto simp: sample_stream_builder_def sample_receipt_builder_def)
qed

lemma sample_stream_built:
  "sp_chat_id (fz_parser f) = None \<Longrightarrow> sp_model_id (fz_parser f) = None \<Longrightarrow>
   \<exists>c h. stream_builder sample_sv False f sample_stream_builder = Inr (sample_stream_builder\<lparr>rb_events := rb_events sample_stream_builder @
     [\<lparr>ev_seq = 2, ev_type = EVENT_RESPONSE_RETURNED,
       ev_fields = Object [(lit ''cleartext_hash'', JString c), (lit ''wire_hash'', JString h)]\<rparr>], rb_next_seq := 3\<rparr>)"
  by (simp add: stream_builder_def finalizer_hashes_def set_chat_id_def set_upstream_verified_model_id_def
      add_response_returned_hashes_def append_event_def reserved_key_def sample_stream_builder_def sample_receipt_builder_def
      EVENT_REQUEST_FORWARDED_def EVENT_REQUEST_RECEIVED_def EVENT_UPSTREAM_VERIFIED_def)

lemma sample_finalizes:
  assumes "sp_chat_id (fz_parser f) = None" "sp_model_id (fz_parser f) = None"
    "g = \<lparr>rf_builder = Some sample_stream_builder, rf_response_modified = False\<rparr>"
  shows "\<exists>g' w'. finalize_direct sample_sv g f w = (Inr (), g', w')"
proof -
  obtain b where b: "stream_builder sample_sv False f sample_stream_builder = Inr b"
    and "\<exists>r. finalize latin1 sample_key_provider (lit ''k'') b = Inr r"
    using sample_stream_built [OF assms(1,2)] sample_stream_signed by metis
  then show ?thesis
    by (auto simp: finalize_direct_def assms(3) sign_and_store_def sample_sv_def Let_def)
qed

definition sample_stream :: "receipt_final final_stream" where
  "sample_stream = new_receipt_stream [Ready (Inr [1]), Pending, Ready (Inr [2])] sample_stream_builder None [] None False"

lemma sample_stream_items:
  "\<exists>s' w'. drive sample_serde (\<lambda>_ b _ _. Inr b) (finalize_direct sample_sv) 7 sample_stream sample_world
     = ([Inr [1], Inr [2]], True, s', w')"
proof -
  let ?f = "\<lparr>fz_cleartext = [1, 2], fz_wire = [1, 2], fz_requester = None, fz_endpoint_path = [],
    fz_parser = observe sample_serde (observe sample_serde default_parser [1]) [2],
    fz_transformer = None, fz_upstream_ended = True, fz_finished = True\<rparr>"
  obtain g' w' where "finalize_direct sample_sv \<lparr>rf_builder = Some sample_stream_builder, rf_response_modified = False\<rparr> ?f
      sample_world = (Inr (), g', w')"
    using sample_finalizes [of ?f _ sample_world]
    by (force simp: observe_def default_parser_def newline_byte_def parser_done_def)
  then show ?thesis
    by (simp add: sample_stream_def new_receipt_stream_def new_finalizer_def poll_finalizing_stream_def map_err_def
        poll_ended_def finalize_stream_def eval_nat_numeral)
qed

theorem stream_receipt_covers_delivery_witness:
  "\<exists>s' w' receipt now. drive sample_serde (\<lambda>_ b _ _. Inr b) (finalize_direct sample_sv) 7 sample_stream sample_world
     = ([Inr [1], Inr [2]], True, s', w')
   \<and> w_receipts w' = put_receipt default_receipt_store receipt None now (saturating_add now 60)
   \<and> rc_event_log receipt \<noteq> [] \<and> ev_type (last (rc_event_log receipt)) = EVENT_RESPONSE_RETURNED"
proof -
  obtain s' w' where d: "drive sample_serde (\<lambda>_ b _ _. Inr b) (finalize_direct sample_sv) 7 sample_stream sample_world
     = ([Inr [1], Inr [2]], True, s', w')" using sample_stream_items by blast
  have "w_receipts sample_world = default_receipt_store" "cfg_receipt_ttl_seconds (sv_config sample_sv) = 60"
    by (simp_all add: sample_world_def sample_sv_def sample_config_def)
  then show ?thesis
    using d stream_receipt_covers_delivery [where body = "[Ready (Inr [1]), Pending, Ready (Inr [2])]" and n = 7
        and sj = sample_serde and encrypt = "\<lambda>_ b _ _. Inr b" and sv = sample_sv and builder = sample_stream_builder
        and requester = None and path = "[]" and transformer = None and modified = False and w = sample_world]
    unfolding sample_stream_def [symmetric] by auto
qed

end
