(* ===== verification/Forward.thy ===== *)
theory Forward
  imports Streaming
begin

text \<open>
  The two direct forwarding handlers of \<open>src/aggregator/service/forward.rs\<close>: buffered and
  streaming. Both prepare the request, pass the verification gate, forward with
  re-verification, seal the session of the verified channel and build the receipt from the
  bytes the service saw.
\<close>

section \<open>The shared start\<close>

definition backend_input :: "chat_request \<Rightarrow> bytes" where
  "backend_input req = (case cr_forwarded_body req of Some b \<Rightarrow> b | None \<Rightarrow> cr_received_body req)"

definition middleware_body :: "chat_request \<Rightarrow> bytes option" where
  "middleware_body req = map_option (\<lambda>_. backend_input req) (gc_target_route_id (cr_context req))"

definition start_forward ::
    "('v, 'u, 's) service \<Rightarrow> request_mode \<Rightarrow> ('u, 'r) forwarder \<Rightarrow> chat_request \<Rightarrow>
     (('v, 'u, 's) world, prepared_request \<times> upstream_verified_event \<times> 'r) handler" where
  "start_forward sv mode forward req w =
     (let w = record_request (cr_endpoint_path req) mode (cr_e2ee req \<noteq> None) w
      in case be_prepare (sv_upstream sv) (default_upstream_request\<lparr>urq_body := backend_input req,
             urq_path := Some (cr_endpoint_path req), urq_target_route_id := gc_target_route_id (cr_context req)\<rparr>) of
           Inl e \<Rightarrow> (Inl (ServiceUpstream e), w)
         | Inr prepared \<Rightarrow>
             let required = upstream_required_for_prepared prepared (cr_upstream_required req);
                 supplied = (cr_upstream_verification_event req \<noteq> None)
             in and_then (recorded_upstream_event sv prepared required (cr_upstream_verification_event req)) (\<lambda>event w.
                  case forward_with_binding_reverify sv prepared event required supplied False forward w of
                    ((Forwarded response, event), w) \<Rightarrow> (Inr (prepared, event, response), w)
                  | ((RefreshFailed err, _), w) \<Rightarrow> (Inl err, w)
                  | ((ForwardFailed err, _), w) \<Rightarrow> (Inl (ServiceUpstream err), w)) w)"

text \<open>The receipt events up to the forwarded request.\<close>

definition request_events ::
    "('v, 'u, 's) service \<Rightarrow> chat_request \<Rightarrow> prepared_request \<Rightarrow> receipt_builder \<Rightarrow> receipt_error + receipt_builder" where
  "request_events sv req prepared builder =
     (let sha = sv_sha256 sv; hx = sv_hex_encode sv; forwarded = urq_body (pr_request prepared)
      in bind_result (add_request_received sha hx builder (cr_received_body req)) (\<lambda>(_, builder).
         bind_result (case middleware_body req of
                        Some body \<Rightarrow> bind_result (add_middleware_forwarded sha hx builder body) (\<lambda>(_, b). Inr b)
                      | None \<Rightarrow> Inr builder) (\<lambda>builder.
         bind_result (case gc_target_route_id (cr_context req) of
                        Some route_id \<Rightarrow> add_route_selected builder route_id
                      | None \<Rightarrow> Inr builder) (\<lambda>builder.
         bind_result (add_request_forwarded sha hx builder forwarded) (\<lambda>(_, builder).
           if cr_received_body req \<noteq> forwarded then add_transparency_event builder RequestModified else Inr builder)))))"

definition start_builder ::
    "('v, 'u, 's) service \<Rightarrow> chat_request \<Rightarrow> str \<Rightarrow> str option \<Rightarrow> u64 \<Rightarrow> receipt_builder" where
  "start_builder sv req receipt_id chat_id served_at =
     new_builder receipt_id chat_id (gc_user_model (cr_context req)) (svc_workload_id (sv_identity sv))
       (svc_workload_keyset_digest (sv_identity sv)) (cr_endpoint_path req) (lit ''POST'') served_at"

section \<open>Buffered\<close>

record forward_result =
  fr_receipt :: receipt
  fr_upstream_status :: nat
  fr_upstream_body :: bytes
  fr_upstream_headers :: "(str \<times> str) list"
  fr_e2ee :: "e2ee_response_info option"

text \<open>Status, body and headers for the client: the upstream's, or the image-error envelope.\<close>

definition client_response :: "serde_json \<Rightarrow> chat_request \<Rightarrow> upstream_response \<Rightarrow> nat \<times> bytes \<times> (str \<times> str) list" where
  "client_response sj req response =
     (case image_input_error_parts sj (surface_for_path (cr_endpoint_path req)) (cr_received_body req)
             (us_status_code response) (us_body response) None of
        Some (status, body) \<Rightarrow>
          (status, body, AList.update (lit ''content-type'') (lit ''application/json'') (us_headers response))
      | None \<Rightarrow> (us_status_code response, us_body response, us_headers response))"

definition wire_body ::
    "('v, 'u, 's) service \<Rightarrow> chat_request \<Rightarrow> bytes \<Rightarrow> (('v, 'u, 's) world, bytes) handler" where
  "wire_body sv req body w =
     (case cr_e2ee req of
        Some ctx \<Rightarrow> (map_err E2ee (sv_encrypt_response sv (w_draws w) body ctx (cr_endpoint_path req)),
                     w\<lparr>w_draws := Suc (w_draws w)\<rparr>)
      | None \<Rightarrow> (Inr body, w))"

text \<open>The receipt events from the verified upstream on, and the signature.\<close>

definition response_events ::
    "('v, 'u, 's) service \<Rightarrow> upstream_verified_event \<Rightarrow> (str \<times> session_claims) option \<Rightarrow> str option \<Rightarrow>
     bytes \<Rightarrow> bytes \<Rightarrow> bytes \<Rightarrow> receipt_builder \<Rightarrow> receipt_error + receipt" where
  "response_events sv event recorded response_model upstream_body client_body wire builder =
     bind_result (append_upstream_verified builder event recorded) (\<lambda>builder.
       let builder = set_upstream_verified_model_id builder response_model
       in bind_result (if upstream_body \<noteq> wire then add_transparency_event builder ResponseModified else Inr builder) (\<lambda>builder.
          bind_result (add_response_returned (sv_sha256 sv) (sv_hex_encode sv) builder client_body wire) (\<lambda>(_, builder).
            finalize (sv_hex_encode sv) (sv_keys sv) (svc_default_receipt_key_id (sv_identity sv)) builder)))"

definition complete_forward ::
    "('v, 'u, 's) service \<Rightarrow> chat_request \<Rightarrow> prepared_request \<Rightarrow> upstream_verified_event \<Rightarrow> upstream_response \<Rightarrow>
     (('v, 'u, 's) world, forward_result) handler" where
  "complete_forward sv req prepared event response w =
     (let path = cr_endpoint_path req;
          response_model = accepted_response_model (sv_serde sv) (us_status_code response) (us_body response);
          w = record_upstream_response path Buffered (us_status_code response) response_model w;
          (client_status, client_body, headers) = client_response (sv_serde sv) req response
      in and_then (wire_body sv req client_body) (\<lambda>wire w.
           let (receipt_id, w) = generate_receipt_id sv w;
               chat_id = extract_chat_id (sv_serde sv) client_body;
               (served_at, w) = now_secs sv w
           in and_then (lift (map_err ServiceReceipt
                  (request_events sv req prepared (start_builder sv req receipt_id chat_id served_at)))) (\<lambda>builder.
              and_then (record_attested_upstream_session sv event) (\<lambda>sealed.
              and_then (lift (map_err ServiceReceipt (response_events sv event
                  (cite_served_session sealed (us_served_instance_id response)) response_model
                  (us_body response) client_body wire builder))) (\<lambda>receipt w.
                let w = store_receipt sv receipt (cr_requester req) w;
                    w = record_receipt_issued path Buffered response_model w
                in (Inr \<lparr>fr_receipt = receipt, fr_upstream_status = client_status, fr_upstream_body = wire,
                         fr_upstream_headers = headers, fr_e2ee = e2ee_info (cr_e2ee req)\<rparr>, w)))) w) w)"

definition forward_chat_completion_request ::
    "('v, 'u, 's) service \<Rightarrow> chat_request \<Rightarrow> (('v, 'u, 's) world, forward_result) handler" where
  "forward_chat_completion_request sv req =
     and_then (start_forward sv Buffered (be_forward_verified_prepared (sv_upstream sv)) req)
       (\<lambda>(prepared, event, response). complete_forward sv req prepared event response)"

definition default_context :: gateway_context where
  "default_context = \<lparr>gc_request_id = [], gc_user_model = None, gc_target_route_id = None, gc_user_tier = None\<rparr>"

definition forward_chat_completion ::
    "('v, 'u, 's) service \<Rightarrow> bytes \<Rightarrow> bytes option \<Rightarrow> bool option \<Rightarrow> upstream_verified_event option \<Rightarrow>
     (('v, 'u, 's) world, forward_result) handler" where
  "forward_chat_completion sv received_body forwarded_body upstream_required event =
     forward_chat_completion_request sv
       \<lparr>cr_context = default_context, cr_endpoint_path = CHAT_COMPLETIONS_PATH, cr_received_body = received_body,
        cr_forwarded_body = forwarded_body, cr_upstream_required = upstream_required,
        cr_upstream_verification_event = event, cr_requester = None, cr_e2ee = None\<rparr>"

section \<open>Streaming\<close>

datatype streaming_result =
    StreamResult str nat "(str \<times> str) list" "e2ee_response_info option" "receipt_final final_stream"
  | StreamUpstreamError nat "(str \<times> str) list" bytes

definition start_stream ::
    "('v, 'u, 's) service \<Rightarrow> chat_request \<Rightarrow> prepared_request \<Rightarrow> upstream_verified_event \<Rightarrow> stream_response \<Rightarrow>
     (('v, 'u, 's) world, streaming_result) handler" where
  "start_stream sv req prepared event response w =
     (let path = cr_endpoint_path req
      in if ss_status_code response \<noteq> 200 then
           let w = record_upstream_response path Streaming (ss_status_code response) None w;
               w = record_stream_error path UpstreamNon2xx w
           in and_then (lift (collect_upstream_body (ss_body response))) (\<lambda>body.
                lift (Inr (StreamUpstreamError (ss_status_code response) (ss_headers response) body))) w
         else
           let (receipt_id, w) = generate_receipt_id sv w;
               (served_at, w) = now_secs sv w
           in and_then (lift (map_err ServiceReceipt
                  (request_events sv req prepared (start_builder sv req receipt_id None served_at)))) (\<lambda>builder.
              and_then (record_attested_upstream_session sv event) (\<lambda>sealed.
              and_then (lift (map_err ServiceReceipt (append_upstream_verified builder event
                  (cite_served_session sealed (ss_served_instance_id response))))) (\<lambda>builder.
                lift (Inr (StreamResult receipt_id (ss_status_code response) (ss_headers response) (e2ee_info (cr_e2ee req))
                  (new_receipt_stream (ss_body response) builder (cr_requester req) path
                    (map_option (\<lambda>ctx. new_transformer ctx path) (cr_e2ee req)) (cr_e2ee req \<noteq> None))))))) w)"

definition forward_chat_completion_stream_request ::
    "('v, 'u, 's) service \<Rightarrow> chat_request \<Rightarrow> (('v, 'u, 's) world, streaming_result) handler" where
  "forward_chat_completion_stream_request sv req =
     and_then (start_forward sv Streaming (be_forward_stream_verified_prepared (sv_upstream sv)) req)
       (\<lambda>(prepared, event, response). start_stream sv req prepared event response)"

section \<open>What the handlers call\<close>

text \<open>Sealing, citing and storing make no calls; they only change the stores.\<close>

definition same_calls :: "('v, 'u, 's) world \<Rightarrow> ('v, 'u, 's) world \<Rightarrow> bool" where
  "same_calls w w' \<longleftrightarrow> w_trace w' = w_trace w \<and> w_upstream w' = w_upstream w \<and> w_verifier w' = w_verifier w"

lemma same_calls_trans: "same_calls w w' \<Longrightarrow> same_calls w' w'' \<Longrightarrow> same_calls w w''"
  by (simp add: same_calls_def)

lemma seal_attested_session_calls:
  "seal_attested_session sv event identity bs claims evidence now e w = (r, w') \<Longrightarrow> same_calls w w'"
  by (auto simp: seal_attested_session_def Let_def same_calls_def split: sum.splits prod.splits if_splits)

lemma seal_bindings_calls: "seal_bindings sv event identity now e bs w = (r, w') \<Longrightarrow> same_calls w w'"
proof (induction bs arbitrary: w r)
  case (Cons b bs)
  show ?case
    using Cons.prems unfolding seal_bindings.simps Let_def
    by (elim and_then_cases) (auto dest!: seal_attested_session_calls Cons.IH intro: same_calls_trans)
qed (simp add: same_calls_def)

lemma record_attested_calls: "record_attested_upstream_session sv event w = (r, w') \<Longrightarrow> same_calls w w'"
  by (auto simp: record_attested_upstream_session_def now_secs_def Let_def same_calls_def split: if_splits
      dest!: seal_bindings_calls)

text \<open>A step that only adds metric increments to the trace.\<close>

definition only_metrics :: "('v, 'u, 's) world \<Rightarrow> ('v, 'u, 's) world \<Rightarrow> bool" where
  "only_metrics w w' \<longleftrightarrow> w_upstream w' = w_upstream w \<and>
     (\<exists>t. w_trace w' = w_trace w @ t \<and> forwards t = 0 \<and> verifies t = 0 \<and> invalidations t = 0)"

lemma only_metrics_refl [simp]: "only_metrics w w"
  by (simp add: only_metrics_def)

lemma only_metrics_trans:
  assumes "only_metrics w w'" "only_metrics w' w''"
  shows "only_metrics w w''"
proof -
  obtain t t' where "w_trace w' = w_trace w @ t" "w_trace w'' = w_trace w' @ t'"
    "forwards t = 0" "verifies t = 0" "invalidations t = 0" "forwards t' = 0" "verifies t' = 0" "invalidations t' = 0"
    "w_upstream w'' = w_upstream w"
    using assms by (auto simp: only_metrics_def)
  then show ?thesis unfolding only_metrics_def by (intro conjI exI [of _ "t @ t'"]) simp_all
qed

lemma only_metrics_steps [simp]:
  "only_metrics w (record_request a b c w)" "only_metrics w (record_upstream_response a b i m w)"
  "only_metrics w (record_receipt_issued a b m w)" "only_metrics w (record_stream_error a k w)"
  by (simp_all add: metric_defs only_metrics_def)

lemma only_metrics_calls: "same_calls w w' \<Longrightarrow> only_metrics w w'"
  by (simp add: same_calls_def only_metrics_def)

lemma only_metrics_world [simp]:
  "only_metrics w0 (w\<lparr>w_draws := n\<rparr>) = only_metrics w0 w" "only_metrics w0 (w\<lparr>w_clock_reads := n\<rparr>) = only_metrics w0 w"
  "only_metrics w0 (w\<lparr>w_receipts := rs\<rparr>) = only_metrics w0 w"
  "only_metrics (w\<lparr>w_draws := n\<rparr>) w0 = only_metrics w w0" "only_metrics (w\<lparr>w_clock_reads := n\<rparr>) w0 = only_metrics w w0"
  by (simp_all add: only_metrics_def)

lemma only_metrics_metric:
  "only_metrics w0 w \<Longrightarrow> only_metrics w0 (record_upstream_response a b i m w)"
  "only_metrics w0 w \<Longrightarrow> only_metrics w0 (record_receipt_issued a b m w)"
  "only_metrics w0 w \<Longrightarrow> only_metrics w0 (record_stream_error a k w)"
  by (meson only_metrics_steps only_metrics_trans)+

lemma wire_body_calls: "wire_body sv req b w = (r, w') \<Longrightarrow> same_calls w w'"
  by (auto simp: wire_body_def same_calls_def split: option.splits)

lemma complete_forward_calls:
  assumes "complete_forward sv req prepared event response w = (r, w')"
  shows "only_metrics w w'"
proof -
  note [dest!] = wire_body_calls [THEN only_metrics_calls] record_attested_calls [THEN only_metrics_calls]
  let ?w0 = "record_upstream_response (cr_endpoint_path req) Buffered (us_status_code response)
    (accepted_response_model (sv_serde sv) (us_status_code response) (us_body response)) w"
  have "only_metrics ?w0 w'"
    using assms unfolding complete_forward_def Let_def generate_receipt_id_def now_secs_def store_receipt_def case_prod_beta'
    by (elim and_then_cases) (auto simp: case_prod_beta' intro!: only_metrics_metric elim!: only_metrics_trans)
  then show ?thesis using only_metrics_steps(2) only_metrics_trans by blast
qed

lemma start_stream_calls:
  assumes "start_stream sv req prepared event response w = (r, w')"
  shows "only_metrics w w'"
proof -
  note [dest!] = record_attested_calls [THEN only_metrics_calls]
  show ?thesis
    using assms unfolding start_stream_def Let_def generate_receipt_id_def now_secs_def case_prod_beta'
    by (auto simp: case_prod_beta' split: if_splits intro!: only_metrics_metric elim!: and_then_cases)
qed

definition prepare_request :: "('v, 'u, 's) service \<Rightarrow> chat_request \<Rightarrow> upstream_error + prepared_request" where
  "prepare_request sv req =
     be_prepare (sv_upstream sv) (default_upstream_request\<lparr>urq_body := backend_input req,
       urq_path := Some (cr_endpoint_path req), urq_target_route_id := gc_target_route_id (cr_context req)\<rparr>)"

definition request_required :: "('v, 'u, 's) service \<Rightarrow> chat_request \<Rightarrow> prepared_request \<Rightarrow> bool" where
  "request_required sv req prepared = effective_required sv (upstream_required_for_prepared prepared (cr_upstream_required req))"

text \<open>
  The calls of one request: at most three forwards and three verifications (one forward
  and no verification for an event of the caller), every forward of the prepared request
  with an event that passed the gate.
\<close>

definition gated_calls :: "('v, 'u, 's) service \<Rightarrow> chat_request \<Rightarrow> call list \<Rightarrow> bool" where
  "gated_calls sv req t \<longleftrightarrow>
     forwards t \<le> Suc CHANNEL_BINDING_REVERIFY_ATTEMPTS \<and> verifies t \<le> Suc CHANNEL_BINDING_REVERIFY_ATTEMPTS
     \<and> (cr_upstream_verification_event req \<noteq> None \<longrightarrow> forwards t \<le> 1 \<and> verifies t = 0)
     \<and> (\<forall>p e. Forward p e \<in> set t \<longrightarrow> prepare_request sv req = Inr p \<and> gate_passed (request_required sv req p) e)"

lemma gated_calls_metrics:
  assumes "gated_calls sv req t" "forwards t' = 0" "verifies t' = 0"
  shows "gated_calls sv req (t @ t')"
proof -
  have "Forward p e \<notin> set t'" for p e using assms(2) by (auto simp: filter_empty_conv)
  then show ?thesis using assms by (auto simp: gated_calls_def)
qed

lemma gated_calls_none: "forwards t = 0 \<Longrightarrow> verifies t \<le> (if cr_upstream_verification_event req = None then 1 else 0) \<Longrightarrow> gated_calls sv req t"
  by (auto simp: gated_calls_def filter_empty_conv split: if_splits)

lemma start_forward_spec:
  fixes sv :: "('v, 'u, 's) service" and forward :: "('u, 'r) forwarder"
  assumes "start_forward sv mode forward req w = (r, w')"
  shows "\<exists>t. w_trace w' = w_trace w @ t \<and> same_stores w w' \<and> gated_calls sv req t \<and>
    (case r of
       Inr (prepared, event, response) \<Rightarrow>
         prepare_request sv req = Inr prepared \<and> gate_passed (request_required sv req prepared) event
     | Inl _ \<Rightarrow> True)"
proof -
  define w0 where "w0 = record_request (cr_endpoint_path req) mode (cr_e2ee req \<noteq> None) w"
  obtain m where w0: "w_trace w0 = w_trace w @ [m]" "\<not> is_Forward m" "\<not> is_Verify m" "same_stores w w0"
    by (auto simp: w0_def metric_defs same_stores_def)
  show ?thesis
  proof (cases "prepare_request sv req")
    case (Inl e)
    then have "r = Inl (ServiceUpstream e)" "w' = w0"
      using assms by (simp_all add: start_forward_def prepare_request_def w0_def Let_def)
    then show ?thesis using w0 gated_calls_none [of "[m]" req sv] by (intro exI [of _ "[m]"]) simp
  next
    case (Inr prepared)
    let ?required = "upstream_required_for_prepared prepared (cr_upstream_required req)"
    let ?supplied = "cr_upstream_verification_event req"
    have run: "and_then (recorded_upstream_event sv prepared ?required ?supplied) (\<lambda>event w.
        case forward_with_binding_reverify sv prepared event ?required (?supplied \<noteq> None) False forward w of
          ((Forwarded response, event), w) \<Rightarrow> (Inr (prepared, event, response), w)
        | ((RefreshFailed err, _), w) \<Rightarrow> (Inl err, w)
        | ((ForwardFailed err, _), w) \<Rightarrow> (Inl (ServiceUpstream err), w)) w0 = (r, w')"
      using assms Inr by (simp add: start_forward_def prepare_request_def w0_def Let_def)
    then show ?thesis
    proof (cases rule: and_then_cases)
      case (1 e)
      obtain t where "w_trace w' = w_trace w0 @ t" "forwards t = 0" "verifies t \<le> (if ?supplied = None then 1 else 0)" "same_stores w0 w'"
        using recorded_upstream_event_spec [OF 1(1)] by (auto split: if_splits)
      then show ?thesis using w0 1(2) gated_calls_none [of "m # t" req sv]
        by (intro exI [of _ "m # t"]) (auto intro: same_stores_trans)
    next
      case (2 event w1)
      obtain t1 where t1: "w_trace w1 = w_trace w0 @ t1" "forwards t1 = 0" "verifies t1 \<le> (if ?supplied = None then 1 else 0)"
        "same_stores w0 w1" "gate_passed (effective_required sv ?required) event"
        using recorded_upstream_event_spec [OF 2(1)] by (auto split: if_splits)
      obtain outcome event' w2 where loop:
        "reverify_loop sv prepared ?required (?supplied \<noteq> None) False forward 0 event w1 = ((outcome, event'), w2)"
        by (metis surj_pair)
      have w2: "w' = w2" and r: "r = (case outcome of Forwarded x \<Rightarrow> Inr (prepared, event', x)
          | RefreshFailed err \<Rightarrow> Inl err | ForwardFailed err \<Rightarrow> Inl (ServiceUpstream err))"
        using 2(2) unfolding forward_with_binding_reverify_def loop prod.case by (cases outcome; simp)+
      obtain t2 where t2: "w_trace w2 = w_trace w1 @ t2" "same_stores w1 w2"
        "loop_calls sv prepared ?required (?supplied \<noteq> None) False 0 t2 outcome event'"
        using reverify_loop_spec [OF loop t1(5)] by auto
      have no: "Forward p e \<notin> set t1" for p e using t1(2) by (auto simp: filter_empty_conv)
      have "gated_calls sv req (m # t1 @ t2)"
        using t1(2,3) t2(3) w0(2,3) no Inr unfolding gated_calls_def loop_calls_def request_required_def
        by (auto simp: CHANNEL_BINDING_REVERIFY_ATTEMPTS_def split: if_splits)
      moreover have "case r of Inr (prepared, event, response) \<Rightarrow>
          prepare_request sv req = Inr prepared \<and> gate_passed (request_required sv req prepared) event | Inl _ \<Rightarrow> True"
        using t2(3) Inr unfolding r loop_calls_def request_required_def by (auto split: reverify_outcome.splits)
      ultimately show ?thesis using w0 t1(1,4) t2(1,2) unfolding w2
        by (intro exI [of _ "m # t1 @ t2"]) (auto intro: same_stores_trans)
    qed
  qed
qed

lemma handler_calls:
  assumes "and_then (start_forward sv mode forward req) (\<lambda>(prepared, event, response). k prepared event response) w = (r, w')"
    and "\<And>p e x w r w'. k p e x w = (r, w') \<Longrightarrow> only_metrics w w'"
  shows "\<exists>t. w_trace w' = w_trace w @ t \<and> gated_calls sv req t"
  using assms(1)
proof (cases rule: and_then_cases)
  case (1 e)
  from start_forward_spec [OF 1(1)] show ?thesis by blast
next
  case (2 x w1)
  from start_forward_spec [OF 2(1)] obtain t where t: "w_trace w1 = w_trace w @ t" "gated_calls sv req t" by blast
  obtain p e y where "x = (p, e, y)" by (metis prod_cases3)
  then have "only_metrics w1 w'" using 2(2) assms(2) by simp
  then obtain t' where "w_trace w' = w_trace w1 @ t'" "forwards t' = 0" "verifies t' = 0" by (auto simp: only_metrics_def)
  then show ?thesis using t gated_calls_metrics [OF t(2)] by (intro exI [of _ "t @ t'"]) simp
qed

section \<open>What the receipt says\<close>

text \<open>The types and contents of a builder's events, in order.\<close>

definition log_view :: "receipt_event list \<Rightarrow> (str \<times> json) list" where
  "log_view es = map (\<lambda>e. (ev_type e, ev_fields e)) es"

lemma append_event_view: "append_event b t f = Inr b' \<Longrightarrow> log_view (rb_events b') = log_view (rb_events b) @ [(t, f)]"
  by (auto simp: append_event_Inr log_view_def)

definition hash_fields :: "('v, 'u, 's) service \<Rightarrow> bytes \<Rightarrow> json" where
  "hash_fields sv body = Object [(lit ''body_hash'', JString (sha256_hex (sv_sha256 sv) (sv_hex_encode sv) body))]"

lemma add_hash_view:
  "add_request_received (sv_sha256 sv) (sv_hex_encode sv) b body = Inr (d, b') \<Longrightarrow>
     log_view (rb_events b') = log_view (rb_events b) @ [(EVENT_REQUEST_RECEIVED, hash_fields sv body)]"
  "add_middleware_forwarded (sv_sha256 sv) (sv_hex_encode sv) b body = Inr (d, b') \<Longrightarrow>
     log_view (rb_events b') = log_view (rb_events b) @ [(EVENT_MIDDLEWARE_FORWARDED, hash_fields sv body)]"
  "add_request_forwarded (sv_sha256 sv) (sv_hex_encode sv) b body = Inr (d, b') \<Longrightarrow>
     log_view (rb_events b') = log_view (rb_events b) @ [(EVENT_REQUEST_FORWARDED, hash_fields sv body)]"
  by (auto simp: add_request_received_def add_middleware_forwarded_def add_request_forwarded_def add_body_hash_def
      hash_fields_def bind_result_Inr Let_def append_event_view)

lemma add_other_view:
  "add_route_selected b route = Inr b' \<Longrightarrow>
     log_view (rb_events b') = log_view (rb_events b) @ [(EVENT_ROUTE_SELECTED, Object [(lit ''target_route_id'', JString route)])]"
  "add_transparency_event b kind = Inr b' \<Longrightarrow>
     log_view (rb_events b') = log_view (rb_events b) @ [(transparency_event_type kind, Object [])]"
  by (auto simp: add_route_selected_def add_transparency_event_def append_event_view)

definition request_log :: "('v, 'u, 's) service \<Rightarrow> chat_request \<Rightarrow> bytes \<Rightarrow> (str \<times> json) list" where
  "request_log sv req forwarded =
     [(EVENT_REQUEST_RECEIVED, hash_fields sv (cr_received_body req))]
     @ (case gc_target_route_id (cr_context req) of
          None \<Rightarrow> []
        | Some route \<Rightarrow> [(EVENT_MIDDLEWARE_FORWARDED, hash_fields sv (backend_input req)),
                         (EVENT_ROUTE_SELECTED, Object [(lit ''target_route_id'', JString route)])])
     @ [(EVENT_REQUEST_FORWARDED, hash_fields sv forwarded)]
     @ (if cr_received_body req \<noteq> forwarded then [(EVENT_TRANSPARENCY_REQUEST_MODIFIED, Object [])] else [])"

lemma request_events_view:
  assumes "request_events sv req prepared b = Inr b'"
  shows "log_view (rb_events b') = log_view (rb_events b) @ request_log sv req (urq_body (pr_request prepared))"
proof -
  note [dest!] = add_hash_view add_other_view
  show ?thesis
    using assms
    by (cases "gc_target_route_id (cr_context req)")
       (auto simp: request_events_def request_log_def middleware_body_def bind_result_Inr Let_def split: if_splits)
qed

text \<open>The fields of the \<open>upstream.verified\<close> event with the session cited and the served model.\<close>

definition cited_fields :: "upstream_verified_event \<Rightarrow> (str \<times> session_claims) option \<Rightarrow> obj" where
  "cited_fields event recorded =
     (case to_fields event of
        Object m \<Rightarrow>
          (case recorded of
             Some (session_id, claims) \<Rightarrow>
               obj_insert (obj_insert m (lit ''session_id'') (JString session_id)) (lit ''claims'') (session_claims_value claims)
           | None \<Rightarrow> m)
      | _ \<Rightarrow> [])"

definition verified_fields :: "upstream_verified_event \<Rightarrow> (str \<times> session_claims) option \<Rightarrow> str option \<Rightarrow> json" where
  "verified_fields event recorded model = Object (obj_insert (cited_fields event recorded) (lit ''model_id'') (JString (model_label model)))"

lemma append_upstream_verified_view:
  "append_upstream_verified b event recorded = Inr b' \<Longrightarrow>
     log_view (rb_events b') = log_view (rb_events b) @ [(EVENT_UPSTREAM_VERIFIED, Object (cited_fields event recorded))]"
  by (auto simp: append_upstream_verified_def add_upstream_verified_with_session_def add_upstream_verified_def Let_def
      to_fields_def cited_fields_def append_event_view split: option.splits prod.splits)

lemma set_first_model_id_view:
  assumes "EVENT_UPSTREAM_VERIFIED \<notin> fst ` set pre" "log_view es = pre @ [(EVENT_UPSTREAM_VERIFIED, Object m)]"
  shows "log_view (set_first_model_id model es) = pre @ [(EVENT_UPSTREAM_VERIFIED, Object (obj_insert m (lit ''model_id'') (JString model)))]"
  using assms
proof (induction es arbitrary: pre)
  case (Cons e es)
  then show ?case by (cases pre) (auto simp: log_view_def)
qed (simp add: log_view_def)

lemma set_model_view:
  assumes "EVENT_UPSTREAM_VERIFIED \<notin> fst ` set pre" "log_view (rb_events b) = pre @ [(EVENT_UPSTREAM_VERIFIED, Object m)]"
  shows "log_view (rb_events (set_upstream_verified_model_id b model)) =
    pre @ [(EVENT_UPSTREAM_VERIFIED, Object (obj_insert m (lit ''model_id'') (JString (model_label model))))]"
  using set_first_model_id_view [OF assms] by (simp add: set_upstream_verified_model_id_def model_label_def Let_def)

definition returned_fields :: "('v, 'u, 's) service \<Rightarrow> bytes \<Rightarrow> bytes \<Rightarrow> json" where
  "returned_fields sv cleartext wire = Object [
     (lit ''cleartext_hash'', JString (sha256_hex (sv_sha256 sv) (sv_hex_encode sv) cleartext)),
     (lit ''wire_hash'', JString (sha256_hex (sv_sha256 sv) (sv_hex_encode sv) wire))]"

definition response_log ::
    "('v, 'u, 's) service \<Rightarrow> upstream_verified_event \<Rightarrow> (str \<times> session_claims) option \<Rightarrow> str option \<Rightarrow>
     bytes \<Rightarrow> bytes \<Rightarrow> bytes \<Rightarrow> (str \<times> json) list" where
  "response_log sv event recorded model upstream_body client_body wire =
     [(EVENT_UPSTREAM_VERIFIED, verified_fields event recorded model)]
     @ (if upstream_body \<noteq> wire then [(EVENT_TRANSPARENCY_RESPONSE_MODIFIED, Object [])] else [])
     @ [(EVENT_RESPONSE_RETURNED, returned_fields sv client_body wire)]"

lemma response_events_view:
  assumes "response_events sv event recorded model upstream_body client_body wire b = Inr receipt"
    and "EVENT_UPSTREAM_VERIFIED \<notin> fst ` set (log_view (rb_events b))"
  shows "log_view (rc_event_log receipt) =
    log_view (rb_events b) @ response_log sv event recorded model upstream_body client_body wire"
proof -
  obtain b1 b2 d b3 where
    b1: "append_upstream_verified b event recorded = Inr b1" and
    b2: "(if upstream_body \<noteq> wire then add_transparency_event (set_upstream_verified_model_id b1 model) ResponseModified
          else Inr (set_upstream_verified_model_id b1 model)) = Inr b2" and
    b3: "add_response_returned (sv_sha256 sv) (sv_hex_encode sv) b2 client_body wire = Inr (d, b3)" and
    fin: "finalize (sv_hex_encode sv) (sv_keys sv) (svc_default_receipt_key_id (sv_identity sv)) b3 = Inr receipt"
    using assms(1) unfolding response_events_def Let_def by (auto simp: bind_result_Inr)
  note v1 = set_model_view [OF assms(2) append_upstream_verified_view [OF b1], of model]
  have v2: "log_view (rb_events b2) = log_view (rb_events (set_upstream_verified_model_id b1 model))
      @ (if upstream_body \<noteq> wire then [(EVENT_TRANSPARENCY_RESPONSE_MODIFIED, Object [])] else [])"
    using b2 by (auto dest: add_other_view split: if_splits)
  have "log_view (rb_events b3) = log_view (rb_events b2) @ [(EVENT_RESPONSE_RETURNED, returned_fields sv client_body wire)]"
    using b3 by (auto simp: add_response_returned_def add_response_returned_hashes_def bind_result_Inr Let_def
        returned_fields_def append_event_view)
  then show ?thesis
    using v1 v2 finalize_event_log [OF fin] by (simp add: response_log_def verified_fields_def)
qed

lemma request_log_no_verified: "EVENT_UPSTREAM_VERIFIED \<notin> fst ` set (request_log sv req forwarded)"
  by (auto simp: request_log_def EVENT_UPSTREAM_VERIFIED_def EVENT_REQUEST_RECEIVED_def EVENT_MIDDLEWARE_FORWARDED_def
      EVENT_ROUTE_SELECTED_def EVENT_REQUEST_FORWARDED_def EVENT_TRANSPARENCY_REQUEST_MODIFIED_def split: option.splits if_splits)

lemma wire_body_Inr:
  "wire_body sv req body w = (Inr wire, w') \<Longrightarrow>
   w_sessions w' = w_sessions w \<and> w_receipts w' = w_receipts w \<and> w_clock_reads w' = w_clock_reads w
   \<and> (cr_e2ee req = None \<longrightarrow> wire = body)"
  by (auto simp: wire_body_def split: option.splits)

lemma seal_bindings_receipts: "seal_bindings sv event identity now e bs w = (r, w') \<Longrightarrow> w_receipts w' = w_receipts w"
proof (induction bs arbitrary: w r)
  case (Cons b bs)
  have one: "seal_attested_session sv event identity x c ev now e w = (r, w') \<Longrightarrow> w_receipts w' = w_receipts w" for x c ev w r w'
    by (auto simp: seal_attested_session_def Let_def split: sum.splits prod.splits if_splits)
  show ?case
    using Cons.prems unfolding seal_bindings.simps Let_def by (elim and_then_cases) (auto dest!: one Cons.IH)
qed simp

lemma record_attested_receipts: "record_attested_upstream_session sv event w = (r, w') \<Longrightarrow> w_receipts w' = w_receipts w"
  by (auto simp: record_attested_upstream_session_def now_secs_def Let_def split: if_splits dest!: seal_bindings_receipts)

lemma complete_forward_Inr:
  assumes "complete_forward sv req prepared event response w = (Inr fr, w')"
  obtains client_body headers sealed w1 w2 now where
    "client_response (sv_serde sv) req response = (fr_upstream_status fr, client_body, headers)"
    "cr_e2ee req = None \<Longrightarrow> fr_upstream_body fr = client_body"
    "record_attested_upstream_session sv event w1 = (Inr sealed, w2)" "w_sessions w1 = w_sessions w"
    "w_clock_reads w1 = Suc (w_clock_reads w)" "w_sessions w' = w_sessions w2"
    "log_view (rc_event_log (fr_receipt fr)) = request_log sv req (urq_body (pr_request prepared))
       @ response_log sv event (cite_served_session sealed (us_served_instance_id response))
           (accepted_response_model (sv_serde sv) (us_status_code response) (us_body response))
           (us_body response) client_body (fr_upstream_body fr)"
    "w_receipts w' = put_receipt (w_receipts w) (fr_receipt fr) (cr_requester req) now
       (saturating_add now (cfg_receipt_ttl_seconds (sv_config sv)))"
proof -
  let ?model = "accepted_response_model (sv_serde sv) (us_status_code response) (us_body response)"
  define w0 where "w0 = record_upstream_response (cr_endpoint_path req) Buffered (us_status_code response) ?model w"
  obtain st client_body headers where cl: "client_response (sv_serde sv) req response = (st, client_body, headers)"
    by (metis prod_cases3)
  obtain wire wa where wb: "wire_body sv req client_body w0 = (Inr wire, wa)"
    and rest: "(let (receipt_id, w) = generate_receipt_id sv wa;
               chat_id = extract_chat_id (sv_serde sv) client_body;
               (served_at, w) = now_secs sv w
           in and_then (lift (map_err ServiceReceipt
                  (request_events sv req prepared (start_builder sv req receipt_id chat_id served_at)))) (\<lambda>builder.
              and_then (record_attested_upstream_session sv event) (\<lambda>sealed.
              and_then (lift (map_err ServiceReceipt (response_events sv event
                  (cite_served_session sealed (us_served_instance_id response)) ?model
                  (us_body response) client_body wire builder))) (\<lambda>receipt w.
                let w = store_receipt sv receipt (cr_requester req) w;
                    w = record_receipt_issued (cr_endpoint_path req) Buffered ?model w
                in (Inr \<lparr>fr_receipt = receipt, fr_upstream_status = st, fr_upstream_body = wire,
                         fr_upstream_headers = headers, fr_e2ee = e2ee_info (cr_e2ee req)\<rparr>, w)))) w) = (Inr fr, w')"
    using assms unfolding complete_forward_def Let_def cl prod.case w0_def [symmetric] and_then_Inr by blast
  define wc where "wc = wa\<lparr>w_draws := Suc (w_draws wa), w_clock_reads := Suc (w_clock_reads wa)\<rparr>"
  define b0 where "b0 = start_builder sv req (lit ''rcpt-'' @ sv_hex_encode sv (sv_random sv (w_draws wa)))
    (extract_chat_id (sv_serde sv) client_body) (sv_clock sv (w_clock_reads wa))"
  obtain builder sealed w2 receipt where
    b: "request_events sv req prepared b0 = Inr builder" and
    s: "record_attested_upstream_session sv event wc = (Inr sealed, w2)" and
    r: "response_events sv event (cite_served_session sealed (us_served_instance_id response)) ?model
          (us_body response) client_body wire builder = Inr receipt" and
    fr: "fr = \<lparr>fr_receipt = receipt, fr_upstream_status = st, fr_upstream_body = wire,
               fr_upstream_headers = headers, fr_e2ee = e2ee_info (cr_e2ee req)\<rparr>" and
    w': "w' = record_receipt_issued (cr_endpoint_path req) Buffered ?model (store_receipt sv receipt (cr_requester req) w2)"
    using rest unfolding generate_receipt_id_def now_secs_def Let_def prod.case and_then_Inr lift_simp
    by (auto simp: map_err_Inr wc_def b0_def)
  have b0: "log_view (rb_events b0) = []" by (simp add: b0_def start_builder_def new_builder_def log_view_def)
  note v = request_events_view [OF b, unfolded b0, simplified]
  have log: "log_view (rc_event_log receipt) = request_log sv req (urq_body (pr_request prepared))
      @ response_log sv event (cite_served_session sealed (us_served_instance_id response)) ?model (us_body response) client_body wire"
    using response_events_view [OF r] request_log_no_verified unfolding v by blast
  have wa: "w_sessions wa = w_sessions w" "w_receipts wa = w_receipts w" "w_clock_reads wa = w_clock_reads w"
    "cr_e2ee req = None \<Longrightarrow> wire = client_body"
    using wire_body_Inr [OF wb] by (simp_all add: w0_def metric_defs)
  have "w_receipts w2 = w_receipts w" using record_attested_receipts [OF s] wa by (simp add: wc_def)
  then have rec: "w_receipts w' = put_receipt (w_receipts w) (fr_receipt fr) (cr_requester req) (sv_clock sv (w_clock_reads w2))
       (saturating_add (sv_clock sv (w_clock_reads w2)) (cfg_receipt_ttl_seconds (sv_config sv)))"
    and ses: "w_sessions w' = w_sessions w2"
    by (simp_all add: w' fr store_receipt_def now_secs_def Let_def metric_defs)
  show thesis
    by (rule that [of client_body headers wc sealed w2 "sv_clock sv (w_clock_reads w2)"])
       (use cl wa log rec ses s in \<open>simp_all add: fr wc_def\<close>)
qed

section \<open>Cited sessions\<close>

lemma cite_served_session_Some:
  assumes "cite_served_session sealed served = Some (sid, claims)"
  obtains x where "x \<in> set sealed" "sid = sd_session_id x" "claims = sd_claims x"
    "case served of Some i \<Rightarrow> sd_instance_key x = Some i | None \<Rightarrow> x = hd sealed"
proof (cases served)
  case None
  then show thesis using assms that by (cases sealed) (auto simp: cite_served_session_def)
next
  case (Some i)
  then obtain x where "List.find (\<lambda>s. sd_instance_key s = Some i) sealed = Some x" "sid = sd_session_id x" "claims = sd_claims x"
    using assms by (auto simp: cite_served_session_def)
  then show thesis using that [of x] Some by (auto simp: find_Some_iff)
qed

context session_store_contract
begin

lemma recorded_sessions_resolve:
  assumes sv: "sv_put_session sv = put" "sv_renew_session sv = renew"
    and s: "invar (w_sessions w)" "addressed (sv_sha256 sv) (sv_hex_encode sv) (view (w_sessions w))"
    and e: "e = saturating_add (sv_clock sv (w_clock_reads w)) (cfg_receipt_ttl_seconds (sv_config sv))"
      "sv_clock sv (w_clock_reads w) < e"
    and run: "record_attested_upstream_session sv event w = (Inr sealed, w')"
    and cite: "cite_served_session sealed served = Some (sid, claims)" and t: "t < e"
  shows "(\<exists>x. fst (get_session (w_sessions w') sid t) = Some x \<and> content_id (sv_sha256 sv) (sv_hex_encode sv) x = Inr sid)
    \<and> uv_result event = Verified \<and> (\<forall>i. served = Some i \<longrightarrow> claims = per_instance_session_claims event i)"
proof -
  obtain x where x: "x \<in> set sealed" "sid = sd_session_id x" "claims = sd_claims x"
    "case served of Some i \<Rightarrow> sd_instance_key x = Some i | None \<Rightarrow> x = hd sealed"
    by (rule cite_served_session_Some [OF cite])
  have v: "uv_result event = Verified" using run x(1) by (auto simp: record_attested_upstream_session_def split: if_splits)
  let ?w = "w\<lparr>w_clock_reads := Suc (w_clock_reads w)\<rparr>"
  have "seal_bindings sv event (identity_from_provider_claims (uv_provider_claims event)) (sv_clock sv (w_clock_reads w)) e
      (uv_channel_bindings event) ?w = (Inr sealed, w')"
    using run v by (simp add: record_attested_upstream_session_def now_secs_def Let_def e(1))
  from seal_bindings_held [OF sv e(2) _ _ this] s
  have h: "invar (w_sessions w')" "addressed (sv_sha256 sv) (sv_hex_encode sv) (view (w_sessions w'))"
    "held_until (view (w_sessions w')) e sid"
    "sd_claims x = (case sd_instance_key x of Some i \<Rightarrow> per_instance_session_claims event i | None \<Rightarrow> session_claims_for_event event)"
    using x(1,2) by simp_all
  then obtain y where y: "view (w_sessions w') sid = Some y" "as_expires_at y = e" by (auto simp: held_until_def)
  then have "live_sessions (view (w_sessions w')) t sid = Some y" using t by (simp add: live_sessions_def)
  moreover have "content_id (sv_sha256 sv) (sv_hex_encode sv) y = Inr sid" using h(2) y(1) by (simp add: addressed_def)
  ultimately show ?thesis using v h(4) x(3,4) by (auto simp: get [OF h(1)])
qed

end

text \<open>The session id of the receipt is the cited one.\<close>

lemma verified_session_id:
  "verified_fields event recorded model = Object m \<Longrightarrow> obj_get m (lit ''session_id'') = Some (JString sid) \<Longrightarrow>
   \<exists>claims. recorded = Some (sid, claims)"
  by (cases recorded) (auto simp: verified_fields_def cited_fields_def to_fields_def)

lemma response_log_verified:
  "(EVENT_UPSTREAM_VERIFIED, f) \<in> set (request_log sv req fwd @ response_log sv event recorded model ub cb wire) \<Longrightarrow>
   f = verified_fields event recorded model"
proof -
  assume a: "(EVENT_UPSTREAM_VERIFIED, f) \<in> set (request_log sv req fwd @ response_log sv event recorded model ub cb wire)"
  have "(EVENT_UPSTREAM_VERIFIED, f) \<notin> set (request_log sv req fwd)"
    using request_log_no_verified [of sv req fwd] by force
  with a show ?thesis
    by (auto simp: response_log_def EVENT_UPSTREAM_VERIFIED_def EVENT_TRANSPARENCY_RESPONSE_MODIFIED_def
        EVENT_RESPONSE_RETURNED_def split: if_splits)
qed

lemma forward_Inr:
  assumes "forward_chat_completion_request sv req w = (Inr fr, w')"
  obtains prepared event response w1 where
    "start_forward sv Buffered (be_forward_verified_prepared (sv_upstream sv)) req w = (Inr (prepared, event, response), w1)"
    "complete_forward sv req prepared event response w1 = (Inr fr, w')"
    "prepare_request sv req = Inr prepared" "gate_passed (request_required sv req prepared) event" "same_stores w w1"
proof -
  obtain x w1 where s: "start_forward sv Buffered (be_forward_verified_prepared (sv_upstream sv)) req w = (Inr x, w1)"
    and c: "(case x of (prepared, event, response) \<Rightarrow> complete_forward sv req prepared event response) w1 = (Inr fr, w')"
    using assms by (auto simp: forward_chat_completion_request_def and_then_Inr)
  obtain prepared event response where x: "x = (prepared, event, response)" by (metis prod_cases3)
  show thesis
    using that [OF s [unfolded x] c [unfolded x prod.case]] start_forward_spec [OF s [unfolded x]] by auto
qed

section \<open>Properties\<close>

text \<open>
  C2. Every contact with an upstream is gated and bounded, in both handlers and
  whatever verifier and upstream do: each forward is of the request as prepared, with an
  event recorded for the request's effective mode, and that is a successful verification
  if the mode requires one. A request makes at most three forwards and three
  verifications, and only one forward and no verification if the caller supplied the event.
\<close>

theorem upstream_calls_gated:
  "(\<exists>t. w_trace (snd (forward_chat_completion_request sv req w)) = w_trace w @ t \<and> gated_calls sv req t)
   \<and> (\<exists>t. w_trace (snd (forward_chat_completion_stream_request sv req w)) = w_trace w @ t \<and> gated_calls sv req t)"
proof
  obtain r w' where f: "forward_chat_completion_request sv req w = (r, w')" by fastforce
  from handler_calls [OF f [unfolded forward_chat_completion_request_def] complete_forward_calls]
  show "\<exists>t. w_trace (snd (forward_chat_completion_request sv req w)) = w_trace w @ t \<and> gated_calls sv req t" by (simp add: f)
  obtain r w' where f: "forward_chat_completion_stream_request sv req w = (r, w')" by fastforce
  from handler_calls [OF f [unfolded forward_chat_completion_stream_request_def] start_stream_calls]
  show "\<exists>t. w_trace (snd (forward_chat_completion_stream_request sv req w)) = w_trace w @ t \<and> gated_calls sv req t" by (simp add: f)
qed

text \<open>The verification of a request fails: the caller's event or the verifier's answer, or there is neither.\<close>

definition verification_fails ::
    "('v, 'u, 's) service \<Rightarrow> chat_request \<Rightarrow> prepared_request \<Rightarrow> ('v, 'u, 's) world \<Rightarrow> bool" where
  "verification_fails sv req prepared w =
     (case cr_upstream_verification_event req of
        Some event \<Rightarrow> uv_result event \<noteq> Verified
      | None \<Rightarrow>
          (case sv_verify sv of
             None \<Rightarrow> True
           | Some verify \<Rightarrow>
               uv_result (fst (verify (w_verifier w) (upstream_verification_request sv prepared True))) \<noteq> Verified))"

lemma record_request_frame [simp]:
  "w_verifier (record_request a b c w) = w_verifier w" "w_upstream (record_request a b c w) = w_upstream w"
  by (simp_all add: metric_defs)

lemma same_stores_metric [simp]:
  "same_stores w (record_request a b c w')= same_stores w w'" "same_stores (record_request a b c w) w' = same_stores w w'"
  by (simp_all add: metric_defs same_stores_def)

lemma start_forward_fails:
  assumes "prepare_request sv req = Inr p" "request_required sv req p" "verification_fails sv req p w"
  shows "\<exists>e w'. start_forward sv mode forward req w = (Inl (UpstreamVerification e), w')
    \<and> w_upstream w' = w_upstream w \<and> same_stores w w'"
proof -
  let ?required = "upstream_required_for_prepared p (cr_upstream_required req)"
  let ?w0 = "record_request (cr_endpoint_path req) mode (cr_e2ee req \<noteq> None) w"
  have r: "effective_required sv ?required = True" using assms(2) by (simp add: request_required_def)
  obtain res w' where rec: "recorded_upstream_event sv p ?required (cr_upstream_verification_event req) ?w0 = (res, w')" by fastforce
  have "\<exists>e. res = Inl e"
    using rec assms(3)
    by (auto simp: recorded_upstream_event_def r Let_def consult_verifier_def verification_fails_def case_prod_beta'
        split: option.splits if_splits)
  moreover have "w_upstream w' = w_upstream w" "same_stores w w'" "case res of Inr _ \<Rightarrow> True | Inl e \<Rightarrow> \<exists>x. e = UpstreamVerification x"
    using recorded_upstream_event_spec [OF rec] by (auto split: sum.splits)
  ultimately show ?thesis
    using rec assms(1) by (auto simp: start_forward_def prepare_request_def [symmetric] Let_def and_then_def)
qed

text \<open>
  C1. Fail-closed: when verification is required and fails (or nothing can verify), both
  handlers return the verification error; the upstream has not been contacted and no
  session or receipt was stored.
\<close>

theorem fail_closed:
  assumes "prepare_request sv req = Inr p" and "request_required sv req p" and "verification_fails sv req p w"
  shows "(\<exists>e w'. forward_chat_completion_request sv req w = (Inl (UpstreamVerification e), w')
      \<and> w_upstream w' = w_upstream w \<and> w_sessions w' = w_sessions w \<and> w_receipts w' = w_receipts w)
    \<and> (\<exists>e w'. forward_chat_completion_stream_request sv req w = (Inl (UpstreamVerification e), w')
      \<and> w_upstream w' = w_upstream w \<and> w_sessions w' = w_sessions w \<and> w_receipts w' = w_receipts w)"
  using start_forward_fails [OF assms, of Buffered "be_forward_verified_prepared (sv_upstream sv)"]
    start_forward_fails [OF assms, of Streaming "be_forward_stream_verified_prepared (sv_upstream sv)"]
  by (auto simp: forward_chat_completion_request_def forward_chat_completion_stream_request_def and_then_def same_stores_def)

definition sample_request :: chat_request where
  "sample_request = \<lparr>cr_context = default_context, cr_endpoint_path = CHAT_COMPLETIONS_PATH, cr_received_body = [1],
     cr_forwarded_body = None, cr_upstream_required = None, cr_upstream_verification_event = None,
     cr_requester = None, cr_e2ee = None\<rparr>"

definition sample_prepared :: prepared_request where
  "sample_prepared = \<lparr>pr_request = \<lparr>urq_body = [1], urq_headers = [], urq_path = Some CHAT_COMPLETIONS_PATH, urq_target_route_id = None\<rparr>,
     pr_upstream_name = lit ''up'', pr_url_origin = None, pr_model_id = [], pr_route_id = None, pr_is_tee = None\<rparr>"

lemma sample_prepare: "prepare_request (sample_sv\<lparr>sv_verify := v\<rparr>) sample_request = Inr sample_prepared"
  "prepare_request sample_sv sample_request = Inr sample_prepared"
  by (simp_all add: prepare_request_def sample_sv_def sample_backend_def plain_backend_def Let_def default_prepare_def
      request_model_id_def sample_serde_def sample_request_def backend_input_def sample_prepared_def
      default_upstream_request_def default_context_def unwrap_or_default_def)

lemma sample_required:
  "request_required (sample_sv\<lparr>sv_verify := v\<rparr>) sample_request sample_prepared" "request_required sample_sv sample_request sample_prepared"
  by (simp_all add: request_required_def upstream_required_for_prepared_def sample_prepared_def sample_request_def
      effective_required_def sample_sv_def sample_config_def)

theorem fail_closed_witness:
  "\<exists>e w'. forward_chat_completion_request (sample_sv\<lparr>sv_verify := None\<rparr>) sample_request sample_world
     = (Inl (UpstreamVerification e), w') \<and> w_receipts w' = default_receipt_store"
proof -
  have "verification_fails (sample_sv\<lparr>sv_verify := None\<rparr>) sample_request sample_prepared sample_world"
    by (simp add: verification_fails_def sample_request_def)
  from fail_closed [OF sample_prepare(1) sample_required(1) this] show ?thesis by (auto simp: sample_world_def)
qed


text \<open>A run of the sample service: verified, one session sealed and cited, receipt signed.\<close>

definition sample_started :: "(unit, unit, jsonl_store) world" where
  "sample_started = snd (start_forward sample_sv Buffered (be_forward_verified_prepared (sv_upstream sample_sv)) sample_request sample_world)"

lemma sample_sv_simps:
  "sv_verify sample_sv = Some (\<lambda>v r. (sample_event, v))" "sv_serde sample_sv = sample_serde" "sv_sha256 sample_sv = (\<lambda>x. x)"
  "sv_hex_encode sample_sv = latin1" "sv_clock sample_sv = of_nat" "cfg_receipt_ttl_seconds (sv_config sample_sv) = 60"
  "sv_put_session sample_sv = jsonl_put (\<lambda>_ _ _ _. [1]) None" "sv_renew_session sample_sv = jsonl_renew"
  "sv_keys sample_sv = sample_key_provider" "svc_default_receipt_key_id (sv_identity sample_sv) = lit ''k''"
  "be_forward_verified_prepared (sv_upstream sample_sv) = (\<lambda>u _ _. (Inr sample_response, u))"
  by (simp_all add: sample_sv_def sample_config_def sample_backend_def)

lemma sample_effective:
  "effective_required sample_sv (upstream_required_for_prepared sample_prepared (cr_upstream_required sample_request)) = True"
  using sample_required(2) by (simp add: request_required_def)

lemma sample_recorded:
  assumes "effective_required sample_sv required = True"
  shows "\<exists>w'. recorded_upstream_event sample_sv p required None w = (Inr (sample_event\<lparr>uv_required := True\<rparr>), w')"
  by (simp add: recorded_upstream_event_def assms consult_verifier_def sample_sv_simps Let_def) (simp add: sample_event_def)

lemma sample_start:
  "start_forward sample_sv Buffered (be_forward_verified_prepared (sv_upstream sample_sv)) sample_request sample_world
     = (Inr (sample_prepared, sample_event\<lparr>uv_required := True\<rparr>, sample_response), sample_started)"
proof -
  have none: "cr_upstream_verification_event sample_request = None" by (simp add: sample_request_def)
  let ?required = "upstream_required_for_prepared sample_prepared (cr_upstream_required sample_request)"
  let ?w = "record_request (cr_endpoint_path sample_request) Buffered (cr_e2ee sample_request \<noteq> None) sample_world"
  obtain w' where "recorded_upstream_event sample_sv sample_prepared ?required None ?w = (Inr (sample_event\<lparr>uv_required := True\<rparr>), w')"
    using sample_recorded [OF sample_effective] by blast
  then show ?thesis
    unfolding sample_started_def
    by (simp add: start_forward_def prepare_request_def [symmetric] sample_prepare Let_def and_then_def none
        forward_with_binding_reverify_def reverify_loop.simps call_forward_def sample_sv_simps)
qed

lemma sample_seal:
  assumes st: "js_index (w_sessions w) = default_index" "js_next_seq (w_sessions w) = 0" and "claims_extra claims = []"
  shows "\<exists>i w'. seal_attested_session sample_sv event None bs claims ev now e w = (Inr i, w')"
proof -
  have seal: "\<exists>x. seal (\<lambda>x. x) latin1 n ep v None bs claims ev' now e = Inr x" for n ep v ev'
  proof -
    have "plain_session \<lparr>as_api_version = SESSION_API_VERSION, as_session_id = [], as_upstream_name = n, as_endpoint = ep,
      as_verifier_id = v, as_established_at = now, as_expires_at = e, as_identity = None, as_channel_binding = bs,
      as_claims = claims, as_evidence = ev'\<rparr>"
      by (simp add: plain_session_def wf_session_def wf_extra_def assms(3))
    from content_id_defined [OF this, of "\<lambda>x. x" latin1] show ?thesis by (auto simp: seal_def Let_def bind_result_Inr)
  qed
  have inv: "index_inv (js_index (w_sessions w))" using st(1) default_index_inv(1) by simp
  have none: "\<not> fst (jsonl_renew (w_sessions w) i e now)" for i
    by (simp add: jsonl.renew [OF inv] st(1) default_index_def live_sessions_def)
  have seq: "js_next_seq (snd (jsonl_renew (w_sessions w) i e now)) = 0" for i
    using st(2) by (simp add: jsonl_renew_def case_prod_beta')
  obtain probe where probe: "seal (\<lambda>x. x) latin1 (uv_upstream_name event) (uv_url_origin event) (uv_verifier_id event) None bs claims
      \<lparr>evr_digest = evr_digest ev, evr_data_uri = None\<rparr> now e = Inr probe" using seal by blast
  obtain x where "seal (\<lambda>x. x) latin1 (uv_upstream_name event) (uv_url_origin event) (uv_verifier_id event) None bs claims
      ev now e = Inr x" using seal by blast
  then show ?thesis
    using none [of "as_session_id probe"] seq [of "as_session_id probe"]
    by (simp add: seal_attested_session_def Let_def sample_sv_simps probe case_prod_beta' jsonl_put_def checked_add_def)
qed

lemma sample_sealed:
  assumes "js_index (w_sessions w) = default_index" "js_next_seq (w_sessions w) = 0"
  shows "\<exists>i w'. record_attested_upstream_session sample_sv (sample_event\<lparr>uv_required := True\<rparr>) w =
    (Inr [\<lparr>sd_instance_key = None, sd_session_id = i, sd_claims = session_claims_for_event (sample_event\<lparr>uv_required := True\<rparr>)\<rparr>], w')"
proof -
  let ?e = "sample_event\<lparr>uv_required := True\<rparr>" and ?w = "w\<lparr>w_clock_reads := Suc (w_clock_reads w)\<rparr>"
  have extra: "claims_extra (session_claims_for_event ?e) = []"
    by (simp add: session_claims_for_event_def sample_event_def default_upstream_verified_event_def claim_mapper_def)
  have e: "uv_result ?e = Verified" "uv_channel_bindings ?e = [TlsSpkiSha256 (lit ''https://u'') (lit ''aa'')]"
    "uv_provider_claims ?e = None" "chutes_instance_id ?e b = None" "uv_evidence ?e = None" for b
    by (simp_all add: sample_event_def default_upstream_verified_event_def chutes_instance_id_def)
  have st: "js_index (w_sessions ?w) = default_index" "js_next_seq (w_sessions ?w) = 0" using assms by simp_all
  have i: "identity_from_provider_claims None = None" by (simp add: identity_from_provider_claims_def identity_is_empty_def)
  obtain j w' where "seal_attested_session sample_sv ?e None (uv_channel_bindings ?e) (session_claims_for_event ?e)
      \<lparr>evr_digest = None, evr_data_uri = None\<rparr> (of_nat (w_clock_reads w)) (saturating_add (of_nat (w_clock_reads w)) 60) ?w = (Inr j, w')"
    using sample_seal [OF st extra] by blast
  then show ?thesis
    unfolding record_attested_upstream_session_def e(1-3) i by (simp add: now_secs_def Let_def sample_sv_simps e(4,5) and_then_def)
qed

text \<open>Event fields that can be signed.\<close>

definition plain_fields :: "json \<Rightarrow> bool" where
  "plain_fields f \<longleftrightarrow> (\<exists>m. f = Object m \<and> wf_json f \<and> float_free f \<and> reserved_key f = None)"

lemma float_free_foldl_insert:
  "float_free (Object acc) \<Longrightarrow> float_free (Object m) \<Longrightarrow>
   float_free (Object (foldl (\<lambda>acc (k, v). obj_insert acc k v) acc m))"
proof (induction m arbitrary: acc)
  case (Cons x m)
  obtain k v where x: "x = (k, v)" by fastforce
  have "float_free (Object (obj_insert acc k v))" using Cons.prems by (intro float_free_obj_insert) (auto simp: x)
  from Cons.IH [OF this] Cons.prems(2) show ?case by (simp add: x)
qed simp

lemma plain_event:
  assumes "plain_fields (ev_fields e)"
  shows "good_event e \<and> float_free (event_value e)"
proof -
  obtain m where m: "ev_fields e = Object m" "wf_json (Object m)" "float_free (Object m)" "reserved_key (Object m) = None"
    using assms by (auto simp: plain_fields_def)
  have "float_free (Object [(lit ''seq'', json_u64 (ev_seq e)), (lit ''type'', JString (ev_type e))])" by simp
  from float_free_foldl_insert [OF this m(3)] m show ?thesis
    by (simp add: good_event_def event_value_def Let_def del: float_free.simps wf_json.simps)
qed

lemma finalize_defined:
  assumes "\<forall>x \<in> set (log_view (rb_events b)). plain_fields (snd x)"
    and "set required_events \<subseteq> fst ` set (log_view (rb_events b))"
  shows "\<exists>r. finalize hx sample_key_provider (lit ''k'') b = Inr r"
proof -
  let ?r = "unsigned_receipt b \<lparr>kpk_key_id = lit ''k'', kpk_algo = lit ''ed25519'', kpk_public_key_hex = []\<rparr> []"
  have e: "\<forall>e \<in> set (rc_event_log ?r). good_event e \<and> float_free (event_value e)"
    using assms(1) plain_event by (auto simp: log_view_def unsigned_receipt_def)
  then have "wf_json (receipt_value False ?r)" by (intro receipt_value_wf) blast
  moreover have "float_free (receipt_value False ?r)"
    using e by (auto simp: receipt_value_def signature_value_def json_opt_str_def split: option.splits)
  ultimately obtain bs where "canonicalize (receipt_value False ?r) = Inr bs" using canonicalize_defined by blast
  moreover have "rb_events b \<noteq> []" "set required_events \<subseteq> set (map ev_type (rb_events b))"
    using assms(2) by (auto simp: log_view_def required_events_def image_image)
  ultimately show ?thesis
    by (simp add: finalize_Inr) (simp add: sample_key_provider_def)
qed

lemma append_event_ok:
  "rb_next_seq b \<noteq> 0 \<Longrightarrow> reserved_key f = None \<Longrightarrow>
   \<exists>b'. append_event b t f = Inr b' \<and> rb_next_seq b' = rb_next_seq b + 1"
  by (simp add: append_event_def)

lemma plain_fields_samples:
  "plain_fields (hash_fields sv body)" "plain_fields (returned_fields sv a b)"
  by (simp_all add: plain_fields_def hash_fields_def returned_fields_def reserved_key_def)

lemma plain_fields_verified:
  assumes "uv_provider_claims event = None" "claims_extra claims = []"
  shows "plain_fields (Object (cited_fields event (Some (i, claims))))" "plain_fields (verified_fields event (Some (i, claims)) model)"
proof -
  have c: "wf_json (session_claims_value claims)" "float_free (session_claims_value claims)"
    using claims_wf [of claims] claims_float_free [of claims] by (simp_all add: assms(2) wf_extra_def)
  show "plain_fields (Object (cited_fields event (Some (i, claims))))" "plain_fields (verified_fields event (Some (i, claims)) model)"
    by (auto simp: plain_fields_def verified_fields_def cited_fields_def to_fields_def assms(1) c reserved_key_def json_opt_str_def
        split: option.splits)
qed

lemma sample_request_events:
  "\<exists>b. request_events sample_sv sample_request sample_prepared (start_builder sample_sv sample_request i c t) = Inr b \<and> rb_next_seq b = 2"
  by (simp add: request_events_def Let_def add_request_received_def add_request_forwarded_def add_body_hash_def append_event_def
      start_builder_def new_builder_def reserved_key_def middleware_body_def sample_request_def default_context_def sample_prepared_def)

lemma sample_response_events:
  assumes "rb_next_seq b = 2" "log_view (rb_events b) = request_log sample_sv sample_request (urq_body (pr_request sample_prepared))"
    and "uv_provider_claims event = None" "claims_extra claims = []"
  shows "\<exists>r. response_events sample_sv event (Some (i, claims)) model x x x b = Inr r"
proof -
  note plain = plain_fields_verified [OF assms(3,4)]
  have req: "\<forall>x \<in> set (log_view (rb_events b)). plain_fields (snd x)"
    "EVENT_REQUEST_RECEIVED \<in> fst ` set (log_view (rb_events b))" "EVENT_REQUEST_FORWARDED \<in> fst ` set (log_view (rb_events b))"
    by (auto simp: assms(2) request_log_def sample_request_def default_context_def plain_fields_samples sample_prepared_def)
  have "reserved_key (Object (cited_fields event (Some (i, claims)))) = None" using plain(1) by (simp add: plain_fields_def)
  then obtain b1 where b1: "append_upstream_verified b event (Some (i, claims)) = Inr b1" "rb_next_seq b1 = 3"
    using append_event_ok [of b] assms(1)
    by (force simp: append_upstream_verified_def add_upstream_verified_with_session_def to_fields_def cited_fields_def Let_def)
  define b2 where "b2 = set_upstream_verified_model_id b1 model"
  have n: "EVENT_UPSTREAM_VERIFIED \<notin> fst ` set (log_view (rb_events b))"
    unfolding assms(2) by (rule request_log_no_verified)
  have v2: "log_view (rb_events b2) = log_view (rb_events b) @ [(EVENT_UPSTREAM_VERIFIED, verified_fields event (Some (i, claims)) model)]"
    using set_model_view [OF n append_upstream_verified_view [OF b1(1)], of model] by (simp add: b2_def verified_fields_def)
  have "rb_next_seq b2 \<noteq> 0" using b1(2) by (simp add: b2_def set_upstream_verified_model_id_def Let_def)
  then obtain b3 where b3: "append_event b2 EVENT_RESPONSE_RETURNED (returned_fields sample_sv x x) = Inr b3"
    using append_event_ok plain_fields_samples(2) by (meson plain_fields_def)
  have "\<exists>r. finalize latin1 sample_key_provider (lit ''k'') b3 = Inr r"
    using req plain(2) plain_fields_samples
    by (intro finalize_defined) (auto simp: append_event_view [OF b3] v2 required_events_def)
  then show ?thesis
    using b1 b3
    by (simp add: response_events_def b2_def [symmetric] Let_def add_response_returned_def add_response_returned_hashes_def
        returned_fields_def [symmetric] sample_sv_simps) (simp add: returned_fields_def sample_sv_simps)
qed

lemma sample_client: "client_response sample_serde sample_request sample_response = (200, [2], [])"
  by (simp add: client_response_def sample_response_def image_input_error_parts_def classify_image_input_error_def)

lemma sample_model: "accepted_response_model sample_serde (us_status_code sample_response) [2] = None"
  by (simp add: accepted_response_model_def sample_response_def object_string_member_def)

lemma sample_forward:
  "\<exists>fr w' i claims. forward_chat_completion_request sample_sv sample_request sample_world = (Inr fr, w') \<and>
     (EVENT_UPSTREAM_VERIFIED, verified_fields (sample_event\<lparr>uv_required := True\<rparr>) (Some (i, claims)) None)
       \<in> set (log_view (rc_event_log (fr_receipt fr)))"
proof -
  let ?e = "sample_event\<lparr>uv_required := True\<rparr>" and ?req = sample_request and ?p = sample_prepared
  define w1 where "w1 = record_upstream_response (cr_endpoint_path ?req) Buffered (us_status_code sample_response) None sample_started"
  define w2 where "w2 = w1\<lparr>w_draws := Suc (w_draws w1), w_clock_reads := Suc (w_clock_reads w1)\<rparr>"
  have st: "js_index (w_sessions w2) = default_index" "js_next_seq (w_sessions w2) = 0"
    using start_forward_spec [OF sample_start] by (auto simp: same_stores_def sample_world_def w1_def w2_def metric_defs)
  define b0 where "b0 = start_builder sample_sv ?req (lit ''rcpt-'' @ latin1 (sv_random sample_sv (w_draws w1)))
    (extract_chat_id sample_serde [2]) (of_nat (w_clock_reads w1))"
  obtain b where b: "request_events sample_sv ?req ?p b0 = Inr b" "rb_next_seq b = 2"
    using sample_request_events unfolding b0_def by blast
  have "log_view (rb_events b0) = []" by (simp add: b0_def start_builder_def new_builder_def log_view_def)
  with request_events_view [OF b(1)] have log: "log_view (rb_events b) = request_log sample_sv ?req (urq_body (pr_request ?p))" by simp
  obtain i w3 where s: "record_attested_upstream_session sample_sv ?e w2 =
      (Inr [\<lparr>sd_instance_key = None, sd_session_id = i, sd_claims = session_claims_for_event ?e\<rparr>], w3)"
    using sample_sealed [OF st] by blast
  have e: "uv_provider_claims ?e = None" "claims_extra (session_claims_for_event ?e) = []"
    by (simp_all add: session_claims_for_event_def sample_event_def default_upstream_verified_event_def claim_mapper_def)
  obtain r where r: "response_events sample_sv ?e (Some (i, session_claims_for_event ?e)) None [2] [2] [2] b = Inr r"
    using sample_response_events [OF b(2) log e] by blast
  have none: "cr_e2ee ?req = None" "us_body sample_response = [2]" "us_served_instance_id sample_response = None"
    by (simp_all add: sample_request_def sample_response_def)
  have cite: "cite_served_session [\<lparr>sd_instance_key = None, sd_session_id = i, sd_claims = c\<rparr>] None = Some (i, c)" for c
    by (simp add: cite_served_session_def)
  have run: "\<exists>fr w'. forward_chat_completion_request sample_sv ?req sample_world = (Inr fr, w') \<and> fr_receipt fr = r"
    unfolding forward_chat_completion_request_def and_then_def sample_start
    by (simp add: complete_forward_def sample_sv_simps sample_model sample_client Let_def w1_def [symmetric] wire_body_def none
        and_then_def generate_receipt_id_def now_secs_def b0_def [symmetric] b w2_def [symmetric] s cite r)
  have "(EVENT_UPSTREAM_VERIFIED, verified_fields ?e (Some (i, session_claims_for_event ?e)) None) \<in> set (log_view (rc_event_log r))"
    using response_events_view [OF r] log by (simp add: request_log_no_verified response_log_def)
  with run show ?thesis by blast
qed


text \<open>The response a successful start returns is the upstream's answer to the prepared request under the recorded event.\<close>

lemma reverify_loop_response:
  assumes "reverify_loop sv prepared required supplied always forward n event w = ((Forwarded x, event'), w')"
  shows "\<exists>u. fst (forward u prepared event') = Inr x"
  using assms
proof (induction sv prepared required supplied always forward n event w rule: reverify_loop.induct)
  case (1 sv prepared required supplied always forward n event w)
  obtain r w1 where c: "call_forward forward prepared event w = (r, w1)" by fastforce
  note step = reverify_loop.simps [of sv prepared required supplied always forward n event w, unfolded c]
  show ?case
  proof (cases r)
    case (Inr response)
    then show ?thesis using "1.prems" call_forward_spec [OF c] by (auto simp: step)
  next
    case (Inl err)
    let ?again = "is_mismatch err \<and> \<not> supplied \<and> n < CHANNEL_BINDING_REVERIFY_ATTEMPTS"
    have again: ?again
    proof (rule ccontr)
      assume n: "\<not> ?again"
      from "1.prems" show False unfolding step Inl prod.case sum.case if_not_P [OF n] Let_def by simp
    qed
    obtain r2 w2 where f: "refresh_upstream_event sv prepared required w1 = (r2, w2)" by fastforce
    show ?thesis
    proof (cases r2)
      case (Inr event2)
      from "1.prems" have "reverify_loop sv prepared required supplied always forward (Suc n) event2 w2 = ((Forwarded x, event'), w')"
        unfolding step \<open>r = Inl err\<close> f Inr prod.case sum.case if_P [OF again] .
      from "1.IH" [OF c [symmetric] \<open>r = Inl err\<close> again f [symmetric] Inr this] show ?thesis .
    next
      case (Inl err2)
      from "1.prems" show ?thesis
        unfolding step \<open>r = Inl err\<close> f Inl prod.case sum.case if_P [OF again] by simp
    qed
  qed
qed

lemma start_forward_response:
  assumes "start_forward sv mode forward req w = (Inr (prepared, event, response), w')"
  shows "\<exists>u. fst (forward u prepared event) = Inr response"
proof -
  obtain p where p: "prepare_request sv req = Inr p"
    using assms by (cases "prepare_request sv req") (auto simp: start_forward_def prepare_request_def Let_def)
  let ?required = "upstream_required_for_prepared p (cr_upstream_required req)"
  let ?supplied = "cr_upstream_verification_event req"
  obtain e0 w0 where "(case forward_with_binding_reverify sv p e0 ?required (?supplied \<noteq> None) False forward w0 of
          ((Forwarded response, event), w) \<Rightarrow> (Inr (p, event, response), w)
        | ((RefreshFailed err, _), w) \<Rightarrow> (Inl err, w)
        | ((ForwardFailed err, _), w) \<Rightarrow> (Inl (ServiceUpstream err), w)) = (Inr (prepared, event, response), w')"
    using assms p unfolding start_forward_def prepare_request_def Let_def by (auto simp: and_then_Inr)
  moreover obtain outcome e1 w1 where loop:
    "reverify_loop sv p ?required (?supplied \<noteq> None) False forward 0 e0 w0 = ((outcome, e1), w1)"
    by (metis surj_pair)
  ultimately have o: "outcome = Forwarded response" "p = prepared" "e1 = event"
    unfolding forward_with_binding_reverify_def loop prod.case by (cases outcome; simp)+
  from reverify_loop_response [OF loop [unfolded o]] show ?thesis .
qed

text \<open>
  C16. A buffered receipt is true to the bytes: the log of a successful request is, in
  order, the hash of the body received, the middleware body and route if there are any,
  the hash of the body prepared for the upstream (with a note if it differs from what was
  received), the event that passed the gate with the served model, a note if the delivered
  bytes differ from the upstream's, and the hashes of the cleartext and delivered bodies.
  The response is what the upstream answered to that prepared request under that event;
  status and cleartext are the upstream's or the image error; without end-to-end
  encryption the cleartext is what is delivered. The receipt is stored for its requester.
\<close>

theorem receipt_true_to_bytes:
  assumes "forward_chat_completion_request sv req w = (Inr fr, w')"
  shows "\<exists>prepared event response u sealed client_body headers now.
    prepare_request sv req = Inr prepared \<and> gate_passed (request_required sv req prepared) event
    \<and> fst (be_forward_verified_prepared (sv_upstream sv) u prepared event) = Inr response
    \<and> client_response (sv_serde sv) req response = (fr_upstream_status fr, client_body, headers)
    \<and> (cr_e2ee req = None \<longrightarrow> fr_upstream_body fr = client_body)
    \<and> log_view (rc_event_log (fr_receipt fr)) = request_log sv req (urq_body (pr_request prepared))
        @ response_log sv event (cite_served_session sealed (us_served_instance_id response))
            (accepted_response_model (sv_serde sv) (us_status_code response) (us_body response))
            (us_body response) client_body (fr_upstream_body fr)
    \<and> w_receipts w' = put_receipt (w_receipts w) (fr_receipt fr) (cr_requester req) now
        (saturating_add now (cfg_receipt_ttl_seconds (sv_config sv)))"
proof -
  obtain prepared event response w1 where
    s: "start_forward sv Buffered (be_forward_verified_prepared (sv_upstream sv)) req w = (Inr (prepared, event, response), w1)" and
    c: "complete_forward sv req prepared event response w1 = (Inr fr, w')" and
    p: "prepare_request sv req = Inr prepared" "gate_passed (request_required sv req prepared) event" "same_stores w w1"
    by (rule forward_Inr [OF assms])
  obtain u where u: "fst (be_forward_verified_prepared (sv_upstream sv) u prepared event) = Inr response"
    using start_forward_response [OF s] by blast
  have w1: "w_receipts w1 = w_receipts w" using p(3) by (simp add: same_stores_def)
  show ?thesis
  proof (rule complete_forward_Inr [OF c], unfold w1)
    fix client_body headers sealed now
    assume cl: "client_response (sv_serde sv) req response = (fr_upstream_status fr, client_body, headers)"
      and e: "cr_e2ee req = None \<Longrightarrow> fr_upstream_body fr = client_body"
      and log: "log_view (rc_event_log (fr_receipt fr)) = request_log sv req (urq_body (pr_request prepared))
        @ response_log sv event (cite_served_session sealed (us_served_instance_id response))
            (accepted_response_model (sv_serde sv) (us_status_code response) (us_body response))
            (us_body response) client_body (fr_upstream_body fr)"
      and st: "w_receipts w' = put_receipt (w_receipts w) (fr_receipt fr) (cr_requester req) now
        (saturating_add now (cfg_receipt_ttl_seconds (sv_config sv)))"
    show ?thesis
      by (intro exI conjI impI, rule p, rule p, rule u, rule cl, erule e, rule log, rule st)
  qed
qed

theorem receipt_true_to_bytes_witness:
  "\<exists>fr w' event response. forward_chat_completion_request sample_sv sample_request sample_world = (Inr fr, w')
     \<and> gate_passed True event \<and> client_response sample_serde sample_request response = (fr_upstream_status fr, fr_upstream_body fr, [])"
proof -
  obtain fr w' where run: "forward_chat_completion_request sample_sv sample_request sample_world = (Inr fr, w')"
    using sample_forward by blast
  from receipt_true_to_bytes [OF run] obtain p event response cb hs where
    p: "prepare_request sample_sv sample_request = Inr p" "gate_passed (request_required sample_sv sample_request p) event" and
    r: "response = sample_response" "client_response sample_serde sample_request response = (fr_upstream_status fr, cb, hs)"
      "fr_upstream_body fr = cb"
    by (auto simp: sample_sv_simps sample_request_def)
  have "gate_passed True event" using p sample_required(2) by (simp add: sample_prepare)
  moreover have "hs = []" using r by (simp add: sample_client)
  ultimately show ?thesis using run r by blast
qed

lemma reverify_loop_first:
  fixes sv :: "('v, 'u, 's) service" and forward :: "('u, 'r) forwarder"
  assumes "reverify_loop sv prepared required supplied always forward n event w = ((outcome, event'), w')"
  shows "\<exists>t. w_trace w' = w_trace w @ Forward prepared event # t"
  using assms
proof (induction sv prepared required supplied always forward n event w rule: reverify_loop.induct)
  case (1 sv prepared required supplied always forward n event w)
  obtain r w1 where c: "call_forward forward prepared event w = (r, w1)" by fastforce
  note step = reverify_loop.simps [of sv prepared required supplied always forward n event w, unfolded c]
  have w1: "w_trace w1 = w_trace w @ [Forward prepared event]" using call_forward_spec [OF c] by simp
  have inv: "\<exists>t. w_trace (invalidate_upstream_event sv prepared required w1) = w_trace w1 @ t"
    using invalidate_spec [of sv prepared required w1] by blast
  show ?case
  proof (cases r)
    case (Inr response)
    then show ?thesis using "1.prems" w1 by (simp add: step)
  next
    case (Inl err)
    let ?again = "is_mismatch err \<and> \<not> supplied \<and> n < CHANNEL_BINDING_REVERIFY_ATTEMPTS"
    show ?thesis
    proof (cases ?again)
      case False
      then show ?thesis
        using "1.prems" w1 inv unfolding step Inl prod.case sum.case if_not_P [OF False] Let_def by (auto split: if_splits)
    next
      case True
      obtain r2 w2 where f: "refresh_upstream_event sv prepared required w1 = (r2, w2)" by fastforce
      obtain t1 where t1: "w_trace w2 = w_trace w1 @ t1" using refresh_spec [OF f] by blast
      show ?thesis
      proof (cases r2)
        case (Inr event2)
        from "1.prems" have "reverify_loop sv prepared required supplied always forward (Suc n) event2 w2 = ((outcome, event'), w')"
          unfolding step \<open>r = Inl err\<close> f Inr prod.case sum.case if_P [OF True] .
        from "1.IH" [OF c [symmetric] \<open>r = Inl err\<close> True f [symmetric] Inr this] show ?thesis using w1 t1 by auto
      next
        case (Inl err2)
        from "1.prems" show ?thesis
          using w1 t1 unfolding step \<open>r = Inl err\<close> f Inl prod.case sum.case if_P [OF True] by auto
      qed
    qed
  qed
qed

lemma start_forward_first:
  assumes "prepare_request sv req = Inr p"
    and "recorded_upstream_event sv p (upstream_required_for_prepared p (cr_upstream_required req)) (cr_upstream_verification_event req)
      (record_request (cr_endpoint_path req) mode (cr_e2ee req \<noteq> None) w) = (Inr event, w1)"
    and "start_forward sv mode forward req w = (r, w')"
  shows "\<exists>t. w_trace w' = w_trace w1 @ Forward p event # t"
proof -
  let ?required = "upstream_required_for_prepared p (cr_upstream_required req)"
  let ?supplied = "cr_upstream_verification_event req"
  obtain outcome e1 w2 where loop: "reverify_loop sv p ?required (?supplied \<noteq> None) False forward 0 event w1 = ((outcome, e1), w2)"
    by (metis surj_pair)
  have "w' = w2"
    using assms(1,3) unfolding start_forward_def prepare_request_def [symmetric] Let_def
    by (cases outcome) (simp_all add: and_then_def assms(2) forward_with_binding_reverify_def loop del: not_None_eq)
  with reverify_loop_first [OF loop] show ?thesis by simp
qed

lemma handler_trace:
  assumes "forward_chat_completion_request sv req w = (r, w')"
    and "start_forward sv Buffered (be_forward_verified_prepared (sv_upstream sv)) req w = (r1, w1)"
  shows "\<exists>t. w_trace w' = w_trace w1 @ t"
proof (cases r1)
  case (Inl e)
  then show ?thesis using assms by (simp add: forward_chat_completion_request_def and_then_def)
next
  case (Inr x)
  obtain p e y where x: "x = (p, e, y)" by (metis prod_cases3)
  have "complete_forward sv req p e y w1 = (r, w')"
    using assms unfolding forward_chat_completion_request_def and_then_def by (simp add: Inr x)
  from complete_forward_calls [OF this] show ?thesis by (auto simp: only_metrics_def)
qed

text \<open>
  An attested route is not fail-closed by itself: if the request opts out of
  verification and no verifier is configured, a request routed to a TEE provider is
  forwarded under an event that records a failed verification.
\<close>

theorem tee_route_opt_out_forwards:
  assumes "prepare_request sv req = Inr p" and "pr_is_tee p = Some True" and "cr_upstream_required req = Some False"
    and "sv_verify sv = None" and "cr_upstream_verification_event req = None"
  shows "\<exists>t e. w_trace (snd (forward_chat_completion_request sv req w)) = w_trace w @ t
    \<and> Forward p e \<in> set t \<and> uv_result e = Failed"
proof -
  let ?required = "upstream_required_for_prepared p (cr_upstream_required req)"
  let ?w = "record_request (cr_endpoint_path req) Buffered (cr_e2ee req \<noteq> None) w"
  have "?required = Some False" by (simp add: upstream_required_for_prepared_def assms(2,3))
  then obtain w1 where rec: "recorded_upstream_event sv p ?required (cr_upstream_verification_event req) ?w = (Inr (missing_event p False), w1)"
    by (simp add: recorded_upstream_event_def consult_verifier_def Let_def assms(4,5))
  obtain r w' where run: "forward_chat_completion_request sv req w = (r, w')" by fastforce
  obtain r2 w2 where st: "start_forward sv Buffered (be_forward_verified_prepared (sv_upstream sv)) req w = (r2, w2)" by fastforce
  obtain t0 where "w_trace w1 = w_trace ?w @ t0" using recorded_upstream_event_spec [OF rec] by blast
  moreover obtain m where "w_trace ?w = w_trace w @ m" by (auto simp: metric_defs)
  moreover obtain t1 where "w_trace w2 = w_trace w1 @ Forward p (missing_event p False) # t1"
    using start_forward_first [OF assms(1) rec st] by blast
  moreover obtain t2 where "w_trace w' = w_trace w2 @ t2" using handler_trace [OF run st] by blast
  ultimately show ?thesis
    by (intro exI [of _ "m @ t0 @ Forward p (missing_event p False) # t1 @ t2"] exI [of _ "missing_event p False"])
       (simp add: run missing_event_def)
qed

theorem tee_route_opt_out_forwards_witness:
  "\<exists>e. Forward (sample_prepared\<lparr>pr_is_tee := Some True\<rparr>) e \<in> set (w_trace (snd (forward_chat_completion_request
       (sample_sv\<lparr>sv_verify := None, sv_upstream := sample_backend\<lparr>be_prepare := \<lambda>_. Inr (sample_prepared\<lparr>pr_is_tee := Some True\<rparr>)\<rparr>\<rparr>)
       (sample_request\<lparr>cr_upstream_required := Some False\<rparr>) sample_world))) \<and> uv_result e = Failed"
proof -
  let ?sv = "sample_sv\<lparr>sv_verify := None, sv_upstream := sample_backend\<lparr>be_prepare := \<lambda>_. Inr (sample_prepared\<lparr>pr_is_tee := Some True\<rparr>)\<rparr>\<rparr>"
  let ?req = "sample_request\<lparr>cr_upstream_required := Some False\<rparr>"
  have p: "prepare_request ?sv ?req = Inr (sample_prepared\<lparr>pr_is_tee := Some True\<rparr>)" by (simp add: prepare_request_def)
  have "cr_upstream_required ?req = Some False" "sv_verify ?sv = None" "cr_upstream_verification_event ?req = None"
    by (simp_all add: sample_request_def)
  from tee_route_opt_out_forwards [OF p _ this, of sample_world] show ?thesis by auto
qed

end
