(* ===== verification/Failover.thy ===== *)
theory Failover
  imports Forward
begin

text \<open>
  Forwarding on behalf of the middleware, \<open>src/aggregator/service/middleware.rs\<close>: an ordered
  list of candidate routes is tried until one answers, every candidate behind the same
  verification gate, and the receipt is drafted for the middleware and finished on the
  response it returns.
\<close>

section \<open>Candidates and results\<close>

record forward_candidate =
  fc_route_id :: str
  fc_body :: bytes

record middleware_forwarded =
  mf_receipt_id :: str
  mf_receipt :: receipt_draft
  mf_upstream_status :: nat
  mf_upstream_body :: bytes
  mf_upstream_headers :: "(str \<times> str) list"
  mf_selected_route :: str
  mf_failed_attempts :: "(str \<times> nat) list"
  mf_session_id :: "str option"

record middleware_streaming =
  ms_receipt_id :: str
  ms_upstream_status :: nat
  ms_upstream_headers :: "(str \<times> str) list"
  ms_body :: drafting_stream
  ms_selected_route :: str
  ms_failed_attempts :: "(str \<times> nat) list"
  ms_session_id :: "str option"

record middleware_upstream_error =
  mu_upstream_status :: nat
  mu_upstream_headers :: "(str \<times> str) list"
  mu_upstream_body :: bytes
  mu_selected_route :: str
  mu_failed_attempts :: "(str \<times> nat) list"

record middleware_all_failed =
  ma_failed_attempts :: "(str \<times> nat) list"
  ma_error :: service_error

datatype middleware_result =
    MiddlewareForwarded middleware_forwarded
  | MiddlewareStream middleware_streaming
  | MiddlewareUpstreamError middleware_upstream_error
  | MiddlewareAllFailed middleware_all_failed

section \<open>When to fail over\<close>

definition is_retryable_provider_status :: "nat \<Rightarrow> bool" where
  "is_retryable_provider_status status \<longleftrightarrow> status \<in> {401, 402, 403, 429, 500, 502, 503, 504}"

definition should_fail_over :: "serde_json \<Rightarrow> nat \<Rightarrow> bytes \<Rightarrow> bytes \<Rightarrow> bool" where
  "should_fail_over sj status received_body upstream_body \<longleftrightarrow>
     is_retryable_provider_status status \<and> classify_image_input_error sj received_body status upstream_body = None"

text \<open>The error to report if no candidate succeeds, with its priority.\<close>

type_synonym error_slot = "(nat \<times> service_error) option"

definition upgrade_err :: "error_slot \<Rightarrow> nat \<Rightarrow> service_error \<Rightarrow> error_slot" where
  "upgrade_err slot priority err =
     (if (case slot of Some (p, _) \<Rightarrow> p \<le> priority | None \<Rightarrow> True) then Some (priority, err) else slot)"

fun is_routing :: "upstream_error \<Rightarrow> bool" where
  "is_routing (Routing _) = True"
| "is_routing _ = False"

fun refresh_priority :: "service_error \<Rightarrow> nat" where
  "refresh_priority (UpstreamVerification _) = 3"
| "refresh_priority _ = 2"

section \<open>One candidate\<close>

definition tier_headers :: "chat_request \<Rightarrow> (str \<times> str) list" where
  "tier_headers req = (case gc_user_tier (cr_context req) of Some tier \<Rightarrow> [(lit ''x-user-tier'', tier)] | None \<Rightarrow> [])"

definition prepare_candidate ::
    "('v, 'u, 's) service \<Rightarrow> chat_request \<Rightarrow> forward_candidate \<Rightarrow> upstream_error + prepared_request" where
  "prepare_candidate sv req c =
     be_prepare (sv_upstream sv) \<lparr>urq_body = fc_body c, urq_headers = tier_headers req,
       urq_path = Some (cr_endpoint_path req), urq_target_route_id = Some (fc_route_id c)\<rparr>"

definition candidate_required :: "chat_request \<Rightarrow> prepared_request \<Rightarrow> bool option" where
  "candidate_required req prepared =
     (let non_tee = (pr_is_tee prepared = Some False)
      in if non_tee then Some False else cr_upstream_required req)"

definition build_middleware_receipt_prefix ::
    "('v, 'u, 's) service \<Rightarrow> chat_request \<Rightarrow> str \<Rightarrow> str option \<Rightarrow> u64 \<Rightarrow> forward_candidate \<Rightarrow> bytes \<Rightarrow>
     upstream_verified_event \<Rightarrow> (str \<times> session_claims) option \<Rightarrow> receipt_error + receipt_builder" where
  "build_middleware_receipt_prefix sv req receipt_id chat_id served_at c forwarded_body event recorded =
     (let sha = sv_sha256 sv; hx = sv_hex_encode sv;
          builder = new_builder receipt_id chat_id (gc_user_model (cr_context req)) (svc_workload_id (sv_identity sv))
            (svc_workload_keyset_digest (sv_identity sv)) (cr_endpoint_path req) (lit ''POST'') served_at
      in bind_result (add_request_received sha hx builder (cr_received_body req)) (\<lambda>(_, builder).
         bind_result (add_middleware_forwarded sha hx builder (fc_body c)) (\<lambda>(_, builder).
         bind_result (add_route_selected builder (fc_route_id c)) (\<lambda>builder.
         bind_result (add_request_forwarded sha hx builder forwarded_body) (\<lambda>(_, builder).
         bind_result (if cr_received_body req \<noteq> forwarded_body
                      then add_transparency_event builder RequestModified else Inr builder) (\<lambda>builder.
           append_upstream_verified builder event recorded))))))"

text \<open>
  What an iteration of the candidate loop does: go on to the next candidate, having
  noted a status and perhaps an error with its priority, or return.
\<close>

datatype outcome = Next nat error_slot | Finish "service_error + middleware_result"

definition commit_stream ::
    "('v, 'u, 's) service \<Rightarrow> chat_request \<Rightarrow> receipt_journal \<Rightarrow> (str \<times> nat) list \<Rightarrow> forward_candidate \<Rightarrow>
     prepared_request \<Rightarrow> upstream_verified_event \<Rightarrow> stream_response \<Rightarrow> (('v, 'u, 's) world, middleware_result) handler" where
  "commit_stream sv req journal failed c prepared event response w =
     (let (receipt_id, w) = generate_receipt_id sv w;
          (served_at, w) = now_secs sv w
      in and_then (record_attested_upstream_session sv event) (\<lambda>sealed.
           let recorded = cite_served_session sealed (ss_served_instance_id response);
               session_id = map_option fst recorded
           in and_then (lift (map_err ServiceReceipt (build_middleware_receipt_prefix sv req receipt_id None served_at c
                  (urq_body (pr_request prepared)) event recorded))) (\<lambda>builder.
                let journal = reserve_receipt_id journal receipt_id;
                    body = new_drafting_stream (ss_body response) builder journal receipt_id (cr_endpoint_path req)
                      (ss_status_code response)
                in lift (Inr (MiddlewareStream \<lparr>ms_receipt_id = receipt_id, ms_upstream_status = ss_status_code response,
                     ms_upstream_headers = ss_headers response, ms_body = body, ms_selected_route = fc_route_id c,
                     ms_failed_attempts = failed, ms_session_id = session_id\<rparr>)))) w)"

definition answer_stream ::
    "('v, 'u, 's) service \<Rightarrow> chat_request \<Rightarrow> receipt_journal \<Rightarrow> bool \<Rightarrow> (str \<times> nat) list \<Rightarrow> forward_candidate \<Rightarrow>
     prepared_request \<Rightarrow> upstream_verified_event \<Rightarrow> stream_response \<Rightarrow> ('v, 'u, 's) world \<Rightarrow> outcome \<times> ('v, 'u, 's) world" where
  "answer_stream sv req journal is_last failed c prepared event response w =
     (let path = cr_endpoint_path req; status = ss_status_code response
      in if status \<noteq> 200 then
           let w = record_upstream_response path Streaming status None w;
               body = (case collect_upstream_body (ss_body response) of Inr b \<Rightarrow> b | Inl _ \<Rightarrow> [])
           in if \<not> is_last \<and> should_fail_over (sv_serde sv) status (cr_received_body req) body
              then (Next status None, w)
              else (Finish (Inr (MiddlewareUpstreamError \<lparr>mu_upstream_status = status, mu_upstream_headers = ss_headers response,
                      mu_upstream_body = body, mu_selected_route = fc_route_id c, mu_failed_attempts = failed\<rparr>)),
                    record_stream_error path UpstreamNon2xx w)
         else case commit_stream sv req journal failed c prepared event response w of (r, w) \<Rightarrow> (Finish r, w))"

definition commit_buffered ::
    "('v, 'u, 's) service \<Rightarrow> chat_request \<Rightarrow> (str \<times> nat) list \<Rightarrow> forward_candidate \<Rightarrow> prepared_request \<Rightarrow>
     upstream_verified_event \<Rightarrow> upstream_response \<Rightarrow> (('v, 'u, 's) world, middleware_result) handler" where
  "commit_buffered sv req failed c prepared event response w =
     (let path = cr_endpoint_path req; status = us_status_code response;
          response_model = accepted_response_model (sv_serde sv) status (us_body response);
          w = record_upstream_response path Buffered status response_model w;
          (receipt_id, w) = generate_receipt_id sv w;
          (served_at, w) = now_secs sv w;
          chat_id = extract_chat_id (sv_serde sv) (us_body response)
      in and_then (record_attested_upstream_session sv event) (\<lambda>sealed.
           let recorded = cite_served_session sealed (us_served_instance_id response);
               session_id = map_option fst recorded
           in and_then (lift (map_err ServiceReceipt (build_middleware_receipt_prefix sv req receipt_id chat_id served_at c
                  (urq_body (pr_request prepared)) event recorded))) (\<lambda>builder.
              and_then (lift (map_err ServiceReceipt (add_response_received (sv_sha256 sv) (sv_hex_encode sv)
                  (set_upstream_verified_model_id builder response_model) (us_body response)))) (\<lambda>(provider_response_hash, builder).
                lift (Inr (MiddlewareForwarded \<lparr>mf_receipt_id = receipt_id,
                  mf_receipt = \<lparr>rd_receipt_id = receipt_id, rd_builder = builder,
                    rd_provider_response_hash = provider_response_hash, rd_endpoint_path = path,
                    rd_request_mode = Buffered, rd_response_model = response_model\<rparr>,
                  mf_upstream_status = status, mf_upstream_body = us_body response, mf_upstream_headers = us_headers response,
                  mf_selected_route = fc_route_id c, mf_failed_attempts = failed, mf_session_id = session_id\<rparr>))))) w)"

definition answer_buffered ::
    "('v, 'u, 's) service \<Rightarrow> chat_request \<Rightarrow> bool \<Rightarrow> (str \<times> nat) list \<Rightarrow> forward_candidate \<Rightarrow>
     prepared_request \<Rightarrow> upstream_verified_event \<Rightarrow> upstream_response \<Rightarrow> ('v, 'u, 's) world \<Rightarrow> outcome \<times> ('v, 'u, 's) world" where
  "answer_buffered sv req is_last failed c prepared event response w =
     (let status = us_status_code response
      in if \<not> is_last \<and> should_fail_over (sv_serde sv) status (cr_received_body req) (us_body response)
         then (Next status None, record_upstream_response (cr_endpoint_path req) Buffered status None w)
         else case commit_buffered sv req failed c prepared event response w of (r, w) \<Rightarrow> (Finish r, w))"

text \<open>Forward with re-verification; only an answer goes on to \<open>k\<close>.\<close>

definition forward_candidate_with ::
    "('v, 'u, 's) service \<Rightarrow> prepared_request \<Rightarrow> bool option \<Rightarrow> bool \<Rightarrow> ('u, 'r) forwarder \<Rightarrow> upstream_verified_event \<Rightarrow>
     (upstream_verified_event \<Rightarrow> 'r \<Rightarrow> ('v, 'u, 's) world \<Rightarrow> outcome \<times> ('v, 'u, 's) world) \<Rightarrow>
     ('v, 'u, 's) world \<Rightarrow> outcome \<times> ('v, 'u, 's) world" where
  "forward_candidate_with sv prepared required supplied forward event k w =
     (case forward_with_binding_reverify sv prepared event required supplied True forward w of
        ((Forwarded response, event), w) \<Rightarrow> k event response w
      | ((RefreshFailed err, _), w) \<Rightarrow> (Next 502 (Some (refresh_priority err, err)), w)
      | ((ForwardFailed err, _), w) \<Rightarrow> (Next 502 (Some (2, ServiceUpstream err)), w))"

definition try_candidate ::
    "('v, 'u, 's) service \<Rightarrow> chat_request \<Rightarrow> bool \<Rightarrow> receipt_journal \<Rightarrow> upstream_verified_event option \<Rightarrow> bool \<Rightarrow>
     (str \<times> nat) list \<Rightarrow> forward_candidate \<Rightarrow> ('v, 'u, 's) world \<Rightarrow> outcome \<times> ('v, 'u, 's) world" where
  "try_candidate sv req stream journal caller_event is_last failed c w =
     (case prepare_candidate sv req c of
        Inl err \<Rightarrow> (Next 502 (Some (if is_routing err then 1 else 2, ServiceUpstream err)), w)
      | Inr prepared \<Rightarrow>
          let required = candidate_required req prepared;
              supplied = (caller_event \<noteq> None)
          in (case recorded_upstream_event sv prepared required caller_event w of
                (Inl (UpstreamVerification uv), w) \<Rightarrow> (Next 502 (Some (3, UpstreamVerification uv)), w)
              | (Inl err, w) \<Rightarrow> (Finish (Inl err), w)
              | (Inr event, w) \<Rightarrow>
                  if stream then
                    forward_candidate_with sv prepared required supplied (be_forward_stream_verified_prepared (sv_upstream sv)) event
                      (answer_stream sv req journal is_last failed c prepared) w
                  else
                    forward_candidate_with sv prepared required supplied (be_forward_verified_prepared (sv_upstream sv)) event
                      (answer_buffered sv req is_last failed c prepared) w))"

section \<open>The candidate loop\<close>

definition note_failure :: "error_slot \<Rightarrow> error_slot \<Rightarrow> error_slot" where
  "note_failure slot failure = (case failure of Some (priority, err) \<Rightarrow> upgrade_err slot priority err | None \<Rightarrow> slot)"

definition joined :: "str \<Rightarrow> str list \<Rightarrow> str" where
  "joined sep xs = (case xs of [] \<Rightarrow> [] | x # rest \<Rightarrow> x @ concat (map ((@) sep) rest))"

definition all_failed :: "str list \<Rightarrow> (str \<times> nat) list \<Rightarrow> error_slot \<Rightarrow> middleware_result" where
  "all_failed route_ids failed slot =
     MiddlewareAllFailed \<lparr>ma_failed_attempts = failed,
       ma_error = (case slot of
          Some (_, err) \<Rightarrow> err
        | None \<Rightarrow> ServiceUpstream (Routing
            (lit ''all upstream routes failed (attempted: '' @ joined (lit '', '') route_ids @ lit '')'')))\<rparr>"

fun try_candidates ::
    "('v, 'u, 's) service \<Rightarrow> chat_request \<Rightarrow> bool \<Rightarrow> receipt_journal \<Rightarrow> upstream_verified_event option \<Rightarrow> str list \<Rightarrow>
     forward_candidate list \<Rightarrow> (str \<times> nat) list \<Rightarrow> error_slot \<Rightarrow> (('v, 'u, 's) world, middleware_result) handler" where
  "try_candidates sv req stream journal caller_event route_ids [] failed slot w = (Inr (all_failed route_ids failed slot), w)"
| "try_candidates sv req stream journal caller_event route_ids (c # cs) failed slot w =
     (case try_candidate sv req stream journal caller_event (cs = []) failed c w of
        (Finish r, w) \<Rightarrow> (r, w)
      | (Next status failure, w) \<Rightarrow>
          try_candidates sv req stream journal caller_event route_ids cs (failed @ [(fc_route_id c, status)])
            (note_failure slot failure) w)"

definition forward_chat_completion_for_middleware ::
    "('v, 'u, 's) service \<Rightarrow> chat_request \<Rightarrow> forward_candidate list \<Rightarrow> bool \<Rightarrow> receipt_journal \<Rightarrow>
     (('v, 'u, 's) world, middleware_result) handler" where
  "forward_chat_completion_for_middleware sv req candidates stream journal w =
     (let mode = (if stream then Streaming else Buffered);
          w = record_request (cr_endpoint_path req) mode (cr_e2ee req \<noteq> None) w
      in if candidates = [] then (Inl (ServiceUpstream (Routing (lit ''no candidate routes supplied''))), w)
         else
           let caller_supplied = (cr_upstream_verification_event req \<noteq> None \<and> length candidates = 1);
               caller_event = (if caller_supplied then cr_upstream_verification_event req else None)
           in try_candidates sv req stream journal caller_event (map fc_route_id candidates) candidates [] None w)"

section \<open>Finishing the middleware's response\<close>

definition is_sse_content_type :: "str option \<Rightarrow> bool" where
  "is_sse_content_type content_type =
     (case content_type of
        None \<Rightarrow> False
      | Some value \<Rightarrow>
          to_ascii_lowercase (trim (takeWhile (\<lambda>c. c \<noteq> ch CHR '';'') value)) = lit ''text/event-stream'')"

definition encrypt_e2ee_final_response ::
    "('v, 'u, 's) service \<Rightarrow> encrypt_event \<Rightarrow> bytes \<Rightarrow> e2ee_context \<Rightarrow> str \<Rightarrow> bool \<Rightarrow> (('v, 'u, 's) world, bytes) handler" where
  "encrypt_e2ee_final_response sv encrypt body ctx path is_sse w =
     (if \<not> is_sse then
        (map_err E2ee (sv_encrypt_response sv (w_draws w) body ctx path), w\<lparr>w_draws := Suc (w_draws w)\<rparr>)
      else
        (case push_chunk encrypt (new_transformer ctx path, w_draws w) body of
           (Inl e, _, n) \<Rightarrow> (Inl (E2ee e), w\<lparr>w_draws := n\<rparr>)
         | (Inr out, tn) \<Rightarrow>
             (case finish_transformer encrypt tn of
                (Inl e, _, n) \<Rightarrow> (Inl (E2ee e), w\<lparr>w_draws := n\<rparr>)
              | (Inr tail, _, n) \<Rightarrow> (Inr (out @ tail), w\<lparr>w_draws := n\<rparr>))))"

definition final_wire_body ::
    "('v, 'u, 's) service \<Rightarrow> encrypt_event \<Rightarrow> bytes \<Rightarrow> e2ee_context option \<Rightarrow> str \<Rightarrow> bool \<Rightarrow> (('v, 'u, 's) world, bytes) handler" where
  "final_wire_body sv encrypt body e2ee path is_sse =
     (case e2ee of Some ctx \<Rightarrow> encrypt_e2ee_final_response sv encrypt body ctx path is_sse | None \<Rightarrow> lift (Inr body))"

definition final_chat_id :: "serde_json \<Rightarrow> bool \<Rightarrow> bytes \<Rightarrow> receipt_builder \<Rightarrow> receipt_builder" where
  "final_chat_id sj is_sse body builder =
     (case (if is_sse then sp_chat_id (observe sj default_parser body) else extract_chat_id sj body) of
        Some chat_id \<Rightarrow> set_chat_id builder (Some chat_id)
      | None \<Rightarrow> builder)"

record receipt_finalization =
  mr_receipt :: receipt
  mr_wire_body :: bytes
  mr_e2ee :: "e2ee_response_info option"

text \<open>The events of the final response, then the signature.\<close>

definition final_events ::
    "('v, 'u, 's) service \<Rightarrow> receipt_draft \<Rightarrow> bytes \<Rightarrow> bytes \<Rightarrow> receipt_builder \<Rightarrow> receipt_error + receipt" where
  "final_events sv draft cleartext wire builder =
     bind_result (if rd_provider_response_hash draft \<noteq> sha256_hex (sv_sha256 sv) (sv_hex_encode sv) cleartext \<or> wire \<noteq> cleartext
                  then add_transparency_event builder ResponseModified else Inr builder) (\<lambda>builder.
     bind_result (add_response_returned (sv_sha256 sv) (sv_hex_encode sv) builder cleartext wire) (\<lambda>(_, builder).
       finalize (sv_hex_encode sv) (sv_keys sv) (svc_default_receipt_key_id (sv_identity sv)) builder))"

definition finalize_middleware_receipt ::
    "('v, 'u, 's) service \<Rightarrow> encrypt_event \<Rightarrow> receipt_draft \<Rightarrow> bytes \<Rightarrow> str option \<Rightarrow> receipt_owner option \<Rightarrow>
     e2ee_context option \<Rightarrow> (('v, 'u, 's) world, receipt_finalization) handler" where
  "finalize_middleware_receipt sv encrypt draft cleartext content_type requester e2ee =
     (let is_sse = is_sse_content_type content_type;
          builder = final_chat_id (sv_serde sv) is_sse cleartext (rd_builder draft)
      in and_then (final_wire_body sv encrypt cleartext e2ee (rd_endpoint_path draft) is_sse) (\<lambda>wire.
         and_then (lift (map_err ServiceReceipt (final_events sv draft cleartext wire builder))) (\<lambda>receipt w.
           let w = store_receipt sv receipt requester w;
               w = record_receipt_issued (rd_endpoint_path draft) (rd_request_mode draft) (rd_response_model draft) w
           in (Inr \<lparr>mr_receipt = receipt, mr_wire_body = wire, mr_e2ee = e2ee_info e2ee\<rparr>, w))))"

definition finalize_middleware_generated_response ::
    "('v, 'u, 's) service \<Rightarrow> encrypt_event \<Rightarrow> str \<Rightarrow> bytes \<Rightarrow> str option \<Rightarrow> e2ee_context option \<Rightarrow>
     (('v, 'u, 's) world, bytes \<times> e2ee_response_info option) handler" where
  "finalize_middleware_generated_response sv encrypt path cleartext content_type e2ee =
     and_then (final_wire_body sv encrypt cleartext e2ee path (is_sse_content_type content_type))
       (\<lambda>wire. lift (Inr (wire, e2ee_info e2ee)))"

definition finalize_middleware_response_stream ::
    "receipt_journal \<Rightarrow> (service_error + bytes) poll list \<Rightarrow> str \<Rightarrow> str option \<Rightarrow> receipt_owner option \<Rightarrow>
     e2ee_context option \<Rightarrow> service_error + (journal_final final_stream \<times> e2ee_response_info option)" where
  "finalize_middleware_response_stream journal cleartext_stream path content_type requester e2ee =
     (let is_sse = is_sse_content_type content_type
      in if e2ee \<noteq> None \<and> \<not> is_sse then Inl (E2ee EncryptionFailed)
         else
           let e2ee_response = e2ee_info e2ee;
               transformer = map_option (\<lambda>ctx. new_transformer ctx path) e2ee
           in Inr (\<lparr>st_inner = cleartext_stream,
                st_final = \<lparr>jf_journal = journal, jf_response_modified_by_wire = (e2ee_response \<noteq> None)\<rparr>,
                st_shared = new_finalizer requester path transformer\<rparr>, e2ee_response))"

section \<open>What a candidate does\<close>

fun selected_route :: "middleware_result \<Rightarrow> str option" where
  "selected_route (MiddlewareForwarded r) = Some (mf_selected_route r)"
| "selected_route (MiddlewareStream r) = Some (ms_selected_route r)"
| "selected_route (MiddlewareUpstreamError r) = Some (mu_selected_route r)"
| "selected_route (MiddlewareAllFailed r) = None"

fun failed_attempts :: "middleware_result \<Rightarrow> (str \<times> nat) list" where
  "failed_attempts (MiddlewareForwarded r) = mf_failed_attempts r"
| "failed_attempts (MiddlewareStream r) = ms_failed_attempts r"
| "failed_attempts (MiddlewareUpstreamError r) = mu_failed_attempts r"
| "failed_attempts (MiddlewareAllFailed r) = ma_failed_attempts r"

text \<open>Every forward of a candidate is of its prepared request, under an event that passed the gate of its route.\<close>

definition candidate_calls :: "('v, 'u, 's) service \<Rightarrow> chat_request \<Rightarrow> forward_candidate \<Rightarrow> call list \<Rightarrow> bool" where
  "candidate_calls sv req c t \<longleftrightarrow> forwards t \<le> Suc CHANNEL_BINDING_REVERIFY_ATTEMPTS \<and>
     (\<forall>p e. Forward p e \<in> set t \<longrightarrow>
        prepare_candidate sv req c = Inr p \<and> gate_passed (effective_required sv (candidate_required req p)) e)"

lemma candidate_calls_none: "forwards t = 0 \<Longrightarrow> candidate_calls sv req c t"
  by (auto simp: candidate_calls_def filter_empty_conv)

lemma candidate_calls_append:
  assumes "candidate_calls sv req c t" "forwards t' = 0"
  shows "candidate_calls sv req c (t @ t')" "candidate_calls sv req c (t' @ t)"
proof -
  have "Forward p e \<notin> set t'" for p e using assms(2) by (auto simp: filter_empty_conv)
  then show "candidate_calls sv req c (t @ t')" "candidate_calls sv req c (t' @ t)"
    using assms by (auto simp: candidate_calls_def)
qed

definition outcome_ok :: "bool \<Rightarrow> (str \<times> nat) list \<Rightarrow> forward_candidate \<Rightarrow> outcome \<Rightarrow> bool" where
  "outcome_ok is_last failed c out =
     (case out of
        Next status failure \<Rightarrow>
          if failure = None then \<not> is_last \<and> is_retryable_provider_status status else status = 502
      | Finish (Inr res) \<Rightarrow> selected_route res = Some (fc_route_id c) \<and> failed_attempts res = failed
      | Finish (Inl _) \<Rightarrow> True)"

lemma outcome_ok_simps [simp]:
  "outcome_ok is_last failed c (Next status None) \<longleftrightarrow> \<not> is_last \<and> is_retryable_provider_status status"
  "outcome_ok is_last failed c (Next status (Some f)) \<longleftrightarrow> status = 502"
  "outcome_ok is_last failed c (Finish (Inr res)) \<longleftrightarrow> selected_route res = Some (fc_route_id c) \<and> failed_attempts res = failed"
  "outcome_ok is_last failed c (Finish (Inl e))"
  by (simp_all add: outcome_ok_def)

lemma commit_stream_spec:
  assumes "commit_stream sv req journal failed c prepared event response w = (r, w')"
  shows "only_metrics w w' \<and> outcome_ok is_last failed c (Finish r)"
proof -
  note [dest!] = record_attested_calls [THEN only_metrics_calls]
  show ?thesis
    using assms unfolding commit_stream_def Let_def generate_receipt_id_def now_secs_def case_prod_beta'
    by (elim and_then_cases) auto
qed

lemma commit_buffered_spec:
  assumes "commit_buffered sv req failed c prepared event response w = (r, w')"
  shows "only_metrics w w' \<and> outcome_ok is_last failed c (Finish r)"
proof -
  note [dest!] = record_attested_calls [THEN only_metrics_calls]
  let ?w0 = "record_upstream_response (cr_endpoint_path req) Buffered (us_status_code response)
    (accepted_response_model (sv_serde sv) (us_status_code response) (us_body response)) w"
  have "only_metrics ?w0 w' \<and> outcome_ok is_last failed c (Finish r)"
    using assms unfolding commit_buffered_def Let_def generate_receipt_id_def now_secs_def case_prod_beta'
    by (elim and_then_cases) auto
  then show ?thesis using only_metrics_steps(2) only_metrics_trans by blast
qed

lemma answer_stream_spec:
  assumes "answer_stream sv req journal is_last failed c prepared event response w = (out, w')"
  shows "only_metrics w w' \<and> outcome_ok is_last failed c out"
  using assms
  by (auto simp: answer_stream_def Let_def should_fail_over_def intro!: only_metrics_metric
      dest!: commit_stream_spec [where is_last = is_last] split: if_splits prod.splits)

lemma answer_buffered_spec:
  assumes "answer_buffered sv req is_last failed c prepared event response w = (out, w')"
  shows "only_metrics w w' \<and> outcome_ok is_last failed c out"
  using assms
  by (auto simp: answer_buffered_def Let_def should_fail_over_def intro!: only_metrics_metric
      dest!: commit_buffered_spec [where is_last = is_last] split: if_splits prod.splits)

lemma forward_candidate_with_spec:
  fixes sv :: "('v, 'u, 's) service" and forward :: "('u, 'r) forwarder"
  assumes "forward_candidate_with sv p (candidate_required req p) supplied forward event k w = (out, w')"
    and "prepare_candidate sv req c = Inr p" and "gate_passed (effective_required sv (candidate_required req p)) event"
    and k: "\<And>event r w out w'. k event r w = (out, w') \<Longrightarrow> only_metrics w w' \<and> outcome_ok is_last failed c out"
  shows "\<exists>t. w_trace w' = w_trace w @ t \<and> candidate_calls sv req c t \<and> outcome_ok is_last failed c out"
proof -
  obtain outcome event' w1 where loop:
    "reverify_loop sv p (candidate_required req p) supplied True forward 0 event w = ((outcome, event'), w1)"
    by (metis surj_pair)
  obtain t where t: "w_trace w1 = w_trace w @ t" "loop_calls sv p (candidate_required req p) supplied True 0 t outcome event'"
    using reverify_loop_spec [OF loop assms(3)] by auto
  have calls: "candidate_calls sv req c t" using t(2) assms(2) by (auto simp: loop_calls_def candidate_calls_def)
  note run = assms(1) [unfolded forward_candidate_with_def forward_with_binding_reverify_def loop prod.case]
  show ?thesis
  proof (cases outcome)
    case (Forwarded x)
    then have "k event' x w1 = (out, w')" using run by simp
    from k [OF this] obtain t' where "w_trace w' = w_trace w1 @ t'" "forwards t' = 0" "outcome_ok is_last failed c out"
      by (auto simp: only_metrics_def)
    then show ?thesis using t(1) candidate_calls_append(1) [OF calls] by (intro exI [of _ "t @ t'"]) simp
  next
    case (RefreshFailed e)
    then show ?thesis using run t calls by (intro exI [of _ t]) auto
  next
    case (ForwardFailed e)
    then show ?thesis using run t calls by (intro exI [of _ t]) auto
  qed
qed

lemma try_candidate_spec:
  assumes "try_candidate sv req stream journal caller_event is_last failed c w = (out, w')"
  shows "\<exists>t. w_trace w' = w_trace w @ t \<and> candidate_calls sv req c t \<and> outcome_ok is_last failed c out"
proof (cases "prepare_candidate sv req c")
  case (Inl err)
  then show ?thesis using assms by (intro exI [of _ "[]"]) (auto simp: try_candidate_def candidate_calls_none)
next
  case (Inr p)
  obtain r w1 where rec: "recorded_upstream_event sv p (candidate_required req p) caller_event w = (r, w1)" by fastforce
  obtain t where t: "w_trace w1 = w_trace w @ t" "forwards t = 0"
    "case r of Inr event \<Rightarrow> gate_passed (effective_required sv (candidate_required req p)) event
       | Inl err \<Rightarrow> \<exists>e. err = UpstreamVerification e"
    using recorded_upstream_event_spec [OF rec] by (auto split: sum.splits)
  note run = assms [unfolded try_candidate_def Inr sum.case Let_def rec prod.case]
  show ?thesis
  proof (cases r)
    case (Inl err)
    then obtain e where "err = UpstreamVerification e" using t(3) by auto
    then show ?thesis using run t Inl by (intro exI [of _ t]) (auto simp: candidate_calls_none)
  next
    case (Inr event)
    have g: "gate_passed (effective_required sv (candidate_required req p)) event" using t(3) Inr by simp
    have "\<exists>t'. w_trace w' = w_trace w1 @ t' \<and> candidate_calls sv req c t' \<and> outcome_ok is_last failed c out"
    proof (cases stream)
      case True
      from run have "forward_candidate_with sv p (candidate_required req p) (caller_event \<noteq> None)
          (be_forward_stream_verified_prepared (sv_upstream sv)) event (answer_stream sv req journal is_last failed c p) w1 = (out, w')"
        unfolding Inr sum.case if_P [OF True] .
      from forward_candidate_with_spec [OF this \<open>prepare_candidate sv req c = Inr p\<close> g answer_stream_spec] show ?thesis .
    next
      case False
      from run have "forward_candidate_with sv p (candidate_required req p) (caller_event \<noteq> None)
          (be_forward_verified_prepared (sv_upstream sv)) event (answer_buffered sv req is_last failed c p) w1 = (out, w')"
        unfolding Inr sum.case if_not_P [OF False] .
      from forward_candidate_with_spec [OF this \<open>prepare_candidate sv req c = Inr p\<close> g answer_buffered_spec] show ?thesis .
    qed
    then show ?thesis using t(1,2) candidate_calls_append(2) by fastforce
  qed
qed

section \<open>The run of the candidates\<close>

text \<open>
  A run over candidates that ended after failing over the first \<open>n\<close>: its calls, its
  failed attempts and the route it selected.
\<close>

definition failover_run ::
    "('v, 'u, 's) service \<Rightarrow> chat_request \<Rightarrow> forward_candidate list \<Rightarrow> nat \<Rightarrow> call list \<Rightarrow> bool" where
  "failover_run sv req cs n t \<longleftrightarrow> forwards t \<le> Suc CHANNEL_BINDING_REVERIFY_ATTEMPTS * Suc n \<and>
     (\<forall>p e. Forward p e \<in> set t \<longrightarrow> (\<exists>c \<in> set (take (Suc n) cs).
        prepare_candidate sv req c = Inr p \<and> gate_passed (effective_required sv (candidate_required req p)) e))"

definition attempts_of :: "forward_candidate list \<Rightarrow> nat \<Rightarrow> (str \<times> nat) list \<Rightarrow> bool" where
  "attempts_of cs n attempts \<longleftrightarrow> map fst attempts = map fc_route_id (take n cs) \<and> n \<le> length cs
     \<and> (\<forall>s \<in> snd ` set attempts. s = 502 \<or> is_retryable_provider_status s)"

lemma outcome_ok_Next:
  "outcome_ok is_last failed c (Next status failure) \<Longrightarrow>
     (status = 502 \<or> is_retryable_provider_status status) \<and> (is_last \<longrightarrow> failure \<noteq> None)"
  by (cases failure) auto

lemma failover_run_Cons:
  assumes "candidate_calls sv req c t1" "failover_run sv req cs n t2"
  shows "failover_run sv req (c # cs) (Suc n) (t1 @ t2)"
  using assms by (fastforce simp: candidate_calls_def failover_run_def)

lemma try_candidates_spec:
  assumes "try_candidates sv req stream journal caller_event route_ids cs failed slot w = (r, w')"
    and "cs \<noteq> [] \<or> slot \<noteq> None"
  shows "\<exists>n t. w_trace w' = w_trace w @ t \<and> failover_run sv req cs n t \<and>
    (case r of
       Inr res \<Rightarrow> (\<exists>attempts. failed_attempts res = failed @ attempts \<and> attempts_of cs n attempts)
         \<and> (case selected_route res of
              Some route \<Rightarrow> n < length cs \<and> route = fc_route_id (cs ! n)
            | None \<Rightarrow> n = length cs \<and> (\<exists>failure. res = all_failed route_ids (failed_attempts res) (Some failure)))
     | Inl _ \<Rightarrow> True)"
  using assms
proof (induction cs arbitrary: failed slot w)
  case Nil
  then show ?case
    by (intro exI [of _ 0] exI [of _ "[]"]) (auto simp: failover_run_def all_failed_def attempts_of_def)
next
  case (Cons c cs)
  obtain out w1 where tc: "try_candidate sv req stream journal caller_event (cs = []) failed c w = (out, w1)" by fastforce
  obtain t where t: "w_trace w1 = w_trace w @ t" "candidate_calls sv req c t" "outcome_ok (cs = []) failed c out"
    using try_candidate_spec [OF tc] by blast
  note run = Cons.prems(1) [unfolded try_candidates.simps tc prod.case]
  show ?case
  proof (cases out)
    case (Finish r')
    then have "r' = r" "w' = w1" using run by simp_all
    then show ?thesis
      using t Finish
      by (intro exI [of _ 0] exI [of _ t])
         (auto simp: failover_run_def candidate_calls_def attempts_of_def split: sum.splits)
  next
    case (Next status failure)
    note st = outcome_ok_Next [OF t(3) [unfolded Next]]
    have rest: "try_candidates sv req stream journal caller_event route_ids cs (failed @ [(fc_route_id c, status)])
        (note_failure slot failure) w1 = (r, w')"
      using run by (simp add: Next)
    have "cs \<noteq> [] \<or> note_failure slot failure \<noteq> None"
      using st by (auto simp: note_failure_def upgrade_err_def split: option.splits)
    from Cons.IH [OF rest this] obtain n t2 where n: "w_trace w' = w_trace w1 @ t2" "failover_run sv req cs n t2"
      "case r of
         Inr res \<Rightarrow> (\<exists>attempts. failed_attempts res = (failed @ [(fc_route_id c, status)]) @ attempts \<and> attempts_of cs n attempts)
           \<and> (case selected_route res of
                Some route \<Rightarrow> n < length cs \<and> route = fc_route_id (cs ! n)
              | None \<Rightarrow> n = length cs \<and> (\<exists>failure. res = all_failed route_ids (failed_attempts res) (Some failure)))
       | Inl _ \<Rightarrow> True"
      by blast
    have "attempts_of (c # cs) (Suc n) ((fc_route_id c, status) # attempts)" if "attempts_of cs n attempts" for attempts
      using that st by (auto simp: attempts_of_def)
    then show ?thesis
      using n t(1) failover_run_Cons [OF t(2) n(2)]
      by (intro exI [of _ "Suc n"] exI [of _ "t @ t2"]) (fastforce split: sum.splits option.splits)
  qed
qed

section \<open>Properties\<close>

text \<open>
  C7. Failover goes through the candidates in order and nowhere else: a result selects
  one candidate and reports a failed attempt for exactly the candidates before it, each
  with 502 or a status that permits failover; if none is selected every candidate was
  tried, and the error reported is one a candidate gave. Only the candidates up to the
  selected one were contacted, at most three times each, and every contact was behind the
  verification gate of its own route.
\<close>

theorem failover_in_order:
  assumes "forward_chat_completion_for_middleware sv req cs stream journal w = (Inr res, w')"
  shows "\<exists>n t. w_trace w' = w_trace w @ t \<and> failover_run sv req cs n t \<and> attempts_of cs n (failed_attempts res)
    \<and> (case selected_route res of
         Some route \<Rightarrow> n < length cs \<and> route = fc_route_id (cs ! n)
       | None \<Rightarrow> n = length cs \<and> (\<exists>failure. res = all_failed (map fc_route_id cs) (failed_attempts res) (Some failure)))"
proof -
  let ?w = "record_request (cr_endpoint_path req) (if stream then Streaming else Buffered) (cr_e2ee req \<noteq> None) w"
  obtain m where m: "w_trace ?w = w_trace w @ [m]" "\<not> is_Forward m" by (auto simp: metric_defs)
  have ne: "cs \<noteq> []" and run: "\<exists>ev. try_candidates sv req stream journal ev (map fc_route_id cs) cs [] None ?w = (Inr res, w')"
    using assms by (auto simp: forward_chat_completion_for_middleware_def Let_def split: if_splits)
  then obtain ev where "try_candidates sv req stream journal ev (map fc_route_id cs) cs [] None ?w = (Inr res, w')" by blast
  from try_candidates_spec [OF this] ne obtain n t where
    "w_trace w' = w_trace ?w @ t" "failover_run sv req cs n t" "attempts_of cs n (failed_attempts res)"
    "case selected_route res of
         Some route \<Rightarrow> n < length cs \<and> route = fc_route_id (cs ! n)
       | None \<Rightarrow> n = length cs \<and> (\<exists>failure. res = all_failed (map fc_route_id cs) (failed_attempts res) (Some failure))"
    by auto
  moreover from this(2) have "failover_run sv req cs n (m # t)" using m(2) by (cases m) (auto simp: failover_run_def)
  ultimately show ?thesis using m(1) by (intro exI [of _ n] exI [of _ "m # t"]) simp
qed

definition sample_failover_sv :: "(unit, unit, jsonl_store) service" where
  "sample_failover_sv = sample_sv\<lparr>sv_verify := None, sv_upstream := sample_backend\<lparr>
     be_prepare := \<lambda>r. if urq_target_route_id r = Some (lit ''a'') then Inl (Routing []) else Inr sample_prepared,
     be_forward_stream_verified_prepared := \<lambda>u _ _.
       (Inr \<lparr>ss_status_code = 404, ss_headers = [], ss_body = [], ss_served_instance_id = None\<rparr>, u)\<rparr>\<rparr>"

definition sample_candidates :: "forward_candidate list" where
  "sample_candidates = [\<lparr>fc_route_id = lit ''a'', fc_body = [1]\<rparr>, \<lparr>fc_route_id = lit ''b'', fc_body = [1]\<rparr>]"

lemma sample_failover:
  "\<exists>res w'. forward_chat_completion_for_middleware sample_failover_sv (sample_request\<lparr>cr_upstream_required := Some False\<rparr>)
     sample_candidates True \<lparr>rj_receipt_id = None, rj_draft = None\<rparr> sample_world = (Inr res, w')
     \<and> selected_route res = Some (lit ''b'') \<and> failed_attempts res = [(lit ''a'', 502)]"
proof -
  have p: "prepare_candidate sample_failover_sv req \<lparr>fc_route_id = lit ''a'', fc_body = b\<rparr> = Inl (Routing [])"
    "prepare_candidate sample_failover_sv req \<lparr>fc_route_id = lit ''b'', fc_body = b\<rparr> = Inr sample_prepared" for req b
    by (simp_all add: prepare_candidate_def sample_failover_sv_def)
  have sv: "sv_verify sample_failover_sv = None" "sv_serde sample_failover_sv = sample_serde"
    "be_forward_stream_verified_prepared (sv_upstream sample_failover_sv) =
       (\<lambda>u _ _. (Inr \<lparr>ss_status_code = 404, ss_headers = [], ss_body = [], ss_served_instance_id = None\<rparr>, u))"
    by (simp_all add: sample_failover_sv_def sample_sv_simps)
  have r: "candidate_required (sample_request\<lparr>cr_upstream_required := Some False\<rparr>) sample_prepared = Some False"
    by (simp add: candidate_required_def sample_prepared_def)
  have rec: "\<exists>w' e. recorded_upstream_event sample_failover_sv sample_prepared (Some False) None w = (Inr e, w')" for w
    by (simp add: recorded_upstream_event_def consult_verifier_def sv Let_def)
  have try1: "\<exists>w'. try_candidate sample_failover_sv (sample_request\<lparr>cr_upstream_required := Some False\<rparr>) True j None True failed
      \<lparr>fc_route_id = lit ''b'', fc_body = [1]\<rparr> w = (Finish (Inr (MiddlewareUpstreamError
        \<lparr>mu_upstream_status = 404, mu_upstream_headers = [], mu_upstream_body = [], mu_selected_route = lit ''b'', mu_failed_attempts = failed\<rparr>)), w')"
    for j failed w
  proof -
    obtain w' e where "recorded_upstream_event sample_failover_sv sample_prepared (Some False) None w = (Inr e, w')" using rec by blast
    then show ?thesis
      by (simp add: try_candidate_def p r Let_def forward_candidate_with_def forward_with_binding_reverify_def
          reverify_loop.simps call_forward_def sv answer_stream_def)
  qed
  let ?w = "record_request (cr_endpoint_path sample_request) Streaming False sample_world"
  obtain w' where "try_candidate sample_failover_sv (sample_request\<lparr>cr_upstream_required := Some False\<rparr>) True
      \<lparr>rj_receipt_id = None, rj_draft = None\<rparr> None True [(lit ''a'', 502)] \<lparr>fc_route_id = lit ''b'', fc_body = [1]\<rparr> ?w =
      (Finish (Inr (MiddlewareUpstreamError \<lparr>mu_upstream_status = 404, mu_upstream_headers = [], mu_upstream_body = [],
        mu_selected_route = lit ''b'', mu_failed_attempts = [(lit ''a'', 502)]\<rparr>)), w')"
    using try1 by blast
  moreover have "try_candidate sample_failover_sv (sample_request\<lparr>cr_upstream_required := Some False\<rparr>) True
      \<lparr>rj_receipt_id = None, rj_draft = None\<rparr> None False [] \<lparr>fc_route_id = lit ''a'', fc_body = [1]\<rparr> ?w =
      (Next 502 (Some (1, ServiceUpstream (Routing []))), ?w)"
    by (simp add: try_candidate_def p)
  ultimately show ?thesis
    by (simp add: forward_chat_completion_for_middleware_def sample_candidates_def Let_def) (simp add: sample_request_def)
qed

theorem failover_in_order_witness:
  "\<exists>res w' n. forward_chat_completion_for_middleware sample_failover_sv (sample_request\<lparr>cr_upstream_required := Some False\<rparr>)
     sample_candidates True \<lparr>rj_receipt_id = None, rj_draft = None\<rparr> sample_world = (Inr res, w')
     \<and> selected_route res = Some (lit ''b'') \<and> failed_attempts res = [(lit ''a'', 502)]
     \<and> attempts_of sample_candidates n (failed_attempts res) \<and> fc_route_id (sample_candidates ! n) = lit ''b''"
proof -
  obtain res w' where run: "forward_chat_completion_for_middleware sample_failover_sv
      (sample_request\<lparr>cr_upstream_required := Some False\<rparr>) sample_candidates True \<lparr>rj_receipt_id = None, rj_draft = None\<rparr>
      sample_world = (Inr res, w')" "selected_route res = Some (lit ''b'')" "failed_attempts res = [(lit ''a'', 502)]"
    using sample_failover by blast
  from failover_in_order [OF run(1)] run(2) obtain n where
    "attempts_of sample_candidates n (failed_attempts res)" "lit ''b'' = fc_route_id (sample_candidates ! n)" by auto
  with run show ?thesis by metis
qed

section \<open>What the middleware's receipt says\<close>

definition middleware_log ::
    "('v, 'u, 's) service \<Rightarrow> chat_request \<Rightarrow> forward_candidate \<Rightarrow> bytes \<Rightarrow> (str \<times> json) list" where
  "middleware_log sv req c forwarded =
     [(EVENT_REQUEST_RECEIVED, hash_fields sv (cr_received_body req)),
      (EVENT_MIDDLEWARE_FORWARDED, hash_fields sv (fc_body c)),
      (EVENT_ROUTE_SELECTED, Object [(lit ''target_route_id'', JString (fc_route_id c))]),
      (EVENT_REQUEST_FORWARDED, hash_fields sv forwarded)]
     @ (if cr_received_body req \<noteq> forwarded then [(EVENT_TRANSPARENCY_REQUEST_MODIFIED, Object [])] else [])"

lemma prefix_view:
  assumes "build_middleware_receipt_prefix sv req receipt_id chat_id served_at c forwarded event recorded = Inr b"
  shows "log_view (rb_events b) = middleware_log sv req c forwarded @ [(EVENT_UPSTREAM_VERIFIED, Object (cited_fields event recorded))]"
proof -
  note [dest!] = add_hash_view add_other_view append_upstream_verified_view
  show ?thesis
    using assms
    by (auto simp: build_middleware_receipt_prefix_def middleware_log_def bind_result_Inr Let_def new_builder_def log_view_def [of "[]"]
        split: if_splits)
qed

lemma middleware_log_no_verified: "EVENT_UPSTREAM_VERIFIED \<notin> fst ` set (middleware_log sv req c forwarded)"
  by (auto simp: middleware_log_def EVENT_UPSTREAM_VERIFIED_def EVENT_REQUEST_RECEIVED_def EVENT_MIDDLEWARE_FORWARDED_def
      EVENT_ROUTE_SELECTED_def EVENT_REQUEST_FORWARDED_def EVENT_TRANSPARENCY_REQUEST_MODIFIED_def)

definition received_fields :: "('v, 'u, 's) service \<Rightarrow> bytes \<Rightarrow> json" where
  "received_fields sv body = Object [(lit ''cleartext_hash'', JString (sha256_hex (sv_sha256 sv) (sv_hex_encode sv) body))]"

text \<open>The log of the draft of a committed buffered candidate.\<close>

definition draft_log ::
    "('v, 'u, 's) service \<Rightarrow> chat_request \<Rightarrow> forward_candidate \<Rightarrow> prepared_request \<Rightarrow> upstream_verified_event \<Rightarrow>
     (str \<times> session_claims) option \<Rightarrow> middleware_forwarded \<Rightarrow> (str \<times> json) list" where
  "draft_log sv req c p event recorded f =
     middleware_log sv req c (urq_body (pr_request p))
     @ [(EVENT_UPSTREAM_VERIFIED, verified_fields event recorded
           (accepted_response_model (sv_serde sv) (mf_upstream_status f) (mf_upstream_body f))),
        (EVENT_RESPONSE_RECEIVED, received_fields sv (mf_upstream_body f))]"

lemma commit_buffered_view:
  assumes "commit_buffered sv req failed c p event response w = (Inr (MiddlewareForwarded f), w')"
  shows "\<exists>recorded. log_view (rb_events (rd_builder (mf_receipt f))) = draft_log sv req c p event recorded f
    \<and> rd_provider_response_hash (mf_receipt f) = sha256_hex (sv_sha256 sv) (sv_hex_encode sv) (mf_upstream_body f)
    \<and> map_option fst recorded = mf_session_id f \<and> mf_selected_route f = fc_route_id c"
proof -
  let ?model = "accepted_response_model (sv_serde sv) (us_status_code response) (us_body response)"
  obtain receipt_id chat_id served_at sealed b b' where
    b: "build_middleware_receipt_prefix sv req receipt_id chat_id served_at c (urq_body (pr_request p)) event
        (cite_served_session sealed (us_served_instance_id response)) = Inr b" and
    b': "add_response_received_hash (set_upstream_verified_model_id b ?model)
        (sha256_hex (sv_sha256 sv) (sv_hex_encode sv) (us_body response)) = Inr b'" and
    f: "f = \<lparr>mf_receipt_id = receipt_id,
       mf_receipt = \<lparr>rd_receipt_id = receipt_id, rd_builder = b',
         rd_provider_response_hash = sha256_hex (sv_sha256 sv) (sv_hex_encode sv) (us_body response),
         rd_endpoint_path = cr_endpoint_path req, rd_request_mode = Buffered, rd_response_model = ?model\<rparr>,
       mf_upstream_status = us_status_code response, mf_upstream_body = us_body response, mf_upstream_headers = us_headers response,
       mf_selected_route = fc_route_id c, mf_failed_attempts = failed,
       mf_session_id = map_option fst (cite_served_session sealed (us_served_instance_id response))\<rparr>"
    using assms unfolding commit_buffered_def Let_def case_prod_beta'
    by (auto simp: and_then_Inr lift_simp map_err_Inr add_response_received_def Let_def bind_result_Inr)
  let ?recorded = "cite_served_session sealed (us_served_instance_id response)"
  have "log_view (rb_events b') = draft_log sv req c p event ?recorded f"
    using b' set_model_view [OF middleware_log_no_verified prefix_view [OF b], of ?model]
    by (auto simp: add_response_received_hash_def dest!: append_event_view)
       (simp add: draft_log_def verified_fields_def received_fields_def f)
  then show ?thesis by (intro exI [of _ ?recorded]) (simp add: f)
qed

lemma answered_candidate:
  fixes sv :: "('v, 'u, 's) service" and forward :: "('u, 'r) forwarder"
  assumes "forward_candidate_with sv p required supplied forward event k w = (Finish r, w')"
    and "gate_passed (effective_required sv required) event"
  shows "\<exists>event x w1. gate_passed (effective_required sv required) event \<and> k event x w1 = (Finish r, w')"
proof -
  obtain outcome event' w1 where loop: "reverify_loop sv p required supplied True forward 0 event w = ((outcome, event'), w1)"
    by (metis surj_pair)
  obtain t where t: "loop_calls sv p required supplied True 0 t outcome event'"
    using reverify_loop_spec [OF loop assms(2)] by auto
  note run = assms(1) [unfolded forward_candidate_with_def forward_with_binding_reverify_def loop prod.case]
  then obtain x where x: "outcome = Forwarded x" "k event' x w1 = (Finish r, w')" by (cases outcome) auto
  then have "gate_passed (effective_required sv required) event'" using t by (auto simp: loop_calls_def)
  with x(2) show ?thesis by blast
qed

lemma committed_candidate:
  assumes "try_candidate sv req False journal caller_event is_last failed c w = (Finish (Inr (MiddlewareForwarded f)), w')"
  shows "\<exists>p event response w1. prepare_candidate sv req c = Inr p
    \<and> gate_passed (effective_required sv (candidate_required req p)) event
    \<and> commit_buffered sv req failed c p event response w1 = (Inr (MiddlewareForwarded f), w')"
proof -
  obtain p where p: "prepare_candidate sv req c = Inr p"
    using assms by (cases "prepare_candidate sv req c") (auto simp: try_candidate_def)
  obtain r w1 where rec: "recorded_upstream_event sv p (candidate_required req p) caller_event w = (r, w1)" by fastforce
  note run = assms [unfolded try_candidate_def p sum.case Let_def rec prod.case if_False]
  obtain event where e: "r = Inr event"
    using run by (cases r; cases "projl r") auto
  have "gate_passed (effective_required sv (candidate_required req p)) event"
    using recorded_upstream_event_spec [OF rec] by (auto simp: e)
  from answered_candidate [OF run [unfolded e sum.case] this] obtain event x w1 where
    k: "gate_passed (effective_required sv (candidate_required req p)) event"
      "answer_buffered sv req is_last failed c p event x w1 = (Finish (Inr (MiddlewareForwarded f)), w')" by blast
  then have "commit_buffered sv req failed c p event x w1 = (Inr (MiddlewareForwarded f), w')"
    by (auto simp: answer_buffered_def Let_def split: if_splits prod.splits)
  with p k(1) show ?thesis by blast
qed

lemma forwarded_candidate:
  assumes "try_candidates sv req False journal caller_event ids cs failed slot w = (Inr (MiddlewareForwarded f), w')"
  shows "\<exists>c \<in> set cs. \<exists>p event response failed' w1. prepare_candidate sv req c = Inr p
    \<and> gate_passed (effective_required sv (candidate_required req p)) event
    \<and> commit_buffered sv req failed' c p event response w1 = (Inr (MiddlewareForwarded f), w')"
  using assms
proof (induction cs arbitrary: failed slot w)
  case (Cons c cs)
  obtain out w1 where tc: "try_candidate sv req False journal caller_event (cs = []) failed c w = (out, w1)" by fastforce
  note run = Cons.prems [unfolded try_candidates.simps tc prod.case]
  show ?case
  proof (cases out)
    case (Finish r)
    then have "out = Finish (Inr (MiddlewareForwarded f))" "w1 = w'" using run by simp_all
    from committed_candidate [OF tc [unfolded this]] show ?thesis by fastforce
  next
    case (Next status failure)
    from Cons.IH [OF run [unfolded Next outcome.case]] show ?thesis by fastforce
  qed
qed (simp add: all_failed_def)

lemma final_events_view:
  assumes "final_events sv draft cleartext wire b = Inr receipt"
  shows "log_view (rc_event_log receipt) = log_view (rb_events b)
    @ (if rd_provider_response_hash draft \<noteq> sha256_hex (sv_sha256 sv) (sv_hex_encode sv) cleartext \<or> wire \<noteq> cleartext
       then [(EVENT_TRANSPARENCY_RESPONSE_MODIFIED, Object [])] else [])
    @ [(EVENT_RESPONSE_RETURNED, returned_fields sv cleartext wire)]"
proof -
  note [dest!] = add_other_view finalize_event_log append_event_view
  show ?thesis
    using assms
    by (auto simp: final_events_def bind_result_Inr add_response_returned_def add_response_returned_hashes_def Let_def
        returned_fields_def split: if_splits)
qed

lemma final_chat_id_events [simp]: "rb_events (final_chat_id sj is_sse body b) = rb_events b"
  by (simp add: final_chat_id_def set_chat_id_def split: option.splits)

lemma final_wire_body_frame:
  assumes "final_wire_body sv encrypt body e2ee path is_sse w = (Inr wire, w')"
  shows "w_receipts w' = w_receipts w \<and> (e2ee = None \<longrightarrow> wire = body)"
  using assms
  by (auto simp: final_wire_body_def encrypt_e2ee_final_response_def lift_simp split: option.splits if_splits prod.splits sum.splits)

lemma finalize_middleware_receipt_Inr:
  assumes "finalize_middleware_receipt sv encrypt draft cleartext content_type requester e2ee w = (Inr fin, w')"
  obtains b now where "log_view (rb_events b) = log_view (rb_events (rd_builder draft))"
    "final_events sv draft cleartext (mr_wire_body fin) b = Inr (mr_receipt fin)"
    "e2ee = None \<Longrightarrow> mr_wire_body fin = cleartext"
    "w_receipts w' = put_receipt (w_receipts w) (mr_receipt fin) requester now
       (saturating_add now (cfg_receipt_ttl_seconds (sv_config sv)))"
proof -
  let ?sse = "is_sse_content_type content_type"
  let ?b = "final_chat_id (sv_serde sv) ?sse cleartext (rd_builder draft)"
  obtain wire w1 receipt where
    wire: "final_wire_body sv encrypt cleartext e2ee (rd_endpoint_path draft) ?sse w = (Inr wire, w1)" and
    ev: "final_events sv draft cleartext wire ?b = Inr receipt" and
    fin: "fin = \<lparr>mr_receipt = receipt, mr_wire_body = wire, mr_e2ee = e2ee_info e2ee\<rparr>" and
    w': "w' = record_receipt_issued (rd_endpoint_path draft) (rd_request_mode draft) (rd_response_model draft)
      (store_receipt sv receipt requester w1)"
    using assms unfolding finalize_middleware_receipt_def Let_def and_then_Inr lift_simp by (auto simp: map_err_Inr)
  show thesis
    by (rule that [of ?b "sv_clock sv (w_clock_reads w1)"])
       (use ev final_wire_body_frame [OF wire] in
         \<open>simp_all add: fin w' store_receipt_def now_secs_def Let_def metric_defs\<close>)
qed


lemma sample_prefix:
  assumes "uv_provider_claims event = None" "claims_extra claims = []"
  shows "\<exists>b. build_middleware_receipt_prefix sample_sv sample_request i cid t \<lparr>fc_route_id = lit ''b'', fc_body = [1]\<rparr> [1] event
    (Some (s, claims)) = Inr b \<and> rb_next_seq b = 5"
proof -
  have "reserved_key (Object (cited_fields event (Some (s, claims)))) = None"
    using plain_fields_verified(1) [OF assms] by (simp add: plain_fields_def)
  then have "append_upstream_verified b event (Some (s, claims)) =
      append_event b EVENT_UPSTREAM_VERIFIED (Object (cited_fields event (Some (s, claims))))"
    "reserved_key (Object (cited_fields event (Some (s, claims)))) = None" for b
    by (simp_all add: append_upstream_verified_def add_upstream_verified_with_session_def to_fields_def cited_fields_def Let_def)
  then show ?thesis
    by (simp add: build_middleware_receipt_prefix_def Let_def new_builder_def add_request_received_def add_middleware_forwarded_def
        add_route_selected_def add_request_forwarded_def add_body_hash_def append_event_def sample_request_def)
       (simp add: reserved_key_def)
qed

text \<open>A run of the sample service for the middleware: verified, committed, finished unchanged.\<close>

abbreviation sample_candidate :: forward_candidate where
  "sample_candidate \<equiv> \<lparr>fc_route_id = lit ''b'', fc_body = [1]\<rparr>"

lemma sample_prepare_candidate:
  "\<exists>p. prepare_candidate sample_sv sample_request sample_candidate = Inr p \<and> urq_body (pr_request p) = [1] \<and> pr_is_tee p = None"
  by (simp add: prepare_candidate_def sample_sv_def sample_backend_def plain_backend_def Let_def default_prepare_def
      request_model_id_def sample_serde_def unwrap_or_default_def)

definition finishable :: "receipt_builder \<Rightarrow> bool" where
  "finishable b \<longleftrightarrow> rb_next_seq b \<in> {6, 7} \<and> (\<forall>x \<in> set (log_view (rb_events b)). plain_fields (snd x))
     \<and> set required_events - {EVENT_RESPONSE_RETURNED} \<subseteq> fst ` set (log_view (rb_events b))"

lemma plain_fields_received [simp]: "plain_fields (received_fields sv b)"
  by (simp add: plain_fields_def received_fields_def reserved_key_def)

lemma plain_fields_route [simp]: "plain_fields (Object [(lit ''target_route_id'', JString r)])"
  by (simp add: plain_fields_def reserved_key_def)

lemma sample_commit:
  assumes st: "js_index (w_sessions w) = default_index" "js_next_seq (w_sessions w) = 0" and p: "urq_body (pr_request p) = [1]"
  shows "\<exists>f w'. commit_buffered sample_sv sample_request [] sample_candidate p (sample_event\<lparr>uv_required := True\<rparr>) sample_response w
      = (Inr (MiddlewareForwarded f), w') \<and> finishable (rd_builder (mf_receipt f))"
proof -
  let ?e = "sample_event\<lparr>uv_required := True\<rparr>"
  define w1 where "w1 = record_upstream_response (cr_endpoint_path sample_request) Buffered (us_status_code sample_response) None w"
  define w2 where "w2 = w1\<lparr>w_draws := Suc (w_draws w1), w_clock_reads := Suc (w_clock_reads w1)\<rparr>"
  have st2: "js_index (w_sessions w2) = default_index" "js_next_seq (w_sessions w2) = 0"
    using st by (simp_all add: w1_def w2_def metric_defs)
  obtain i w3 where s: "record_attested_upstream_session sample_sv ?e w2 =
      (Inr [\<lparr>sd_instance_key = None, sd_session_id = i, sd_claims = session_claims_for_event ?e\<rparr>], w3)"
    using sample_sealed [OF st2] by blast
  have e: "uv_provider_claims ?e = None" "claims_extra (session_claims_for_event ?e) = []"
    by (simp_all add: session_claims_for_event_def sample_event_def default_upstream_verified_event_def claim_mapper_def)
  let ?rec = "Some (i, session_claims_for_event ?e)"
  obtain b where b: "build_middleware_receipt_prefix sample_sv sample_request (lit ''rcpt-'' @ latin1 (sv_random sample_sv (w_draws w1)))
      (extract_chat_id sample_serde [2]) (of_nat (w_clock_reads w1)) sample_candidate [1] ?e ?rec = Inr b" "rb_next_seq b = 5"
    using sample_prefix [OF e] by blast
  define b1 where "b1 = set_upstream_verified_model_id b None"
  obtain b2 where b2: "append_event b1 EVENT_RESPONSE_RECEIVED (received_fields sample_sv [2]) = Inr b2" "rb_next_seq b2 = 6"
    using append_event_ok [of b1 "received_fields sample_sv [2]" EVENT_RESPONSE_RECEIVED] b(2)
    by (auto simp: b1_def set_upstream_verified_model_id_def Let_def received_fields_def reserved_key_def)
  have "log_view (rb_events b2) = middleware_log sample_sv sample_request sample_candidate [1]
      @ [(EVENT_UPSTREAM_VERIFIED, verified_fields ?e ?rec None), (EVENT_RESPONSE_RECEIVED, received_fields sample_sv [2])]"
    using append_event_view [OF b2(1)] set_model_view [OF middleware_log_no_verified prefix_view [OF b(1)], of None]
    by (simp add: b1_def verified_fields_def)
  then have fin: "finishable b2"
    using b2(2) plain_fields_verified(2) [OF e]
    by (auto simp: finishable_def middleware_log_def plain_fields_samples required_events_def sample_request_def)
  have resp: "us_body sample_response = [2]" "us_served_instance_id sample_response = None" by (simp_all add: sample_response_def)
  have cite: "cite_served_session [\<lparr>sd_instance_key = None, sd_session_id = i, sd_claims = c\<rparr>] None = Some (i, c)" for c
    by (simp add: cite_served_session_def)
  have add: "add_response_received (\<lambda>x. x) latin1 b1 [2] = Inr (sha256_hex (\<lambda>x. x) latin1 [2], b2)"
    using b2(1) by (simp add: add_response_received_def add_response_received_hash_def received_fields_def sample_sv_simps Let_def)
  show ?thesis
    by (simp add: commit_buffered_def Let_def sample_sv_simps resp sample_model w1_def [symmetric] generate_receipt_id_def now_secs_def
        w2_def [symmetric] and_then_def s cite p b(1) b1_def [symmetric] add fin)
qed

lemma sample_middleware:
  "\<exists>f w'. forward_chat_completion_for_middleware sample_sv sample_request [sample_candidate] False
       \<lparr>rj_receipt_id = None, rj_draft = None\<rparr> sample_world = (Inr (MiddlewareForwarded f), w')
     \<and> finishable (rd_builder (mf_receipt f))"
proof -
  obtain p where p: "prepare_candidate sample_sv sample_request sample_candidate = Inr p" "urq_body (pr_request p) = [1]" "pr_is_tee p = None"
    using sample_prepare_candidate by blast
  have none: "cr_upstream_verification_event sample_request = None" "cr_upstream_required sample_request = None"
    by (simp_all add: sample_request_def)
  have req: "candidate_required sample_request p = None" by (simp add: candidate_required_def p(3) none(2))
  have eff: "effective_required sample_sv None = True"
    using sample_required(2) by (simp add: request_required_def upstream_required_for_prepared_def sample_prepared_def none)
  let ?w = "record_request (cr_endpoint_path sample_request) Buffered (cr_e2ee sample_request \<noteq> None) sample_world"
  obtain w1 where rec: "recorded_upstream_event sample_sv p None None ?w = (Inr (sample_event\<lparr>uv_required := True\<rparr>), w1)"
    using sample_recorded [OF eff] by blast
  have "same_stores ?w w1" using recorded_upstream_event_spec [OF rec] by auto
  then have st: "js_index (w_sessions w1) = default_index" "js_next_seq (w_sessions w1) = 0"
    by (simp_all add: same_stores_def sample_world_def metric_defs)
  define w2 where "w2 = note_call (Forward p (sample_event\<lparr>uv_required := True\<rparr>)) (w1\<lparr>w_upstream := ()\<rparr>)"
  have st2: "js_index (w_sessions w2) = default_index" "js_next_seq (w_sessions w2) = 0"
    using st by (simp_all add: w2_def note_call_def)
  obtain f w' where c: "commit_buffered sample_sv sample_request [] sample_candidate p (sample_event\<lparr>uv_required := True\<rparr>) sample_response w2
      = (Inr (MiddlewareForwarded f), w')" "finishable (rd_builder (mf_receipt f))"
    using sample_commit [OF st2 p(2)] by blast
  have "try_candidate sample_sv sample_request False \<lparr>rj_receipt_id = None, rj_draft = None\<rparr> None True [] sample_candidate ?w =
      (Finish (Inr (MiddlewareForwarded f)), w')"
    by (simp add: try_candidate_def p(1) req rec Let_def forward_candidate_with_def forward_with_binding_reverify_def
        reverify_loop.simps call_forward_def sample_sv_simps answer_buffered_def w2_def [symmetric] c(1) del: not_None_eq)
  then show ?thesis
    using c(2) by (simp add: forward_chat_completion_for_middleware_def none Let_def del: not_None_eq)
qed

lemma modified_event:
  "finishable b \<Longrightarrow> \<exists>b'. add_transparency_event b ResponseModified = Inr b' \<and> rb_next_seq b' \<noteq> 0
     \<and> log_view (rb_events b') = log_view (rb_events b) @ [(EVENT_TRANSPARENCY_RESPONSE_MODIFIED, Object [])]"
  by (auto simp: finishable_def add_transparency_event_def append_event_def log_view_def reserved_key_def)

lemma finishable_final:
  assumes "finishable b"
  shows "\<exists>r. final_events sample_sv draft cleartext wire b = Inr r"
proof -
  have fin: "\<exists>r. bind_result (add_response_returned (sv_sha256 sample_sv) (sv_hex_encode sample_sv) b cleartext wire) (\<lambda>(_, builder).
      finalize (sv_hex_encode sample_sv) (sv_keys sample_sv) (svc_default_receipt_key_id (sv_identity sample_sv)) builder) = Inr r"
    if b: "rb_next_seq b \<noteq> 0" "\<forall>x \<in> set (log_view (rb_events b)). plain_fields (snd x)"
      "set required_events - {EVENT_RESPONSE_RETURNED} \<subseteq> fst ` set (log_view (rb_events b))" for b
  proof -
    obtain b' where b': "append_event b EVENT_RESPONSE_RETURNED (returned_fields sample_sv cleartext wire) = Inr b'"
      using append_event_ok plain_fields_samples(2) b by (meson plain_fields_def)
    have "\<exists>r. finalize latin1 sample_key_provider (lit ''k'') b' = Inr r"
      using b plain_fields_samples
      by (intro finalize_defined) (auto simp: append_event_view [OF b'] required_events_def)
    then show ?thesis
      using b' by (simp add: add_response_returned_def add_response_returned_hashes_def returned_fields_def Let_def sample_sv_simps)
  qed
  show ?thesis
  proof (cases "rd_provider_response_hash draft \<noteq> sha256_hex (sv_sha256 sample_sv) (sv_hex_encode sample_sv) cleartext \<or> wire \<noteq> cleartext")
    case True
    obtain b' where b': "add_transparency_event b ResponseModified = Inr b'" "rb_next_seq b' \<noteq> 0"
      "log_view (rb_events b') = log_view (rb_events b) @ [(EVENT_TRANSPARENCY_RESPONSE_MODIFIED, Object [])]"
      using modified_event [OF assms] by blast
    have "plain_fields (Object [])" by (simp add: plain_fields_def reserved_key_def)
    then show ?thesis using fin [OF b'(2)] b' True assms by (auto simp: final_events_def finishable_def)
  next
    case False
    then show ?thesis using fin [of b] assms by (auto simp: final_events_def finishable_def)
  qed
qed


end
