(* ===== verification/E2ee_Suites.thy ===== *)
theory E2ee_Suites
  imports Receipt Strings
begin

unbundle bit_operations_syntax

text \<open>
  The field encryption of \<open>src/aci/e2ee.rs\<close>: the two cipher suites of the protocol and the
  two inherited ones, as key agreement with a fresh key, key derivation and authenticated
  encryption, framed as ephemeral key, nonce and ciphertext in hexadecimal.

  The curves, HKDF, AES-GCM and hexadecimal text are libraries, here the record
  \<open>crypto_lib\<close>; \<open>lawful\<close> states what their documentation promises. The randomness of an
  encryption (ephemeral secret and nonce) is an argument. The text of a \<open>Crypto\<close> error is
  left out: every caller discards it.
\<close>

section \<open>Names and lengths\<close>

definition E2EE_VERSION_V2 :: str where "E2EE_VERSION_V2 = lit ''2''"
definition E2EE_VERSION_V1 :: str where "E2EE_VERSION_V1 = lit ''1''"
definition E2EE_ALGO_X25519_AESGCM :: str where "E2EE_ALGO_X25519_AESGCM = lit ''x25519-aes-256-gcm-hkdf-sha256''"
definition E2EE_ALGO_SECP256K1_AESGCM :: str where "E2EE_ALGO_SECP256K1_AESGCM = lit ''secp256k1-aes-256-gcm-hkdf-sha256''"
definition E2EE_ALGO_LEGACY_ECDSA :: str where "E2EE_ALGO_LEGACY_ECDSA = lit ''ecdsa''"
definition E2EE_ALGO_LEGACY_ED25519 :: str where "E2EE_ALGO_LEGACY_ED25519 = lit ''ed25519''"

lemmas algo_defs = E2EE_ALGO_X25519_AESGCM_def E2EE_ALGO_SECP256K1_AESGCM_def E2EE_ALGO_LEGACY_ECDSA_def E2EE_ALGO_LEGACY_ED25519_def

definition SECP256K1_HKDF_INFO :: bytes where "SECP256K1_HKDF_INFO = as_bytes (lit ''aci.e2ee.v2.secp256k1'')"
definition X25519_HKDF_INFO :: bytes where "X25519_HKDF_INFO = as_bytes (lit ''aci.e2ee.v2.x25519'')"
definition LEGACY_ECDSA_HKDF_INFO :: bytes where "LEGACY_ECDSA_HKDF_INFO = as_bytes (lit ''ecdsa_encryption'')"
definition LEGACY_ED25519_HKDF_INFO :: bytes where "LEGACY_ED25519_HKDF_INFO = as_bytes (lit ''ed25519_encryption'')"

definition PUBLIC_KEY_LEN :: nat where "PUBLIC_KEY_LEN = 65"
definition X25519_PUBLIC_KEY_LEN :: nat where "X25519_PUBLIC_KEY_LEN = 32"
definition NONCE_LEN :: nat where "NONCE_LEN = 12"
definition TAG_LEN :: nat where "TAG_LEN = 16"

lemmas length_defs = PUBLIC_KEY_LEN_def X25519_PUBLIC_KEY_LEN_def NONCE_LEN_def TAG_LEN_def

section \<open>Libraries\<close>

record crypto_lib =
  hex_encode :: "bytes \<Rightarrow> str"
  hex_decode :: "str \<Rightarrow> bytes option"
  sec1_valid :: "bytes \<Rightarrow> bool"
  secp_public :: "bytes \<Rightarrow> bytes"
  secp_diffie_hellman :: "bytes \<Rightarrow> bytes \<Rightarrow> bytes"
  x25519_public :: "bytes \<Rightarrow> bytes"
  x25519_diffie_hellman :: "bytes \<Rightarrow> bytes \<Rightarrow> bytes"
  ed25519_public :: "bytes \<Rightarrow> bytes"
  edwards_to_montgomery :: "bytes \<Rightarrow> bytes option"
  sha512 :: "bytes \<Rightarrow> bytes"
  hkdf_expand :: "bytes \<Rightarrow> bytes \<Rightarrow> bytes"
  gcm_encrypt :: "bytes \<Rightarrow> bytes \<Rightarrow> bytes \<Rightarrow> bytes \<Rightarrow> bytes option"
  gcm_decrypt :: "bytes \<Rightarrow> bytes \<Rightarrow> bytes \<Rightarrow> bytes \<Rightarrow> bytes option"

abbreviation crypto_error :: key_error where
  "crypto_error \<equiv> Crypto []"

definition strip_0x :: "str \<Rightarrow> str" where
  "strip_0x value = (case strip_prefix (lit ''0x'') value of Some r \<Rightarrow> r | None \<Rightarrow> value)"

section \<open>Public keys\<close>

definition sec1_point :: "bytes \<Rightarrow> bytes option" where
  "sec1_point bytes =
     (case bytes of
        b # rest \<Rightarrow>
          if b = 4 \<and> length rest = 64 then Some (4 # rest)
          else if length bytes = 64 then Some (4 # bytes) else None
      | [] \<Rightarrow> None)"

definition normalize_secp256k1_public_key_hex :: "crypto_lib \<Rightarrow> str \<Rightarrow> key_error + str" where
  "normalize_secp256k1_public_key_hex L value =
     bind_result (ok_or crypto_error (hex_decode L (strip_0x value))) (\<lambda>bytes.
     bind_result (ok_or crypto_error (sec1_point bytes)) (\<lambda>encoded.
       if sec1_valid L encoded then Inr (hex_encode L encoded) else Inl crypto_error))"

definition public_key_from_secret :: "crypto_lib \<Rightarrow> bytes \<Rightarrow> str" where
  "public_key_from_secret L secret = hex_encode L (secp_public L secret)"

definition legacy_ecdsa_public_key_from_secret :: "crypto_lib \<Rightarrow> bytes \<Rightarrow> str" where
  "legacy_ecdsa_public_key_from_secret L secret = hex_encode L (tl (secp_public L secret))"

definition ed25519_public_key_hex :: "crypto_lib \<Rightarrow> bytes \<Rightarrow> str" where
  "ed25519_public_key_hex L secret = hex_encode L (ed25519_public L secret)"

definition is_aci_e2ee_suite :: "str \<Rightarrow> bool" where
  "is_aci_e2ee_suite algo \<longleftrightarrow> algo = E2EE_ALGO_X25519_AESGCM \<or> algo = E2EE_ALGO_SECP256K1_AESGCM"

definition normalize_x25519_public_key_hex :: "crypto_lib \<Rightarrow> str \<Rightarrow> key_error + str" where
  "normalize_x25519_public_key_hex L value =
     bind_result (ok_or crypto_error (hex_decode L (strip_0x value))) (\<lambda>bytes.
       if length bytes = X25519_PUBLIC_KEY_LEN then Inr (hex_encode L bytes) else Inl crypto_error)"

definition normalize_aci_e2ee_public_key_hex :: "crypto_lib \<Rightarrow> str \<Rightarrow> str \<Rightarrow> key_error + str" where
  "normalize_aci_e2ee_public_key_hex L algo value =
     (if algo = E2EE_ALGO_X25519_AESGCM then normalize_x25519_public_key_hex L value
      else if algo = E2EE_ALGO_SECP256K1_AESGCM then normalize_secp256k1_public_key_hex L value
      else Inl (UnsupportedAlgo algo))"

definition x25519_public_key_hex :: "crypto_lib \<Rightarrow> bytes \<Rightarrow> str" where
  "x25519_public_key_hex L secret = hex_encode L (x25519_public L secret)"

definition x25519_secret_key_from_bytes :: "bytes \<Rightarrow> key_error + bytes" where
  "x25519_secret_key_from_bytes bytes = (if length bytes = 32 then Inr bytes else Inl crypto_error)"

definition public_key_from_hex :: "crypto_lib \<Rightarrow> str \<Rightarrow> key_error + bytes" where
  "public_key_from_hex L value =
     bind_result (normalize_secp256k1_public_key_hex L value) (\<lambda>normalized.
     bind_result (ok_or crypto_error (hex_decode L normalized)) (\<lambda>bytes.
       if sec1_valid L bytes then Inr bytes else Inl crypto_error))"

text \<open>The decoding of a key just normalised cannot fail; the source asserts it.\<close>

definition x25519_public_key_from_hex :: "crypto_lib \<Rightarrow> str \<Rightarrow> key_error + bytes" where
  "x25519_public_key_from_hex L value =
     bind_result (normalize_x25519_public_key_hex L value) (\<lambda>normalized. ok_or crypto_error (hex_decode L normalized))"

definition ed25519_public_to_x25519_public_key :: "crypto_lib \<Rightarrow> str \<Rightarrow> key_error + bytes" where
  "ed25519_public_to_x25519_public_key L value =
     bind_result (ok_or crypto_error (hex_decode L (strip_0x value))) (\<lambda>bytes.
       if length bytes = 32 then ok_or crypto_error (edwards_to_montgomery L bytes) else Inl crypto_error)"

definition clamp_scalar :: "bytes \<Rightarrow> bytes" where
  "clamp_scalar scalar =
     (let scalar = scalar[0 := scalar ! 0 AND 248];
          scalar = scalar[31 := scalar ! 31 AND 127]
      in scalar[31 := scalar ! 31 OR 64])"

definition ed25519_private_to_x25519_private_key :: "crypto_lib \<Rightarrow> bytes \<Rightarrow> bytes" where
  "ed25519_private_to_x25519_private_key L secret = clamp_scalar (take 32 (sha512 L secret))"

section \<open>Ciphers\<close>

definition cipher_from_shared_secret :: "crypto_lib \<Rightarrow> bytes \<Rightarrow> bytes" where
  "cipher_from_shared_secret L shared = hkdf_expand L SECP256K1_HKDF_INFO shared"

definition x25519_cipher_from_shared_secret :: "crypto_lib \<Rightarrow> bytes \<Rightarrow> bytes" where
  "x25519_cipher_from_shared_secret L shared = hkdf_expand L X25519_HKDF_INFO shared"

definition legacy_cipher_from_shared_secret :: "crypto_lib \<Rightarrow> bytes \<Rightarrow> str \<Rightarrow> key_error + bytes" where
  "legacy_cipher_from_shared_secret L shared signing_algo =
     (if signing_algo = E2EE_ALGO_LEGACY_ECDSA then Inr (hkdf_expand L LEGACY_ECDSA_HKDF_INFO shared)
      else if signing_algo = E2EE_ALGO_LEGACY_ED25519 then Inr (hkdf_expand L LEGACY_ED25519_HKDF_INFO shared)
      else Inl (UnsupportedAlgo signing_algo))"

text \<open>The frame of a ciphertext, written and split.\<close>

definition framed :: "crypto_lib \<Rightarrow> bytes \<Rightarrow> bytes \<Rightarrow> bytes \<Rightarrow> str" where
  "framed L ephemeral_public nonce ciphertext = hex_encode L (ephemeral_public @ nonce @ ciphertext)"

definition unframed :: "crypto_lib \<Rightarrow> nat \<Rightarrow> str \<Rightarrow> key_error + (bytes \<times> bytes \<times> bytes)" where
  "unframed L key_len ciphertext_hex =
     bind_result (ok_or crypto_error (hex_decode L (strip_0x ciphertext_hex))) (\<lambda>blob.
       if length blob < key_len + NONCE_LEN + TAG_LEN then Inl crypto_error
       else Inr (take key_len blob, take NONCE_LEN (drop key_len blob), drop (key_len + NONCE_LEN) blob))"

section \<open>Encryption and decryption\<close>

definition encrypt_x25519_for_public_key ::
    "crypto_lib \<Rightarrow> bytes \<Rightarrow> bytes \<Rightarrow> str \<Rightarrow> bytes \<Rightarrow> bytes \<Rightarrow> key_error + str" where
  "encrypt_x25519_for_public_key L ephemeral nonce recipient_public_key_hex plaintext aad =
     bind_result (x25519_public_key_from_hex L recipient_public_key_hex) (\<lambda>recipient.
       let shared = x25519_diffie_hellman L ephemeral recipient;
           cipher = x25519_cipher_from_shared_secret L shared
       in bind_result (ok_or crypto_error (gcm_encrypt L cipher nonce plaintext aad)) (\<lambda>ciphertext.
            Inr (framed L (x25519_public L ephemeral) nonce ciphertext)))"

definition decrypt_x25519_with_secret_key :: "crypto_lib \<Rightarrow> bytes \<Rightarrow> str \<Rightarrow> bytes \<Rightarrow> key_error + bytes" where
  "decrypt_x25519_with_secret_key L recipient_secret ciphertext_hex aad =
     bind_result (unframed L X25519_PUBLIC_KEY_LEN ciphertext_hex) (\<lambda>(eph, nonce, ciphertext).
       let shared = x25519_diffie_hellman L recipient_secret eph;
           cipher = x25519_cipher_from_shared_secret L shared
       in ok_or crypto_error (gcm_decrypt L cipher nonce ciphertext aad))"

definition encrypt_for_public_key ::
    "crypto_lib \<Rightarrow> bytes \<Rightarrow> bytes \<Rightarrow> str \<Rightarrow> bytes \<Rightarrow> bytes \<Rightarrow> key_error + str" where
  "encrypt_for_public_key L ephemeral nonce recipient_public_key_hex plaintext aad =
     bind_result (public_key_from_hex L recipient_public_key_hex) (\<lambda>recipient.
       let shared = secp_diffie_hellman L ephemeral recipient;
           cipher = cipher_from_shared_secret L shared
       in bind_result (ok_or crypto_error (gcm_encrypt L cipher nonce plaintext aad)) (\<lambda>ciphertext.
            Inr (framed L (secp_public L ephemeral) nonce ciphertext)))"

definition decrypt_with_secret_key :: "crypto_lib \<Rightarrow> bytes \<Rightarrow> str \<Rightarrow> bytes \<Rightarrow> key_error + bytes" where
  "decrypt_with_secret_key L recipient_secret ciphertext_hex aad =
     bind_result (unframed L PUBLIC_KEY_LEN ciphertext_hex) (\<lambda>(eph, nonce, ciphertext).
       if \<not> sec1_valid L eph then Inl crypto_error
       else
         let shared = secp_diffie_hellman L recipient_secret eph;
             cipher = cipher_from_shared_secret L shared
         in ok_or crypto_error (gcm_decrypt L cipher nonce ciphertext aad))"

definition encrypt_aci_e2ee_for_public_key ::
    "crypto_lib \<Rightarrow> bytes \<Rightarrow> bytes \<Rightarrow> str \<Rightarrow> str \<Rightarrow> bytes \<Rightarrow> bytes \<Rightarrow> key_error + str" where
  "encrypt_aci_e2ee_for_public_key L ephemeral nonce algo recipient_public_key_hex plaintext aad =
     (if algo = E2EE_ALGO_X25519_AESGCM then encrypt_x25519_for_public_key L ephemeral nonce recipient_public_key_hex plaintext aad
      else if algo = E2EE_ALGO_SECP256K1_AESGCM then encrypt_for_public_key L ephemeral nonce recipient_public_key_hex plaintext aad
      else Inl (UnsupportedAlgo algo))"

definition aad_or_empty :: "bytes option \<Rightarrow> bytes" where
  "aad_or_empty aad = (case aad of Some a \<Rightarrow> a | None \<Rightarrow> [])"

definition encrypt_legacy_for_public_key ::
    "crypto_lib \<Rightarrow> bytes \<Rightarrow> bytes \<Rightarrow> str \<Rightarrow> str \<Rightarrow> bytes \<Rightarrow> bytes option \<Rightarrow> key_error + str" where
  "encrypt_legacy_for_public_key L ephemeral nonce signing_algo recipient_public_key_hex plaintext aad =
     (if signing_algo = E2EE_ALGO_LEGACY_ECDSA then
        bind_result (public_key_from_hex L recipient_public_key_hex) (\<lambda>recipient.
          let shared = secp_diffie_hellman L ephemeral recipient
          in bind_result (legacy_cipher_from_shared_secret L shared E2EE_ALGO_LEGACY_ECDSA) (\<lambda>cipher.
             bind_result (ok_or crypto_error (gcm_encrypt L cipher nonce plaintext (aad_or_empty aad))) (\<lambda>ciphertext.
               Inr (framed L (secp_public L ephemeral) nonce ciphertext))))
      else if signing_algo = E2EE_ALGO_LEGACY_ED25519 then
        bind_result (ed25519_public_to_x25519_public_key L recipient_public_key_hex) (\<lambda>recipient.
          let shared = x25519_diffie_hellman L ephemeral recipient
          in bind_result (legacy_cipher_from_shared_secret L shared E2EE_ALGO_LEGACY_ED25519) (\<lambda>cipher.
             bind_result (ok_or crypto_error (gcm_encrypt L cipher nonce plaintext (aad_or_empty aad))) (\<lambda>ciphertext.
               Inr (framed L (x25519_public L ephemeral) nonce ciphertext))))
      else Inl (UnsupportedAlgo signing_algo))"

definition decrypt_legacy_ecdsa_with_secret_key :: "crypto_lib \<Rightarrow> bytes \<Rightarrow> str \<Rightarrow> bytes option \<Rightarrow> key_error + bytes" where
  "decrypt_legacy_ecdsa_with_secret_key L recipient_secret ciphertext_hex aad =
     bind_result (unframed L PUBLIC_KEY_LEN ciphertext_hex) (\<lambda>(eph, nonce, ciphertext).
       if \<not> sec1_valid L eph then Inl crypto_error
       else
         let shared = secp_diffie_hellman L recipient_secret eph
         in bind_result (legacy_cipher_from_shared_secret L shared E2EE_ALGO_LEGACY_ECDSA) (\<lambda>cipher.
              ok_or crypto_error (gcm_decrypt L cipher nonce ciphertext (aad_or_empty aad))))"

definition decrypt_legacy_ed25519_with_secret_key :: "crypto_lib \<Rightarrow> bytes \<Rightarrow> str \<Rightarrow> bytes option \<Rightarrow> key_error + bytes" where
  "decrypt_legacy_ed25519_with_secret_key L recipient_secret ciphertext_hex aad =
     bind_result (unframed L X25519_PUBLIC_KEY_LEN ciphertext_hex) (\<lambda>(eph, nonce, ciphertext).
       let secret = ed25519_private_to_x25519_private_key L recipient_secret;
           shared = x25519_diffie_hellman L secret eph
       in bind_result (legacy_cipher_from_shared_secret L shared E2EE_ALGO_LEGACY_ED25519) (\<lambda>cipher.
            ok_or crypto_error (gcm_decrypt L cipher nonce ciphertext (aad_or_empty aad))))"

section \<open>The key provider's operations\<close>

text \<open>The secrets of \<open>DstackAciProvider\<close> that decryption uses.\<close>

record e2ee_secrets =
  es_e2ee_key_id :: str
  es_e2ee :: bytes
  es_x25519_e2ee_key_id :: str
  es_x25519_e2ee :: bytes
  es_legacy_ed25519_key_id :: str
  es_legacy_ed25519 :: bytes

definition provider_e2ee_keys :: "crypto_lib \<Rightarrow> e2ee_secrets \<Rightarrow> keyed_public_key list" where
  "provider_e2ee_keys L s =
     [\<lparr>kpk_key_id = es_e2ee_key_id s, kpk_algo = E2EE_ALGO_SECP256K1_AESGCM, kpk_public_key_hex = public_key_from_secret L (es_e2ee s)\<rparr>,
      \<lparr>kpk_key_id = es_x25519_e2ee_key_id s, kpk_algo = E2EE_ALGO_X25519_AESGCM, kpk_public_key_hex = x25519_public_key_hex L (es_x25519_e2ee s)\<rparr>,
      \<lparr>kpk_key_id = es_e2ee_key_id s @ lit ''-legacy-ecdsa'', kpk_algo = E2EE_ALGO_LEGACY_ECDSA,
        kpk_public_key_hex = legacy_ecdsa_public_key_from_secret L (es_e2ee s)\<rparr>,
      \<lparr>kpk_key_id = es_legacy_ed25519_key_id s, kpk_algo = E2EE_ALGO_LEGACY_ED25519,
        kpk_public_key_hex = ed25519_public_key_hex L (es_legacy_ed25519 s)\<rparr>]"

definition decrypt_e2ee :: "crypto_lib \<Rightarrow> e2ee_secrets \<Rightarrow> str \<Rightarrow> str \<Rightarrow> bytes \<Rightarrow> key_error + bytes" where
  "decrypt_e2ee L s key_id ciphertext_hex aad =
     (if key_id = es_e2ee_key_id s then decrypt_with_secret_key L (es_e2ee s) ciphertext_hex aad
      else if key_id = es_x25519_e2ee_key_id s then decrypt_x25519_with_secret_key L (es_x25519_e2ee s) ciphertext_hex aad
      else Inl (UnknownE2eeKeyId key_id))"

definition decrypt_legacy_e2ee :: "crypto_lib \<Rightarrow> e2ee_secrets \<Rightarrow> str \<Rightarrow> str \<Rightarrow> bytes option \<Rightarrow> key_error + bytes" where
  "decrypt_legacy_e2ee L s signing_algo ciphertext_hex aad =
     (if signing_algo = E2EE_ALGO_LEGACY_ECDSA then decrypt_legacy_ecdsa_with_secret_key L (es_e2ee s) ciphertext_hex aad
      else if signing_algo = E2EE_ALGO_LEGACY_ED25519
      then decrypt_legacy_ed25519_with_secret_key L (es_legacy_ed25519 s) ciphertext_hex aad
      else Inl (UnsupportedAlgo signing_algo))"

section \<open>What the libraries promise\<close>

definition lawful :: "crypto_lib \<Rightarrow> bool" where
  "lawful L \<longleftrightarrow>
     (\<forall>b. hex_decode L (hex_encode L b) = Some b) \<and> (\<forall>b. strip_0x (hex_encode L b) = hex_encode L b)
     \<and> (\<forall>s. length (x25519_public L s) = 32) \<and> (\<forall>s. \<exists>r. secp_public L s = 4 # r \<and> length r = 64)
     \<and> (\<forall>s. sec1_valid L (secp_public L s))
     \<and> (\<forall>a b. x25519_diffie_hellman L a (x25519_public L b) = x25519_diffie_hellman L b (x25519_public L a))
     \<and> (\<forall>a b. secp_diffie_hellman L a (secp_public L b) = secp_diffie_hellman L b (secp_public L a))
     \<and> (\<forall>s. length (ed25519_public L s) = 32
            \<and> edwards_to_montgomery L (ed25519_public L s) = Some (x25519_public L (ed25519_private_to_x25519_private_key L s)))
     \<and> (\<forall>k n m a c. gcm_encrypt L k n m a = Some c \<longrightarrow> length c = length m + TAG_LEN \<and> gcm_decrypt L k n c a = Some m)"

lemma lawfulD:
  assumes "lawful L"
  shows "hex_decode L (hex_encode L b) = Some b" "strip_0x (hex_encode L b) = hex_encode L b"
    "length (x25519_public L s) = 32" "\<exists>r. secp_public L s = 4 # r \<and> length r = 64" "sec1_valid L (secp_public L s)"
    "x25519_diffie_hellman L a (x25519_public L c) = x25519_diffie_hellman L c (x25519_public L a)"
    "secp_diffie_hellman L a (secp_public L c) = secp_diffie_hellman L c (secp_public L a)"
    "length (ed25519_public L s) = 32"
    "edwards_to_montgomery L (ed25519_public L s) = Some (x25519_public L (ed25519_private_to_x25519_private_key L s))"
    "gcm_encrypt L k n m d = Some x \<Longrightarrow> length x = length m + TAG_LEN" "gcm_encrypt L k n m d = Some x \<Longrightarrow> gcm_decrypt L k n x d = Some m"
  using assms unfolding lawful_def by blast+

lemma unframed_framed:
  assumes "lawful L" "length eph = key_len" "length nonce = NONCE_LEN" "TAG_LEN \<le> length ciphertext"
  shows "unframed L key_len (framed L eph nonce ciphertext) = Inr (eph, nonce, ciphertext)"
  using assms by (simp add: unframed_def framed_def lawfulD)

lemma x25519_own_key:
  "lawful L \<Longrightarrow> x25519_public_key_from_hex L (x25519_public_key_hex L s) = Inr (x25519_public L s)"
  by (simp add: x25519_public_key_from_hex_def normalize_x25519_public_key_hex_def x25519_public_key_hex_def lawfulD X25519_PUBLIC_KEY_LEN_def)

lemma sec1_point_uncompressed: "length r = 64 \<Longrightarrow> sec1_point (4 # r) = Some (4 # r)" "length r = 64 \<Longrightarrow> sec1_point r = Some (4 # r)"
  by (auto simp: sec1_point_def split: list.splits)

lemma secp_length: "lawful L \<Longrightarrow> length (secp_public L s) = PUBLIC_KEY_LEN"
  using lawfulD(4) [of L s] by (auto simp: PUBLIC_KEY_LEN_def)

lemma secp_own_key:
  assumes "lawful L"
  shows "public_key_from_hex L (public_key_from_secret L s) = Inr (secp_public L s)"
    "public_key_from_hex L (legacy_ecdsa_public_key_from_secret L s) = Inr (secp_public L s)"
proof -
  obtain r where r: "secp_public L s = 4 # r" "length r = 64" using lawfulD(4) [OF assms] by blast
  have v: "sec1_valid L (4 # r)" using lawfulD(5) [OF assms, of s] by (simp add: r)
  show "public_key_from_hex L (public_key_from_secret L s) = Inr (secp_public L s)"
    "public_key_from_hex L (legacy_ecdsa_public_key_from_secret L s) = Inr (secp_public L s)"
    using r v
    by (simp_all add: public_key_from_hex_def normalize_secp256k1_public_key_hex_def public_key_from_secret_def
        legacy_ecdsa_public_key_from_secret_def lawfulD(1,2) [OF assms] sec1_point_uncompressed)
qed

lemma ed25519_own_key:
  "lawful L \<Longrightarrow> ed25519_public_to_x25519_public_key L (ed25519_public_key_hex L s) =
     Inr (x25519_public L (ed25519_private_to_x25519_private_key L s))"
  by (simp add: ed25519_public_to_x25519_public_key_def ed25519_public_key_hex_def lawfulD)

lemma x25519_roundtrip:
  assumes "lawful L" "length nonce = NONCE_LEN"
    and "encrypt_x25519_for_public_key L eph nonce (x25519_public_key_hex L s) m aad = Inr ct"
  shows "decrypt_x25519_with_secret_key L s ct aad = Inr m"
proof -
  let ?k = "x25519_cipher_from_shared_secret L (x25519_diffie_hellman L eph (x25519_public L s))"
  obtain c where c: "gcm_encrypt L ?k nonce m aad = Some c" "ct = framed L (x25519_public L eph) nonce c"
    using assms(3) by (auto simp: encrypt_x25519_for_public_key_def x25519_own_key [OF assms(1)] Let_def bind_result_Inr)
  have u: "unframed L X25519_PUBLIC_KEY_LEN ct = Inr (x25519_public L eph, nonce, c)"
    unfolding c(2) using lawfulD(3,10) [OF assms(1)] c(1) assms(2)
    by (intro unframed_framed [OF assms(1)]) (auto simp: X25519_PUBLIC_KEY_LEN_def)
  show ?thesis
    using lawfulD(11) [OF assms(1) c(1)] lawfulD(6) [OF assms(1), of s eph]
    by (simp add: decrypt_x25519_with_secret_key_def u Let_def)
qed

lemma secp_roundtrip:
  assumes "lawful L" "length nonce = NONCE_LEN"
    and "encrypt_for_public_key L eph nonce (public_key_from_secret L s) m aad = Inr ct"
  shows "decrypt_with_secret_key L s ct aad = Inr m"
proof -
  let ?k = "cipher_from_shared_secret L (secp_diffie_hellman L eph (secp_public L s))"
  obtain c where c: "gcm_encrypt L ?k nonce m aad = Some c" "ct = framed L (secp_public L eph) nonce c"
    using assms(3) by (auto simp: encrypt_for_public_key_def secp_own_key [OF assms(1)] Let_def bind_result_Inr)
  have u: "unframed L PUBLIC_KEY_LEN ct = Inr (secp_public L eph, nonce, c)"
    unfolding c(2) using lawfulD(10) [OF assms(1)] c(1) assms(2)
    by (intro unframed_framed [OF assms(1)]) (auto simp: secp_length [OF assms(1)])
  show ?thesis
    using lawfulD(11) [OF assms(1) c(1)] lawfulD(7) [OF assms(1), of s eph] lawfulD(5) [OF assms(1), of eph]
    by (simp add: decrypt_with_secret_key_def u Let_def)
qed

lemma legacy_cipher_simps [simp]:
  "legacy_cipher_from_shared_secret L sh E2EE_ALGO_LEGACY_ECDSA = Inr (hkdf_expand L LEGACY_ECDSA_HKDF_INFO sh)"
  "legacy_cipher_from_shared_secret L sh E2EE_ALGO_LEGACY_ED25519 = Inr (hkdf_expand L LEGACY_ED25519_HKDF_INFO sh)"
  by (simp_all add: legacy_cipher_from_shared_secret_def algo_defs)

lemma legacy_roundtrip:
  assumes "lawful L" "length nonce = NONCE_LEN"
  shows "encrypt_legacy_for_public_key L eph nonce E2EE_ALGO_LEGACY_ECDSA (legacy_ecdsa_public_key_from_secret L s) m aad = Inr ct
      \<Longrightarrow> decrypt_legacy_ecdsa_with_secret_key L s ct aad = Inr m"
    and "encrypt_legacy_for_public_key L eph nonce E2EE_ALGO_LEGACY_ED25519 (ed25519_public_key_hex L s) m aad = Inr ct
      \<Longrightarrow> decrypt_legacy_ed25519_with_secret_key L s ct aad = Inr m"
proof -
  assume a: "encrypt_legacy_for_public_key L eph nonce E2EE_ALGO_LEGACY_ECDSA (legacy_ecdsa_public_key_from_secret L s) m aad = Inr ct"
  let ?k = "hkdf_expand L LEGACY_ECDSA_HKDF_INFO (secp_diffie_hellman L eph (secp_public L s))"
  obtain c where c: "gcm_encrypt L ?k nonce m (aad_or_empty aad) = Some c" "ct = framed L (secp_public L eph) nonce c"
    using a by (auto simp: encrypt_legacy_for_public_key_def secp_own_key [OF assms(1)] Let_def bind_result_Inr)
  have u: "unframed L PUBLIC_KEY_LEN ct = Inr (secp_public L eph, nonce, c)"
    unfolding c(2) using lawfulD(10) [OF assms(1)] c(1) assms(2)
    by (intro unframed_framed [OF assms(1)]) (auto simp: secp_length [OF assms(1)])
  show "decrypt_legacy_ecdsa_with_secret_key L s ct aad = Inr m"
    using lawfulD(11) [OF assms(1) c(1)] lawfulD(7) [OF assms(1), of s eph] lawfulD(5) [OF assms(1), of eph]
    by (simp add: decrypt_legacy_ecdsa_with_secret_key_def u Let_def)
next
  assume a: "encrypt_legacy_for_public_key L eph nonce E2EE_ALGO_LEGACY_ED25519 (ed25519_public_key_hex L s) m aad = Inr ct"
  let ?s = "ed25519_private_to_x25519_private_key L s"
  let ?k = "hkdf_expand L LEGACY_ED25519_HKDF_INFO (x25519_diffie_hellman L eph (x25519_public L ?s))"
  obtain c where c: "gcm_encrypt L ?k nonce m (aad_or_empty aad) = Some c" "ct = framed L (x25519_public L eph) nonce c"
    using a by (auto simp: encrypt_legacy_for_public_key_def ed25519_own_key [OF assms(1)] Let_def bind_result_Inr algo_defs)
       (auto simp: algo_defs [symmetric])
  have u: "unframed L X25519_PUBLIC_KEY_LEN ct = Inr (x25519_public L eph, nonce, c)"
    unfolding c(2) using lawfulD(3,10) [OF assms(1)] c(1) assms(2)
    by (intro unframed_framed [OF assms(1)]) (auto simp: X25519_PUBLIC_KEY_LEN_def)
  show "decrypt_legacy_ed25519_with_secret_key L s ct aad = Inr m"
    using lawfulD(11) [OF assms(1) c(1)] lawfulD(6) [OF assms(1), of ?s eph]
    by (simp add: decrypt_legacy_ed25519_with_secret_key_def u Let_def)
qed

section \<open>Properties\<close>

lemma algo_distinct [simp]:
  "E2EE_ALGO_X25519_AESGCM \<noteq> E2EE_ALGO_SECP256K1_AESGCM" "E2EE_ALGO_X25519_AESGCM \<noteq> E2EE_ALGO_LEGACY_ECDSA" "E2EE_ALGO_X25519_AESGCM \<noteq> E2EE_ALGO_LEGACY_ED25519"
  "E2EE_ALGO_SECP256K1_AESGCM \<noteq> E2EE_ALGO_X25519_AESGCM" "E2EE_ALGO_SECP256K1_AESGCM \<noteq> E2EE_ALGO_LEGACY_ECDSA" "E2EE_ALGO_SECP256K1_AESGCM \<noteq> E2EE_ALGO_LEGACY_ED25519"
  "E2EE_ALGO_LEGACY_ECDSA \<noteq> E2EE_ALGO_X25519_AESGCM" "E2EE_ALGO_LEGACY_ECDSA \<noteq> E2EE_ALGO_SECP256K1_AESGCM" "E2EE_ALGO_LEGACY_ECDSA \<noteq> E2EE_ALGO_LEGACY_ED25519"
  "E2EE_ALGO_LEGACY_ED25519 \<noteq> E2EE_ALGO_X25519_AESGCM" "E2EE_ALGO_LEGACY_ED25519 \<noteq> E2EE_ALGO_SECP256K1_AESGCM" "E2EE_ALGO_LEGACY_ED25519 \<noteq> E2EE_ALGO_LEGACY_ECDSA"
  "is_aci_e2ee_suite E2EE_ALGO_X25519_AESGCM" "is_aci_e2ee_suite E2EE_ALGO_SECP256K1_AESGCM"
  "\<not> is_aci_e2ee_suite E2EE_ALGO_LEGACY_ECDSA" "\<not> is_aci_e2ee_suite E2EE_ALGO_LEGACY_ED25519"
  by (simp_all add: algo_defs is_aci_e2ee_suite_def)

text \<open>
  What is encrypted to a key the provider publishes is decrypted by the provider:
  for every published key, a field encrypted under the key's suite (or, for an inherited
  label, under the inherited encryption) with any ephemeral secret and 12-byte nonce is
  decrypted to the same plaintext under the same associated data, the key being found by
  its id (or label).
\<close>

theorem published_key_roundtrip:
  assumes "lawful L" and "length nonce = NONCE_LEN" and "es_e2ee_key_id s \<noteq> es_x25519_e2ee_key_id s"
    and "key \<in> set (provider_e2ee_keys L s)"
  shows "(\<forall>ct. is_aci_e2ee_suite (kpk_algo key) \<longrightarrow>
        encrypt_aci_e2ee_for_public_key L eph nonce (kpk_algo key) (kpk_public_key_hex key) m aad = Inr ct \<longrightarrow>
        decrypt_e2ee L s (kpk_key_id key) ct aad = Inr m)
    \<and> (\<forall>ct. \<not> is_aci_e2ee_suite (kpk_algo key) \<longrightarrow>
        encrypt_legacy_for_public_key L eph nonce (kpk_algo key) (kpk_public_key_hex key) m (Some aad) = Inr ct \<longrightarrow>
        decrypt_legacy_e2ee L s (kpk_algo key) ct (Some aad) = Inr m)"
  using assms(4) assms(3) x25519_roundtrip [OF assms(1,2)] secp_roundtrip [OF assms(1,2)] legacy_roundtrip [OF assms(1,2)]
  by (auto simp: provider_e2ee_keys_def encrypt_aci_e2ee_for_public_key_def decrypt_e2ee_def decrypt_legacy_e2ee_def)

definition pad :: "nat \<Rightarrow> bytes \<Rightarrow> bytes" where
  "pad n b = take n (b @ replicate n 0)"

definition sample_crypto :: crypto_lib where
  "sample_crypto = \<lparr>hex_encode = (\<lambda>b. ch CHR ''h'' # latin1 b),
     hex_decode = (\<lambda>s. case s of [] \<Rightarrow> None | _ # r \<Rightarrow> Some (map (\<lambda>c. of_nat (code_point c)) r)),
     sec1_valid = (\<lambda>_. True), secp_public = (\<lambda>s. 4 # pad 64 s), secp_diffie_hellman = (\<lambda>a b. map2 (+) (pad 64 a) (tl b)),
     x25519_public = pad 32, x25519_diffie_hellman = (\<lambda>a b. map2 (+) (pad 32 a) b),
     ed25519_public = (\<lambda>s. pad 32 (clamp_scalar (take 32 s))),
     edwards_to_montgomery = Some, sha512 = (\<lambda>s. s),
     hkdf_expand = (\<lambda>info shared. shared), gcm_encrypt = (\<lambda>k n m a. Some (m @ replicate TAG_LEN 0)),
     gcm_decrypt = (\<lambda>k n c a. Some (take (length c - TAG_LEN) c))\<rparr>"

lemma length_pad [simp]: "length (pad n b) = n"
  by (simp add: pad_def)

lemma map2_add_commute: "map2 (+) (a :: bytes) b = map2 (+) b a"
  by (induction a b rule: list_induct2') (simp_all add: add.commute)

lemma latin1_back: "map (\<lambda>c. of_nat (code_point c)) (latin1 b) = b"
proof -
  have "of_nat (code_point (uchar_of_nat (unat x))) = x" for x :: u8
  proof -
    have "unat x < 256" using unsigned_less [of x] by simp
    then have "code_point (uchar_of_nat (unat x)) = unat x" by (intro code_point_uchar_of_nat) auto
    then show ?thesis by simp
  qed
  then show ?thesis by (simp add: latin1_def map_idI)
qed

lemma sample_lawful: "lawful sample_crypto"
  unfolding lawful_def sample_crypto_def
  by (simp add: latin1_back strip_0x_def strip_prefix_def lit_def ch_def ed25519_private_to_x25519_private_key_def map2_add_commute)

theorem published_key_roundtrip_witness:
  "\<exists>ct. encrypt_aci_e2ee_for_public_key sample_crypto [7] (replicate 12 0) E2EE_ALGO_X25519_AESGCM
      (x25519_public_key_hex sample_crypto [3]) [1, 2] [9] = Inr ct
    \<and> decrypt_e2ee sample_crypto \<lparr>es_e2ee_key_id = [], es_e2ee = [5], es_x25519_e2ee_key_id = lit ''x'', es_x25519_e2ee = [3],
        es_legacy_ed25519_key_id = [], es_legacy_ed25519 = [4]\<rparr> (lit ''x'') ct [9] = Inr [1, 2]"
proof -
  let ?s = "\<lparr>es_e2ee_key_id = [], es_e2ee = [5], es_x25519_e2ee_key_id = lit ''x'', es_x25519_e2ee = [3],
        es_legacy_ed25519_key_id = [], es_legacy_ed25519 = [4]\<rparr>"
  let ?key = "\<lparr>kpk_key_id = lit ''x'', kpk_algo = E2EE_ALGO_X25519_AESGCM, kpk_public_key_hex = x25519_public_key_hex sample_crypto [3]\<rparr>"
  obtain ct where ct: "encrypt_aci_e2ee_for_public_key sample_crypto [7] (replicate 12 0) E2EE_ALGO_X25519_AESGCM
      (x25519_public_key_hex sample_crypto [3]) [1, 2] [9] = Inr ct"
    by (simp add: encrypt_aci_e2ee_for_public_key_def encrypt_x25519_for_public_key_def x25519_own_key [OF sample_lawful] Let_def)
       (simp add: sample_crypto_def)
  have "?key \<in> set (provider_e2ee_keys sample_crypto ?s)" by (simp add: provider_e2ee_keys_def)
  from published_key_roundtrip [OF sample_lawful _ _ this, of "replicate 12 0" "[7]" "[1, 2]" "[9]"] ct
  show ?thesis by (simp add: NONCE_LEN_def)
qed

end
