(* ===== verification/E2ee.thy ===== *)
theory E2ee
  imports Failover E2ee_Suites
begin

text \<open>
  End-to-end encryption in the service: \<open>src/aggregator/service/e2ee_crypto.rs\<close> (associated
  data, field decryption of requests, field encryption of responses and of stream events)
  and the request half of \<open>service/e2ee.rs\<close> (header checks, key selection, replay cache).

  The replay cache is explicit state. The two decryption operations of the key provider are
  fields of \<open>key_ops\<close>. The randomness of one response is \<open>rnd :: nat \<Rightarrow> bytes \<times> bytes\<close>: the ephemeral
  secret and the nonce of its k-th encrypted field, with \<open>k\<close> threaded through the loops.
\<close>

section \<open>Nonces, keys and the model\<close>

definition validate_aci_e2ee_nonce :: "str \<Rightarrow> e2ee_error + unit" where
  "validate_aci_e2ee_nonce nonce =
     (let is_64_hex = length (as_bytes nonce) = 64 \<and> list_all is_ascii_hexdigit (as_bytes nonce)
      in if \<not> is_64_hex then Inl InvalidNonce else Inr ())"

definition normalize_ed25519_public_key_hex :: "crypto_lib \<Rightarrow> str \<Rightarrow> e2ee_error + str" where
  "normalize_ed25519_public_key_hex L value =
     bind_result (ok_or InvalidPublicKey (hex_decode L (strip_0x value))) (\<lambda>bytes.
       if length bytes \<noteq> 32 then Inl InvalidPublicKey else Inr (hex_encode L bytes))"

definition ok_eq :: "('e + 'a) \<Rightarrow> ('e + 'a) \<Rightarrow> bool" where
  "ok_eq a b = (case (a, b) of (Inr x, Inr y) \<Rightarrow> x = y | _ \<Rightarrow> False)"

definition legacy_public_keys_match :: "crypto_lib \<Rightarrow> str \<Rightarrow> str \<Rightarrow> str \<Rightarrow> bool" where
  "legacy_public_keys_match L signing_algo expected_hex supplied_hex =
     (if signing_algo = E2EE_ALGO_LEGACY_ECDSA then
        ok_eq (normalize_secp256k1_public_key_hex L expected_hex) (normalize_secp256k1_public_key_hex L supplied_hex)
      else if signing_algo = E2EE_ALGO_LEGACY_ED25519 then
        ok_eq (normalize_ed25519_public_key_hex L expected_hex) (normalize_ed25519_public_key_hex L supplied_hex)
      else False)"

definition normalize_legacy_public_key_for_replay :: "crypto_lib \<Rightarrow> str \<Rightarrow> str \<Rightarrow> e2ee_error + str" where
  "normalize_legacy_public_key_for_replay L signing_algo value =
     (if signing_algo = E2EE_ALGO_LEGACY_ECDSA then
        map_err (\<lambda>_. InvalidPublicKey) (normalize_secp256k1_public_key_hex L value)
      else if signing_algo = E2EE_ALGO_LEGACY_ED25519 then
        map_err (\<lambda>_. InvalidPublicKey) (normalize_ed25519_public_key_hex L value)
      else Inl InvalidSigningAlgo)"

definition validate_aci_payload_model :: "json \<Rightarrow> e2ee_error + str" where
  "validate_aci_payload_model payload = ok_or InvalidPayloadModel (Option.bind (get payload (lit ''model'')) as_str)"

section \<open>Associated data\<close>

definition request_aad_value :: "str \<Rightarrow> str \<Rightarrow> str \<Rightarrow> str \<Rightarrow> u64 \<Rightarrow> json" where
  "request_aad_value algo model field nonce timestamp = Object [
     (lit ''purpose'', JString (lit ''aci.e2ee.request.v2'')), (lit ''algo'', JString algo), (lit ''model'', JString model),
     (lit ''field'', JString field), (lit ''nonce'', JString nonce), (lit ''ts'', json_u64 timestamp)]"

definition aci_request_aad :: "str \<Rightarrow> str \<Rightarrow> str \<Rightarrow> str \<Rightarrow> u64 \<Rightarrow> e2ee_error + bytes" where
  "aci_request_aad algo model field nonce timestamp =
     map_err (\<lambda>_. DecryptionFailed) (canonicalize (request_aad_value algo model field nonce timestamp))"

definition response_aad_value :: "str \<Rightarrow> str \<Rightarrow> str \<Rightarrow> str \<Rightarrow> str \<Rightarrow> u64 \<Rightarrow> json" where
  "response_aad_value algo model response_id field nonce timestamp = Object [
     (lit ''purpose'', JString (lit ''aci.e2ee.response.v2'')), (lit ''algo'', JString algo), (lit ''model'', JString model),
     (lit ''id'', JString response_id), (lit ''field'', JString field), (lit ''nonce'', JString nonce), (lit ''ts'', json_u64 timestamp)]"

definition aci_response_aad :: "str \<Rightarrow> str \<Rightarrow> str \<Rightarrow> str \<Rightarrow> str \<Rightarrow> u64 \<Rightarrow> e2ee_error + bytes" where
  "aci_response_aad algo model response_id field nonce timestamp =
     map_err (\<lambda>_. EncryptionFailed) (canonicalize (response_aad_value algo model response_id field nonce timestamp))"

section \<open>Decrypting request fields\<close>

definition COMPLETIONS_PATH :: str where
  "COMPLETIONS_PATH = lit ''/v1/completions''"

definition EMBEDDINGS_PATH :: str where
  "EMBEDDINGS_PATH = lit ''/v1/embeddings''"

record key_ops =
  ko_decrypt_e2ee :: "str \<Rightarrow> str \<Rightarrow> bytes \<Rightarrow> key_error + bytes"
  ko_decrypt_legacy_e2ee :: "str \<Rightarrow> str \<Rightarrow> bytes option \<Rightarrow> key_error + bytes"

datatype e2ee_decryptor = AciV2Key str | LegacyAlgo str

record field_crypto =
  fc_keys :: key_ops
  fc_decryptor :: e2ee_decryptor
  fc_algo :: str
  fc_aad_mode :: e2ee_aad_mode
  fc_model :: str
  fc_nonce :: "str option"
  fc_timestamp :: "u64 option"

definition is_aci :: "e2ee_aad_mode \<Rightarrow> bool" where
  "is_aci m \<longleftrightarrow> m = AciV2"

definition nonce_ts :: "field_crypto \<Rightarrow> e2ee_error + (str \<times> u64)" where
  "nonce_ts c =
     bind_result (ok_or DecryptionFailed (fc_nonce c)) (\<lambda>nonce.
     bind_result (ok_or DecryptionFailed (fc_timestamp c)) (\<lambda>timestamp. Inr (nonce, timestamp)))"

definition request_field_aad :: "field_crypto \<Rightarrow> str \<Rightarrow> e2ee_error + bytes option" where
  "request_field_aad c field =
     (case fc_aad_mode c of
        AciV2 \<Rightarrow> bind_result (nonce_ts c) (\<lambda>(nonce, timestamp).
                 bind_result (aci_request_aad (fc_algo c) (fc_model c) field nonce timestamp) (\<lambda>aad. Inr (Some aad)))
      | LegacyV1 \<Rightarrow> Inr None)"

definition decrypt_e2ee_field :: "field_crypto \<Rightarrow> str \<Rightarrow> bytes option \<Rightarrow> e2ee_error + bytes" where
  "decrypt_e2ee_field c ciphertext_hex aad =
     (case fc_decryptor c of
        AciV2Key key_id \<Rightarrow> bind_result (ok_or DecryptionFailed aad) (\<lambda>aad.
          map_err (\<lambda>_. DecryptionFailed) (ko_decrypt_e2ee (fc_keys c) key_id ciphertext_hex aad))
      | LegacyAlgo signing_algo \<Rightarrow>
          map_err (\<lambda>_. DecryptionFailed) (ko_decrypt_legacy_e2ee (fc_keys c) signing_algo ciphertext_hex aad))"

text \<open>The three steps every encrypted location goes through: associated data, decryption, UTF-8.\<close>

definition decrypt_text :: "field_crypto \<Rightarrow> str \<Rightarrow> str \<Rightarrow> e2ee_error + str" where
  "decrypt_text c field ciphertext_hex =
     bind_result (request_field_aad c field) (\<lambda>aad.
     bind_result (decrypt_e2ee_field c ciphertext_hex aad) (\<lambda>plaintext.
       ok_or DecryptionFailed (from_utf8 plaintext)))"

definition num :: "nat \<Rightarrow> str" where
  "num n = latin1 (dec n)"

text \<open>A loop over the items of an array that replaces each item and adds up the counts.\<close>

fun each_counted :: "(nat \<Rightarrow> json \<Rightarrow> e2ee_error + json \<times> nat) \<Rightarrow> nat \<Rightarrow> json list \<Rightarrow> e2ee_error + json list \<times> nat" where
  "each_counted f i [] = Inr ([], 0)"
| "each_counted f i (x # xs) =
     bind_result (f i x) (\<lambda>(y, n). bind_result (each_counted f (Suc i) xs) (\<lambda>(ys, m). Inr (y # ys, n + m)))"

definition decrypt_string_item :: "field_crypto \<Rightarrow> str \<Rightarrow> nat \<Rightarrow> json \<Rightarrow> e2ee_error + json \<times> nat" where
  "decrypt_string_item c name index item =
     (case item of
        JString ciphertext_hex \<Rightarrow>
          bind_result (decrypt_text c (name @ lit ''.'' @ num index) ciphertext_hex) (\<lambda>plaintext. Inr (JString plaintext, 1))
      | _ \<Rightarrow> Inr (item, 0))"

definition decrypt_string_or_items :: "field_crypto \<Rightarrow> str \<Rightarrow> json \<Rightarrow> e2ee_error + json \<times> nat" where
  "decrypt_string_or_items c name value =
     (case value of
        JString ciphertext_hex \<Rightarrow> bind_result (decrypt_text c name ciphertext_hex) (\<lambda>plaintext. Inr (JString plaintext, 1))
      | Array items \<Rightarrow>
          bind_result (each_counted (decrypt_string_item c name) 0 items) (\<lambda>(items, n). Inr (Array items, n))
      | _ \<Rightarrow> Inr (value, 0))"

text \<open>\<open>Value::get_mut\<close> followed by a write: the member is replaced where it stands.\<close>

definition set_member :: "json \<Rightarrow> str \<Rightarrow> json \<Rightarrow> json" where
  "set_member v k x = (case v of Object m \<Rightarrow> Object (obj_insert m k x) | _ \<Rightarrow> v)"

definition decrypt_completion_prompt :: "field_crypto \<Rightarrow> json \<Rightarrow> e2ee_error + json" where
  "decrypt_completion_prompt c payload =
     (case get payload (lit ''prompt'') of
        None \<Rightarrow> Inl DecryptionFailed
      | Some prompt \<Rightarrow>
          bind_result (decrypt_string_or_items c (lit ''prompt'') prompt) (\<lambda>(prompt, decrypted_count).
            if decrypted_count = 0 then Inl DecryptionFailed else Inr (set_member payload (lit ''prompt'') prompt)))"

definition decrypt_embedding_input :: "field_crypto \<Rightarrow> json \<Rightarrow> e2ee_error + json" where
  "decrypt_embedding_input c payload =
     (case get payload (lit ''input'') of
        None \<Rightarrow> Inl DecryptionFailed
      | Some input \<Rightarrow>
          bind_result (decrypt_string_or_items c (lit ''input'') input) (\<lambda>(input, decrypted_count).
            if decrypted_count = 0 then Inl DecryptionFailed else Inr (set_member payload (lit ''input'') input)))"

definition decrypt_content_part_field :: "field_crypto \<Rightarrow> obj \<Rightarrow> str \<Rightarrow> str \<Rightarrow> e2ee_error + obj \<times> nat" where
  "decrypt_content_part_field c part key field =
     (case obj_get part key of
        Some (JString ciphertext_hex) \<Rightarrow>
          bind_result (decrypt_text c field ciphertext_hex) (\<lambda>plaintext. Inr (obj_insert part key (JString plaintext), 1))
      | _ \<Rightarrow> Inr (part, 0))"

definition decrypt_content_part_nested :: "field_crypto \<Rightarrow> obj \<Rightarrow> str \<Rightarrow> str \<Rightarrow> str \<Rightarrow> e2ee_error + obj \<times> nat" where
  "decrypt_content_part_nested c part wrapper_key inner_key field =
     (case obj_get part wrapper_key of
        Some (Object wrapper) \<Rightarrow>
          (case obj_get wrapper inner_key of
             Some (JString ciphertext_hex) \<Rightarrow>
               bind_result (decrypt_text c field ciphertext_hex) (\<lambda>plaintext.
                 Inr (obj_insert part wrapper_key (Object (obj_insert wrapper inner_key (JString plaintext))), 1))
           | _ \<Rightarrow> Inr (part, 0))
      | _ \<Rightarrow> Inr (part, 0))"

definition content_path :: "nat \<Rightarrow> str" where
  "content_path message_index = lit ''messages.'' @ num message_index @ lit ''.content''"

definition decrypt_content_part :: "field_crypto \<Rightarrow> nat \<Rightarrow> nat \<Rightarrow> obj \<Rightarrow> e2ee_error + obj \<times> nat" where
  "decrypt_content_part c message_index content_index part =
     (let type = Option.bind (obj_get part (lit ''type'')) as_str;
          path = content_path message_index @ lit ''.'' @ num content_index
      in if type = Some (lit ''text'') then decrypt_content_part_field c part (lit ''text'') (path @ lit ''.text'')
         else if type = Some (lit ''image_url'') \<and> is_aci (fc_aad_mode c) then
           decrypt_content_part_nested c part (lit ''image_url'') (lit ''url'') (path @ lit ''.image_url.url'')
         else if type = Some (lit ''input_audio'') \<and> is_aci (fc_aad_mode c) then
           decrypt_content_part_nested c part (lit ''input_audio'') (lit ''data'') (path @ lit ''.input_audio.data'')
         else Inr (part, 0))"

definition decrypted_chat_content_value :: "serde_json \<Rightarrow> str \<Rightarrow> json" where
  "decrypted_chat_content_value sj plaintext =
     (case from_slice sj (as_bytes plaintext) of Some (Array items) \<Rightarrow> Array items | _ \<Rightarrow> JString plaintext)"

definition decrypt_content_item :: "field_crypto \<Rightarrow> nat \<Rightarrow> nat \<Rightarrow> json \<Rightarrow> e2ee_error + json \<times> nat" where
  "decrypt_content_item c message_index content_index item =
     (case item of
        Object part \<Rightarrow> bind_result (decrypt_content_part c message_index content_index part) (\<lambda>(part, n). Inr (Object part, n))
      | _ \<Rightarrow> Inr (item, 0))"

definition decrypt_content_value :: "serde_json \<Rightarrow> field_crypto \<Rightarrow> nat \<Rightarrow> json \<Rightarrow> e2ee_error + json \<times> nat" where
  "decrypt_content_value sj c message_index content =
     (case content of
        JString ciphertext_hex \<Rightarrow>
          bind_result (decrypt_text c (content_path message_index) ciphertext_hex) (\<lambda>plaintext.
            Inr (decrypted_chat_content_value sj plaintext, 1))
      | Array items \<Rightarrow>
          bind_result (each_counted (decrypt_content_item c message_index) 0 items) (\<lambda>(items, n). Inr (Array items, n))
      | _ \<Rightarrow> Inr (content, 0))"

definition decrypt_message :: "serde_json \<Rightarrow> field_crypto \<Rightarrow> nat \<Rightarrow> json \<Rightarrow> e2ee_error + json \<times> nat" where
  "decrypt_message sj c message_index message =
     (case message of
        Object m \<Rightarrow>
          (case obj_get m (lit ''content'') of
             None \<Rightarrow> Inr (message, 0)
           | Some content \<Rightarrow>
               bind_result (decrypt_content_value sj c message_index content) (\<lambda>(content, n).
                 Inr (Object (obj_insert m (lit ''content'') content), n)))
      | _ \<Rightarrow> Inr (message, 0))"

definition decrypt_request_payload :: "serde_json \<Rightarrow> field_crypto \<Rightarrow> str \<Rightarrow> json \<Rightarrow> e2ee_error + json" where
  "decrypt_request_payload sj c endpoint_path payload =
     (if endpoint_path = COMPLETIONS_PATH then decrypt_completion_prompt c payload
      else if endpoint_path = EMBEDDINGS_PATH then decrypt_embedding_input c payload
      else case Option.bind (get payload (lit ''messages'')) as_array of
             None \<Rightarrow> Inl DecryptionFailed
           | Some messages \<Rightarrow>
               bind_result (each_counted (decrypt_message sj c) 0 messages) (\<lambda>(messages, decrypted_count).
                 if decrypted_count = 0 then Inl DecryptionFailed
                 else Inr (set_member payload (lit ''messages'') (Array messages))))"

section \<open>Encrypting response fields\<close>

definition response_nonce_ts :: "e2ee_context \<Rightarrow> e2ee_error + (str \<times> u64)" where
  "response_nonce_ts ctx =
     bind_result (ok_or EncryptionFailed (ec_nonce ctx)) (\<lambda>nonce.
     bind_result (ok_or EncryptionFailed (ec_timestamp ctx)) (\<lambda>timestamp. Inr (nonce, timestamp)))"

definition response_aad_for_context :: "e2ee_context \<Rightarrow> str \<Rightarrow> str \<Rightarrow> e2ee_error + bytes option" where
  "response_aad_for_context ctx response_id aci_field =
     (case ec_aad_mode ctx of
        AciV2 \<Rightarrow> bind_result (response_nonce_ts ctx) (\<lambda>(nonce, timestamp).
                 bind_result (aci_response_aad (ec_algo ctx) (ec_request_model ctx) response_id aci_field nonce timestamp) (\<lambda>aad.
                   Inr (Some aad)))
      | LegacyV1 \<Rightarrow> Inr None)"

definition embedding_response_aad_for_context :: "e2ee_context \<Rightarrow> str \<Rightarrow> u64 \<Rightarrow> e2ee_error + bytes option" where
  "embedding_response_aad_for_context ctx response_id data_index =
     (case ec_aad_mode ctx of
        AciV2 \<Rightarrow> bind_result (response_nonce_ts ctx) (\<lambda>(nonce, timestamp).
                 let field = lit ''data.'' @ num (unat data_index) @ lit ''.embedding''
                 in bind_result (aci_response_aad (ec_algo ctx) (ec_request_model ctx) response_id field nonce timestamp) (\<lambda>aad.
                      Inr (Some aad)))
      | LegacyV1 \<Rightarrow> Inr None)"

definition encrypt_response_plaintext ::
    "crypto_lib \<Rightarrow> bytes \<times> bytes \<Rightarrow> e2ee_context \<Rightarrow> bytes \<Rightarrow> bytes option \<Rightarrow> e2ee_error + str" where
  "encrypt_response_plaintext L draw ctx plaintext aad =
     (case ec_aad_mode ctx of
        AciV2 \<Rightarrow> bind_result (ok_or EncryptionFailed aad) (\<lambda>aad.
          map_err (\<lambda>_. EncryptionFailed)
            (encrypt_aci_e2ee_for_public_key L (fst draw) (snd draw) (ec_algo ctx) (ec_client_public_key_hex ctx) plaintext aad))
      | LegacyV1 \<Rightarrow>
          map_err (\<lambda>_. EncryptionFailed)
            (encrypt_legacy_for_public_key L (fst draw) (snd draw) (ec_algo ctx) (ec_client_public_key_hex ctx) plaintext aad))"

text \<open>
  An encryption step takes the number of fields encrypted so far and returns it updated.
\<close>

definition encrypt_response_field ::
    "crypto_lib \<Rightarrow> (nat \<Rightarrow> bytes \<times> bytes) \<Rightarrow> e2ee_context \<Rightarrow> str \<Rightarrow> str \<Rightarrow> str \<Rightarrow> obj \<Rightarrow> nat \<Rightarrow> e2ee_error + obj \<times> nat" where
  "encrypt_response_field L rnd ctx response_id field_name aci_field container k =
     (case obj_get container field_name of
        Some (JString plaintext) \<Rightarrow>
          bind_result (response_aad_for_context ctx response_id aci_field) (\<lambda>aad.
          bind_result (encrypt_response_plaintext L (rnd k) ctx (as_bytes plaintext) aad) (\<lambda>ciphertext.
            Inr (obj_insert container field_name (JString ciphertext), Suc k)))
      | _ \<Rightarrow> Inr (container, k))"

definition encrypt_message_audio_data ::
    "crypto_lib \<Rightarrow> (nat \<Rightarrow> bytes \<times> bytes) \<Rightarrow> e2ee_context \<Rightarrow> str \<Rightarrow> u64 \<Rightarrow> obj \<Rightarrow> nat \<Rightarrow> e2ee_error + obj \<times> nat" where
  "encrypt_message_audio_data L rnd ctx response_id choice_index message k =
     (case obj_get message (lit ''audio'') of
        Some (Object audio) \<Rightarrow>
          (case obj_get audio (lit ''data'') of
             Some (JString plaintext) \<Rightarrow>
               bind_result (response_nonce_ts ctx) (\<lambda>(nonce, timestamp).
               let field = lit ''choices.'' @ num (unat choice_index) @ lit ''.message.audio.data''
               in bind_result (aci_response_aad (ec_algo ctx) (ec_request_model ctx) response_id field nonce timestamp) (\<lambda>aad.
                  bind_result (encrypt_response_plaintext L (rnd k) ctx (as_bytes plaintext) (Some aad)) (\<lambda>ciphertext.
                    Inr (obj_insert message (lit ''audio'') (Object (obj_insert audio (lit ''data'') (JString ciphertext))), Suc k))))
           | _ \<Rightarrow> Inr (message, k))
      | _ \<Rightarrow> Inr (message, k))"

text \<open>The \<open>index\<close> member of an entry, or its position.\<close>

definition entry_index :: "json \<Rightarrow> nat \<Rightarrow> u64" where
  "entry_index entry position =
     (case get entry (lit ''index'') of
        Some (Number n) \<Rightarrow> (case as_u64 n of Some i \<Rightarrow> i | None \<Rightarrow> of_nat position)
      | _ \<Rightarrow> of_nat position)"

fun each_drawn ::
    "(nat \<Rightarrow> json \<Rightarrow> nat \<Rightarrow> e2ee_error + json \<times> nat) \<Rightarrow> nat \<Rightarrow> json list \<Rightarrow> nat \<Rightarrow> e2ee_error + json list \<times> nat" where
  "each_drawn f i [] k = Inr ([], k)"
| "each_drawn f i (x # xs) k =
     bind_result (f i x k) (\<lambda>(y, k). bind_result (each_drawn f (Suc i) xs k) (\<lambda>(ys, k). Inr (y # ys, k)))"

definition choice_path :: "u64 \<Rightarrow> str \<Rightarrow> str" where
  "choice_path choice_index member_path = lit ''choices.'' @ num (unat choice_index) @ member_path"

definition encrypt_message ::
    "crypto_lib \<Rightarrow> (nat \<Rightarrow> bytes \<times> bytes) \<Rightarrow> e2ee_context \<Rightarrow> str \<Rightarrow> u64 \<Rightarrow> obj \<Rightarrow> nat \<Rightarrow> e2ee_error + obj \<times> nat" where
  "encrypt_message L rnd ctx response_id choice_index message k =
     bind_result (encrypt_response_field L rnd ctx response_id (lit ''content'')
                    (choice_path choice_index (lit ''.message.content'')) message k) (\<lambda>(message, k).
     bind_result (encrypt_response_field L rnd ctx response_id (lit ''reasoning_content'')
                    (choice_path choice_index (lit ''.message.reasoning_content'')) message k) (\<lambda>(message, k).
       if is_aci (ec_aad_mode ctx) then encrypt_message_audio_data L rnd ctx response_id choice_index message k
       else Inr (message, k)))"

definition encrypt_delta ::
    "crypto_lib \<Rightarrow> (nat \<Rightarrow> bytes \<times> bytes) \<Rightarrow> e2ee_context \<Rightarrow> str \<Rightarrow> u64 \<Rightarrow> obj \<Rightarrow> nat \<Rightarrow> e2ee_error + obj \<times> nat" where
  "encrypt_delta L rnd ctx response_id choice_index delta k =
     (let delta = if Option.bind (obj_get delta (lit ''content'')) as_str = Some [] then obj_remove delta (lit ''content'') else delta
      in bind_result (encrypt_response_field L rnd ctx response_id (lit ''content'')
                        (choice_path choice_index (lit ''.delta.content'')) delta k) (\<lambda>(delta, k).
         encrypt_response_field L rnd ctx response_id (lit ''reasoning_content'')
           (choice_path choice_index (lit ''.delta.reasoning_content'')) delta k))"

text \<open>
  One choice: \<open>text\<close> on the completions endpoint, otherwise the object under \<open>inner\<close>
  (\<open>message\<close> in a body, \<open>delta\<close> in a stream event) through \<open>step\<close>.
\<close>

definition encrypt_choice ::
    "crypto_lib \<Rightarrow> (nat \<Rightarrow> bytes \<times> bytes) \<Rightarrow> e2ee_context \<Rightarrow> str \<Rightarrow> str \<Rightarrow> str \<Rightarrow>
     (u64 \<Rightarrow> obj \<Rightarrow> nat \<Rightarrow> e2ee_error + obj \<times> nat) \<Rightarrow> nat \<Rightarrow> json \<Rightarrow> nat \<Rightarrow> e2ee_error + json \<times> nat" where
  "encrypt_choice L rnd ctx response_id endpoint_path inner step position choice k =
     (let choice_index = entry_index choice position
      in case choice of
           Object c \<Rightarrow>
             if endpoint_path = COMPLETIONS_PATH then
               bind_result (encrypt_response_field L rnd ctx response_id (lit ''text'')
                              (choice_path choice_index (lit ''.text'')) c k) (\<lambda>(c, k). Inr (Object c, k))
             else (case obj_get c inner of
                     Some (Object m) \<Rightarrow>
                       bind_result (step choice_index m k) (\<lambda>(m, k). Inr (Object (obj_insert c inner (Object m)), k))
                   | _ \<Rightarrow> Inr (choice, k))
         | _ \<Rightarrow> Inr (choice, k))"

definition encrypt_embedding_item ::
    "crypto_lib \<Rightarrow> serde_json \<Rightarrow> (nat \<Rightarrow> bytes \<times> bytes) \<Rightarrow> e2ee_context \<Rightarrow> str \<Rightarrow> nat \<Rightarrow> json \<Rightarrow> nat \<Rightarrow> e2ee_error + json \<times> nat" where
  "encrypt_embedding_item L sj rnd ctx response_id position item k =
     (let data_index = entry_index item position
      in case item of
           Object entry \<Rightarrow>
             (case obj_get entry (lit ''embedding'') of
                None \<Rightarrow> Inr (item, k)
              | Some embedding \<Rightarrow>
                  bind_result (ok_or EncryptionFailed (to_vec sj embedding)) (\<lambda>plaintext.
                  bind_result (embedding_response_aad_for_context ctx response_id data_index) (\<lambda>aad.
                  bind_result (encrypt_response_plaintext L (rnd k) ctx plaintext aad) (\<lambda>ciphertext.
                    Inr (Object (obj_insert entry (lit ''embedding'') (JString ciphertext)), Suc k)))))
         | _ \<Rightarrow> Inr (item, k))"

definition encrypt_embedding_data ::
    "crypto_lib \<Rightarrow> serde_json \<Rightarrow> (nat \<Rightarrow> bytes \<times> bytes) \<Rightarrow> e2ee_context \<Rightarrow> str \<Rightarrow> json \<Rightarrow> e2ee_error + json" where
  "encrypt_embedding_data L sj rnd ctx response_id payload =
     (case Option.bind (get payload (lit ''data'')) as_array of
        None \<Rightarrow> Inr payload
      | Some items \<Rightarrow>
          bind_result (each_drawn (encrypt_embedding_item L sj rnd ctx response_id) 0 items 0) (\<lambda>(items, _).
            Inr (set_member payload (lit ''data'') (Array items))))"

definition response_id_of :: "json \<Rightarrow> str" where
  "response_id_of payload = (case Option.bind (get payload (lit ''id'')) as_str of Some i \<Rightarrow> i | None \<Rightarrow> [])"

definition encrypt_choices ::
    "crypto_lib \<Rightarrow> (nat \<Rightarrow> bytes \<times> bytes) \<Rightarrow> e2ee_context \<Rightarrow> str \<Rightarrow> str \<Rightarrow>
     (u64 \<Rightarrow> obj \<Rightarrow> nat \<Rightarrow> e2ee_error + obj \<times> nat) \<Rightarrow> json \<Rightarrow> e2ee_error + json" where
  "encrypt_choices L rnd ctx endpoint_path inner step payload =
     (case Option.bind (get payload (lit ''choices'')) as_array of
        None \<Rightarrow> Inr payload
      | Some choices \<Rightarrow>
          bind_result (each_drawn (encrypt_choice L rnd ctx (response_id_of payload) endpoint_path inner step) 0 choices 0) (\<lambda>(choices, _).
            Inr (set_member payload (lit ''choices'') (Array choices))))"

definition encrypt_e2ee_response_body ::
    "crypto_lib \<Rightarrow> serde_json \<Rightarrow> (nat \<Rightarrow> bytes \<times> bytes) \<Rightarrow> bytes \<Rightarrow> e2ee_context \<Rightarrow> str \<Rightarrow> e2ee_error + bytes" where
  "encrypt_e2ee_response_body L sj rnd cleartext_body ctx endpoint_path =
     bind_result (ok_or EncryptionFailed (from_slice sj cleartext_body)) (\<lambda>payload.
     bind_result (if endpoint_path = EMBEDDINGS_PATH then encrypt_embedding_data L sj rnd ctx (response_id_of payload) payload
                  else encrypt_choices L rnd ctx endpoint_path (lit ''message'')
                         (encrypt_message L rnd ctx (response_id_of payload)) payload) (\<lambda>payload.
       ok_or EncryptionFailed (to_vec sj payload)))"

definition encrypt_e2ee_stream_payload ::
    "crypto_lib \<Rightarrow> serde_json \<Rightarrow> (nat \<Rightarrow> bytes \<times> bytes) \<Rightarrow> bytes \<Rightarrow> e2ee_context \<Rightarrow> str \<Rightarrow> e2ee_error + bytes" where
  "encrypt_e2ee_stream_payload L sj rnd cleartext_payload ctx endpoint_path =
     (if endpoint_path = EMBEDDINGS_PATH then Inl EncryptionFailed
      else
        bind_result (ok_or EncryptionFailed (from_slice sj cleartext_payload)) (\<lambda>payload.
        bind_result (encrypt_choices L rnd ctx endpoint_path (lit ''delta'')
                       (encrypt_delta L rnd ctx (response_id_of payload)) payload) (\<lambda>payload.
          ok_or EncryptionFailed (to_vec sj payload))))"

section \<open>Accepting an encrypted request\<close>

record e2ee_request_parts =
  ep_signing_algo :: "str option"
  ep_client_public_key :: "str option"
  ep_model_public_key :: "str option"
  ep_version :: "str option"
  ep_nonce :: "str option"
  ep_timestamp :: "str option"

record e2ee_prepared_request =
  pq_decrypted_body :: bytes
  pq_context :: e2ee_context

record e2ee_replay_key =
  rk_client_public_key_hex :: str
  rk_model_public_key_hex :: str
  rk_nonce :: str

type_synonym replay_cache = "(e2ee_replay_key \<times> u64) list"

record e2ee_env =
  en_lib :: crypto_lib
  en_serde :: serde_json
  en_keys :: key_ops
  en_e2ee_public_keys :: "keyed_public_key list"

text \<open>\<open>str::parse::<u64>\<close>: an optional plus sign and decimal digits whose value fits.\<close>

definition is_digit :: "uchar \<Rightarrow> bool" where
  "is_digit c \<longleftrightarrow> 48 \<le> code_point c \<and> code_point c \<le> 57"

definition digits_value :: "str \<Rightarrow> nat" where
  "digits_value = foldl (\<lambda>n c. 10 * n + (code_point c - 48)) 0"

definition parse_u64 :: "str \<Rightarrow> u64 option" where
  "parse_u64 s =
     (let ds = (case s of [] \<Rightarrow> [] | c # r \<Rightarrow> if c = ch CHR ''+'' then r else s)
      in if ds \<noteq> [] \<and> list_all is_digit ds \<and> digits_value ds < 2 ^ 64 then Some (of_nat (digits_value ds)) else None)"

definition abs_diff :: "u64 \<Rightarrow> u64 \<Rightarrow> u64" where
  "abs_diff a b = (if a \<le> b then b - a else a - b)"

definition claim_e2ee_replay :: "str \<Rightarrow> str \<Rightarrow> str \<Rightarrow> u64 \<Rightarrow> replay_cache \<Rightarrow> (e2ee_error + unit) \<times> replay_cache" where
  "claim_e2ee_replay client_public_key_hex model_public_key_hex nonce now cache =
     (let cache = filter (\<lambda>(_, expires_at). now < expires_at) cache;
          key = \<lparr>rk_client_public_key_hex = client_public_key_hex, rk_model_public_key_hex = model_public_key_hex, rk_nonce = nonce\<rparr>
      in if map_of cache key \<noteq> None then (Inl ReplayDetected, cache)
         else (Inr (), (key, saturating_add now 300) # cache))"

definition suite_key_matches :: "crypto_lib \<Rightarrow> str \<Rightarrow> keyed_public_key \<Rightarrow> bool" where
  "suite_key_matches L model_public_key key \<longleftrightarrow>
     is_aci_e2ee_suite (kpk_algo key)
     \<and> ok_eq (normalize_aci_e2ee_public_key_hex L (kpk_algo key) model_public_key)
             (normalize_aci_e2ee_public_key_hex L (kpk_algo key) (kpk_public_key_hex key))"

text \<open>What the checks before the replay claim establish.\<close>

record v2_request =
  v2_selected_key :: keyed_public_key
  v2_client_public_key_hex :: str
  v2_model_public_key_hex :: str
  v2_nonce :: str
  v2_timestamp :: u64
  v2_payload :: json
  v2_request_model :: str

definition check_v2_headers :: "u64 \<Rightarrow> e2ee_request_parts \<Rightarrow> e2ee_error + (str \<times> str \<times> str \<times> u64)" where
  "check_v2_headers now parts =
     bind_result (ok_or HeaderMissing (ep_version parts)) (\<lambda>version.
     if version \<noteq> E2EE_VERSION_V2 then Inl InvalidVersion
     else
       bind_result (ok_or HeaderMissing (ep_client_public_key parts)) (\<lambda>client_public_key.
       bind_result (ok_or HeaderMissing (ep_model_public_key parts)) (\<lambda>model_public_key.
       bind_result (ok_or HeaderMissing (ep_nonce parts)) (\<lambda>nonce.
       bind_result (ok_or HeaderMissing (ep_timestamp parts)) (\<lambda>timestamp.
       bind_result (validate_aci_e2ee_nonce nonce) (\<lambda>_.
       bind_result (ok_or InvalidTimestamp (parse_u64 timestamp)) (\<lambda>timestamp.
         if 300 < abs_diff now timestamp then Inl InvalidTimestamp
         else Inr (client_public_key, model_public_key, nonce, timestamp))))))))"

definition check_v2_request :: "e2ee_env \<Rightarrow> u64 \<Rightarrow> e2ee_request_parts \<Rightarrow> bytes \<Rightarrow> e2ee_error + v2_request" where
  "check_v2_request en now parts body =
     bind_result (check_v2_headers now parts) (\<lambda>(client_public_key, model_public_key, nonce, timestamp).
     bind_result (ok_or ModelKeyMismatch (List.find (suite_key_matches (en_lib en) model_public_key) (en_e2ee_public_keys en))) (\<lambda>selected_key.
     bind_result (map_err (\<lambda>_. InvalidPublicKey) (normalize_aci_e2ee_public_key_hex (en_lib en) (kpk_algo selected_key) client_public_key)) (\<lambda>client_public_key_hex.
     bind_result (map_err (\<lambda>_. InvalidPublicKey) (normalize_aci_e2ee_public_key_hex (en_lib en) (kpk_algo selected_key) model_public_key)) (\<lambda>model_public_key_hex.
     bind_result (ok_or DecryptionFailed (from_slice (en_serde en) body)) (\<lambda>payload.
     bind_result (validate_aci_payload_model payload) (\<lambda>request_model.
       Inr \<lparr>v2_selected_key = selected_key, v2_client_public_key_hex = client_public_key_hex, v2_model_public_key_hex = model_public_key_hex,
         v2_nonce = nonce, v2_timestamp = timestamp, v2_payload = payload, v2_request_model = request_model\<rparr>))))))"

definition v2_crypto :: "e2ee_env \<Rightarrow> v2_request \<Rightarrow> field_crypto" where
  "v2_crypto en v =
     \<lparr>fc_keys = en_keys en, fc_decryptor = AciV2Key (kpk_key_id (v2_selected_key v)), fc_algo = kpk_algo (v2_selected_key v),
       fc_aad_mode = AciV2, fc_model = v2_request_model v, fc_nonce = Some (v2_nonce v), fc_timestamp = Some (v2_timestamp v)\<rparr>"

definition v2_context :: "v2_request \<Rightarrow> e2ee_context" where
  "v2_context v =
     \<lparr>ec_version = E2EE_VERSION_V2, ec_algo = kpk_algo (v2_selected_key v), ec_aad_mode = AciV2, ec_request_model = v2_request_model v,
       ec_client_public_key_hex = v2_client_public_key_hex v, ec_nonce = Some (v2_nonce v), ec_timestamp = Some (v2_timestamp v)\<rparr>"

definition prepare_legacy_e2ee_request :: "e2ee_env \<Rightarrow> e2ee_request_parts \<Rightarrow> bytes \<Rightarrow> str \<Rightarrow> e2ee_error + e2ee_prepared_request" where
  "prepare_legacy_e2ee_request en parts body endpoint_path =
     bind_result (map_sum id (\<lambda>s. to_ascii_lowercase (trim s)) (ok_or HeaderMissing (ep_signing_algo parts))) (\<lambda>signing_algo.
     if signing_algo \<noteq> E2EE_ALGO_LEGACY_ECDSA \<and> signing_algo \<noteq> E2EE_ALGO_LEGACY_ED25519 then Inl InvalidSigningAlgo
     else
       bind_result (ok_or HeaderMissing (ep_client_public_key parts)) (\<lambda>client_public_key.
       bind_result (ok_or HeaderMissing (ep_model_public_key parts)) (\<lambda>model_public_key.
       bind_result (ok_or ModelKeyMismatch (List.find (\<lambda>key. kpk_algo key = signing_algo
                      \<and> legacy_public_keys_match (en_lib en) signing_algo (kpk_public_key_hex key) model_public_key) (en_e2ee_public_keys en))) (\<lambda>_.
       let version_header = (case ep_version parts of Some v \<Rightarrow> trim v | None \<Rightarrow> [])
       in if (version_header \<noteq> [] \<and> version_header \<noteq> E2EE_VERSION_V1)
             \<or> (case ep_nonce parts of Some n \<Rightarrow> trim n \<noteq> [] | None \<Rightarrow> False)
             \<or> (case ep_timestamp parts of Some t \<Rightarrow> trim t \<noteq> [] | None \<Rightarrow> False)
          then Inl InvalidVersion
          else
            bind_result (ok_or DecryptionFailed (from_slice (en_serde en) body)) (\<lambda>payload.
            bind_result (validate_aci_payload_model payload) (\<lambda>request_model.
            let c = \<lparr>fc_keys = en_keys en, fc_decryptor = LegacyAlgo signing_algo, fc_algo = signing_algo, fc_aad_mode = LegacyV1,
                      fc_model = request_model, fc_nonce = None, fc_timestamp = None\<rparr>
            in bind_result (decrypt_request_payload (en_serde en) c endpoint_path payload) (\<lambda>payload.
               bind_result (ok_or DecryptionFailed (to_vec (en_serde en) payload)) (\<lambda>decrypted_body.
               bind_result (normalize_legacy_public_key_for_replay (en_lib en) signing_algo client_public_key) (\<lambda>client_public_key_hex.
                 Inr \<lparr>pq_decrypted_body = decrypted_body, pq_context = \<lparr>ec_version = E2EE_VERSION_V1, ec_algo = signing_algo, ec_aad_mode = LegacyV1,
                       ec_request_model = request_model, ec_client_public_key_hex = client_public_key_hex, ec_nonce = None, ec_timestamp = None\<rparr>\<rparr>)))))))))"

definition prepare_e2ee_v2_request ::
    "e2ee_env \<Rightarrow> u64 \<Rightarrow> e2ee_request_parts \<Rightarrow> bytes \<Rightarrow> str \<Rightarrow> replay_cache \<Rightarrow> (e2ee_error + e2ee_prepared_request) \<times> replay_cache" where
  "prepare_e2ee_v2_request en now parts body endpoint_path cache =
     (if ep_signing_algo parts \<noteq> None then (prepare_legacy_e2ee_request en parts body endpoint_path, cache)
      else
        case check_v2_request en now parts body of
          Inl e \<Rightarrow> (Inl e, cache)
        | Inr v \<Rightarrow>
            (case claim_e2ee_replay (v2_client_public_key_hex v) (v2_model_public_key_hex v) (v2_nonce v) now cache of
               (Inl e, cache) \<Rightarrow> (Inl e, cache)
             | (Inr _, cache) \<Rightarrow>
                 (bind_result (decrypt_request_payload (en_serde en) (v2_crypto en v) endpoint_path (v2_payload v)) (\<lambda>payload.
                  bind_result (ok_or DecryptionFailed (to_vec (en_serde en) payload)) (\<lambda>decrypted_body.
                    Inr \<lparr>pq_decrypted_body = decrypted_body, pq_context = v2_context v\<rparr>)), cache)))"

section \<open>Associated data binds its context\<close>

lemma aad_wf [simp]:
  "wf_json (request_aad_value a m f n t)" "float_free (request_aad_value a m f n t)"
  "wf_json (response_aad_value a m i f n t)" "float_free (response_aad_value a m i f n t)"
  by (simp_all add: request_aad_value_def response_aad_value_def)

lemma logical_members:
  "logical (Object m) = logical (Object m') \<Longrightarrow> map_option logical (obj_get m k) = map_option logical (obj_get m' k)"
  by (simp add: fun_eq_iff)

lemma request_aad_logical:
  "logical (request_aad_value a m f n t) = logical (request_aad_value a' m' f' n' t') \<longleftrightarrow>
   a = a' \<and> m = m' \<and> f = f' \<and> n = n' \<and> t = t'" (is "?l = ?r \<longleftrightarrow> _")
proof
  assume "?l = ?r"
  note mem = logical_members [OF this [unfolded request_aad_value_def]]
  show "a = a' \<and> m = m' \<and> f = f' \<and> n = n' \<and> t = t'"
    using mem [of "lit ''algo''"] mem [of "lit ''model''"] mem [of "lit ''field''"] mem [of "lit ''nonce''"] mem [of "lit ''ts''"]
    by (simp add: json_u64_def word_uint_eq_iff)
qed simp

lemma response_aad_logical:
  "logical (response_aad_value a m i f n t) = logical (response_aad_value a' m' i' f' n' t') \<longleftrightarrow>
   a = a' \<and> m = m' \<and> i = i' \<and> f = f' \<and> n = n' \<and> t = t'" (is "?l = ?r \<longleftrightarrow> _")
proof
  assume "?l = ?r"
  note mem = logical_members [OF this [unfolded response_aad_value_def]]
  show "a = a' \<and> m = m' \<and> i = i' \<and> f = f' \<and> n = n' \<and> t = t'"
    using mem [of "lit ''algo''"] mem [of "lit ''model''"] mem [of "lit ''id''"] mem [of "lit ''field''"] mem [of "lit ''nonce''"]
      mem [of "lit ''ts''"]
    by (simp add: json_u64_def word_uint_eq_iff)
qed simp

lemma purposes_differ: "logical (request_aad_value a m f n t) \<noteq> logical (response_aad_value a' m' i f' n' t')"
proof
  assume "logical (request_aad_value a m f n t) = logical (response_aad_value a' m' i f' n' t')"
  from logical_members [OF this [unfolded request_aad_value_def response_aad_value_def], of "lit ''purpose''"]
  show False by simp
qed

lemma aad_defined:
  "\<exists>x. canonicalize (request_aad_value a m f n t) = Inr x \<and> aci_request_aad a m f n t = Inr x"
  "\<exists>x. canonicalize (response_aad_value a m i f n t) = Inr x \<and> aci_response_aad a m i f n t = Inr x"
  using canonicalize_defined [OF aad_wf(1,2), of a m f n t] canonicalize_defined [OF aad_wf(3,4), of a m i f n t]
  by (auto simp: aci_request_aad_def aci_response_aad_def)

lemma aad_eq:
  "aci_request_aad a m f n t = aci_request_aad a' m' f' n' t' \<longleftrightarrow>
     canonicalize (request_aad_value a m f n t) = canonicalize (request_aad_value a' m' f' n' t')"
  "aci_response_aad a m i f n t = aci_response_aad a' m' i' f' n' t' \<longleftrightarrow>
     canonicalize (response_aad_value a m i f n t) = canonicalize (response_aad_value a' m' i' f' n' t')"
  "aci_request_aad a m f n t = aci_response_aad a' m' i f' n' t' \<longleftrightarrow>
     canonicalize (request_aad_value a m f n t) = canonicalize (response_aad_value a' m' i f' n' t')"
  using aad_defined(1) [of a m f n t] aad_defined(1) [of a' m' f' n' t'] aad_defined(2) [of a m i f n t]
    aad_defined(2) [of a' m' i' f' n' t'] aad_defined(2) [of a' m' i f' n' t']
  by auto

section \<open>The replay cache\<close>

definition replay_key :: "v2_request \<Rightarrow> e2ee_replay_key" where
  "replay_key v = \<lparr>rk_client_public_key_hex = v2_client_public_key_hex v, rk_model_public_key_hex = v2_model_public_key_hex v, rk_nonce = v2_nonce v\<rparr>"

text \<open>The key is held at time \<open>t\<close>.\<close>

definition held :: "e2ee_replay_key \<Rightarrow> u64 \<Rightarrow> replay_cache \<Rightarrow> bool" where
  "held key t cache \<longleftrightarrow> (\<exists>e. (key, e) \<in> set cache \<and> t < e)"

lemma map_of_filter_held: "map_of (filter (\<lambda>(_, e). t < e) cache) key \<noteq> None \<longleftrightarrow> held key t cache"
  by (auto simp: map_of_eq_None_iff held_def image_iff Bex_def)

lemma claim_cases:
  "claim_e2ee_replay c m n now cache =
     (let key = \<lparr>rk_client_public_key_hex = c, rk_model_public_key_hex = m, rk_nonce = n\<rparr>;
          live = filter (\<lambda>(_, e). now < e) cache
      in if held key now cache then (Inl ReplayDetected, live) else (Inr (), (key, saturating_add now 300) # live))"
  unfolding claim_e2ee_replay_def Let_def map_of_filter_held by simp

lemma claim_keeps:
  assumes "held key t cache" "now \<le> t"
  shows "held key t (snd (claim_e2ee_replay c m n now cache))"
  using assms by (auto simp: claim_cases Let_def held_def split: if_splits)

lemma prepare_keeps:
  assumes "held key t cache" "now \<le> t"
  shows "held key t (snd (prepare_e2ee_v2_request en now parts body path cache))"
proof (cases "ep_signing_algo parts")
  case None
  show ?thesis
  proof (cases "check_v2_request en now parts body")
    case (Inl e)
    then show ?thesis using assms by (simp add: prepare_e2ee_v2_request_def None)
  next
    case (Inr v)
    obtain r cache' where c: "claim_e2ee_replay (v2_client_public_key_hex v) (v2_model_public_key_hex v) (v2_nonce v) now cache = (r, cache')"
      by fastforce
    have "held key t cache'" using claim_keeps [OF assms, of "v2_client_public_key_hex v" "v2_model_public_key_hex v" "v2_nonce v"] c by simp
    then show ?thesis by (cases r) (simp_all add: prepare_e2ee_v2_request_def None Inr c)
  qed
qed (use assms in \<open>simp add: prepare_e2ee_v2_request_def\<close>)

text \<open>A request as the service sees it: the time, the headers, the body and the endpoint.\<close>

type_synonym e2ee_arrival = "u64 \<times> e2ee_request_parts \<times> bytes \<times> str"

fun serve_arrivals :: "e2ee_env \<Rightarrow> e2ee_arrival list \<Rightarrow> replay_cache \<Rightarrow> replay_cache" where
  "serve_arrivals en [] cache = cache"
| "serve_arrivals en ((now, parts, body, path) # rest) cache =
     serve_arrivals en rest (snd (prepare_e2ee_v2_request en now parts body path cache))"

lemma serve_keeps:
  assumes "held key t cache" "\<forall>(now, _) \<in> set arrivals. now \<le> t"
  shows "held key t (serve_arrivals en arrivals cache)"
  using assms by (induction en arrivals cache rule: serve_arrivals.induct) (simp_all add: prepare_keeps)

lemma prepare_v2:
  assumes "ep_signing_algo parts = None" "check_v2_request en now parts body = Inr v"
  shows "prepare_e2ee_v2_request en now parts body path cache =
    (let live = filter (\<lambda>(_, e). now < e) cache
     in if held (replay_key v) now cache then (Inl ReplayDetected, live)
        else (bind_result (decrypt_request_payload (en_serde en) (v2_crypto en v) path (v2_payload v)) (\<lambda>payload.
              bind_result (ok_or DecryptionFailed (to_vec (en_serde en) payload)) (\<lambda>decrypted_body.
                Inr \<lparr>pq_decrypted_body = decrypted_body, pq_context = v2_context v\<rparr>)),
              (replay_key v, saturating_add now 300) # live))"
  using assms by (simp add: prepare_e2ee_v2_request_def claim_cases replay_key_def Let_def)

lemma prepare_v2_Inr:
  assumes "prepare_e2ee_v2_request en now parts body path cache = (Inr p, cache')" "ep_signing_algo parts = None"
  obtains v payload where "check_v2_request en now parts body = Inr v" "\<not> held (replay_key v) now cache"
    "cache' = (replay_key v, saturating_add now 300) # filter (\<lambda>(_, e). now < e) cache"
    "decrypt_request_payload (en_serde en) (v2_crypto en v) path (v2_payload v) = Inr payload"
    "to_vec (en_serde en) payload = Some (pq_decrypted_body p)" "pq_context p = v2_context v"
proof (cases "check_v2_request en now parts body")
  case (Inl e)
  then show thesis using assms by (simp add: prepare_e2ee_v2_request_def)
next
  case (Inr v)
  note step = assms(1) [unfolded prepare_v2 [OF assms(2) Inr] Let_def]
  show thesis
  proof (cases "held (replay_key v) now cache")
    case True
    then show thesis using step by simp
  next
    case False
    have "\<exists>payload. decrypt_request_payload (en_serde en) (v2_crypto en v) path (v2_payload v) = Inr payload
        \<and> to_vec (en_serde en) payload = Some (pq_decrypted_body p) \<and> pq_context p = v2_context v"
      using step False by (auto simp: bind_result_Inr ok_or_def split: option.splits)
    then show thesis using that [OF Inr False] step False by (auto simp: Let_def)
  qed
qed

lemma check_v2_headers_Inr:
  "check_v2_headers now parts = Inr (c, m, n, t) \<longleftrightarrow>
     ep_version parts = Some E2EE_VERSION_V2 \<and> ep_client_public_key parts = Some c \<and> ep_model_public_key parts = Some m
     \<and> ep_nonce parts = Some n \<and> validate_aci_e2ee_nonce n = Inr ()
     \<and> (\<exists>s. ep_timestamp parts = Some s \<and> parse_u64 s = Some t) \<and> abs_diff now t \<le> 300"
  by (auto simp: check_v2_headers_def bind_result_Inr not_less)

lemma check_v2_request_Inr:
  "check_v2_request en now parts body = Inr v \<longleftrightarrow>
     (\<exists>c m. check_v2_headers now parts = Inr (c, m, v2_nonce v, v2_timestamp v)
        \<and> List.find (suite_key_matches (en_lib en) m) (en_e2ee_public_keys en) = Some (v2_selected_key v)
        \<and> normalize_aci_e2ee_public_key_hex (en_lib en) (kpk_algo (v2_selected_key v)) c = Inr (v2_client_public_key_hex v)
        \<and> normalize_aci_e2ee_public_key_hex (en_lib en) (kpk_algo (v2_selected_key v)) m = Inr (v2_model_public_key_hex v)
        \<and> from_slice (en_serde en) body = Some (v2_payload v) \<and> validate_aci_payload_model (v2_payload v) = Inr (v2_request_model v))"
  unfolding check_v2_request_def bind_result_Inr map_err_Inr split_paired_Ex case_prod_conv ok_or_simps
  by (cases v) auto

lemma abs_diff_nat: "abs_diff a b \<le> 300 \<longleftrightarrow> unat a \<le> unat b + 300 \<and> unat b \<le> unat a + 300"
proof -
  have "unat (b - a) = unat b - unat a" if "a \<le> b" using that by (rule unat_sub)
  moreover have "unat (a - b) = unat a - unat b" if "\<not> a \<le> b" using that by (intro unat_sub) simp
  ultimately show ?thesis by (auto simp: abs_diff_def word_le_nat_alt)
qed

section \<open>A sealed conversation is opened\<close>

lemma obj_insert_twice [simp]: "obj_insert (obj_insert m k v) k w = obj_insert m k w"
  by (induction m) auto

lemma aad_mode_request:
  assumes "fc_aad_mode c = AciV2" "fc_nonce c = Some nonce" "fc_timestamp c = Some ts"
    and "aci_request_aad (fc_algo c) (fc_model c) field nonce ts = Inr aad"
  shows "request_field_aad c field = Inr (Some aad)"
  using assms by (simp add: request_field_aad_def nonce_ts_def)

text \<open>
  \<open>sealed_field L pk c field msg ct\<close>: \<open>ct\<close> is \<open>msg\<close> encrypted by a client to the service key \<open>pk\<close>,
  under the associated data of the request \<open>c\<close> and the location \<open>field\<close>, with some ephemeral
  secret and nonce.
\<close>

definition sealed_field :: "crypto_lib \<Rightarrow> str \<Rightarrow> field_crypto \<Rightarrow> str \<Rightarrow> str \<Rightarrow> str \<Rightarrow> bool" where
  "sealed_field L pk c field msg ct \<longleftrightarrow>
     (\<exists>eph iv aad. length iv = NONCE_LEN \<and> request_field_aad c field = Inr (Some aad)
        \<and> encrypt_aci_e2ee_for_public_key L eph iv (fc_algo c) pk (as_bytes msg) aad = Inr ct)"

text \<open>The request of a client that encrypts to a key the provider publishes.\<close>

definition addressed_to :: "crypto_lib \<Rightarrow> e2ee_secrets \<Rightarrow> keyed_public_key \<Rightarrow> field_crypto \<Rightarrow> bool" where
  "addressed_to L s key c \<longleftrightarrow>
     key \<in> set (provider_e2ee_keys L s) \<and> is_aci_e2ee_suite (kpk_algo key) \<and> fc_aad_mode c = AciV2
     \<and> fc_algo c = kpk_algo key \<and> fc_decryptor c = AciV2Key (kpk_key_id key)
     \<and> fc_keys c = \<lparr>ko_decrypt_e2ee = decrypt_e2ee L s, ko_decrypt_legacy_e2ee = decrypt_legacy_e2ee L s\<rparr>"

lemma suite_roundtrip:
  assumes "lawful L" "length iv = NONCE_LEN" "es_e2ee_key_id s \<noteq> es_x25519_e2ee_key_id s"
    and "key \<in> set (provider_e2ee_keys L s)" "is_aci_e2ee_suite (kpk_algo key)"
    and "encrypt_aci_e2ee_for_public_key L eph iv (kpk_algo key) (kpk_public_key_hex key) m aad = Inr ct"
  shows "decrypt_e2ee L s (kpk_key_id key) ct aad = Inr m"
  using assms(3-6) x25519_roundtrip [OF assms(1,2)] secp_roundtrip [OF assms(1,2)]
  by (auto simp: provider_e2ee_keys_def encrypt_aci_e2ee_for_public_key_def decrypt_e2ee_def)

lemma sealed_field_opens:
  assumes "lawful L" "es_e2ee_key_id s \<noteq> es_x25519_e2ee_key_id s" "addressed_to L s key c"
    and "sealed_field L (kpk_public_key_hex key) c field msg ct"
  shows "decrypt_text c field ct = Inr msg"
proof -
  obtain eph iv aad where iv: "length iv = NONCE_LEN" and aad: "request_field_aad c field = Inr (Some aad)"
    and ct: "encrypt_aci_e2ee_for_public_key L eph iv (kpk_algo key) (kpk_public_key_hex key) (as_bytes msg) aad = Inr ct"
    using assms(3,4) by (auto simp: sealed_field_def addressed_to_def)
  have "decrypt_e2ee L s (kpk_key_id key) ct aad = Inr (as_bytes msg)"
    using suite_roundtrip [OF assms(1) iv assms(2) _ _ ct] assms(3) by (simp add: addressed_to_def)
  then show ?thesis
    using assms(3) by (simp add: decrypt_text_def aad decrypt_e2ee_field_def addressed_to_def from_utf8_as_bytes)
qed

text \<open>Messages with their \<open>content\<close> replaced.\<close>

definition with_contents :: "obj list \<Rightarrow> json list \<Rightarrow> json list" where
  "with_contents ms contents = map2 (\<lambda>m v. Object (obj_insert m (lit ''content'') v)) ms contents"

lemma decrypt_messages:
  assumes "list_all2 (\<lambda>msg ct. True) texts cts" "length ms = length texts"
    and "\<And>j. j < length texts \<Longrightarrow> decrypt_text c (content_path (i + j)) (cts ! j) = Inr (texts ! j)"
  shows "each_counted (decrypt_message sj c) i (with_contents ms (map JString cts)) =
    Inr (with_contents ms (map (decrypted_chat_content_value sj) texts), length texts)"
  using assms
proof (induction texts cts arbitrary: ms i rule: list_all2_induct)
  case (Cons msg texts ct cts)
  obtain m ms' where ms: "ms = m # ms'" "length ms' = length texts" using Cons.prems(1) by (cases ms) auto
  have "decrypt_text c (content_path i) ct = Inr msg" using Cons.prems(2) [of 0] by simp
  moreover have "each_counted (decrypt_message sj c) (Suc i) (with_contents ms' (map JString cts)) =
      Inr (with_contents ms' (map (decrypted_chat_content_value sj) texts), length texts)"
    using ms(2) Cons.prems(2) [of "Suc j" for j] by (intro Cons.IH) auto
  moreover have "decrypt_message sj c i (Object (obj_insert m (lit ''content'') (JString ct))) =
      Inr (Object (obj_insert m (lit ''content'') (decrypted_chat_content_value sj msg)), 1)"
    if "decrypt_text c (content_path i) ct = Inr msg"
    using that by (simp add: decrypt_message_def decrypt_content_value_def)
  ultimately show ?case by (simp add: ms with_contents_def)
qed (simp add: with_contents_def)

section \<open>A response is sealed for the client\<close>

text \<open>The client's key pair and decryption, by suite.\<close>

definition client_key :: "crypto_lib \<Rightarrow> str \<Rightarrow> bytes \<Rightarrow> str" where
  "client_key L algo secret = (if algo = E2EE_ALGO_X25519_AESGCM then x25519_public_key_hex L secret else public_key_from_secret L secret)"

definition client_open :: "crypto_lib \<Rightarrow> str \<Rightarrow> bytes \<Rightarrow> str \<Rightarrow> bytes \<Rightarrow> key_error + bytes" where
  "client_open L algo secret ct aad =
     (if algo = E2EE_ALGO_X25519_AESGCM then decrypt_x25519_with_secret_key L secret ct aad
      else decrypt_with_secret_key L secret ct aad)"

text \<open>
  \<open>sealed_for L ctx secret rid field clear ct\<close>: the client opens \<open>ct\<close> to \<open>clear\<close> under the
  associated data of its own request, the response id and the location.
\<close>

definition sealed_for :: "crypto_lib \<Rightarrow> e2ee_context \<Rightarrow> bytes \<Rightarrow> str \<Rightarrow> str \<Rightarrow> str \<Rightarrow> str \<Rightarrow> bool" where
  "sealed_for L ctx secret rid field clear ct \<longleftrightarrow>
     (\<exists>nonce ts aad. ec_nonce ctx = Some nonce \<and> ec_timestamp ctx = Some ts
        \<and> aci_response_aad (ec_algo ctx) (ec_request_model ctx) rid field nonce ts = Inr aad
        \<and> client_open L (ec_algo ctx) secret ct aad = Inr (as_bytes clear))"

definition sealing :: "crypto_lib \<Rightarrow> (nat \<Rightarrow> bytes \<times> bytes) \<Rightarrow> e2ee_context \<Rightarrow> bytes \<Rightarrow> bool" where
  "sealing L rnd ctx secret \<longleftrightarrow>
     lawful L \<and> (\<forall>k. length (snd (rnd k)) = NONCE_LEN) \<and> ec_aad_mode ctx = AciV2
     \<and> ec_client_public_key_hex ctx = client_key L (ec_algo ctx) secret"

lemma sealing_opens:
  assumes "sealing L rnd ctx secret" and "encrypt_response_plaintext L (rnd k) ctx m (Some aad) = Inr ct"
  shows "client_open L (ec_algo ctx) secret ct aad = Inr m"
proof -
  have law: "lawful L" "length (snd (rnd k)) = NONCE_LEN" using assms(1) by (simp_all add: sealing_def)
  obtain ct' where "encrypt_aci_e2ee_for_public_key L (fst (rnd k)) (snd (rnd k)) (ec_algo ctx) (client_key L (ec_algo ctx) secret) m aad = Inr ct'"
      "ct = ct'"
    using assms by (auto simp: sealing_def encrypt_response_plaintext_def map_err_Inr)
  then show ?thesis
    using x25519_roundtrip [OF law, of "fst (rnd k)" secret m aad ct] secp_roundtrip [OF law, of "fst (rnd k)" secret m aad ct]
    by (auto simp: encrypt_aci_e2ee_for_public_key_def client_key_def client_open_def split: if_splits)
qed

text \<open>What became of the string member \<open>k\<close> of an object, at the location \<open>field\<close>.\<close>

definition member_sealed :: "crypto_lib \<Rightarrow> e2ee_context \<Rightarrow> bytes \<Rightarrow> str \<Rightarrow> str \<Rightarrow> str \<Rightarrow> obj \<Rightarrow> obj \<Rightarrow> bool" where
  "member_sealed L ctx secret rid k field m m' \<longleftrightarrow>
     (case obj_get m k of
        Some (JString s) \<Rightarrow> (\<exists>ct. obj_get m' k = Some (JString ct) \<and> sealed_for L ctx secret rid field s ct)
      | v \<Rightarrow> obj_get m' k = v)"

lemma member_sealed_cong:
  "obj_get m1 k = obj_get m2 k \<Longrightarrow> obj_get m1' k = obj_get m2' k \<Longrightarrow>
   member_sealed L ctx secret rid k field m1 m1' \<longleftrightarrow> member_sealed L ctx secret rid k field m2 m2'"
  unfolding member_sealed_def by (simp only:)

lemma response_aad_Inr:
  assumes "ec_aad_mode ctx = AciV2" "response_aad_for_context ctx rid field = Inr a"
  obtains nonce ts aad where "a = Some aad" "ec_nonce ctx = Some nonce" "ec_timestamp ctx = Some ts"
    "aci_response_aad (ec_algo ctx) (ec_request_model ctx) rid field nonce ts = Inr aad"
  using assms by (auto simp: response_aad_for_context_def response_nonce_ts_def bind_result_Inr ok_or_def split: option.splits)

lemma encrypt_response_field_sealed:
  assumes "sealing L rnd ctx secret" and "encrypt_response_field L rnd ctx rid name field m k = Inr (m', k')"
  shows "member_sealed L ctx secret rid name field m m'" "x \<noteq> name \<Longrightarrow> obj_get m' x = obj_get m x"
proof -
  have mode: "ec_aad_mode ctx = AciV2" using assms(1) by (simp add: sealing_def)
  have "member_sealed L ctx secret rid name field m m' \<and> (x \<noteq> name \<longrightarrow> obj_get m' x = obj_get m x)"
  proof (cases "\<exists>s. obj_get m name = Some (JString s)")
    case True
    then obtain s where s: "obj_get m name = Some (JString s)" by blast
    obtain a ct where a: "response_aad_for_context ctx rid field = Inr a"
      and ct: "encrypt_response_plaintext L (rnd k) ctx (as_bytes s) a = Inr ct" and m': "m' = obj_insert m name (JString ct)"
      using assms(2) by (auto simp: encrypt_response_field_def s bind_result_Inr)
    obtain nonce ts aad where aad: "a = Some aad" "ec_nonce ctx = Some nonce" "ec_timestamp ctx = Some ts"
      "aci_response_aad (ec_algo ctx) (ec_request_model ctx) rid field nonce ts = Inr aad"
      by (rule response_aad_Inr [OF mode a])
    have "client_open L (ec_algo ctx) secret ct aad = Inr (as_bytes s)" using sealing_opens [OF assms(1)] ct aad(1) by simp
    then have "sealed_for L ctx secret rid field s ct" using aad by (simp add: sealed_for_def)
    then show ?thesis by (simp add: m' member_sealed_def s)
  next
    case False
    then have "m' = m" using assms(2) by (auto simp: encrypt_response_field_def split: option.splits json.splits)
    then show ?thesis using False by (auto simp: member_sealed_def split: option.splits json.splits)
  qed
  then show "member_sealed L ctx secret rid name field m m'" "x \<noteq> name \<Longrightarrow> obj_get m' x = obj_get m x" by blast+
qed

lemma obj_insert_same: "obj_get m k = Some v \<Longrightarrow> obj_insert m k v = m"
  by (induction m) (auto split: if_splits)

text \<open>The audio of a message is a string member of a nested object.\<close>

lemma audio_as_field:
  assumes "ec_aad_mode ctx = AciV2" "obj_get m (lit ''audio'') = Some (Object a)"
  shows "encrypt_message_audio_data L rnd ctx rid i m k =
    bind_result (encrypt_response_field L rnd ctx rid (lit ''data'') (choice_path i (lit ''.message.audio.data'')) a k) (\<lambda>(a', k').
      Inr (obj_insert m (lit ''audio'') (Object a'), k'))"
proof (cases "\<exists>s. obj_get a (lit ''data'') = Some (JString s)")
  case True
  then obtain s where s: "obj_get a (lit ''data'') = Some (JString s)" by blast
  have path: "lit ''choices.'' @ num (unat i) @ lit ''.message.audio.data'' = choice_path i (lit ''.message.audio.data'')"
    by (simp add: choice_path_def)
  have assoc: "bind_result (bind_result r f) g = bind_result r (\<lambda>x. bind_result (f x) g)"
    for r :: "e2ee_error + 'x" and f :: "'x \<Rightarrow> e2ee_error + 'y" and g :: "'y \<Rightarrow> e2ee_error + 'z"
    by (cases r) simp_all
  show ?thesis
    unfolding encrypt_message_audio_data_def encrypt_response_field_def response_aad_for_context_def Let_def path assms s
      option.case json.case e2ee_aad_mode.case assoc case_prod_unfold bind_result_simps fst_conv snd_conv ..
next
  case False
  then have "encrypt_response_field L rnd ctx rid (lit ''data'') (choice_path i (lit ''.message.audio.data'')) a k = Inr (a, k)"
    "encrypt_message_audio_data L rnd ctx rid i m k = Inr (m, k)"
    by (auto simp: encrypt_response_field_def encrypt_message_audio_data_def assms split: option.splits json.splits)
  then show ?thesis using assms(2) by (simp add: obj_insert_same)
qed

definition audio_sealed :: "crypto_lib \<Rightarrow> e2ee_context \<Rightarrow> bytes \<Rightarrow> str \<Rightarrow> u64 \<Rightarrow> obj \<Rightarrow> obj \<Rightarrow> bool" where
  "audio_sealed L ctx secret rid i m m' \<longleftrightarrow>
     (case obj_get m (lit ''audio'') of
        Some (Object a) \<Rightarrow>
          (\<exists>a'. obj_get m' (lit ''audio'') = Some (Object a')
             \<and> member_sealed L ctx secret rid (lit ''data'') (choice_path i (lit ''.message.audio.data'')) a a'
             \<and> (\<forall>x. x \<noteq> lit ''data'' \<longrightarrow> obj_get a' x = obj_get a x))
      | v \<Rightarrow> obj_get m' (lit ''audio'') = v)"

definition message_sealed :: "crypto_lib \<Rightarrow> e2ee_context \<Rightarrow> bytes \<Rightarrow> str \<Rightarrow> u64 \<Rightarrow> obj \<Rightarrow> obj \<Rightarrow> bool" where
  "message_sealed L ctx secret rid i m m' \<longleftrightarrow>
     member_sealed L ctx secret rid (lit ''content'') (choice_path i (lit ''.message.content'')) m m'
     \<and> member_sealed L ctx secret rid (lit ''reasoning_content'') (choice_path i (lit ''.message.reasoning_content'')) m m'
     \<and> audio_sealed L ctx secret rid i m m'
     \<and> (\<forall>x. x \<noteq> lit ''content'' \<longrightarrow> x \<noteq> lit ''reasoning_content'' \<longrightarrow> x \<noteq> lit ''audio'' \<longrightarrow> obj_get m' x = obj_get m x)"

lemma encrypt_audio_sealed:
  assumes "sealing L rnd ctx secret" and "encrypt_message_audio_data L rnd ctx rid i m k = Inr (m', k')"
  shows "audio_sealed L ctx secret rid i m m' \<and> (\<forall>x. x \<noteq> lit ''audio'' \<longrightarrow> obj_get m' x = obj_get m x)"
proof (cases "\<exists>a. obj_get m (lit ''audio'') = Some (Object a)")
  case True
  then obtain a where a: "obj_get m (lit ''audio'') = Some (Object a)" by blast
  have "ec_aad_mode ctx = AciV2" using assms(1) by (simp add: sealing_def)
  from assms(2) [unfolded audio_as_field [OF this a]]
  obtain a' where a': "encrypt_response_field L rnd ctx rid (lit ''data'') (choice_path i (lit ''.message.audio.data'')) a k = Inr (a', k')"
    and m': "m' = obj_insert m (lit ''audio'') (Object a')"
    by (auto simp: bind_result_Inr)
  show ?thesis
    using encrypt_response_field_sealed [OF assms(1) a'] by (simp add: audio_sealed_def a m')
next
  case False
  then have "m' = m" using assms(2) by (auto simp: encrypt_message_audio_data_def split: option.splits json.splits)
  then show ?thesis using False by (auto simp: audio_sealed_def split: option.splits json.splits)
qed

lemma encrypt_message_sealed:
  assumes "sealing L rnd ctx secret" and "encrypt_message L rnd ctx rid i m k = Inr (m', k')"
  shows "message_sealed L ctx secret rid i m m'"
proof -
  have aci: "is_aci (ec_aad_mode ctx)" using assms(1) by (simp add: sealing_def is_aci_def)
  obtain m1 k1 m2 k2 where
    m1: "encrypt_response_field L rnd ctx rid (lit ''content'') (choice_path i (lit ''.message.content'')) m k = Inr (m1, k1)" and
    m2: "encrypt_response_field L rnd ctx rid (lit ''reasoning_content'') (choice_path i (lit ''.message.reasoning_content'')) m1 k1 = Inr (m2, k2)" and
    m3: "encrypt_message_audio_data L rnd ctx rid i m2 k2 = Inr (m', k')"
    using assms(2) aci by (auto simp: encrypt_message_def bind_result_Inr)
  note s1 = encrypt_response_field_sealed [OF assms(1) m1]
  note s2 = encrypt_response_field_sealed [OF assms(1) m2]
  note s3 = encrypt_audio_sealed [OF assms(1) m3]
  have "member_sealed L ctx secret rid (lit ''content'') (choice_path i (lit ''.message.content'')) m m'"
    using s1(1) s2(2) [of "lit ''content''"] s3 by (subst member_sealed_cong [of m _ m m' m1]) simp_all
  moreover have "member_sealed L ctx secret rid (lit ''reasoning_content'') (choice_path i (lit ''.message.reasoning_content'')) m m'"
    using s2(1) s1(2) [of "lit ''reasoning_content''"] s3 by (subst member_sealed_cong [of m _ m1 m' m2]) simp_all
  moreover have "audio_sealed L ctx secret rid i m m'"
    using s3 s1(2) [of "lit ''audio''"] s2(2) [of "lit ''audio''"] by (simp add: audio_sealed_def)
  ultimately show ?thesis using s1(2) s2(2) s3 by (simp add: message_sealed_def)
qed

lemma each_drawn_nth:
  assumes "each_drawn f i xs k = Inr (ys, k')"
  shows "length ys = length xs \<and> (\<forall>j < length xs. \<exists>k1 k2. f (i + j) (xs ! j) k1 = Inr (ys ! j, k2))"
  using assms
proof (induction xs arbitrary: i k ys)
  case (Cons x xs)
  obtain y k1 ys' where y: "f i x k = Inr (y, k1)" "each_drawn f (Suc i) xs k1 = Inr (ys', k')" "ys = y # ys'"
    using Cons.prems by (auto simp: bind_result_Inr)
  show ?case using Cons.IH [OF y(2)] y(1) by (auto simp: y(3) less_Suc_eq_0_disj nth_Cons split: nat.splits)
qed simp

lemma encrypt_choice_message:
  assumes "encrypt_choice L rnd ctx rid path inner step i x k = Inr (y, k')" "path \<noteq> COMPLETIONS_PATH" "get x inner = Some (Object m)"
  shows "\<exists>m' k'. step (entry_index x i) m k = Inr (m', k') \<and> get y inner = Some (Object m')
    \<and> (\<forall>z. z \<noteq> inner \<longrightarrow> get y z = get x z)"
  using assms by (cases x) (auto simp: encrypt_choice_def Let_def bind_result_Inr)

lemma encrypt_choices_Inr:
  assumes "encrypt_choices L rnd ctx path inner step payload = Inr payload'" "get payload (lit ''choices'') = Some (Array cs)"
    "path \<noteq> COMPLETIONS_PATH"
  shows "\<exists>cs'. payload' = set_member payload (lit ''choices'') (Array cs') \<and> length cs' = length cs
    \<and> (\<forall>j < length cs. \<forall>m. get (cs ! j) inner = Some (Object m) \<longrightarrow>
         (\<exists>m' k k'. get (cs' ! j) inner = Some (Object m') \<and> step (entry_index (cs ! j) j) m k = Inr (m', k')))"
proof -
  obtain cs' k' where cs': "each_drawn (encrypt_choice L rnd ctx (response_id_of payload) path inner step) 0 cs 0 = Inr (cs', k')"
    and p: "payload' = set_member payload (lit ''choices'') (Array cs')"
    using assms(1,2) by (auto simp: encrypt_choices_def bind_result_Inr)
  note nth = each_drawn_nth [OF cs']
  have "\<exists>m' k k'. get (cs' ! j) inner = Some (Object m') \<and> step (entry_index (cs ! j) j) m k = Inr (m', k')"
    if lt: "j < length cs" and m: "get (cs ! j) inner = Some (Object m)" for j m
  proof -
    obtain k1 k2 where "encrypt_choice L rnd ctx (response_id_of payload) path inner step j (cs ! j) k1 = Inr (cs' ! j, k2)"
      using nth lt by auto
    from encrypt_choice_message [OF this assms(3) m] show ?thesis by blast
  qed
  then show ?thesis using p nth by blast
qed

section \<open>A sample service\<close>

lemma x25519_normalize_own:
  "lawful L \<Longrightarrow> normalize_aci_e2ee_public_key_hex L E2EE_ALGO_X25519_AESGCM (x25519_public_key_hex L s) = Inr (x25519_public_key_hex L s)"
  by (simp add: normalize_aci_e2ee_public_key_hex_def normalize_x25519_public_key_hex_def x25519_public_key_hex_def lawfulD X25519_PUBLIC_KEY_LEN_def)

definition sample_payload :: json where
  "sample_payload = Object [(lit ''model'', JString (lit ''m'')),
     (lit ''messages'', Array [Object [(lit ''role'', JString (lit ''user'')), (lit ''content'', JString (lit ''ct''))]])]"

definition sample_secrets :: e2ee_secrets where
  "sample_secrets = \<lparr>es_e2ee_key_id = [], es_e2ee = [5], es_x25519_e2ee_key_id = lit ''x'', es_x25519_e2ee = [3],
     es_legacy_ed25519_key_id = [], es_legacy_ed25519 = [4]\<rparr>"

definition sample_key :: keyed_public_key where
  "sample_key = \<lparr>kpk_key_id = lit ''x'', kpk_algo = E2EE_ALGO_X25519_AESGCM, kpk_public_key_hex = x25519_public_key_hex sample_crypto [3]\<rparr>"

definition sample_env :: e2ee_env where
  "sample_env = \<lparr>en_lib = sample_crypto,
     en_serde = \<lparr>from_slice = (\<lambda>b. if b = [] then Some sample_payload else None), to_vec = (\<lambda>_. Some []),
                 from_slice_error = (\<lambda>_. []), to_vec_error = (\<lambda>_. [])\<rparr>,
     en_keys = \<lparr>ko_decrypt_e2ee = (\<lambda>_ _ _. Inr (as_bytes (lit ''hi''))), ko_decrypt_legacy_e2ee = (\<lambda>_ _ _. Inl crypto_error)\<rparr>,
     en_e2ee_public_keys = [sample_key]\<rparr>"

definition sample_parts :: e2ee_request_parts where
  "sample_parts = \<lparr>ep_signing_algo = None, ep_client_public_key = Some (x25519_public_key_hex sample_crypto [9]),
     ep_model_public_key = Some (x25519_public_key_hex sample_crypto [3]), ep_version = Some E2EE_VERSION_V2,
     ep_nonce = Some (replicate 64 (ch CHR ''0'')), ep_timestamp = Some (lit ''1300'')\<rparr>"

definition sample_v2 :: v2_request where
  "sample_v2 = \<lparr>v2_selected_key = sample_key, v2_client_public_key_hex = x25519_public_key_hex sample_crypto [9],
     v2_model_public_key_hex = x25519_public_key_hex sample_crypto [3], v2_nonce = replicate 64 (ch CHR ''0''),
     v2_timestamp = 1300, v2_payload = sample_payload, v2_request_model = lit ''m''\<rparr>"

lemma sample_nonce: "validate_aci_e2ee_nonce (replicate 64 (ch CHR ''0'')) = Inr ()"
proof -
  have "encode_utf8 (ch CHR ''0'') = [0x30]" by (simp add: encode_utf8_def ch_def)
  then have "as_bytes (replicate n (ch CHR ''0'')) = replicate n 0x30" for n
    by (induction n) (simp_all add: as_bytes_def)
  then show ?thesis by (simp add: validate_aci_e2ee_nonce_def is_ascii_hexdigit_def list_all_iff)
qed

lemma sample_timestamp: "parse_u64 (lit ''1300'') = Some 1300"
  by (simp add: parse_u64_def lit_def ch_def is_digit_def digits_value_def)

lemma sample_check:
  assumes "abs_diff now 1300 \<le> 300"
  shows "check_v2_request sample_env now sample_parts [] = Inr sample_v2"
proof -
  have "suite_key_matches sample_crypto (x25519_public_key_hex sample_crypto [3]) sample_key"
    by (simp add: suite_key_matches_def sample_key_def ok_eq_def x25519_normalize_own [OF sample_lawful])
  then show ?thesis
    using assms sample_nonce sample_timestamp x25519_normalize_own [OF sample_lawful]
    unfolding check_v2_request_Inr check_v2_headers_Inr
    by (intro exI [of _ "x25519_public_key_hex sample_crypto [9]"] exI [of _ "x25519_public_key_hex sample_crypto [3]"])
       (simp add: sample_env_def sample_parts_def sample_v2_def sample_key_def sample_payload_def validate_aci_payload_model_def)
qed

lemma sample_decrypt: "\<exists>w. decrypt_request_payload (en_serde sample_env) (v2_crypto sample_env sample_v2) CHAT_COMPLETIONS_PATH sample_payload = Inr w"
proof -
  obtain x where "aci_request_aad E2EE_ALGO_X25519_AESGCM (lit ''m'') (content_path 0) (replicate 64 (ch CHR ''0'')) 1300 = Inr x"
    using aad_defined(1) by blast
  then have "decrypt_text (v2_crypto sample_env sample_v2) (content_path 0) (lit ''ct'') = Inr (lit ''hi'')"
    by (simp add: decrypt_text_def request_field_aad_def nonce_ts_def decrypt_e2ee_field_def v2_crypto_def sample_env_def sample_v2_def
        sample_key_def from_utf8_as_bytes)
  then show ?thesis
    by (simp add: decrypt_request_payload_def sample_payload_def CHAT_COMPLETIONS_PATH_def COMPLETIONS_PATH_def EMBEDDINGS_PATH_def
        decrypt_message_def decrypt_content_value_def)
qed

definition sample_prepared_v2 :: e2ee_prepared_request where
  "sample_prepared_v2 = \<lparr>pq_decrypted_body = [], pq_context = v2_context sample_v2\<rparr>"

lemma sample_e2ee_prepare:
  "prepare_e2ee_v2_request sample_env 1000 sample_parts [] CHAT_COMPLETIONS_PATH [] = (Inr sample_prepared_v2, [(replay_key sample_v2, 1300)])"
proof -
  have "ep_signing_algo sample_parts = None" "to_vec (en_serde sample_env) w = Some []" for w
    by (simp_all add: sample_parts_def sample_env_def)
  moreover have "check_v2_request sample_env 1000 sample_parts [] = Inr sample_v2" by (rule sample_check) (simp add: abs_diff_def)
  moreover have "v2_payload sample_v2 = sample_payload" "\<not> held key t []" for key t by (simp_all add: sample_v2_def held_def)
  moreover have "saturating_add 1000 300 = 1300" by (simp add: saturating_add_def)
  ultimately show ?thesis
    using sample_decrypt by (auto simp: prepare_v2 Let_def sample_prepared_v2_def)
qed

section \<open>Properties\<close>

text \<open>
  C30. The associated data of a field binds its whole context. It can always be built; two
  request fields share it only if suite, model, field path, nonce and timestamp all agree,
  two response fields only if the response id agrees too; and no request field ever shares
  it with a response field. So no ciphertext can be moved to another location, request,
  model or direction without the authenticated decryption seeing different data.
\<close>

theorem aad_binds_context:
  "(\<exists>x. aci_request_aad a m f n t = Inr x) \<and> (\<exists>x. aci_response_aad a m i f n t = Inr x)
   \<and> (aci_request_aad a m f n t = aci_request_aad a' m' f' n' t' \<longleftrightarrow> a = a' \<and> m = m' \<and> f = f' \<and> n = n' \<and> t = t')
   \<and> (aci_response_aad a m i f n t = aci_response_aad a' m' i' f' n' t' \<longleftrightarrow>
        a = a' \<and> m = m' \<and> i = i' \<and> f = f' \<and> n = n' \<and> t = t')
   \<and> aci_request_aad a m f n t \<noteq> aci_response_aad a' m' i f' n' t'"
  using aad_defined(1) [of a m f n t] aad_defined(2) [of a m i f n t]
  unfolding aad_eq canonicalize_logical [OF aad_wf(1,1,2,2)] canonicalize_logical [OF aad_wf(3,3,4,4)]
    canonicalize_logical [OF aad_wf(1,3,2,4)] request_aad_logical response_aad_logical
  using purposes_differ [of a m f n t a' m' i f' n' t'] by blast

text \<open>
  C10. A replay is rejected for 300 seconds. Once a request has been accepted at time
  \<open>now\<close>, any later request with the same normalized client key, service key and nonce is
  rejected as a replay while its time is below \<open>now + 300\<close> (saturating), however its
  headers spell the keys, whatever its body and endpoint, and whatever other requests
  were served in between at times not after it.
\<close>

theorem replay_rejected:
  assumes "prepare_e2ee_v2_request en now parts body path cache = (Inr p, cache1)" "ep_signing_algo parts = None"
    and "check_v2_request en now parts body = Inr v"
    and "\<forall>(t, _) \<in> set arrivals. t \<le> now'" "now' < saturating_add now 300"
    and "ep_signing_algo parts' = None" "check_v2_request en now' parts' body' = Inr v'" "replay_key v' = replay_key v"
  shows "fst (prepare_e2ee_v2_request en now' parts' body' path' (serve_arrivals en arrivals cache1)) = Inl ReplayDetected"
proof -
  have "held (replay_key v) now' cache1"
    using prepare_v2_Inr [OF assms(1,2)] assms(3,5) unfolding held_def by (metis Inr_inject list.set_intros(1))
  then have "held (replay_key v') now' (serve_arrivals en arrivals cache1)" using serve_keeps assms(4,8) by simp
  then show ?thesis by (simp add: prepare_v2 [OF assms(6,7)] Let_def)
qed

theorem replay_rejected_witness:
  "fst (prepare_e2ee_v2_request sample_env 1299 sample_parts [] CHAT_COMPLETIONS_PATH
     (snd (prepare_e2ee_v2_request sample_env 1000 sample_parts [] CHAT_COMPLETIONS_PATH []))) = Inl ReplayDetected"
proof -
  have "ep_signing_algo sample_parts = None" by (simp add: sample_parts_def)
  moreover have "check_v2_request sample_env 1000 sample_parts [] = Inr sample_v2" "check_v2_request sample_env 1299 sample_parts [] = Inr sample_v2"
    by (rule sample_check, simp add: abs_diff_def)+
  ultimately have "fst (prepare_e2ee_v2_request sample_env 1299 sample_parts [] CHAT_COMPLETIONS_PATH
      (serve_arrivals sample_env [] [(replay_key sample_v2, 1300)])) = Inl ReplayDetected"
    by (intro replay_rejected [OF sample_e2ee_prepare]) (simp_all add: saturating_add_def)
  then show ?thesis by (simp add: sample_e2ee_prepare)
qed

text \<open>
  The replay cache is shorter than the acceptance window. A request accepted at time
  \<open>now\<close> is accepted again, byte for byte, at any time \<open>now'\<close> from \<open>now + 300\<close> on at which
  its timestamp is still within 300 seconds: its cache entry has expired by then.
\<close>

theorem replay_accepted_in_window:
  assumes "prepare_e2ee_v2_request en now parts body path cache = (Inr p, cache1)" "ep_signing_algo parts = None"
    and "check_v2_request en now parts body = Inr v"
    and "saturating_add now 300 \<le> now'" "abs_diff now' (v2_timestamp v) \<le> 300"
  shows "fst (prepare_e2ee_v2_request en now' parts body path cache1) = Inr p"
proof -
  have chk: "check_v2_request en now' parts body = Inr v"
    using assms(3,5) by (auto simp: check_v2_request_Inr check_v2_headers_Inr)
  obtain payload where d: "\<not> held (replay_key v) now cache"
    "cache1 = (replay_key v, saturating_add now 300) # filter (\<lambda>(_, e). now < e) cache"
    "decrypt_request_payload (en_serde en) (v2_crypto en v) path (v2_payload v) = Inr payload"
    "to_vec (en_serde en) payload = Some (pq_decrypted_body p)" "pq_context p = v2_context v"
    using prepare_v2_Inr [OF assms(1,2)] assms(3) by (metis Inr_inject)
  have "\<not> held (replay_key v) now' cache1" using assms(4) d(1) by (auto simp: d(2) held_def)
  then show ?thesis by (simp add: prepare_v2 [OF assms(2) chk] Let_def d(3,4) d(5) [symmetric])
qed

theorem replay_accepted_in_window_witness:
  "fst (prepare_e2ee_v2_request sample_env 1000 sample_parts [] CHAT_COMPLETIONS_PATH []) = Inr sample_prepared_v2
   \<and> fst (prepare_e2ee_v2_request sample_env 1300 sample_parts [] CHAT_COMPLETIONS_PATH
        (snd (prepare_e2ee_v2_request sample_env 1000 sample_parts [] CHAT_COMPLETIONS_PATH []))) = Inr sample_prepared_v2"
proof -
  have "ep_signing_algo sample_parts = None" by (simp add: sample_parts_def)
  moreover have "check_v2_request sample_env 1000 sample_parts [] = Inr sample_v2" by (rule sample_check) (simp add: abs_diff_def)
  ultimately have "fst (prepare_e2ee_v2_request sample_env 1300 sample_parts [] CHAT_COMPLETIONS_PATH [(replay_key sample_v2, 1300)])
      = Inr sample_prepared_v2"
    by (rule replay_accepted_in_window [OF sample_e2ee_prepare]) (simp_all add: saturating_add_def abs_diff_def sample_v2_def)
  then show ?thesis by (simp add: sample_e2ee_prepare)
qed

text \<open>
  What an accepted request of the second version has passed: version \<open>2\<close>, a nonce of
  64 hexadecimal digits, a decimal timestamp within 300 seconds of the clock, a published
  key of a protocol suite named by its normalized hexadecimal form, a client key valid for
  that suite, a string model, and a key-nonce tuple not held in the replay cache, which
  holds it from now on. The context for the response carries exactly these.
\<close>

theorem accepted_request_checked:
  assumes "prepare_e2ee_v2_request en now parts body path cache = (Inr p, cache1)" "ep_signing_algo parts = None"
  shows "\<exists>v ts client model. ep_version parts = Some E2EE_VERSION_V2
    \<and> ep_nonce parts = Some (v2_nonce v) \<and> length (as_bytes (v2_nonce v)) = 64 \<and> list_all is_ascii_hexdigit (as_bytes (v2_nonce v))
    \<and> ep_timestamp parts = Some ts \<and> parse_u64 ts = Some (v2_timestamp v) \<and> unat now \<le> unat (v2_timestamp v) + 300 \<and> unat (v2_timestamp v) \<le> unat now + 300
    \<and> v2_selected_key v \<in> set (en_e2ee_public_keys en) \<and> is_aci_e2ee_suite (kpk_algo (v2_selected_key v))
    \<and> ep_model_public_key parts = Some model
    \<and> normalize_aci_e2ee_public_key_hex (en_lib en) (kpk_algo (v2_selected_key v)) model = Inr (v2_model_public_key_hex v)
    \<and> normalize_aci_e2ee_public_key_hex (en_lib en) (kpk_algo (v2_selected_key v)) (kpk_public_key_hex (v2_selected_key v))
        = Inr (v2_model_public_key_hex v)
    \<and> ep_client_public_key parts = Some client
    \<and> normalize_aci_e2ee_public_key_hex (en_lib en) (kpk_algo (v2_selected_key v)) client = Inr (v2_client_public_key_hex v)
    \<and> from_slice (en_serde en) body = Some (v2_payload v) \<and> get (v2_payload v) (lit ''model'') = Some (JString (v2_request_model v))
    \<and> \<not> held (replay_key v) now cache \<and> (replay_key v, saturating_add now 300) \<in> set cache1
    \<and> pq_context p = v2_context v"
proof -
  obtain v payload where v: "check_v2_request en now parts body = Inr v" "\<not> held (replay_key v) now cache"
    "cache1 = (replay_key v, saturating_add now 300) # filter (\<lambda>(_, e). now < e) cache" "pq_context p = v2_context v"
    by (rule prepare_v2_Inr [OF assms])
  obtain client model where c: "check_v2_headers now parts = Inr (client, model, v2_nonce v, v2_timestamp v)"
    "List.find (suite_key_matches (en_lib en) model) (en_e2ee_public_keys en) = Some (v2_selected_key v)"
    "normalize_aci_e2ee_public_key_hex (en_lib en) (kpk_algo (v2_selected_key v)) client = Inr (v2_client_public_key_hex v)"
    "normalize_aci_e2ee_public_key_hex (en_lib en) (kpk_algo (v2_selected_key v)) model = Inr (v2_model_public_key_hex v)"
    "from_slice (en_serde en) body = Some (v2_payload v)" "validate_aci_payload_model (v2_payload v) = Inr (v2_request_model v)"
    using v(1) by (auto simp: check_v2_request_Inr)
  obtain ts where h: "ep_version parts = Some E2EE_VERSION_V2" "ep_client_public_key parts = Some client" "ep_model_public_key parts = Some model"
     "ep_nonce parts = Some (v2_nonce v)" "validate_aci_e2ee_nonce (v2_nonce v) = Inr ()"
     "ep_timestamp parts = Some ts" "parse_u64 ts = Some (v2_timestamp v)" "abs_diff now (v2_timestamp v) \<le> 300"
    using c(1) by (auto simp: check_v2_headers_Inr)
  have n: "length (as_bytes (v2_nonce v)) = 64 \<and> list_all is_ascii_hexdigit (as_bytes (v2_nonce v))"
    using h(5) by (auto simp: validate_aci_e2ee_nonce_def Let_def split: if_splits)
  have k: "v2_selected_key v \<in> set (en_e2ee_public_keys en) \<and> suite_key_matches (en_lib en) model (v2_selected_key v)"
    using c(2) by (metis find_Some_iff nth_mem)
  have m: "get (v2_payload v) (lit ''model'') = Some (JString (v2_request_model v))"
    using c(6) by (auto simp: validate_aci_payload_model_def bind_eq_Some_conv as_str_Some)
  have s: "is_aci_e2ee_suite (kpk_algo (v2_selected_key v))"
    "normalize_aci_e2ee_public_key_hex (en_lib en) (kpk_algo (v2_selected_key v)) (kpk_public_key_hex (v2_selected_key v)) = Inr (v2_model_public_key_hex v)"
    using k c(4) by (auto simp: suite_key_matches_def ok_eq_def split: sum.splits)
  show ?thesis
    by (rule exI [of _ v], rule exI [of _ ts], rule exI [of _ client], rule exI [of _ model])
       (use v c h n k m s in \<open>simp add: abs_diff_nat\<close>)
qed

theorem accepted_request_checked_witness:
  "\<exists>v. sample_key \<in> set (en_e2ee_public_keys sample_env) \<and> \<not> held (replay_key v) 1000 [] \<and> pq_context sample_prepared_v2 = v2_context v"
  using accepted_request_checked [OF sample_e2ee_prepare] by (simp add: sample_parts_def sample_env_def) blast

text \<open>
  C31. An encrypted conversation is restored. When a client encrypts the content of every
  message of a request to a published suite key, each under the associated data of its
  own location, the service's decryption gives back the same payload with each content
  the original text (or, if that text is a JSON array, the structured content it spells);
  the other members of the payload and of the messages are unchanged.
\<close>

theorem sealed_conversation_roundtrip:
  assumes "lawful L" "es_e2ee_key_id s \<noteq> es_x25519_e2ee_key_id s" "addressed_to L s key c"
    and "path \<noteq> COMPLETIONS_PATH" "path \<noteq> EMBEDDINGS_PATH" "texts \<noteq> []" "length ms = length texts" "length cts = length texts"
    and "\<forall>j < length texts. sealed_field L (kpk_public_key_hex key) c (content_path j) (texts ! j) (cts ! j)"
  shows "decrypt_request_payload sj c path (Object (obj_insert m (lit ''messages'') (Array (with_contents ms (map JString cts))))) =
    Inr (Object (obj_insert m (lit ''messages'') (Array (with_contents ms (map (decrypted_chat_content_value sj) texts)))))"
proof -
  have "decrypt_text c (content_path (0 + j)) (cts ! j) = Inr (texts ! j)" if "j < length texts" for j
    using sealed_field_opens [OF assms(1-3)] assms(9) that by simp
  then have "each_counted (decrypt_message sj c) 0 (with_contents ms (map JString cts)) =
      Inr (with_contents ms (map (decrypted_chat_content_value sj) texts), length texts)"
    using assms(7,8) by (intro decrypt_messages) (simp_all add: list_all2_conv_all_nth)
  then show ?thesis using assms(4-6) by (simp add: decrypt_request_payload_def set_member_def)
qed

definition sample_fields :: field_crypto where
  "sample_fields = \<lparr>fc_keys = \<lparr>ko_decrypt_e2ee = decrypt_e2ee sample_crypto sample_secrets,
       ko_decrypt_legacy_e2ee = decrypt_legacy_e2ee sample_crypto sample_secrets\<rparr>,
     fc_decryptor = AciV2Key (lit ''x''), fc_algo = E2EE_ALGO_X25519_AESGCM, fc_aad_mode = AciV2, fc_model = lit ''m'',
     fc_nonce = Some (replicate 64 (ch CHR ''0'')), fc_timestamp = Some 1300\<rparr>"

theorem sealed_conversation_roundtrip_witness:
  "\<exists>ct. sealed_field sample_crypto (x25519_public_key_hex sample_crypto [3]) sample_fields (content_path 0) (lit ''hello'') ct
     \<and> decrypt_request_payload sample_serde sample_fields CHAT_COMPLETIONS_PATH
        (Object [(lit ''messages'', Array [Object [(lit ''content'', JString ct)]])])
      = Inr (Object [(lit ''messages'', Array [Object [(lit ''content'', JString (lit ''hello''))]])])"
proof -
  obtain aad where aad: "request_field_aad sample_fields (content_path 0) = Inr (Some aad)"
    using aad_defined(1) [of E2EE_ALGO_X25519_AESGCM "lit ''m''" "content_path 0" "replicate 64 (ch CHR ''0'')" 1300]
    by (auto simp: request_field_aad_def nonce_ts_def sample_fields_def)
  obtain ct where "encrypt_aci_e2ee_for_public_key sample_crypto [7] (replicate 12 0) E2EE_ALGO_X25519_AESGCM
      (x25519_public_key_hex sample_crypto [3]) (as_bytes (lit ''hello'')) aad = Inr ct"
    by (simp add: encrypt_aci_e2ee_for_public_key_def encrypt_x25519_for_public_key_def x25519_own_key [OF sample_lawful] Let_def)
       (simp add: sample_crypto_def)
  then have ct: "sealed_field sample_crypto (x25519_public_key_hex sample_crypto [3]) sample_fields (content_path 0) (lit ''hello'') ct"
    unfolding sealed_field_def
    by (intro exI [of _ "[7]"] exI [of _ "replicate 12 0"] exI [of _ aad]) (simp add: NONCE_LEN_def aad, simp add: sample_fields_def)
  have "addressed_to sample_crypto sample_secrets sample_key sample_fields"
    by (simp add: addressed_to_def provider_e2ee_keys_def sample_key_def sample_fields_def sample_secrets_def)
  from sealed_conversation_roundtrip [OF sample_lawful _ this, of CHAT_COMPLETIONS_PATH "[lit ''hello'']" "[[]]" "[ct]" sample_serde "[]"] ct
  have "decrypt_request_payload sample_serde sample_fields CHAT_COMPLETIONS_PATH
        (Object [(lit ''messages'', Array [Object [(lit ''content'', JString ct)]])])
      = Inr (Object [(lit ''messages'', Array [Object [(lit ''content'', JString (lit ''hello''))]])])"
    by (simp add: sample_secrets_def sample_key_def CHAT_COMPLETIONS_PATH_def COMPLETIONS_PATH_def EMBEDDINGS_PATH_def with_contents_def
        decrypted_chat_content_value_def sample_serde_def)
  with ct show ?thesis by blast
qed

text \<open>
  C32. A buffered chat response leaves sealed. When the service encrypts the body for a
  client, the wire body is the serialized payload with nothing but its \<open>choices\<close>
  replaced; in the message of every choice, the text of \<open>content\<close> and
  \<open>reasoning_content\<close> and the data of \<open>audio\<close> are replaced by ciphertexts that the
  client's secret key opens to the original, under the associated data of the client's
  request, the response id and the location (named by the choice's \<open>index\<close>); every other
  member of the message is unchanged.
\<close>

theorem response_fields_sealed:
  assumes "sealing L rnd ctx secret" "encrypt_e2ee_response_body L sj rnd body ctx CHAT_COMPLETIONS_PATH = Inr wire"
    and "from_slice sj body = Some payload" "get payload (lit ''choices'') = Some (Array cs)"
  shows "\<exists>cs'. to_vec sj (set_member payload (lit ''choices'') (Array cs')) = Some wire \<and> length cs' = length cs
    \<and> (\<forall>j < length cs. \<forall>m. get (cs ! j) (lit ''message'') = Some (Object m) \<longrightarrow>
         (\<exists>m'. get (cs' ! j) (lit ''message'') = Some (Object m')
            \<and> message_sealed L ctx secret (response_id_of payload) (entry_index (cs ! j) j) m m'))"
proof -
  have path: "CHAT_COMPLETIONS_PATH \<noteq> COMPLETIONS_PATH" "CHAT_COMPLETIONS_PATH \<noteq> EMBEDDINGS_PATH"
    by (simp_all add: CHAT_COMPLETIONS_PATH_def COMPLETIONS_PATH_def EMBEDDINGS_PATH_def)
  obtain payload' where p: "encrypt_choices L rnd ctx CHAT_COMPLETIONS_PATH (lit ''message'')
      (encrypt_message L rnd ctx (response_id_of payload)) payload = Inr payload'" "to_vec sj payload' = Some wire"
    using assms(2,3) path by (auto simp: encrypt_e2ee_response_body_def bind_result_Inr)
  obtain cs' where cs': "payload' = set_member payload (lit ''choices'') (Array cs')" "length cs' = length cs"
    and step: "\<forall>j < length cs. \<forall>m. get (cs ! j) (lit ''message'') = Some (Object m) \<longrightarrow>
         (\<exists>m' k k'. get (cs' ! j) (lit ''message'') = Some (Object m')
            \<and> encrypt_message L rnd ctx (response_id_of payload) (entry_index (cs ! j) j) m k = Inr (m', k'))"
    using encrypt_choices_Inr [OF p(1) assms(4) path(1)] by blast
  show ?thesis
    using p(2) cs' step encrypt_message_sealed [OF assms(1)] by (intro exI [of _ cs']) fast
qed

definition sample_answer :: json where
  "sample_answer = Object [(lit ''choices'', Array [Object [(lit ''message'', Object [(lit ''content'', JString (lit ''hi''))])]])]"

definition answer_serde :: serde_json where
  "answer_serde = \<lparr>from_slice = (\<lambda>_. Some sample_answer), to_vec = (\<lambda>_. Some []), from_slice_error = (\<lambda>_. []), to_vec_error = (\<lambda>_. [])\<rparr>"

definition sample_rnd :: "nat \<Rightarrow> bytes \<times> bytes" where
  "sample_rnd k = ([of_nat k], replicate 12 0)"

lemma sample_sealing: "sealing sample_crypto sample_rnd (v2_context sample_v2) [9]"
  by (simp add: sealing_def sample_lawful sample_rnd_def NONCE_LEN_def v2_context_def sample_v2_def sample_key_def client_key_def)

lemma sample_encrypts: "\<exists>ct. encrypt_response_plaintext sample_crypto (sample_rnd k) (v2_context sample_v2) m (Some aad) = Inr ct"
  by (simp add: encrypt_response_plaintext_def v2_context_def sample_v2_def sample_key_def encrypt_aci_e2ee_for_public_key_def
      encrypt_x25519_for_public_key_def x25519_own_key [OF sample_lawful] Let_def)
     (simp add: sample_crypto_def)

lemma sample_answer_encrypts:
  "encrypt_e2ee_response_body sample_crypto answer_serde sample_rnd [] (v2_context sample_v2) CHAT_COMPLETIONS_PATH = Inr []"
proof -
  obtain a where a: "response_aad_for_context (v2_context sample_v2) [] (choice_path 0 (lit ''.message.content'')) = Inr (Some a)"
    using aad_defined(2) [of E2EE_ALGO_X25519_AESGCM "lit ''m''" "[]" "choice_path 0 (lit ''.message.content'')" "replicate 64 (ch CHR ''0'')" 1300]
    by (auto simp: response_aad_for_context_def response_nonce_ts_def v2_context_def sample_v2_def sample_key_def)
  obtain ct where ct: "encrypt_response_plaintext sample_crypto (sample_rnd 0) (v2_context sample_v2) (as_bytes (lit ''hi'')) (Some a) = Inr ct"
    using sample_encrypts by blast
  show ?thesis
    by (simp add: encrypt_e2ee_response_body_def answer_serde_def sample_answer_def CHAT_COMPLETIONS_PATH_def COMPLETIONS_PATH_def
        EMBEDDINGS_PATH_def encrypt_choices_def encrypt_choice_def encrypt_message_def encrypt_response_field_def entry_index_def
        response_id_of_def encrypt_message_audio_data_def a ct)
qed

theorem response_fields_sealed_witness:
  "\<exists>c' m' ct. get c' (lit ''message'') = Some (Object m') \<and> obj_get m' (lit ''content'') = Some (JString ct)
     \<and> sealed_for sample_crypto (v2_context sample_v2) [9] [] (choice_path 0 (lit ''.message.content'')) (lit ''hi'') ct"
proof -
  have "from_slice answer_serde [] = Some sample_answer"
    "get sample_answer (lit ''choices'') = Some (Array [Object [(lit ''message'', Object [(lit ''content'', JString (lit ''hi''))])]])"
    by (simp_all add: answer_serde_def sample_answer_def)
  from response_fields_sealed [OF sample_sealing sample_answer_encrypts this]
  obtain c' m' where "get c' (lit ''message'') = Some (Object m')"
    "message_sealed sample_crypto (v2_context sample_v2) [9] (response_id_of sample_answer) 0 [(lit ''content'', JString (lit ''hi''))] m'"
    by (auto simp: entry_index_def)
  then show ?thesis
    by (auto simp: message_sealed_def member_sealed_def response_id_of_def sample_answer_def)
qed

text \<open>
  A response in the Anthropic format is not sealed. On every endpoint but embeddings
  the encryption looks for \<open>choices\<close> only: a payload without them, as on
  \<open>/v1/messages\<close>, is serialized as it came, its generated text in the clear, in a body and
  in every stream event alike, while the response is labelled as encrypted.
\<close>

theorem messages_response_in_clear:
  assumes "from_slice sj body = Some payload" "get payload (lit ''choices'') = None" "to_vec sj payload = Some bytes"
  shows "encrypt_e2ee_response_body L sj rnd body ctx MESSAGES_PATH = Inr bytes
    \<and> encrypt_e2ee_stream_payload L sj rnd body ctx MESSAGES_PATH = Inr bytes
    \<and> e2ee_info (Some ctx) = Some \<lparr>ei_version = ec_version ctx, ei_algo = ec_algo ctx\<rparr>"
  using assms
  by (simp add: encrypt_e2ee_response_body_def encrypt_e2ee_stream_payload_def encrypt_choices_def MESSAGES_PATH_def EMBEDDINGS_PATH_def
      COMPLETIONS_PATH_def e2ee_info_def)

definition anthropic_payload :: json where
  "anthropic_payload = Object [(lit ''type'', JString (lit ''message'')),
     (lit ''content'', Array [Object [(lit ''type'', JString (lit ''text'')), (lit ''text'', JString (lit ''secret answer''))]])]"

theorem messages_response_in_clear_witness:
  "encrypt_e2ee_response_body sample_crypto
     \<lparr>from_slice = (\<lambda>_. Some anthropic_payload), to_vec = (\<lambda>v. if v = anthropic_payload then Some [42] else None),
      from_slice_error = (\<lambda>_. []), to_vec_error = (\<lambda>_. [])\<rparr>
     (\<lambda>_. ([], replicate 12 0)) [42] (v2_context sample_v2) MESSAGES_PATH = Inr [42]"
  using messages_response_in_clear [of "\<lparr>from_slice = (\<lambda>_. Some anthropic_payload), to_vec = (\<lambda>v. if v = anthropic_payload then Some [42] else None),
      from_slice_error = (\<lambda>_. []), to_vec_error = (\<lambda>_. [])\<rparr>" "[42]" anthropic_payload "[42]"]
  by (simp add: anthropic_payload_def)

end
