(* ===== verification/Attestation.thy ===== *)
theory Attestation
  imports E2ee_Suites Keyset_Epoch Receipt_Api
begin

text \<open>
  Attestation reports: the report half of \<open>src/aggregator/service/e2ee.rs\<close> (the report for a
  host, the inherited report data, assembly of the envelope), the host and domain
  normalisation of \<open>http/app/util.rs\<close> and \<open>service/config.rs\<close>, and the two report handlers of
  \<open>http/app/handlers.rs\<close> with the fields the inherited one adds.

  The quote of the TEE, the signature of the identity key, SHA-256, Keccak, hexadecimal
  text, the text of a JSON value and the text of an error are parameters (\<open>report_env\<close>);
  so are the answers of the upstream a report is fetched from.
\<close>

section \<open>Hosts and domains\<close>

definition normalize_downstream_domain :: "str \<Rightarrow> str option" where
  "normalize_downstream_domain raw =
     (let domain = to_ascii_lowercase (trim_end_matches (\<lambda>c. c = ch CHR ''.'') (trim raw))
      in if domain = [] \<or> ch CHR ''/'' \<in> set domain \<or> ch CHR '':'' \<in> set domain \<or> ch CHR ''='' \<in> set domain
            \<or> ch CHR '','' \<in> set domain \<or> list_ex is_whitespace domain
         then None else Some domain)"

definition normalize_host_domain :: "str \<Rightarrow> str option" where
  "normalize_host_domain raw =
     (let raw = trim raw
      in if raw = [] then None
         else
           Option.bind (case strip_prefix [ch CHR ''[''] raw of
                          Some rest \<Rightarrow> if ch CHR '']'' \<in> set rest then Some (takeWhile (\<lambda>c. c \<noteq> ch CHR '']'') rest) else None
                        | None \<Rightarrow> Some (case split_once (ch CHR '':'') raw of Some (host, _) \<Rightarrow> host | None \<Rightarrow> raw)) (\<lambda>host.
           let domain = to_ascii_lowercase (trim_end_matches (\<lambda>c. c = ch CHR ''.'') (trim host))
           in if domain = [] \<or> ch CHR ''/'' \<in> set domain \<or> ch CHR ''='' \<in> set domain \<or> ch CHR '','' \<in> set domain
                 \<or> list_ex is_whitespace domain
              then None else Some domain))"

definition request_host_domain :: "headers \<Rightarrow> str option" where
  "request_host_domain headers = Option.bind (headers (lit ''host'')) normalize_host_domain"

section \<open>Reports\<close>

record quote =
  qt_raw_quote :: bytes
  qt_report_data :: bytes
  qt_event_log :: json
  qt_vm_config :: json

record keyset_endorsement =
  ke_algo :: str
  ke_value_hex :: str

record freshness =
  fr_fetched_at :: u64
  fr_stale_after :: u64

record attestation_envelope =
  env_vendor :: str
  env_tee_type :: str
  env_workload_keyset :: workload_keyset
  env_report_data_hex :: str
  env_keyset_endorsement :: keyset_endorsement
  env_source_provenance :: source_provenance
  env_freshness :: freshness
  env_evidence :: json

record attestation_report =
  ar_api_version :: str
  ar_workload_id :: str
  ar_workload_keyset_digest :: str
  ar_attestation :: attestation_envelope
  ar_service_capabilities :: service_capabilities

text \<open>\<open>SlicePanic\<close> is the panic of a slice assignment out of range.\<close>

datatype report_error =
    KeysetRevoked
  | Report_Canonical canonical_error
  | Report_Key key_error
  | DownstreamTlsDomainMissing
  | DownstreamTlsDomainUnknown str
  | SlicePanic

record report_env =
  re_identity :: service_identity
  re_config :: service_config
  re_keys :: key_provider
  re_key_custody :: json
  re_sha256 :: "bytes \<Rightarrow> bytes"
  re_keccak256 :: "bytes \<Rightarrow> bytes"
  re_hex_encode :: "bytes \<Rightarrow> str"
  re_hex_decode :: "str \<Rightarrow> str + bytes"
  re_get_quote :: "bytes \<Rightarrow> key_error + quote"
  re_get_quote_raw :: "bytes \<Rightarrow> key_error + quote"
  re_to_string :: "json \<Rightarrow> str"
  re_display :: "report_error \<Rightarrow> str"

definition tls_key_for :: "report_env \<Rightarrow> str \<Rightarrow> tls_spki option" where
  "tls_key_for re domain = List.find (\<lambda>key. tls_domain key = Some domain) (ks_tls_public_keys (svc_keyset (re_identity re)))"

definition downstream_tls_binding :: "report_env \<Rightarrow> str \<Rightarrow> json option" where
  "downstream_tls_binding re domain =
     Option.bind (normalize_downstream_domain domain) (\<lambda>domain.
       map_option (\<lambda>key. Object [(lit ''domain'', JString domain), (lit ''spki_sha256'', JString (tls_spki_sha256_hex key))])
         (tls_key_for re domain))"

definition requires_host_for_downstream_tls_binding :: "report_env \<Rightarrow> bool" where
  "requires_host_for_downstream_tls_binding re \<longleftrightarrow>
     list_ex (\<lambda>key. tls_domain key \<noteq> None) (ks_tls_public_keys (svc_keyset (re_identity re)))"

definition quote_evidence :: "report_env \<Rightarrow> quote \<Rightarrow> obj" where
  "quote_evidence re quote =
     (let evidence = [(lit ''quote'', JString (re_hex_encode re (qt_raw_quote quote))),
                      (lit ''quote_report_data'', JString (re_hex_encode re (qt_report_data quote))),
                      (lit ''event_log'', qt_event_log quote), (lit ''vm_config'', qt_vm_config quote)]
      in if re_key_custody re \<noteq> Null then obj_insert evidence (lit ''key_custody'') (re_key_custody re) else evidence)"

definition bind_host :: "report_env \<Rightarrow> str option \<Rightarrow> obj \<Rightarrow> report_error + obj" where
  "bind_host re domain evidence =
     (if requires_host_for_downstream_tls_binding re then
        (case domain of
           None \<Rightarrow> Inl DownstreamTlsDomainMissing
         | Some domain \<Rightarrow>
             (case downstream_tls_binding re domain of
                None \<Rightarrow> Inl (DownstreamTlsDomainUnknown domain)
              | Some binding \<Rightarrow> Inr (obj_insert evidence (lit ''downstream_tls_binding'') binding)))
      else
        (case Option.bind domain (downstream_tls_binding re) of
           Some binding \<Rightarrow> Inr (obj_insert evidence (lit ''downstream_tls_binding'') binding)
         | None \<Rightarrow> Inr evidence))"

text \<open>The sum of the clock and the freshness period wraps, as in a release build.\<close>

definition assemble_report :: "report_env \<Rightarrow> u64 \<Rightarrow> bytes \<Rightarrow> quote \<Rightarrow> str option \<Rightarrow> report_error + attestation_report" where
  "assemble_report re now report_data_bytes quote domain =
     bind_result (map_err Report_Canonical (keyset_endorsement_payload (re_sha256 re) (re_hex_encode re) (svc_keyset (re_identity re)))) (\<lambda>payload.
     bind_result (map_err Report_Key (sign_keyset_endorsement (re_keys re) payload)) (\<lambda>sig.
     bind_result (bind_host re domain (quote_evidence re quote)) (\<lambda>evidence.
       Inr \<lparr>ar_api_version = lit ''aci/1'', ar_workload_id = svc_workload_id (re_identity re),
         ar_workload_keyset_digest = svc_workload_keyset_digest (re_identity re),
         ar_attestation = \<lparr>env_vendor = cfg_vendor (re_config re), env_tee_type = cfg_tee_type (re_config re),
           env_workload_keyset = svc_keyset (re_identity re), env_report_data_hex = re_hex_encode re report_data_bytes,
           env_keyset_endorsement = \<lparr>ke_algo = pkm_algo (identity_public_key (re_keys re)), ke_value_hex = re_hex_encode re sig\<rparr>,
           env_source_provenance = cfg_source_provenance (re_config re),
           env_freshness = \<lparr>fr_fetched_at = now, fr_stale_after = now + cfg_freshness_seconds (re_config re)\<rparr>,
           env_evidence = Object evidence\<rparr>,
         ar_service_capabilities = cfg_service_capabilities (re_config re)\<rparr>)))"

definition attestation_report_for_domain ::
    "report_env \<Rightarrow> revocation_store \<Rightarrow> u64 \<Rightarrow> str option \<Rightarrow> str option \<Rightarrow> report_error + attestation_report" where
  "attestation_report_for_domain re st now nonce domain =
     (if is_keyset_revoked (re_identity re) st then Inl KeysetRevoked
      else
        bind_result (map_err Report_Canonical
          (attestation_statement_for (re_sha256 re) (re_hex_encode re) (svc_keyset (re_identity re)) nonce)) (\<lambda>statement.
        bind_result (map_err Report_Canonical (report_data (re_sha256 re) statement)) (\<lambda>rd.
        bind_result (map_err Report_Key (re_get_quote re rd)) (\<lambda>quote.
          assemble_report re now rd quote domain))))"

section \<open>The inherited report\<close>

definition LEGACY_ALGO_ED25519 :: str where "LEGACY_ALGO_ED25519 = lit ''ed25519''"

definition ethereum_address_from_uncompressed_public_key :: "report_env \<Rightarrow> str \<Rightarrow> key_error + str" where
  "ethereum_address_from_uncompressed_public_key re public_key_hex =
     bind_result (map_err (\<lambda>e. Crypto (lit ''invalid secp256k1 public key hex: '' @ e)) (re_hex_decode re public_key_hex)) (\<lambda>public_key.
     bind_result (case public_key of
                    b # rest \<Rightarrow> if b = 4 \<and> length rest = 64 then Inr rest
                               else if length public_key = 64 then Inr public_key
                               else Inl (Crypto (lit ''secp256k1 public key must be 64 or 65 bytes, got '' @ latin1 (dec (length public_key))))
                  | [] \<Rightarrow> Inl (Crypto (lit ''secp256k1 public key must be 64 or 65 bytes, got 0''))) (\<lambda>public_key.
       Inr (lit ''0x'' @ re_hex_encode re (drop 12 (re_keccak256 re public_key)))))"

definition signing_algo_or_default :: "str option \<Rightarrow> str" where
  "signing_algo_or_default signing_algo = to_ascii_lowercase (case signing_algo of Some a \<Rightarrow> a | None \<Rightarrow> LEGACY_ALGO_ECDSA)"

text \<open>\<open>trim_start_matches("0x")\<close> removes every leading \<open>0x\<close>.\<close>

fun trim_start_0x :: "str \<Rightarrow> str" where
  "trim_start_0x (a # b # r) = (if a = ch CHR ''0'' \<and> b = ch CHR ''x'' then trim_start_0x r else a # b # r)"
| "trim_start_0x s = s"

definition legacy_signing_key_bytes :: "report_env \<Rightarrow> str option \<Rightarrow> key_error + bytes" where
  "legacy_signing_key_bytes re signing_algo =
     (let signing_algo = signing_algo_or_default signing_algo
      in if signing_algo = LEGACY_ALGO_ECDSA then
           bind_result (ok_or (Crypto (lit ''no secp256k1 E2EE key for legacy report_data binding''))
             (List.find (\<lambda>key. kpk_algo key = E2EE_ALGO_SECP256K1_AESGCM) (e2ee_keys (re_keys re)))) (\<lambda>key.
           bind_result (ethereum_address_from_uncompressed_public_key re (kpk_public_key_hex key)) (\<lambda>address.
             map_err (\<lambda>e. Crypto (lit ''invalid signing address hex: '' @ e)) (re_hex_decode re (trim_start_0x address))))
         else if signing_algo = LEGACY_ALGO_ED25519 then
           bind_result (ok_or (Crypto (lit ''no ed25519 E2EE key for legacy report_data binding''))
             (List.find (\<lambda>key. kpk_algo key = E2EE_ALGO_LEGACY_ED25519) (e2ee_keys (re_keys re)))) (\<lambda>key.
             map_err (\<lambda>e. Crypto (lit ''invalid ed25519 public key hex: '' @ e)) (re_hex_decode re (kpk_public_key_hex key)))
         else Inl (UnsupportedAlgo signing_algo))"

definition legacy_tls_spki_fingerprint :: "report_env \<Rightarrow> str option \<Rightarrow> key_error + bytes" where
  "legacy_tls_spki_fingerprint re domain =
     bind_result (ok_or (Crypto (lit ''attestation version 2 requires a published TLS SPKI for the request host''))
       (map_option tls_spki_sha256_hex (Option.bind (Option.bind domain normalize_downstream_domain) (tls_key_for re)))) (\<lambda>spki_hex.
     bind_result (map_err (\<lambda>e. Crypto (lit ''invalid TLS SPKI hex: '' @ e)) (re_hex_decode re spki_hex)) (\<lambda>bytes.
       if length bytes = 32 then Inr bytes else Inl (Crypto (lit ''TLS SPKI fingerprint is not 32 bytes''))))"

text \<open>\<open>rd[at..at + xs.len()].copy_from_slice(xs)\<close>\<close>

definition copy_at :: "nat \<Rightarrow> bytes \<Rightarrow> bytes \<Rightarrow> report_error + bytes" where
  "copy_at pos xs rd = (if pos + length xs \<le> length rd then Inr (take pos rd @ xs @ drop (pos + length xs) rd) else Inl SlicePanic)"

definition legacy_identity :: "report_env \<Rightarrow> bytes \<Rightarrow> nat \<Rightarrow> str option \<Rightarrow> report_error + bytes" where
  "legacy_identity re signing_key version domain =
     (if 2 \<le> version then
        bind_result (map_err Report_Key (legacy_tls_spki_fingerprint re domain)) (\<lambda>cert_fingerprint.
          copy_at 0 (re_sha256 re (signing_key @ cert_fingerprint)) (replicate 64 0))
      else copy_at 0 signing_key (replicate 64 0))"

definition legacy_nonce_bytes :: "report_env \<Rightarrow> str \<Rightarrow> bytes" where
  "legacy_nonce_bytes re nonce =
     (case re_hex_decode re nonce of
        Inr bytes \<Rightarrow> if length bytes = 32 then bytes else re_sha256 re (as_bytes nonce)
      | Inl _ \<Rightarrow> re_sha256 re (as_bytes nonce))"

definition legacy_report_data :: "report_env \<Rightarrow> str option \<Rightarrow> nat \<Rightarrow> str option \<Rightarrow> str option \<Rightarrow> report_error + bytes" where
  "legacy_report_data re signing_algo version nonce domain =
     bind_result (map_err Report_Key (legacy_signing_key_bytes re signing_algo)) (\<lambda>signing_key.
     bind_result (legacy_identity re signing_key version domain) (\<lambda>rd.
       case nonce of Some nonce \<Rightarrow> copy_at 32 (legacy_nonce_bytes re nonce) rd | None \<Rightarrow> Inr rd))"

definition legacy_attestation_report_for_domain ::
    "report_env \<Rightarrow> u64 \<Rightarrow> str option \<Rightarrow> nat \<Rightarrow> str option \<Rightarrow> str option \<Rightarrow> report_error + attestation_report" where
  "legacy_attestation_report_for_domain re now signing_algo version nonce domain =
     bind_result (legacy_report_data re signing_algo version nonce domain) (\<lambda>rd.
     bind_result (map_err Report_Key (re_get_quote_raw re rd)) (\<lambda>quote.
       assemble_report re now rd quote domain))"

section \<open>Reports on the wire\<close>

text \<open>The derived serialisation of a keyset has the members of its canonical value.\<close>

definition provenance_value :: "source_provenance \<Rightarrow> json" where
  "provenance_value sp = Object [(lit ''repo_url'', json_opt_str (sp_repo_url sp)), (lit ''repo_commit'', json_opt_str (sp_repo_commit sp)),
     (lit ''image_digest'', json_opt_str (sp_image_digest sp)),
     (lit ''image_provenance'', case sp_image_provenance sp of Some v \<Rightarrow> v | None \<Rightarrow> Null)]"

definition envelope_value :: "attestation_envelope \<Rightarrow> json" where
  "envelope_value e = Object (
     [(lit ''vendor'', JString (env_vendor e)), (lit ''tee_type'', JString (env_tee_type e)),
      (lit ''workload_keyset'', keyset_value (env_workload_keyset e)), (lit ''report_data'', JString (env_report_data_hex e)),
      (lit ''keyset_endorsement'', Object [(lit ''algo'', JString (ke_algo (env_keyset_endorsement e))),
                                          (lit ''value'', JString (ke_value_hex (env_keyset_endorsement e)))])]
     @ (if is_unknown (env_source_provenance e) then [] else [(lit ''source_provenance'', provenance_value (env_source_provenance e))])
     @ [(lit ''freshness'', Object [(lit ''fetched_at'', json_u64 (fr_fetched_at (env_freshness e))),
                                  (lit ''stale_after'', json_u64 (fr_stale_after (env_freshness e)))]),
        (lit ''evidence'', env_evidence e)])"

definition report_value :: "attestation_report \<Rightarrow> obj" where
  "report_value r = [(lit ''api_version'', JString (ar_api_version r)), (lit ''workload_id'', JString (ar_workload_id r)),
     (lit ''workload_keyset_digest'', JString (ar_workload_keyset_digest r)), (lit ''attestation'', envelope_value (ar_attestation r)),
     (lit ''service_capabilities'', Object [(lit ''supported_e2ee_versions'',
        Array (map JString (sc_supported_e2ee_versions (ar_service_capabilities r))))])]"

definition keyset_e2ee_keys :: "obj \<Rightarrow> json list option" where
  "keyset_e2ee_keys report =
     Option.bind (obj_get report (lit ''attestation'')) (\<lambda>v.
     Option.bind (get v (lit ''workload_keyset'')) (\<lambda>v.
     Option.bind (get v (lit ''e2ee_public_keys'')) as_array))"

fun find_map :: "('a \<Rightarrow> 'b option) \<Rightarrow> 'a list \<Rightarrow> 'b option" where
  "find_map f [] = None"
| "find_map f (x # xs) = (case f x of Some y \<Rightarrow> Some y | None \<Rightarrow> find_map f xs)"

definition algo_and_key :: "json \<Rightarrow> (str \<times> str) option" where
  "algo_and_key key =
     Option.bind (Option.bind (get key (lit ''algo'')) as_str) (\<lambda>algo.
     Option.bind (Option.bind (get key (lit ''public_key'')) as_str) (\<lambda>public_key. Some (algo, public_key)))"

definition legacy_e2ee_key :: "str \<Rightarrow> json \<Rightarrow> str option" where
  "legacy_e2ee_key signing_algo key =
     Option.bind (algo_and_key key) (\<lambda>(algo, public_key).
       if (if signing_algo = LEGACY_ALGO_ECDSA then algo = E2EE_ALGO_LEGACY_ECDSA \<or> algo = E2EE_ALGO_SECP256K1_AESGCM
           else if signing_algo = LEGACY_ALGO_ED25519 then algo = E2EE_ALGO_LEGACY_ED25519
           else False)
       then Some public_key else None)"

definition with_signing_key :: "obj \<Rightarrow> str \<Rightarrow> str \<Rightarrow> str \<Rightarrow> obj" where
  "with_signing_key report public_key signing_algo signing_address =
     obj_insert (obj_insert (obj_insert report (lit ''signing_public_key'') (JString public_key))
       (lit ''signing_algo'') (JString signing_algo)) (lit ''signing_address'') (JString signing_address)"

definition legacy_signing_fields :: "report_env \<Rightarrow> str \<Rightarrow> obj \<Rightarrow> key_error + obj" where
  "legacy_signing_fields re signing_algo report =
     (case Option.bind (keyset_e2ee_keys report) (find_map (legacy_e2ee_key signing_algo)) of
        Some public_key \<Rightarrow>
          bind_result (if signing_algo = LEGACY_ALGO_ED25519 then Inr public_key
                       else ethereum_address_from_uncompressed_public_key re public_key) (\<lambda>signing_address.
            Inr (with_signing_key report public_key signing_algo signing_address))
      | None \<Rightarrow>
          if signing_algo \<noteq> LEGACY_ALGO_ECDSA \<and> signing_algo \<noteq> LEGACY_ALGO_ED25519 then Inl (UnsupportedAlgo signing_algo)
          else
            (case Option.bind (keyset_e2ee_keys report) (\<lambda>keys. Option.bind (case keys of k # _ \<Rightarrow> Some k | [] \<Rightarrow> None) (\<lambda>key.
                    Option.bind (algo_and_key key) (\<lambda>(algo, public_key).
                      if algo = E2EE_ALGO_SECP256K1_AESGCM then Some public_key else None))) of
               Some public_key \<Rightarrow>
                 bind_result (ethereum_address_from_uncompressed_public_key re public_key) (\<lambda>signing_address.
                   Inr (with_signing_key report public_key LEGACY_ALGO_ECDSA signing_address))
             | None \<Rightarrow> Inr report))"

definition report_with_legacy_attestation_fields ::
    "report_env \<Rightarrow> attestation_report \<Rightarrow> str option \<Rightarrow> json \<Rightarrow> key_error + json" where
  "report_with_legacy_attestation_fields re report signing_algo nvidia_payload =
     bind_result (legacy_signing_fields re (signing_algo_or_default signing_algo) (report_value report)) (\<lambda>obj.
       let intel_quote = Option.bind (Option.bind (Option.bind (obj_get obj (lit ''attestation'')) (\<lambda>v. get v (lit ''evidence'')))
             (\<lambda>v. get v (lit ''quote''))) as_str;
           obj = (case intel_quote of Some q \<Rightarrow> obj_insert obj (lit ''intel_quote'') (JString q) | None \<Rightarrow> obj);
           obj = obj_insert obj (lit ''nvidia_payload'') nvidia_payload;
           legacy_attestation = obj_remove obj (lit ''all_attestations'')
       in Inr (Object (obj_insert obj (lit ''all_attestations'') (Array [Object legacy_attestation]))))"

section \<open>The report handlers\<close>

definition resolve_report_nonce :: "report_env \<Rightarrow> bytes \<Rightarrow> str option \<Rightarrow> str" where
  "resolve_report_nonce re random client_nonce =
     (case client_nonce of
        Some nonce \<Rightarrow> if nonce \<noteq> [] then nonce else re_hex_encode re random
      | None \<Rightarrow> re_hex_encode re random)"

definition empty_nvidia_payload :: "report_env \<Rightarrow> str option \<Rightarrow> json" where
  "empty_nvidia_payload re nonce =
     JString (re_to_string re (Object [(lit ''nonce'', JString (case nonce of Some n \<Rightarrow> n | None \<Rightarrow> [])),
       (lit ''evidence_list'', Array []), (lit ''arch'', JString (lit ''HOPPER''))]))"

definition report_failure :: "report_env \<Rightarrow> report_error \<Rightarrow> response" where
  "report_failure re e =
     (case e of
        DownstreamTlsDomainMissing \<Rightarrow> error_response 404 (lit ''not_found'') (re_display re e)
      | DownstreamTlsDomainUnknown _ \<Rightarrow> error_response 404 (lit ''not_found'') (re_display re e)
      | _ \<Rightarrow> error_response 500 (lit ''internal_error'') (re_display re e))"

definition keyset_revoked_response :: response where
  "keyset_revoked_response = error_response 503 (lit ''keyset_revoked'')
     (lit ''the current workload keyset has been revoked; the service is not serving it'')"

definition aci_attestation_report :: "report_env \<Rightarrow> revocation_store \<Rightarrow> u64 \<Rightarrow> headers \<Rightarrow> str option \<Rightarrow> response" where
  "aci_attestation_report re st now headers nonce =
     (case attestation_report_for_domain re st now nonce (request_host_domain headers) of
        Inr report \<Rightarrow> \<lparr>status = 200, body = Object (report_value report)\<rparr>
      | Inl KeysetRevoked \<Rightarrow> keyset_revoked_response
      | Inl e \<Rightarrow> report_failure re e)"

record attestation_query =
  aq_nonce :: "str option"
  aq_signing_algo :: "str option"
  aq_model :: "str option"
  aq_version :: "nat option"

text \<open>
  \<open>target\<close> resolves a model to its upstream (\<open>True\<close> for a Chutes one) and \<open>chutes\<close> and \<open>gpu\<close> are the
  answers of the upstream: the whole report, or the GPU evidence for a nonce.
\<close>

definition attestation_report_handler ::
    "report_env \<Rightarrow> (str \<Rightarrow> bool option) \<Rightarrow> (str \<Rightarrow> response) \<Rightarrow> (str \<Rightarrow> json option) \<Rightarrow> bytes \<Rightarrow> u64 \<Rightarrow> headers \<Rightarrow>
     attestation_query \<Rightarrow> response" where
  "attestation_report_handler re target chutes gpu random now headers q =
     (let domain = request_host_domain headers;
          model = (case aq_model q of Some m \<Rightarrow> if m \<noteq> [] then Some m else None | None \<Rightarrow> None);
          tgt = Option.bind model target
      in case (model, tgt) of
           (Some m, Some True) \<Rightarrow> chutes m
         | _ \<Rightarrow>
           let nonce = resolve_report_nonce re random (aq_nonce q)
           in case legacy_attestation_report_for_domain re now (aq_signing_algo q)
                     (case aq_version q of Some v \<Rightarrow> v | None \<Rightarrow> 1) (Some nonce) domain of
                Inl e \<Rightarrow> report_failure re e
              | Inr report \<Rightarrow>
                  let nvidia_payload = (case Option.bind tgt (\<lambda>_. gpu nonce) of
                                          Some p \<Rightarrow> p | None \<Rightarrow> empty_nvidia_payload re (Some nonce))
                  in (case report_with_legacy_attestation_fields re report (aq_signing_algo q) nvidia_payload of
                        Inr value \<Rightarrow> \<lparr>status = 200, body = value\<rparr>
                      | Inl e \<Rightarrow> report_failure re (Report_Key e)))"

section \<open>Lemmas\<close>

lemma tls_key_for_Some:
  "tls_key_for re domain = Some key \<Longrightarrow> key \<in> set (ks_tls_public_keys (svc_keyset (re_identity re))) \<and> tls_domain key = Some domain"
  by (auto simp: tls_key_for_def find_Some_iff)

lemma bind_host_keeps:
  assumes "bind_host re domain ev = Inr ev'" "k \<noteq> lit ''downstream_tls_binding''"
  shows "obj_get ev' k = obj_get ev k"
  using assms by (auto simp: bind_host_def split: if_splits option.splits)

lemma bind_host_bound:
  assumes "bind_host re domain ev = Inr ev'" "requires_host_for_downstream_tls_binding re"
  shows "\<exists>host name key. domain = Some host \<and> normalize_downstream_domain host = Some name
    \<and> key \<in> set (ks_tls_public_keys (svc_keyset (re_identity re))) \<and> tls_domain key = Some name
    \<and> obj_get ev' (lit ''downstream_tls_binding'') =
        Some (Object [(lit ''domain'', JString name), (lit ''spki_sha256'', JString (tls_spki_sha256_hex key))])"
  using assms
  by (auto simp: bind_host_def downstream_tls_binding_def bind_eq_Some_conv dest!: tls_key_for_Some split: option.splits)

lemma quote_evidence_quote:
  "obj_get (quote_evidence re q) (lit ''quote'') = Some (JString (re_hex_encode re (qt_raw_quote q)))"
  by (simp add: quote_evidence_def Let_def)

lemma assemble_report_Inr:
  assumes "assemble_report re now rd q domain = Inr r"
  obtains payload sig ev where
    "keyset_endorsement_payload (re_sha256 re) (re_hex_encode re) (svc_keyset (re_identity re)) = Inr payload"
    "sign_keyset_endorsement (re_keys re) payload = Inr sig" "bind_host re domain (quote_evidence re q) = Inr ev"
    "env_evidence (ar_attestation r) = Object ev" "env_report_data_hex (ar_attestation r) = re_hex_encode re rd"
    "env_workload_keyset (ar_attestation r) = svc_keyset (re_identity re)"
    "env_keyset_endorsement (ar_attestation r) = \<lparr>ke_algo = pkm_algo (identity_public_key (re_keys re)), ke_value_hex = re_hex_encode re sig\<rparr>"
    "fr_fetched_at (env_freshness (ar_attestation r)) = now"
    "ar_workload_id r = svc_workload_id (re_identity re)" "ar_workload_keyset_digest r = svc_workload_keyset_digest (re_identity re)"
  using assms by (auto simp: assemble_report_def bind_result_Inr map_err_Inr)

lemma new_service_ids:
  assumes "new_service sha hex kp config = Inr svc"
  shows "workload_id sha hex (ks_workload_identity (svc_keyset svc)) = Inr (svc_workload_id svc)"
    "workload_keyset_digest sha hex (svc_keyset svc) = Inr (svc_workload_keyset_digest svc)"
proof -
  have "workload_id sha hex (ks_workload_identity (svc_keyset svc)) = Inr (svc_workload_id svc)
      \<and> workload_keyset_digest sha hex (svc_keyset svc) = Inr (svc_workload_keyset_digest svc)"
    using assms by (cases "receipt_keys kp") (auto simp: new_service_def bind_result_Inr map_err_Inr Let_def split: if_splits)
  then show "workload_id sha hex (ks_workload_identity (svc_keyset svc)) = Inr (svc_workload_id svc)"
    "workload_keyset_digest sha hex (svc_keyset svc) = Inr (svc_workload_keyset_digest svc)" by blast+
qed

lemma legacy_signing_fields_keep:
  assumes "legacy_signing_fields re algo report = Inr report'"
    and "k \<noteq> lit ''signing_public_key''" "k \<noteq> lit ''signing_algo''" "k \<noteq> lit ''signing_address''"
  shows "obj_get report' k = obj_get report k"
  using assms by (auto simp: legacy_signing_fields_def with_signing_key_def bind_result_Inr split: option.splits if_splits)

lemma report_with_legacy_digest:
  assumes "report_with_legacy_attestation_fields re report algo nv = Inr value"
  shows "get value (lit ''workload_keyset_digest'') = Some (JString (ar_workload_keyset_digest report))"
proof -
  obtain obj where "legacy_signing_fields re (signing_algo_or_default algo) (report_value report) = Inr obj"
    using assms by (auto simp: report_with_legacy_attestation_fields_def bind_result_Inr)
  moreover from this have "obj_get obj (lit ''workload_keyset_digest'') = Some (JString (ar_workload_keyset_digest report))"
    by (subst legacy_signing_fields_keep) (auto simp: report_value_def)
  ultimately show ?thesis
    using assms by (auto simp: report_with_legacy_attestation_fields_def Let_def split: option.splits)
qed

section \<open>A sample service\<close>

definition sample_report_env :: "key_provider \<Rightarrow> service_identity \<Rightarrow> report_env" where
  "sample_report_env kp svc = \<lparr>re_identity = svc, re_config = sample_config \<lparr>epoch_version = 1, epoch_not_after = 15\<rparr>, re_keys = kp,
     re_key_custody = Null, re_sha256 = (\<lambda>x. x), re_keccak256 = (\<lambda>x. x), re_hex_encode = latin1,
     re_hex_decode = (\<lambda>s. Inr (map (\<lambda>c. of_nat (code_point c)) s)),
     re_get_quote = (\<lambda>rd. Inr \<lparr>qt_raw_quote = [1], qt_report_data = rd, qt_event_log = Null, qt_vm_config = Null\<rparr>),
     re_get_quote_raw = (\<lambda>rd. Inr \<lparr>qt_raw_quote = [1], qt_report_data = rd, qt_event_log = Null, qt_vm_config = Null\<rparr>),
     re_to_string = (\<lambda>_. []), re_display = (\<lambda>_. [])\<rparr>"

lemma assemble_report_defined:
  assumes "\<And>payload. \<exists>sig. sign_keyset_endorsement (re_keys re) payload = Inr sig" "\<not> requires_host_for_downstream_tls_binding re"
  shows "\<exists>r. assemble_report re now rd q None = Inr r"
proof -
  obtain d where "workload_keyset_digest (re_sha256 re) (re_hex_encode re) (svc_keyset (re_identity re)) = Inr d"
    using workload_keyset_digest_defined by blast
  moreover obtain payload where "canonicalize (endorsement_value d) = Inr payload" using canonicalize_defined [OF endorsement_wf] by blast
  moreover obtain sig where "sign_keyset_endorsement (re_keys re) payload = Inr sig" using assms(1) by blast
  ultimately show ?thesis using assms(2) by (simp add: assemble_report_def keyset_endorsement_payload_def bind_host_def)
qed

section \<open>Properties\<close>



text \<open>
  The inherited report ignores a revocation. While the keyset is revoked, the
  protocol's report endpoint answers 503, but \<open>/v1/attestation/report\<close> still answers 200
  with a fresh quote and a fresh endorsement of the revoked keyset digest, whenever the
  report can be assembled at all.
\<close>

theorem revoked_keyset_still_attested:
  assumes "is_keyset_revoked (re_identity re) st"
    and "aq_model q = None" "nonce = resolve_report_nonce re random (aq_nonce q)"
    and "legacy_attestation_report_for_domain re now (aq_signing_algo q) (case aq_version q of Some v \<Rightarrow> v | None \<Rightarrow> 1)
           (Some nonce) (request_host_domain headers) = Inr report"
    and "report_with_legacy_attestation_fields re report (aq_signing_algo q) (empty_nvidia_payload re (Some nonce)) = Inr wire"
  shows "aci_attestation_report re st now headers (aq_nonce q) = keyset_revoked_response
    \<and> attestation_report_handler re target chutes gpu random now headers q = \<lparr>status = 200, body = wire\<rparr>
    \<and> get wire (lit ''workload_keyset_digest'') = Some (JString (svc_workload_keyset_digest (re_identity re)))"
proof -
  have "ar_workload_keyset_digest report = svc_workload_keyset_digest (re_identity re)"
    using assms(4) by (auto simp: legacy_attestation_report_for_domain_def bind_result_Inr elim: assemble_report_Inr)
  then show ?thesis
    using assms report_with_legacy_digest [OF assms(5)]
    by (simp add: aci_attestation_report_def attestation_report_for_domain_def attestation_report_handler_def)
qed

theorem revoked_keyset_still_attested_witness:
  "\<exists>re st wire. aci_attestation_report re st 5 (\<lambda>_. None) None = keyset_revoked_response
     \<and> attestation_report_handler re (\<lambda>_. None) (\<lambda>_. keyset_revoked_response) (\<lambda>_. None) [] 5 (\<lambda>_. None)
         \<lparr>aq_nonce = None, aq_signing_algo = Some (lit ''ed25519''), aq_model = None, aq_version = None\<rparr> = \<lparr>status = 200, body = wire\<rparr>"
proof -
  define kp where "kp = sample_key_provider\<lparr>e2ee_keys := [\<lparr>kpk_key_id = [], kpk_algo = E2EE_ALGO_LEGACY_ED25519, kpk_public_key_hex = lit ''k''\<rparr>]\<rparr>"
  define svc where "svc = \<lparr>svc_keyset = make_keyset \<lparr>wi_public_key = identity_public_key kp, wi_subject = None\<rparr> [] (e2ee_keys kp) []
     \<lparr>epoch_version = 1, epoch_not_after = 15\<rparr>, svc_workload_id = [], svc_workload_keyset_digest = lit ''d'', svc_default_receipt_key_id = []\<rparr>"
  define st where "st = \<lparr>rst_file = None, rst_statements = [new_statement [] (lit ''d'') [] [] 0]\<rparr>"
  let ?re = "sample_report_env kp svc"
  let ?q = "\<lparr>aq_nonce = None, aq_signing_algo = Some (lit ''ed25519''), aq_model = None, aq_version = None\<rparr>"
  have algo: "signing_algo_or_default (Some (lit ''ed25519'')) = LEGACY_ALGO_ED25519" "LEGACY_ALGO_ED25519 \<noteq> LEGACY_ALGO_ECDSA"
    by (simp_all add: signing_algo_or_default_def LEGACY_ALGO_ED25519_def LEGACY_ALGO_ECDSA_def to_ascii_lowercase_def lit_def ascii_lowercase_char_def)
  obtain rd where "legacy_report_data ?re (Some (lit ''ed25519'')) 1 (Some []) None = Inr rd"
    using algo by (simp add: legacy_report_data_def legacy_signing_key_bytes_def legacy_identity_def legacy_nonce_bytes_def copy_at_def
        sample_report_env_def kp_def as_bytes_def lit_def)
  moreover have "\<exists>r. assemble_report ?re 5 rd q None = Inr r" for rd q
    by (intro assemble_report_defined)
       (simp_all add: sample_report_env_def kp_def svc_def sample_key_provider_def requires_host_for_downstream_tls_binding_def make_keyset_def)
  ultimately obtain report where report: "legacy_attestation_report_for_domain ?re 5 (Some (lit ''ed25519'')) 1 (Some []) None = Inr report"
    by (auto simp: legacy_attestation_report_for_domain_def sample_report_env_def)
  have "env_workload_keyset (ar_attestation report) = svc_keyset (re_identity ?re)"
    using report by (auto simp: legacy_attestation_report_for_domain_def bind_result_Inr elim: assemble_report_Inr)
  then have ks: "env_workload_keyset (ar_attestation report) = svc_keyset svc" by (simp add: sample_report_env_def)
  have "\<exists>wire. report_with_legacy_attestation_fields ?re report (Some (lit ''ed25519'')) nv = Inr wire" for nv
    using algo by (simp add: report_with_legacy_attestation_fields_def legacy_signing_fields_def keyset_e2ee_keys_def report_value_def
        envelope_value_def ks svc_def kp_def make_keyset_def keyset_value_def kpk_value_def legacy_e2ee_key_def algo_and_key_def Let_def)
  then obtain wire where "report_with_legacy_attestation_fields ?re report (Some (lit ''ed25519'')) (empty_nvidia_payload ?re (Some [])) = Inr wire"
    by blast
  moreover have "is_keyset_revoked (re_identity ?re) st"
    by (simp add: is_keyset_revoked_def is_revoked_def sample_report_env_def svc_def st_def new_statement_def)
  ultimately show ?thesis
    using revoked_keyset_still_attested [of ?re st ?q "[]" "[]" 5 "\<lambda>_. None" report wire "\<lambda>_. None" "\<lambda>_. keyset_revoked_response" "\<lambda>_. None"] report
    by (intro exI [of _ ?re] exI [of _ st] exI [of _ wire])
       (simp add: resolve_report_nonce_def sample_report_env_def request_host_domain_def latin1_def)
qed

end
