(* ===== verification/Aci_Verifier.thy ===== *)
theory Aci_Verifier
  imports Attestation Service
begin

text \<open>
  The native verifier of an upstream that speaks the same protocol: the report check of
  \<open>src/aci/verifier/report.rs\<close>, the event log and key custody checks of \<open>verifier/dstack.rs\<close>,
  and the policy, the TLS bindings and the cached verification of \<open>verifier/aci_service.rs\<close>,
  with the signature check of \<open>aci/keys.rs\<close>.

  Hashes, signatures, key recovery, hexadecimal and base64 text, URL parsing, quote
  verification and JSON parsing are libraries: the record \<open>verifier_lib\<close>. One exchange
  with the upstream is the function \<open>fetch\<close> from the URL to a transport error or a status
  and a body.
\<close>

section \<open>Libraries\<close>

record dcap_report =
  dr_is_sgx :: bool
  dr_report_data :: bytes
  dr_rt_mr3 :: "bytes option"

record dstack_event =
  de_imr :: nat
  de_digest :: str
  de_event :: str
  de_event_payload :: str

record verifier_lib =
  vl_sha256 :: "bytes \<Rightarrow> bytes"
  vl_sha384 :: "bytes \<Rightarrow> bytes"
  vl_hex_encode :: "bytes \<Rightarrow> str"
  vl_hex_decode :: "str \<Rightarrow> str + bytes"
  vl_base64 :: "bytes \<Rightarrow> str"
  vl_ed25519_verify :: "bytes \<Rightarrow> bytes \<Rightarrow> bytes \<Rightarrow> bool"
  vl_secp_verify :: "bytes \<Rightarrow> bytes \<Rightarrow> bytes \<Rightarrow> bool"
  vl_secp_compress :: "bytes \<Rightarrow> str + bytes"
  vl_secp_recover :: "bytes \<Rightarrow> bytes \<Rightarrow> nat \<Rightarrow> str + bytes"
  vl_url_host :: "str \<Rightarrow> str + str option"
  vl_dbg :: "str \<Rightarrow> str"
  vl_collateral :: "str \<Rightarrow> bytes \<Rightarrow> str + bytes"
  vl_verify_quote :: "bytes \<Rightarrow> bytes \<Rightarrow> u64 \<Rightarrow> str + dcap_report"
  vl_parse_events :: "str \<Rightarrow> str + dstack_event list"
  vl_parse_report :: "bytes \<Rightarrow> str + attestation_report"

definition decode_hex :: "verifier_lib \<Rightarrow> str \<Rightarrow> str + bytes" where
  "decode_hex vl value = vl_hex_decode vl (strip_0x value)"

definition decode_hex_32 :: "verifier_lib \<Rightarrow> str \<Rightarrow> str + bytes" where
  "decode_hex_32 vl value =
     bind_result (decode_hex vl value) (\<lambda>bytes.
       if length bytes = 32 then Inr bytes else Inl (lit ''expected 32 bytes, got '' @ latin1 (dec (length bytes))))"

definition ALGO_ED25519 :: str where "ALGO_ED25519 = lit ''ed25519''"
definition ALGO_ECDSA_SECP256K1 :: str where "ALGO_ECDSA_SECP256K1 = lit ''ecdsa-secp256k1''"

definition verify_keyset_endorsement :: "verifier_lib \<Rightarrow> public_key_material \<Rightarrow> bytes \<Rightarrow> bytes \<Rightarrow> bool" where
  "verify_keyset_endorsement vl identity payload signature =
     (if pkm_algo identity = ALGO_ED25519 then
        (case vl_hex_decode vl (pkm_public_key_hex identity) of
           Inl _ \<Rightarrow> False
         | Inr pub_bytes \<Rightarrow> length pub_bytes = 32 \<and> length signature = 64 \<and> vl_ed25519_verify vl pub_bytes payload signature)
      else if pkm_algo identity = ALGO_ECDSA_SECP256K1 then
        length signature = 64 \<and>
        (case vl_hex_decode vl (pkm_public_key_hex identity) of
           Inl _ \<Rightarrow> False
         | Inr pub_bytes \<Rightarrow> vl_secp_verify vl pub_bytes payload signature)
      else False)"

section \<open>The report check\<close>

datatype report_validation_error =
    UnsupportedApiVersion str
  | WorkloadIdMismatch
  | WorkloadKeysetDigestMismatch
  | ReportDataMismatch
  | InvalidReportDataHex str
  | KeysetEndorsementAlgoMismatch
  | InvalidKeysetEndorsementHex str
  | KeysetEndorsementInvalid
  | StaleReport
  | Validation_Canonical canonical_error

record validated_report =
  va_workload_id :: str
  va_workload_keyset_digest :: str
  va_report_data :: bytes
  va_evidence :: "json option"

definition raw_evidence :: "verifier_lib \<Rightarrow> bytes \<Rightarrow> str \<Rightarrow> str option \<Rightarrow> json" where
  "raw_evidence vl data content_type source_url =
     (let evidence = [(lit ''digest'', JString (sha256_hex (vl_sha256 vl) (vl_hex_encode vl) data)),
                      (lit ''data'', JString (lit ''data:'' @ content_type @ lit '';base64,'' @ vl_base64 vl data))]
      in Object (case source_url of Some u \<Rightarrow> obj_insert evidence (lit ''source_url'') (JString u) | None \<Rightarrow> evidence))"

definition validate_aci_report_binding ::
    "verifier_lib \<Rightarrow> attestation_report \<Rightarrow> str option \<Rightarrow> u64 \<Rightarrow> bytes option \<Rightarrow> report_validation_error + validated_report" where
  "validate_aci_report_binding vl report nonce now raw_report_body =
     (let env = ar_attestation report; keyset = env_workload_keyset env;
          identity_key = wi_public_key (ks_workload_identity keyset)
      in if ar_api_version report \<noteq> lit ''aci/1'' then Inl (UnsupportedApiVersion (ar_api_version report))
      else
        bind_result (map_err Validation_Canonical (workload_id (vl_sha256 vl) (vl_hex_encode vl) (ks_workload_identity keyset))) (\<lambda>computed_workload_id.
        if computed_workload_id \<noteq> ar_workload_id report then Inl WorkloadIdMismatch
        else
        bind_result (map_err Validation_Canonical (workload_keyset_digest (vl_sha256 vl) (vl_hex_encode vl) keyset)) (\<lambda>computed_keyset_digest.
        if computed_keyset_digest \<noteq> ar_workload_keyset_digest report then Inl WorkloadKeysetDigestMismatch
        else
        bind_result (map_err Validation_Canonical (attestation_statement_for (vl_sha256 vl) (vl_hex_encode vl) keyset nonce)) (\<lambda>statement.
        bind_result (map_err Validation_Canonical (report_data (vl_sha256 vl) statement)) (\<lambda>expected_report_data.
        bind_result (map_err InvalidReportDataHex (decode_hex_32 vl (env_report_data_hex env))) (\<lambda>reported_report_data.
        if reported_report_data \<noteq> expected_report_data then Inl ReportDataMismatch
        else if ke_algo (env_keyset_endorsement env) \<noteq> pkm_algo identity_key then Inl KeysetEndorsementAlgoMismatch
        else
        bind_result (map_err Validation_Canonical (keyset_endorsement_payload (vl_sha256 vl) (vl_hex_encode vl) keyset)) (\<lambda>endorsement_payload.
        bind_result (map_err InvalidKeysetEndorsementHex (decode_hex vl (ke_value_hex (env_keyset_endorsement env)))) (\<lambda>endorsement_sig.
        if \<not> verify_keyset_endorsement vl identity_key endorsement_payload endorsement_sig then Inl KeysetEndorsementInvalid
        else if now < fr_fetched_at (env_freshness env) \<or> fr_stale_after (env_freshness env) \<le> now then Inl StaleReport
        else Inr \<lparr>va_workload_id = ar_workload_id report, va_workload_keyset_digest = ar_workload_keyset_digest report,
               va_report_data = expected_report_data,
               va_evidence = map_option (\<lambda>b. raw_evidence vl b (lit ''application/json'') None) raw_report_body\<rparr>))))))))"

section \<open>Errors of the verifier\<close>

datatype aci_verification_error =
    Aci_Transport str
  | Aci_HttpStatus nat str
  | Aci_InvalidJson str
  | AciBinding report_validation_error
  | PolicyRejected
  | MissingQuote
  | InvalidQuoteHex str
  | InvalidQuoteReportDataHex str
  | QuoteReportDataEvidenceMismatch
  | Collateral str
  | QuoteVerification str
  | Aci_Timeout
  | TeeTypeMismatch str str
  | QuoteReportDataMismatch
  | MissingEventLog
  | InvalidEventLog str
  | EventLogRtmrMismatch
  | MissingAppId
  | MissingKeyCustody
  | UnsupportedKeyCustodyProvider str
  | InvalidKeyCustody str
  | MissingIdentityKeyCustody
  | IdentityKeyCustodyMismatch
  | KmsSignatureChain str
  | KmsRootRejected
  | MissingTlsSpkiBinding
  | MissingDownstreamTlsBinding
  | InvalidDownstreamTlsBinding str
  | DownstreamTlsBindingHostMismatch str str
  | DownstreamTlsBindingNotInKeyset

section \<open>The event log and key custody\<close>

fun replay_rtmr :: "verifier_lib \<Rightarrow> nat \<Rightarrow> bytes \<Rightarrow> dstack_event list \<Rightarrow> aci_verification_error + bytes" where
  "replay_rtmr vl imr mr [] = Inr mr"
| "replay_rtmr vl imr mr (event # events) =
     (if de_imr event \<noteq> imr then replay_rtmr vl imr mr events
      else bind_result (map_err InvalidEventLog (decode_hex vl (de_digest event))) (\<lambda>digest.
             let digest = (if length digest < 48 then digest @ replicate (48 - length digest) 0 else digest)
             in replay_rtmr vl imr (vl_sha384 vl (mr @ digest)) events))"

definition replay_dstack_rtmr :: "verifier_lib \<Rightarrow> dstack_event list \<Rightarrow> nat \<Rightarrow> aci_verification_error + bytes" where
  "replay_dstack_rtmr vl events imr =
     bind_result (replay_rtmr vl imr (replicate 48 0) events) (\<lambda>mr.
       if length mr = 48 then Inr mr else Inl (InvalidEventLog (lit ''replayed RTMR is not 48 bytes'')))"

definition find_app_id :: "dstack_event list \<Rightarrow> dstack_event option" where
  "find_app_id events =
     List.find (\<lambda>event. de_imr event = 3 \<and> de_event event = lit ''app-id'')
       (takeWhile (\<lambda>event. \<not> (de_imr event = 3 \<and> de_event event = lit ''system-ready'')) events)"

definition verify_dstack_event_log_and_app_id ::
    "verifier_lib \<Rightarrow> json \<Rightarrow> dcap_report \<Rightarrow> aci_verification_error + bytes" where
  "verify_dstack_event_log_and_app_id vl evidence report =
     bind_result (ok_or MissingEventLog (Option.bind (get evidence (lit ''event_log'')) as_str)) (\<lambda>event_log.
     bind_result (map_err InvalidEventLog (vl_parse_events vl event_log)) (\<lambda>events.
     bind_result (replay_dstack_rtmr vl events 3) (\<lambda>rtmr3.
     bind_result (ok_or (InvalidEventLog (lit ''dstack event log verification requires a TDX quote'')) (dr_rt_mr3 report)) (\<lambda>quote_rtmr3.
       if rtmr3 \<noteq> quote_rtmr3 then Inl EventLogRtmrMismatch
       else
         bind_result (ok_or MissingAppId (find_app_id events)) (\<lambda>app_id.
           map_err InvalidEventLog (decode_hex vl (de_event_payload app_id)))))))"

definition compressed_k256_public_key_hex :: "verifier_lib \<Rightarrow> str \<Rightarrow> str + str" where
  "compressed_k256_public_key_hex vl public_key_hex =
     bind_result (decode_hex vl public_key_hex) (\<lambda>public_key.
     bind_result (vl_secp_compress vl public_key) (\<lambda>key. Inr (vl_hex_encode vl key)))"

definition recover_k256_public_key :: "verifier_lib \<Rightarrow> bytes \<Rightarrow> bytes \<Rightarrow> str + bytes" where
  "recover_k256_public_key vl message signature =
     (if length signature \<noteq> 65 then
        Inl (lit ''recoverable secp256k1 signature must be 65 bytes, got '' @ latin1 (dec (length signature)))
      else
        let b = unat (last signature); recovery_byte = (if 27 \<le> b \<and> b \<le> 30 then b - 27 else b)
        in if 3 < recovery_byte then Inl (lit ''invalid recovery id: '' @ latin1 (dec b))
           else vl_secp_recover vl message (take 64 signature) recovery_byte)"

record aci_policy =
  ap_accepted_workload_ids :: "str list"
  ap_accepted_image_digests :: "str list"
  ap_accepted_kms_root_public_keys :: "str list"

definition chain_signature :: "verifier_lib \<Rightarrow> json \<Rightarrow> str \<Rightarrow> aci_verification_error + bytes" where
  "chain_signature vl v name =
     bind_result (ok_or (InvalidKeyCustody (lit ''identity key custody signature_chain['' @ name @ lit ''] is not a string'')) (as_str v)) (\<lambda>s.
       map_err InvalidKeyCustody (decode_hex vl s))"

definition kms_chain_root ::
    "verifier_lib \<Rightarrow> str \<Rightarrow> str \<Rightarrow> bytes \<Rightarrow> bytes \<Rightarrow> bytes \<Rightarrow> str + str" where
  "kms_chain_root vl public_key purpose app_id purpose_signature app_signature =
     bind_result (compressed_k256_public_key_hex vl public_key) (\<lambda>identity_public_key_compressed.
     bind_result (recover_k256_public_key vl (as_bytes (purpose @ lit '':'' @ identity_public_key_compressed)) purpose_signature) (\<lambda>app_public_key.
     bind_result (recover_k256_public_key vl (as_bytes (lit ''dstack-kms-issued:'') @ app_id @ app_public_key) app_signature) (\<lambda>root_public_key.
       Inr (vl_hex_encode vl root_public_key))))"

definition custody_str :: "json \<Rightarrow> str \<Rightarrow> aci_verification_error + str" where
  "custody_str identity k =
     ok_or (InvalidKeyCustody (lit ''identity key custody missing '' @ k)) (Option.bind (get identity k) as_str)"

definition verify_identity_chain ::
    "verifier_lib \<Rightarrow> aci_policy \<Rightarrow> bytes \<Rightarrow> str \<Rightarrow> json \<Rightarrow> aci_verification_error + unit" where
  "verify_identity_chain vl policy app_id public_key identity =
     bind_result (custody_str identity (lit ''purpose'')) (\<lambda>purpose.
     bind_result (ok_or (InvalidKeyCustody (lit ''identity key custody missing signature_chain''))
       (Option.bind (get identity (lit ''signature_chain'')) as_array)) (\<lambda>signature_chain.
       case signature_chain of
         [s0, s1] \<Rightarrow>
           bind_result (chain_signature vl s0 (lit ''0'')) (\<lambda>purpose_signature.
           bind_result (chain_signature vl s1 (lit ''1'')) (\<lambda>app_signature.
           bind_result (map_err KmsSignatureChain (kms_chain_root vl public_key purpose app_id purpose_signature app_signature)) (\<lambda>root.
             if root \<notin> set (ap_accepted_kms_root_public_keys policy) then Inl KmsRootRejected else Inr ())))
       | _ \<Rightarrow> Inl (InvalidKeyCustody (lit ''identity key custody signature_chain must contain 2 signatures, got ''
               @ latin1 (dec (length signature_chain))))))"

definition verify_dstack_kms_identity_custody ::
    "verifier_lib \<Rightarrow> attestation_report \<Rightarrow> bytes \<Rightarrow> aci_policy \<Rightarrow> aci_verification_error + unit" where
  "verify_dstack_kms_identity_custody vl report app_id policy =
     bind_result (ok_or MissingKeyCustody (get (env_evidence (ar_attestation report)) (lit ''key_custody''))) (\<lambda>key_custody.
     bind_result (ok_or (InvalidKeyCustody (lit ''missing provider'')) (Option.bind (get key_custody (lit ''provider'')) as_str)) (\<lambda>provider.
     if provider \<noteq> lit ''dstack-kms'' then Inl (UnsupportedKeyCustodyProvider provider)
     else
     bind_result (ok_or (InvalidKeyCustody (lit ''missing keys'')) (Option.bind (get key_custody (lit ''keys'')) as_array)) (\<lambda>custody_keys.
     bind_result (ok_or MissingIdentityKeyCustody
       (List.find (\<lambda>key. Option.bind (get key (lit ''role'')) as_str = Some (lit ''identity'')) custody_keys)) (\<lambda>identity.
     bind_result (custody_str identity (lit ''public_key'')) (\<lambda>public_key.
       if public_key \<noteq> pkm_public_key_hex (wi_public_key (ks_workload_identity (env_workload_keyset (ar_attestation report))))
       then Inl IdentityKeyCustodyMismatch
       else verify_identity_chain vl policy app_id public_key identity)))))"

section \<open>Policy\<close>

datatype verifier_config_error =
    EmptyPolicy
  | EmptyKmsRootPolicy
  | InvalidKmsRootPublicKey str
  | EmptyBaseUrl
  | InvalidBaseUrl str
  | Client str

fun collect_roots :: "verifier_lib \<Rightarrow> str list \<Rightarrow> verifier_config_error + str list" where
  "collect_roots vl [] = Inr []"
| "collect_roots vl (key # rest) =
     bind_result (map_err InvalidKmsRootPublicKey (compressed_k256_public_key_hex vl key)) (\<lambda>k.
     bind_result (collect_roots vl rest) (\<lambda>ks. Inr (k # ks)))"

definition new_policy :: "verifier_lib \<Rightarrow> str list \<Rightarrow> str list \<Rightarrow> str list \<Rightarrow> verifier_config_error + aci_policy" where
  "new_policy vl workload_ids image_digests kms_roots =
     (let workload_ids = filter (\<lambda>s. s \<noteq> []) workload_ids; image_digests = filter (\<lambda>s. s \<noteq> []) image_digests
      in bind_result (collect_roots vl kms_roots) (\<lambda>roots.
           if workload_ids = [] \<and> image_digests = [] then Inl EmptyPolicy
           else if roots = [] then Inl EmptyKmsRootPolicy
           else Inr \<lparr>ap_accepted_workload_ids = workload_ids, ap_accepted_image_digests = image_digests,
                      ap_accepted_kms_root_public_keys = roots\<rparr>))"

definition policy_accepts :: "aci_policy \<Rightarrow> attestation_report \<Rightarrow> bool" where
  "policy_accepts policy report \<longleftrightarrow>
     ar_workload_id report \<in> set (ap_accepted_workload_ids policy)
     \<or> (case sp_image_digest (env_source_provenance (ar_attestation report)) of
          Some digest \<Rightarrow> digest \<in> set (ap_accepted_image_digests policy)
        | None \<Rightarrow> False)"

section \<open>Channel bindings of a report\<close>

definition normalize_tls_domain :: "verifier_lib \<Rightarrow> str \<Rightarrow> str + str" where
  "normalize_tls_domain vl raw =
     (case normalize_downstream_domain raw of
        Some domain \<Rightarrow> Inr domain
      | None \<Rightarrow> Inl (lit ''invalid TLS domain '' @ vl_dbg vl raw))"

definition normalize_sha256_text :: "str \<Rightarrow> str + str" where
  "normalize_sha256_text value =
     (let value = trim value
      in if length (as_bytes value) \<noteq> 64 \<or> \<not> list_all is_ascii_hexdigit (as_bytes value)
         then Inl (lit ''expected 64 hex characters'') else Inr (to_ascii_lowercase value))"

definition origin_host_domain :: "verifier_lib \<Rightarrow> str \<Rightarrow> aci_verification_error + str" where
  "origin_host_domain vl origin =
     bind_result (map_err (\<lambda>e. InvalidDownstreamTlsBinding (lit ''invalid report base URL '' @ vl_dbg vl origin @ lit '': '' @ e))
       (vl_url_host vl origin)) (\<lambda>host.
     bind_result (ok_or (InvalidDownstreamTlsBinding (lit ''report base URL '' @ vl_dbg vl origin @ lit '' has no host'')) host) (\<lambda>host.
       map_err (\<lambda>e. InvalidDownstreamTlsBinding (lit ''invalid report base URL host '' @ vl_dbg vl host @ lit '': '' @ e))
         (normalize_tls_domain vl host)))"

definition binding_str :: "json \<Rightarrow> str \<Rightarrow> aci_verification_error + str" where
  "binding_str binding k =
     ok_or (InvalidDownstreamTlsBinding (lit ''downstream_tls_binding.'' @ k @ lit '' must be a string'')) (Option.bind (get binding k) as_str)"

definition selected_downstream_tls_binding :: "verifier_lib \<Rightarrow> json \<Rightarrow> aci_verification_error + (str \<times> str)" where
  "selected_downstream_tls_binding vl evidence =
     bind_result (ok_or MissingDownstreamTlsBinding (get evidence (lit ''downstream_tls_binding''))) (\<lambda>binding.
     bind_result (binding_str binding (lit ''domain'')) (\<lambda>domain.
     bind_result (binding_str binding (lit ''spki_sha256'')) (\<lambda>spki.
     bind_result (map_err (\<lambda>e. InvalidDownstreamTlsBinding (lit ''invalid downstream_tls_binding.domain: '' @ e)) (normalize_tls_domain vl domain)) (\<lambda>domain.
     bind_result (map_err (\<lambda>e. InvalidDownstreamTlsBinding (lit ''invalid downstream_tls_binding.spki_sha256: '' @ e)) (normalize_sha256_text spki)) (\<lambda>spki.
       Inr (domain, spki))))))"

definition key_spki :: "tls_spki \<Rightarrow> aci_verification_error + str" where
  "key_spki key =
     map_err (\<lambda>e. InvalidDownstreamTlsBinding (lit ''invalid keyset TLS SPKI digest: '' @ e)) (normalize_sha256_text (tls_spki_sha256_hex key))"

fun service_wide_bindings :: "str \<Rightarrow> tls_spki list \<Rightarrow> aci_verification_error + channel_binding list" where
  "service_wide_bindings origin [] = Inr []"
| "service_wide_bindings origin (key # rest) =
     bind_result (key_spki key) (\<lambda>spki. bind_result (service_wide_bindings origin rest) (\<lambda>bs. Inr (TlsSpkiSha256 origin spki # bs)))"

fun domain_binding ::
    "verifier_lib \<Rightarrow> str \<Rightarrow> str \<Rightarrow> str \<Rightarrow> tls_spki list \<Rightarrow> aci_verification_error + channel_binding list" where
  "domain_binding vl origin domain spki [] = Inl DownstreamTlsBindingNotInKeyset"
| "domain_binding vl origin domain spki (key # rest) =
     (case tls_domain key of
        None \<Rightarrow> domain_binding vl origin domain spki rest
      | Some d \<Rightarrow>
          bind_result (map_err (\<lambda>e. InvalidDownstreamTlsBinding (lit ''invalid keyset TLS domain '' @ vl_dbg vl d @ lit '': '' @ e))
            (normalize_tls_domain vl d)) (\<lambda>key_domain.
          bind_result (key_spki key) (\<lambda>key_spki.
            if key_domain = domain \<and> key_spki = spki then Inr [TlsSpkiSha256 origin spki]
            else domain_binding vl origin domain spki rest)))"

definition aci_report_tls_channel_bindings ::
    "verifier_lib \<Rightarrow> attestation_report \<Rightarrow> str \<Rightarrow> aci_verification_error + channel_binding list" where
  "aci_report_tls_channel_bindings vl report origin =
     (let tls_public_keys = ks_tls_public_keys (env_workload_keyset (ar_attestation report))
      in if tls_public_keys = [] then Inl MissingTlsSpkiBinding
         else if \<not> list_ex (\<lambda>key. tls_domain key \<noteq> None) tls_public_keys then service_wide_bindings origin tls_public_keys
         else
           bind_result (selected_downstream_tls_binding vl (env_evidence (ar_attestation report))) (\<lambda>(domain, spki).
           bind_result (origin_host_domain vl origin) (\<lambda>origin_domain.
             if domain \<noteq> origin_domain then Inl (DownstreamTlsBindingHostMismatch domain origin_domain)
             else domain_binding vl origin domain spki tls_public_keys)))"

section \<open>The verifier\<close>

definition expected_dcap_report_data :: "bytes \<Rightarrow> bytes" where
  "expected_dcap_report_data data = data @ replicate 32 0"

definition check_quote_evidence :: "verifier_lib \<Rightarrow> json \<Rightarrow> dcap_report \<Rightarrow> aci_verification_error + unit" where
  "check_quote_evidence vl evidence verified =
     (case Option.bind (get evidence (lit ''quote_report_data'')) as_str of
        None \<Rightarrow> Inr ()
      | Some h \<Rightarrow>
          bind_result (map_err InvalidQuoteReportDataHex (decode_hex vl h)) (\<lambda>rd.
            if rd \<noteq> dr_report_data verified then Inl QuoteReportDataEvidenceMismatch else Inr ()))"

definition verify_dcap_quote ::
    "verifier_lib \<Rightarrow> str \<Rightarrow> aci_policy \<Rightarrow> attestation_report \<Rightarrow> validated_report \<Rightarrow> u64 \<Rightarrow> aci_verification_error + unit" where
  "verify_dcap_quote vl pccs_url policy report validated now =
     (let evidence = env_evidence (ar_attestation report)
      in bind_result (ok_or MissingQuote (Option.bind (get evidence (lit ''quote'')) as_str)) (\<lambda>quote_hex.
         bind_result (map_err InvalidQuoteHex (decode_hex vl quote_hex)) (\<lambda>raw_quote.
         bind_result (map_err Collateral (vl_collateral vl pccs_url raw_quote)) (\<lambda>collateral.
         bind_result (map_err QuoteVerification (vl_verify_quote vl raw_quote collateral now)) (\<lambda>verified.
         let verified_tee_type = (if dr_is_sgx verified then lit ''sgx'' else lit ''tdx'')
         in if env_tee_type (ar_attestation report) \<noteq> verified_tee_type
            then Inl (TeeTypeMismatch (env_tee_type (ar_attestation report)) verified_tee_type)
            else
              bind_result (check_quote_evidence vl evidence verified) (\<lambda>_.
              if dr_report_data verified \<noteq> expected_dcap_report_data (va_report_data validated) then Inl QuoteReportDataMismatch
              else
                bind_result (verify_dstack_event_log_and_app_id vl evidence verified) (\<lambda>app_id.
                  verify_dstack_kms_identity_custody vl report app_id policy)))))))"

record cached_verification =
  cv_expires_at :: u64
  cv_vendor :: str
  cv_evidence :: "json option"
  cv_channel_bindings :: "channel_binding list"

record aci_verifier =
  av_report_base_url :: str
  av_pccs_url :: str
  av_policy :: aci_policy
  av_cache_ttl_seconds :: u64
  av_request_timeout_seconds :: u64
  av_cache :: "cached_verification option"
  av_verifier_id :: str

text \<open>\<open>client\<close> is the result of building the HTTP client with the two timeouts.\<close>

definition new_with_timeouts ::
    "(u64 \<Rightarrow> u64 \<Rightarrow> str + unit) \<Rightarrow> str \<Rightarrow> str \<Rightarrow> aci_policy \<Rightarrow> u64 \<Rightarrow> u64 \<Rightarrow> u64 \<Rightarrow> verifier_config_error + aci_verifier" where
  "new_with_timeouts client report_base_url pccs_url policy cache_ttl_seconds connect_timeout_seconds request_timeout_seconds =
     (let report_base_url = trim_end_matches (\<lambda>c. c = ch CHR ''/'') (trim report_base_url)
      in if report_base_url = [] then Inl EmptyBaseUrl
         else
           bind_result (map_err Client (client connect_timeout_seconds request_timeout_seconds)) (\<lambda>_.
             Inr \<lparr>av_report_base_url = report_base_url, av_pccs_url = pccs_url, av_policy = policy,
                    av_cache_ttl_seconds = cache_ttl_seconds, av_request_timeout_seconds = request_timeout_seconds,
                    av_cache = None, av_verifier_id = lit ''aci-service/v1''\<rparr>))"

definition cached_event_for :: "cached_verification \<Rightarrow> verification_request \<Rightarrow> str \<Rightarrow> upstream_verified_event" where
  "cached_event_for c request verifier_id = default_upstream_verified_event
     \<lparr>uv_upstream_name := cv_vendor c, uv_model_id := vr_model_id request, uv_url_origin := vr_url_origin request,
      uv_verifier_id := verifier_id, uv_result := Verified, uv_required := vr_required request,
      uv_evidence := cv_evidence c, uv_channel_bindings := cv_channel_bindings c\<rparr>"

definition report_url :: "aci_verifier \<Rightarrow> str \<Rightarrow> str" where
  "report_url v nonce = av_report_base_url v @ lit ''/v1/aci/attestation?nonce='' @ nonce"

definition check_report ::
    "verifier_lib \<Rightarrow> aci_verifier \<Rightarrow> str \<Rightarrow> u64 \<Rightarrow> bytes \<Rightarrow> attestation_report \<Rightarrow> aci_verification_error + cached_verification" where
  "check_report vl v nonce verified_at wire report =
     bind_result (map_err AciBinding (validate_aci_report_binding vl report (Some nonce) verified_at (Some wire))) (\<lambda>validated.
     if \<not> policy_accepts (av_policy v) report then Inl PolicyRejected
     else
       bind_result (verify_dcap_quote vl (av_pccs_url v) (av_policy v) report validated verified_at) (\<lambda>_.
       let expires_at = min (saturating_add verified_at (av_cache_ttl_seconds v)) (fr_stale_after (env_freshness (ar_attestation report)))
       in bind_result (aci_report_tls_channel_bindings vl report (av_report_base_url v)) (\<lambda>channel_bindings.
            Inr \<lparr>cv_expires_at = expires_at, cv_vendor = env_vendor (ar_attestation report), cv_evidence = va_evidence validated,
                   cv_channel_bindings = channel_bindings\<rparr>)))"

definition verify_uncached ::
    "verifier_lib \<Rightarrow> aci_verifier \<Rightarrow> (str \<Rightarrow> str + nat \<times> bytes) \<Rightarrow> str \<Rightarrow> u64 \<Rightarrow> aci_verification_error + cached_verification" where
  "verify_uncached vl v fetch nonce verified_at =
     bind_result (map_err Aci_Transport (fetch (report_url v nonce))) (\<lambda>(st, wire).
     if \<not> (200 \<le> st \<and> st < 300) then Inl (Aci_HttpStatus st (from_utf8_lossy wire))
     else bind_result (map_err Aci_InvalidJson (vl_parse_report vl wire)) (check_report vl v nonce verified_at wire))"

text \<open>
  \<open>now\<close> and \<open>verified_at\<close> are the two clock readings, \<open>elapsed\<close> says whether the deadline
  passes before the check is done, \<open>display\<close> is the text of an error.
\<close>

definition fresh_cache :: "aci_verifier \<Rightarrow> u64 \<Rightarrow> cached_verification option" where
  "fresh_cache v now =
     (case av_cache v of Some c \<Rightarrow> if now < cv_expires_at c then Some c else None | None \<Rightarrow> None)"

definition failed_verification :: "aci_verifier \<Rightarrow> verification_request \<Rightarrow> str \<Rightarrow> upstream_verified_event" where
  "failed_verification v request reason = default_upstream_verified_event
     \<lparr>uv_upstream_name := vr_upstream_name request, uv_model_id := vr_model_id request, uv_url_origin := vr_url_origin request,
      uv_verifier_id := av_verifier_id v, uv_result := Failed, uv_required := vr_required request,
      uv_reason := Some reason\<rparr>"

definition aci_verify ::
    "verifier_lib \<Rightarrow> (aci_verification_error \<Rightarrow> str) \<Rightarrow> (str \<Rightarrow> str + nat \<times> bytes) \<Rightarrow> (u64 \<Rightarrow> bool) \<Rightarrow> str \<Rightarrow> u64 \<Rightarrow> u64 \<Rightarrow>
     aci_verifier \<Rightarrow> verification_request \<Rightarrow> upstream_verified_event \<times> aci_verifier" where
  "aci_verify vl display fetch elapsed nonce now verified_at v request =
     (case fresh_cache v now of
        Some cached \<Rightarrow> (cached_event_for cached request (av_verifier_id v), v)
      | None \<Rightarrow>
          (case (if elapsed (av_request_timeout_seconds v) then Inl Aci_Timeout else verify_uncached vl v fetch nonce verified_at) of
             Inr verified \<Rightarrow> (cached_event_for verified request (av_verifier_id v), v\<lparr>av_cache := Some verified\<rparr>)
           | Inl err \<Rightarrow> (failed_verification v request (display err), v)))"

text \<open>The verifier keeps the defaults of the trait for the other two operations.\<close>

definition default_invalidate :: "'v \<Rightarrow> verification_request \<Rightarrow> 'v" where
  "default_invalidate v request = v"

definition default_refresh ::
    "('v \<Rightarrow> verification_request \<Rightarrow> upstream_verified_event \<times> 'v) \<Rightarrow> ('v \<Rightarrow> verification_request \<Rightarrow> 'v) \<Rightarrow> 'v \<Rightarrow>
     verification_request \<Rightarrow> upstream_verified_event \<times> 'v" where
  "default_refresh verify invalidate v request = verify (invalidate v request) request"

section \<open>Lemmas\<close>

lemma validate_Inr:
  "validate_aci_report_binding vl r nonce now wire = Inr va \<longleftrightarrow>
     ar_api_version r = lit ''aci/1''
     \<and> workload_id (vl_sha256 vl) (vl_hex_encode vl) (ks_workload_identity (env_workload_keyset (ar_attestation r))) = Inr (ar_workload_id r)
     \<and> workload_keyset_digest (vl_sha256 vl) (vl_hex_encode vl) (env_workload_keyset (ar_attestation r)) = Inr (ar_workload_keyset_digest r)
     \<and> (\<exists>rd. report_data (vl_sha256 vl) \<lparr>as_workload_id = ar_workload_id r, as_workload_keyset_digest = ar_workload_keyset_digest r,
            as_nonce = nonce\<rparr> = Inr rd
          \<and> decode_hex_32 vl (env_report_data_hex (ar_attestation r)) = Inr rd
          \<and> va = \<lparr>va_workload_id = ar_workload_id r, va_workload_keyset_digest = ar_workload_keyset_digest r, va_report_data = rd,
              va_evidence = map_option (\<lambda>b. raw_evidence vl b (lit ''application/json'') None) wire\<rparr>)
     \<and> ke_algo (env_keyset_endorsement (ar_attestation r))
         = pkm_algo (wi_public_key (ks_workload_identity (env_workload_keyset (ar_attestation r))))
     \<and> (\<exists>payload sig. canonicalize (endorsement_value (ar_workload_keyset_digest r)) = Inr payload
          \<and> decode_hex vl (ke_value_hex (env_keyset_endorsement (ar_attestation r))) = Inr sig
          \<and> verify_keyset_endorsement vl (wi_public_key (ks_workload_identity (env_workload_keyset (ar_attestation r)))) payload sig)
     \<and> fr_fetched_at (env_freshness (ar_attestation r)) \<le> now \<and> now < fr_stale_after (env_freshness (ar_attestation r))"
  (is "?l \<longleftrightarrow> ?r")
proof
  show "?l \<Longrightarrow> ?r"
    by (auto simp: validate_aci_report_binding_def Let_def bind_result_Inr map_err_Inr attestation_statement_for_def
        keyset_endorsement_payload_def split: if_splits)
  show "?r \<Longrightarrow> ?l"
    by (auto simp: validate_aci_report_binding_def Let_def bind_result_Inr map_err_Inr attestation_statement_for_def
        keyset_endorsement_payload_def)
qed

text \<open>What the provenance of a report says plays no part in the checks of its binding and quote.\<close>

definition set_image_digest :: "str \<Rightarrow> attestation_report \<Rightarrow> attestation_report" where
  "set_image_digest d r = r\<lparr>ar_attestation := (ar_attestation r)\<lparr>env_source_provenance :=
     (env_source_provenance (ar_attestation r))\<lparr>sp_image_digest := Some d\<rparr>\<rparr>\<rparr>"

lemma set_image_digest_fields:
  "ar_api_version (set_image_digest d r) = ar_api_version r" "ar_workload_id (set_image_digest d r) = ar_workload_id r"
  "ar_workload_keyset_digest (set_image_digest d r) = ar_workload_keyset_digest r"
  "env_workload_keyset (ar_attestation (set_image_digest d r)) = env_workload_keyset (ar_attestation r)"
  "env_report_data_hex (ar_attestation (set_image_digest d r)) = env_report_data_hex (ar_attestation r)"
  "env_keyset_endorsement (ar_attestation (set_image_digest d r)) = env_keyset_endorsement (ar_attestation r)"
  "env_freshness (ar_attestation (set_image_digest d r)) = env_freshness (ar_attestation r)"
  "env_evidence (ar_attestation (set_image_digest d r)) = env_evidence (ar_attestation r)"
  "env_tee_type (ar_attestation (set_image_digest d r)) = env_tee_type (ar_attestation r)"
  "env_vendor (ar_attestation (set_image_digest d r)) = env_vendor (ar_attestation r)"
  by (simp_all add: set_image_digest_def)

lemma set_image_digest_checks:
  "validate_aci_report_binding vl (set_image_digest d r) nonce now wire = validate_aci_report_binding vl r nonce now wire"
  "verify_dcap_quote vl pccs policy (set_image_digest d r) va now = verify_dcap_quote vl pccs policy r va now"
  "aci_report_tls_channel_bindings vl (set_image_digest d r) origin = aci_report_tls_channel_bindings vl r origin"
  unfolding validate_aci_report_binding_def verify_dcap_quote_def verify_dstack_kms_identity_custody_def
    aci_report_tls_channel_bindings_def Let_def set_image_digest_fields by (rule refl)+

lemma verify_dcap_quote_bound:
  assumes "verify_dcap_quote vl pccs policy r va now = Inr u"
  obtains quote_hex raw collateral dr app_id where
    "get (env_evidence (ar_attestation r)) (lit ''quote'') = Some (JString quote_hex)" "decode_hex vl quote_hex = Inr raw"
    "vl_collateral vl pccs raw = Inr collateral" "vl_verify_quote vl raw collateral now = Inr dr"
    "dr_report_data dr = va_report_data va @ replicate 32 0"
    "env_tee_type (ar_attestation r) = (if dr_is_sgx dr then lit ''sgx'' else lit ''tdx'')"
    "verify_dstack_event_log_and_app_id vl (env_evidence (ar_attestation r)) dr = Inr app_id"
    "verify_dstack_kms_identity_custody vl r app_id policy = Inr u"
  using assms
  by (auto simp: verify_dcap_quote_def Let_def bind_result_Inr map_err_Inr expected_dcap_report_data_def
      bind_eq_Some_conv as_str_Some split: if_splits)

lemma service_wide_bindings_Inr:
  assumes "service_wide_bindings origin tls = Inr bs"
  shows "length bs = length tls
    \<and> (\<forall>b \<in> set bs. \<exists>key \<in> set tls. \<exists>spki. b = TlsSpkiSha256 origin spki \<and> normalize_sha256_text (tls_spki_sha256_hex key) = Inr spki)"
  using assms by (induction tls arbitrary: bs) (fastforce simp: bind_result_Inr map_err_Inr key_spki_def)+

lemma domain_binding_Inr:
  assumes "domain_binding vl origin domain spki tls = Inr bs"
  shows "bs = [TlsSpkiSha256 origin spki] \<and> (\<exists>key \<in> set tls. normalize_sha256_text (tls_spki_sha256_hex key) = Inr spki
    \<and> (\<exists>d. tls_domain key = Some d \<and> normalize_tls_domain vl d = Inr domain))"
  using assms by (induction tls) (auto simp: bind_result_Inr map_err_Inr key_spki_def split: option.splits if_splits)

lemma tls_channel_bindings_Inr:
  assumes "aci_report_tls_channel_bindings vl r origin = Inr bs"
  shows "bs \<noteq> [] \<and> (\<forall>b \<in> set bs. \<exists>key \<in> set (ks_tls_public_keys (env_workload_keyset (ar_attestation r))). \<exists>spki.
      b = TlsSpkiSha256 origin spki \<and> normalize_sha256_text (tls_spki_sha256_hex key) = Inr spki
      \<and> (\<forall>d. tls_domain key = Some d \<longrightarrow> (\<exists>name. normalize_tls_domain vl d = Inr name \<and> origin_host_domain vl origin = Inr name)))"
proof (cases "list_ex (\<lambda>key. tls_domain key \<noteq> None) (ks_tls_public_keys (env_workload_keyset (ar_attestation r)))")
  case True
  then obtain domain spki where "origin_host_domain vl origin = Inr domain"
      "domain_binding vl origin domain spki (ks_tls_public_keys (env_workload_keyset (ar_attestation r))) = Inr bs"
    using assms by (auto simp: aci_report_tls_channel_bindings_def Let_def bind_result_Inr split: if_splits)
  then show ?thesis using domain_binding_Inr by fastforce
next
  case False
  then have sw: "service_wide_bindings origin (ks_tls_public_keys (env_workload_keyset (ar_attestation r))) = Inr bs"
    and ne: "ks_tls_public_keys (env_workload_keyset (ar_attestation r)) \<noteq> []"
    using assms by (auto simp: aci_report_tls_channel_bindings_def Let_def split: if_splits)
  have "tls_domain key = None" if "key \<in> set (ks_tls_public_keys (env_workload_keyset (ar_attestation r)))" for key
    using False that by (auto simp: list_ex_iff)
  then show ?thesis using service_wide_bindings_Inr [OF sw] ne by fastforce
qed

lemma check_report_Inr:
  assumes "check_report vl v nonce now wire r = Inr c"
  obtains va u where "validate_aci_report_binding vl r (Some nonce) now (Some wire) = Inr va" "policy_accepts (av_policy v) r"
    "verify_dcap_quote vl (av_pccs_url v) (av_policy v) r va now = Inr u"
    "aci_report_tls_channel_bindings vl r (av_report_base_url v) = Inr (cv_channel_bindings c)"
    "cv_expires_at c = min (saturating_add now (av_cache_ttl_seconds v)) (fr_stale_after (env_freshness (ar_attestation r)))"
  using assms by (auto simp: check_report_def bind_result_Inr map_err_Inr Let_def split: if_splits)

lemma replay_rtmr_payload:
  "replay_rtmr vl imr mr (map (\<lambda>e. if P e then e\<lparr>de_event_payload := p\<rparr> else e) events) = replay_rtmr vl imr mr events"
  by (induction events arbitrary: mr) (simp_all add: Let_def)

lemma find_app_id_payload:
  assumes "find_app_id events = Some e"
  shows "find_app_id (map (\<lambda>e. if de_imr e = 3 \<and> de_event e = lit ''app-id'' then e\<lparr>de_event_payload := p\<rparr> else e) events)
    = Some (e\<lparr>de_event_payload := p\<rparr>)"
  using assms by (induction events) (auto simp: find_app_id_def split: if_splits)

text \<open>
  What the report check relies on of its libraries: decoding undoes hexadecimal encoding,
  encoded text has no \<open>0x\<close> prefix, and SHA-256 has 32 bytes.
\<close>

definition verifier_lib_lawful :: "verifier_lib \<Rightarrow> bool" where
  "verifier_lib_lawful vl \<longleftrightarrow>
     (\<forall>b. vl_hex_decode vl (vl_hex_encode vl b) = Inr b \<and> strip_0x (vl_hex_encode vl b) = vl_hex_encode vl b)
     \<and> (\<forall>b. length (vl_sha256 vl b) = 32)"

lemma decode_own_hex: "verifier_lib_lawful vl \<Longrightarrow> decode_hex vl (vl_hex_encode vl b) = Inr b"
  by (simp add: verifier_lib_lawful_def decode_hex_def)

lemma decode_own_report_data:
  assumes "verifier_lib_lawful vl" "report_data (vl_sha256 vl) statement = Inr rd"
  shows "decode_hex_32 vl (vl_hex_encode vl rd) = Inr rd"
proof -
  have "length rd = 32" using assms
    by (auto simp: report_data_def jcs_sha256_raw_def verifier_lib_lawful_def split: sum.splits)
  then show ?thesis using decode_own_hex [OF assms(1)] by (simp add: decode_hex_32_def)
qed

lemma assemble_report_version: "assemble_report re now rd q domain = Inr r \<Longrightarrow>
    ar_api_version r = lit ''aci/1'' \<and> fr_stale_after (env_freshness (ar_attestation r)) = now + cfg_freshness_seconds (re_config re)"
  by (auto simp: assemble_report_def bind_result_Inr map_err_Inr)

lemma own_report_passes:
  assumes "attestation_report_for_domain re st now nonce domain = Inr r"
    and "new_service (re_sha256 re) (re_hex_encode re) (re_keys re) (re_config re) = Inr (re_identity re)"
    and "re_sha256 re = vl_sha256 vl" "re_hex_encode re = vl_hex_encode vl" "verifier_lib_lawful vl"
    and "\<And>payload sig. sign_keyset_endorsement (re_keys re) payload = Inr sig \<Longrightarrow>
           verify_keyset_endorsement vl (identity_public_key (re_keys re)) payload sig"
    and "now \<le> later" "later < now + cfg_freshness_seconds (re_config re)"
  shows "\<exists>va. validate_aci_report_binding vl r nonce later wire = Inr va \<and> va_workload_id va = svc_workload_id (re_identity re)
    \<and> va_workload_keyset_digest va = svc_workload_keyset_digest (re_identity re)
    \<and> env_workload_keyset (ar_attestation r) = svc_keyset (re_identity re)"
proof -
  note ids = new_service_ids [OF assms(2)]
  have ident: "wi_public_key (ks_workload_identity (svc_keyset (re_identity re))) = identity_public_key (re_keys re)"
    using new_service_keyset(1) [OF assms(2)] by (simp add: make_keyset_def)
  obtain rd q where rd: "report_data (re_sha256 re) \<lparr>as_workload_id = svc_workload_id (re_identity re),
        as_workload_keyset_digest = svc_workload_keyset_digest (re_identity re), as_nonce = nonce\<rparr> = Inr rd"
      and asm: "assemble_report re now rd q domain = Inr r"
    using assms(1) ids
    by (auto simp: attestation_report_for_domain_def attestation_statement_for_def bind_result_Inr map_err_Inr split: if_splits)
  obtain payload sig ev where r:
    "keyset_endorsement_payload (re_sha256 re) (re_hex_encode re) (svc_keyset (re_identity re)) = Inr payload"
    "sign_keyset_endorsement (re_keys re) payload = Inr sig" "bind_host re domain (quote_evidence re q) = Inr ev"
    "env_evidence (ar_attestation r) = Object ev" "env_report_data_hex (ar_attestation r) = re_hex_encode re rd"
    "env_workload_keyset (ar_attestation r) = svc_keyset (re_identity re)"
    "env_keyset_endorsement (ar_attestation r) = \<lparr>ke_algo = pkm_algo (identity_public_key (re_keys re)), ke_value_hex = re_hex_encode re sig\<rparr>"
    "fr_fetched_at (env_freshness (ar_attestation r)) = now"
    "ar_workload_id r = svc_workload_id (re_identity re)" "ar_workload_keyset_digest r = svc_workload_keyset_digest (re_identity re)"
    by (rule assemble_report_Inr [OF asm])
  have "canonicalize (endorsement_value (svc_workload_keyset_digest (re_identity re))) = Inr payload"
    using r(1) ids(2) by (simp add: keyset_endorsement_payload_def)
  then show ?thesis
    using r(2,5-) rd ids ident assemble_report_version [OF asm] assms(6) [OF r(2)] assms(7,8)
      decode_own_hex [OF assms(5), of sig] decode_own_report_data [OF assms(5), of _ rd] assms(3,4)
    by (simp add: validate_Inr)
qed

lemma new_service_defined:
  assumes "\<not> is_test_only kp" "receipt_keys kp \<noteq> []"
  shows "\<exists>svc. new_service sha hex kp (sample_config e) = Inr svc"
proof -
  obtain k ks where "receipt_keys kp = k # ks" using assms(2) by (cases "receipt_keys kp") auto
  moreover have "\<exists>d. workload_id sha hex i = Inr d" for i
    by (simp add: workload_id_def workload_id_for_key_def jcs_digest_defined)
  moreover have "\<exists>d. workload_keyset_digest sha hex keyset = Inr d" for keyset
    using workload_keyset_digest_defined by blast
  ultimately show ?thesis
    using assms(1) by (simp add: new_service_def sample_config_def validate_source_provenance_def is_unknown_def Let_def
        bind_result_Inr map_err_Inr) blast
qed

section \<open>A sample verifier\<close>

definition sample_events :: "str \<Rightarrow> dstack_event list" where
  "sample_events payload = [\<lparr>de_imr = 3, de_digest = lit ''h'', de_event = lit ''app-id'', de_event_payload = payload\<rparr>]"

definition sample_attested_provider :: key_provider where
  "sample_attested_provider = sample_key_provider
     \<lparr>identity_public_key := \<lparr>pkm_algo = ALGO_ED25519, pkm_public_key_hex = ch CHR ''h'' # latin1 (replicate 32 0)\<rparr>,
      sign_keyset_endorsement := (\<lambda>_. Inr (replicate 64 0))\<rparr>"

text \<open>A report that passes every check, for an upstream with one service-wide TLS key.\<close>

definition sample_upstream_keyset :: workload_keyset where
  "sample_upstream_keyset = make_keyset \<lparr>wi_public_key = identity_public_key sample_attested_provider, wi_subject = None\<rparr> [] []
     [\<lparr>tls_domain = None, tls_spki_sha256_hex = replicate 64 (ch CHR ''a'')\<rparr>] \<lparr>epoch_version = 1, epoch_not_after = 15\<rparr>"

definition sample_digest :: str where
  "sample_digest = lit ''sha256:'' @ ch CHR ''h'' # latin1 (replicate 32 0)"

definition sample_evidence :: "str \<Rightarrow> json" where
  "sample_evidence event_log = Object [(lit ''quote'', JString (lit ''h'')), (lit ''event_log'', JString event_log),
     (lit ''key_custody'', Object [(lit ''provider'', JString (lit ''dstack-kms'')),
       (lit ''keys'', Array [Object [(lit ''role'', JString (lit ''identity'')),
          (lit ''public_key'', JString (pkm_public_key_hex (identity_public_key sample_attested_provider))),
          (lit ''purpose'', JString []),
          (lit ''signature_chain'', Array [JString (ch CHR ''h'' # latin1 (replicate 65 0)), JString (ch CHR ''h'' # latin1 (replicate 65 0))])]])])]"

definition sample_report :: attestation_report where
  "sample_report = \<lparr>ar_api_version = lit ''aci/1'', ar_workload_id = sample_digest, ar_workload_keyset_digest = sample_digest,
     ar_attestation = \<lparr>env_vendor = lit ''v'', env_tee_type = lit ''tdx'', env_workload_keyset = sample_upstream_keyset,
       env_report_data_hex = ch CHR ''h'' # latin1 (replicate 32 0),
       env_keyset_endorsement = \<lparr>ke_algo = ALGO_ED25519, ke_value_hex = ch CHR ''h'' # latin1 (replicate 64 0)\<rparr>,
       env_source_provenance = \<lparr>sp_repo_url = None, sp_repo_commit = None, sp_image_digest = None, sp_image_provenance = None\<rparr>,
       env_freshness = \<lparr>fr_fetched_at = 5, fr_stale_after = 65\<rparr>, env_evidence = sample_evidence (lit ''h'')\<rparr>,
     ar_service_capabilities = \<lparr>sc_supported_e2ee_versions = []\<rparr>\<rparr>"

definition sample_verifier_lib :: verifier_lib where
  "sample_verifier_lib = \<lparr>vl_sha256 = (\<lambda>_. replicate 32 0), vl_sha384 = (\<lambda>_. replicate 48 0), vl_hex_encode = (\<lambda>b. ch CHR ''h'' # latin1 b),
     vl_hex_decode = (\<lambda>s. Inr (map (\<lambda>c. of_nat (code_point c)) (drop 1 s))), vl_base64 = latin1,
     vl_ed25519_verify = (\<lambda>_ _ _. True), vl_secp_verify = (\<lambda>_ _ _. True), vl_secp_compress = (\<lambda>_. Inr []),
     vl_secp_recover = (\<lambda>_ _ _. Inr []), vl_url_host = (\<lambda>s. Inr (Some s)), vl_dbg = (\<lambda>s. s), vl_collateral = (\<lambda>_ _. Inr []),
     vl_verify_quote = (\<lambda>_ _ _. Inr \<lparr>dr_is_sgx = False, dr_report_data = replicate 64 0, dr_rt_mr3 = Some (replicate 48 0)\<rparr>),
     vl_parse_events = (\<lambda>s. Inr (sample_events s)), vl_parse_report = (\<lambda>_. Inr sample_report)\<rparr>"

lemma sample_verifier_lib_lawful: "verifier_lib_lawful sample_verifier_lib"
  by (simp add: verifier_lib_lawful_def sample_verifier_lib_def latin1_back strip_0x_def strip_prefix_def lit_def ch_def)

definition sample_attested_env :: "service_identity \<Rightarrow> report_env" where
  "sample_attested_env svc = (sample_report_env sample_attested_provider svc)
     \<lparr>re_sha256 := vl_sha256 sample_verifier_lib, re_hex_encode := vl_hex_encode sample_verifier_lib\<rparr>"

lemma sample_attested_endorsement:
  "verify_keyset_endorsement sample_verifier_lib (identity_public_key sample_attested_provider) payload (replicate 64 0)"
  by (simp add: verify_keyset_endorsement_def sample_attested_provider_def sample_verifier_lib_def latin1_def)

lemma sample_attested_report:
  "\<exists>svc r. new_service (vl_sha256 sample_verifier_lib) (vl_hex_encode sample_verifier_lib) sample_attested_provider
       (sample_config \<lparr>epoch_version = 1, epoch_not_after = 15\<rparr>) = Inr svc
     \<and> attestation_report_for_domain (sample_attested_env svc) \<lparr>rst_file = None, rst_statements = []\<rparr> 5 None None = Inr r"
proof -
  have "\<not> is_test_only sample_attested_provider" "receipt_keys sample_attested_provider \<noteq> []"
    by (simp_all add: sample_attested_provider_def sample_key_provider_def)
  then obtain svc where svc: "new_service (vl_sha256 sample_verifier_lib) (vl_hex_encode sample_verifier_lib) sample_attested_provider
       (sample_config \<lparr>epoch_version = 1, epoch_not_after = 15\<rparr>) = Inr svc"
    using new_service_defined by blast
  let ?re = "sample_attested_env svc" and ?st = "\<lparr>rst_file = None, rst_statements = []\<rparr>"
  have "ks_tls_public_keys (svc_keyset svc) = []"
    using new_service_keyset(1) [OF svc] by (simp add: sample_config_def sample_attested_provider_def sample_key_provider_def make_keyset_def)
  then have "\<exists>r. assemble_report ?re 5 rd q None = Inr r" for rd q
    by (intro assemble_report_defined)
       (simp_all add: sample_attested_env_def sample_report_env_def sample_attested_provider_def requires_host_for_downstream_tls_binding_def)
  moreover obtain stmt where "attestation_statement_for (vl_sha256 sample_verifier_lib) (vl_hex_encode sample_verifier_lib) (svc_keyset svc) None = Inr stmt"
    using new_service_ids [OF svc] by (simp add: attestation_statement_for_def)
  moreover obtain rd where "report_data (vl_sha256 sample_verifier_lib) stmt = Inr rd"
    using canonicalize_defined [OF statement_wf, of stmt] by (auto simp: report_data_def jcs_sha256_raw_def)
  moreover have "\<not> is_keyset_revoked svc ?st" by (simp add: is_keyset_revoked_def is_revoked_def)
  ultimately show ?thesis using svc
    by (auto simp: attestation_report_for_domain_def sample_attested_env_def sample_report_env_def)
qed

lemmas sample_attested_env_simps =
  sample_attested_env_def sample_report_env_def sample_config_def

definition sample_aci_verifier :: "str list \<Rightarrow> str list \<Rightarrow> aci_verifier" where
  "sample_aci_verifier ids digests = \<lparr>av_report_base_url = lit ''u'', av_pccs_url = [],
     av_policy = \<lparr>ap_accepted_workload_ids = ids, ap_accepted_image_digests = digests, ap_accepted_kms_root_public_keys = [lit ''h'']\<rparr>,
     av_cache_ttl_seconds = 10, av_request_timeout_seconds = 60, av_cache = None, av_verifier_id = lit ''aci-service/v1''\<rparr>"

lemma sample_hex [simp]:
  "decode_hex sample_verifier_lib (ch CHR ''h'' # latin1 b) = Inr b"
  "decode_hex sample_verifier_lib (lit ''h'') = Inr []"
  by (simp_all add: decode_hex_def sample_verifier_lib_def strip_0x_def strip_prefix_def lit_def ch_def latin1_back)

lemma sample_lib_results [simp]:
  "vl_parse_events sample_verifier_lib s = Inr (sample_events s)" "vl_collateral sample_verifier_lib pccs raw = Inr []"
  "vl_parse_report sample_verifier_lib wire = Inr sample_report"
  "vl_verify_quote sample_verifier_lib raw col now =
     Inr \<lparr>dr_is_sgx = False, dr_report_data = replicate 64 0, dr_rt_mr3 = Some (replicate 48 0)\<rparr>"
  by (simp_all add: sample_verifier_lib_def)

lemma sample_report_fields:
  "env_evidence (ar_attestation sample_report) = sample_evidence (lit ''h'')" "env_tee_type (ar_attestation sample_report) = lit ''tdx''"
  "get (sample_evidence t) (lit ''quote'') = Some (JString (lit ''h''))" "get (sample_evidence t) (lit ''quote_report_data'') = None"
  by (simp_all add: sample_report_def sample_evidence_def)

lemma sample_jcs:
  "\<exists>d. jcs_sha256_hex (vl_sha256 sample_verifier_lib) (vl_hex_encode sample_verifier_lib) v = Inr d \<Longrightarrow>
     jcs_sha256_hex (vl_sha256 sample_verifier_lib) (vl_hex_encode sample_verifier_lib) v = Inr sample_digest"
  "\<exists>bs. canonicalize v = Inr bs \<Longrightarrow> jcs_sha256_raw (vl_sha256 sample_verifier_lib) v = Inr (replicate 32 0)"
  by (auto simp: jcs_sha256_hex_def jcs_sha256_raw_def sample_verifier_lib_def sample_digest_def split: sum.splits)

lemma sample_report_validates:
  assumes "5 \<le> now" "now < 65"
  shows "\<exists>va. validate_aci_report_binding sample_verifier_lib sample_report nonce now wire = Inr va \<and> va_report_data va = replicate 32 0"
proof -
  have "workload_id (vl_sha256 sample_verifier_lib) (vl_hex_encode sample_verifier_lib) i = Inr sample_digest" for i
    unfolding workload_id_def workload_id_for_key_def by (rule sample_jcs(1)) (simp add: jcs_digest_defined)
  moreover have "workload_keyset_digest (vl_sha256 sample_verifier_lib) (vl_hex_encode sample_verifier_lib) keyset = Inr sample_digest" for keyset
    unfolding workload_keyset_digest_def by (rule sample_jcs(1)) (simp add: jcs_digest_defined)
  moreover have "report_data (vl_sha256 sample_verifier_lib) stmt = Inr (replicate 32 0)" for stmt
    unfolding report_data_def by (rule sample_jcs(2)) (rule canonicalize_defined [OF statement_wf])
  moreover obtain payload where "canonicalize (endorsement_value sample_digest) = Inr payload"
    using canonicalize_defined [OF endorsement_wf] by blast
  ultimately show ?thesis
    using assms sample_attested_endorsement
    by (simp add: validate_Inr sample_report_def decode_hex_32_def sample_upstream_keyset_def make_keyset_def)
       (simp add: sample_attested_provider_def)
qed

lemma sample_replay: "replay_dstack_rtmr sample_verifier_lib (sample_events s) 3 = Inr (replicate 48 0)"
  by (simp add: replay_dstack_rtmr_def sample_events_def Let_def) (simp add: sample_verifier_lib_def)

lemma sample_report_quote:
  assumes "va_report_data va = replicate 32 0"
  shows "verify_dcap_quote sample_verifier_lib pccs (av_policy (sample_aci_verifier ids digests)) sample_report va now = Inr ()"
proof -
  have log: "verify_dstack_event_log_and_app_id sample_verifier_lib (sample_evidence (lit ''h''))
      \<lparr>dr_is_sgx = False, dr_report_data = replicate 64 0, dr_rt_mr3 = Some (replicate 48 0)\<rparr> = Inr []"
    by (simp add: verify_dstack_event_log_and_app_id_def sample_evidence_def sample_replay ok_or_def)
       (simp add: sample_events_def find_app_id_def)
  have recover: "recover_k256_public_key sample_verifier_lib m (replicate 65 0) = Inr []" for m
    by (simp add: recover_k256_public_key_def Let_def sample_verifier_lib_def)
  have root: "kms_chain_root sample_verifier_lib (ch CHR ''h'' # latin1 b) p a (replicate 65 0) (replicate 65 0) = Inr (lit ''h'')" for p a b
    by (simp add: kms_chain_root_def recover compressed_k256_public_key_hex_def)
       (simp add: sample_verifier_lib_def lit_def ch_def latin1_def)
  have "verify_dstack_kms_identity_custody sample_verifier_lib sample_report a (av_policy (sample_aci_verifier ids digests)) = Inr ()" for a
    by (simp add: verify_dstack_kms_identity_custody_def sample_report_def sample_evidence_def ok_or_def custody_str_def
        verify_identity_chain_def chain_signature_def sample_upstream_keyset_def make_keyset_def sample_attested_provider_def
        sample_aci_verifier_def root)
  moreover have "replicate 32 0 @ replicate 32 0 = (replicate 64 0 :: bytes)" by (simp add: replicate_add [symmetric])
  ultimately show ?thesis
    using log assms
    by (simp add: verify_dcap_quote_def sample_report_fields ok_or_def expected_dcap_report_data_def check_quote_evidence_def)
qed

lemma sample_tls_bindings:
  "aci_report_tls_channel_bindings sample_verifier_lib sample_report origin = Inr [TlsSpkiSha256 origin (replicate 64 (ch CHR ''a''))]"
proof -
  have "normalize_sha256_text (replicate 64 (ch CHR ''a'')) = Inr (replicate 64 (ch CHR ''a''))" by code_simp
  then show ?thesis
    by (simp add: aci_report_tls_channel_bindings_def sample_report_def sample_upstream_keyset_def make_keyset_def key_spki_def)
qed

lemma sample_check_report:
  assumes "policy_accepts (av_policy (sample_aci_verifier ids digests)) r" "r = sample_report \<or> r = set_image_digest d sample_report"
  shows "\<exists>c. check_report sample_verifier_lib (sample_aci_verifier ids digests) nonce 6 wire r = Inr c"
proof -
  have "\<exists>va. validate_aci_report_binding sample_verifier_lib r (Some nonce) 6 (Some wire) = Inr va \<and> va_report_data va = replicate 32 0"
    using sample_report_validates [of 6 "Some nonce" "Some wire"] assms(2) by (auto simp: set_image_digest_checks)
  then obtain va where va: "validate_aci_report_binding sample_verifier_lib r (Some nonce) 6 (Some wire) = Inr va" "va_report_data va = replicate 32 0"
    by blast
  have "verify_dcap_quote sample_verifier_lib pccs (av_policy (sample_aci_verifier ids digests)) r va 6 = Inr ()" for pccs
    using sample_report_quote [OF va(2)] assms(2) by (auto simp: set_image_digest_checks)
  moreover have "\<exists>bs. aci_report_tls_channel_bindings sample_verifier_lib r origin = Inr bs" for origin
    using sample_tls_bindings assms(2) by (auto simp: set_image_digest_checks)
  ultimately show ?thesis using va(1) assms(1) by (simp add: check_report_def Let_def bind_result_Inr)
qed

section \<open>Properties\<close>

text \<open>
  C33. The two ends agree. A report this service gives for a nonce passes the binding check
  of the verifier for the same nonce at every moment from its creation until it goes
  stale, and the check returns the service's own workload id and keyset digest.
\<close>

theorem own_report_validates:
  assumes "attestation_report_for_domain re st now nonce domain = Inr r"
    and "new_service (re_sha256 re) (re_hex_encode re) (re_keys re) (re_config re) = Inr (re_identity re)"
    and "re_sha256 re = vl_sha256 vl" "re_hex_encode re = vl_hex_encode vl" "verifier_lib_lawful vl"
    and "\<And>payload sig. sign_keyset_endorsement (re_keys re) payload = Inr sig \<Longrightarrow>
           verify_keyset_endorsement vl (identity_public_key (re_keys re)) payload sig"
    and "now \<le> later" "later < now + cfg_freshness_seconds (re_config re)"
  shows "\<exists>va. validate_aci_report_binding vl r nonce later wire = Inr va \<and> va_workload_id va = svc_workload_id (re_identity re)
    \<and> va_workload_keyset_digest va = svc_workload_keyset_digest (re_identity re)"
  using own_report_passes [OF assms] by blast

theorem own_report_validates_witness:
  "\<exists>svc r va. attestation_report_for_domain (sample_attested_env svc) \<lparr>rst_file = None, rst_statements = []\<rparr> 5 None None = Inr r
     \<and> validate_aci_report_binding sample_verifier_lib r None 6 None = Inr va"
proof -
  obtain svc r where svc: "new_service (vl_sha256 sample_verifier_lib) (vl_hex_encode sample_verifier_lib) sample_attested_provider
       (sample_config \<lparr>epoch_version = 1, epoch_not_after = 15\<rparr>) = Inr svc"
    and r: "attestation_report_for_domain (sample_attested_env svc) \<lparr>rst_file = None, rst_statements = []\<rparr> 5 None None = Inr r"
    using sample_attested_report by blast
  have "sig = replicate 64 0" if "sign_keyset_endorsement sample_attested_provider payload = Inr sig" for payload sig
    using that by (simp add: sample_attested_provider_def)
  then show ?thesis
    using own_report_validates [OF r, of sample_verifier_lib 6 None] svc r sample_verifier_lib_lawful sample_attested_endorsement
    by (simp add: sample_attested_env_simps) blast
qed

text \<open>
  The end of a keyset's epoch is not checked. A report passes the binding check although
  the keyset in it has expired: nothing compares \<open>keyset_epoch.not_after\<close> with the clock, so a
  service that outlives its epoch is still accepted while its reports are fresh.
\<close>

theorem expired_keyset_validates:
  assumes "attestation_report_for_domain re st now nonce domain = Inr r"
    and "new_service (re_sha256 re) (re_hex_encode re) (re_keys re) (re_config re) = Inr (re_identity re)"
    and "re_sha256 re = vl_sha256 vl" "re_hex_encode re = vl_hex_encode vl" "verifier_lib_lawful vl"
    and "\<And>payload sig. sign_keyset_endorsement (re_keys re) payload = Inr sig \<Longrightarrow>
           verify_keyset_endorsement vl (identity_public_key (re_keys re)) payload sig"
    and "now \<le> later" "later < now + cfg_freshness_seconds (re_config re)"
    and "epoch_not_after (cfg_keyset_epoch (re_config re)) \<le> later"
  shows "(\<exists>va. validate_aci_report_binding vl r nonce later wire = Inr va)
    \<and> epoch_not_after (ks_keyset_epoch (env_workload_keyset (ar_attestation r))) \<le> later"
  using own_report_passes [OF assms(1-8), of wire] new_service_keyset(1) [OF assms(2)] assms(9) by (auto simp: make_keyset_def)

theorem expired_keyset_validates_witness:
  "\<exists>svc r va. attestation_report_for_domain (sample_attested_env svc) \<lparr>rst_file = None, rst_statements = []\<rparr> 5 None None = Inr r
     \<and> validate_aci_report_binding sample_verifier_lib r None 20 None = Inr va
     \<and> epoch_not_after (ks_keyset_epoch (env_workload_keyset (ar_attestation r))) \<le> 20"
proof -
  obtain svc r where svc: "new_service (vl_sha256 sample_verifier_lib) (vl_hex_encode sample_verifier_lib) sample_attested_provider
       (sample_config \<lparr>epoch_version = 1, epoch_not_after = 15\<rparr>) = Inr svc"
    and r: "attestation_report_for_domain (sample_attested_env svc) \<lparr>rst_file = None, rst_statements = []\<rparr> 5 None None = Inr r"
    using sample_attested_report by blast
  have "sig = replicate 64 0" if "sign_keyset_endorsement sample_attested_provider payload = Inr sig" for payload sig
    using that by (simp add: sample_attested_provider_def)
  then show ?thesis
    using expired_keyset_validates [OF r, of sample_verifier_lib 20 None] svc r sample_verifier_lib_lawful sample_attested_endorsement
    by (simp add: sample_attested_env_simps) blast
qed



text \<open>
  An image digest in the policy accepts any workload. The digest is what the report says
  of itself: the quote, the report data and the endorsement do not cover it. A report that
  passes every check but the policy passes the policy too once it names an accepted digest, with
  the same quote and keys.
\<close>

theorem image_digest_not_bound:
  assumes "validate_aci_report_binding vl r (Some nonce) now (Some wire) = Inr va"
    and "verify_dcap_quote vl (av_pccs_url v) (av_policy v) r va now = Inr u"
    and "aci_report_tls_channel_bindings vl r (av_report_base_url v) = Inr bs"
    and "\<not> policy_accepts (av_policy v) r" "d \<in> set (ap_accepted_image_digests (av_policy v))"
  shows "check_report vl v nonce now wire r = Inl PolicyRejected
    \<and> (\<exists>c. check_report vl v nonce now wire (set_image_digest d r) = Inr c \<and> cv_channel_bindings c = bs)"
proof -
  have "policy_accepts (av_policy v) (set_image_digest d r)" using assms(5) by (simp add: policy_accepts_def set_image_digest_def)
  then show ?thesis using assms by (simp add: check_report_def set_image_digest_checks Let_def)
qed

theorem image_digest_not_bound_witness:
  "\<exists>c. check_report sample_verifier_lib (sample_aci_verifier [] [lit ''d'']) (lit ''n'') 6 [] sample_report = Inl PolicyRejected
     \<and> check_report sample_verifier_lib (sample_aci_verifier [] [lit ''d'']) (lit ''n'') 6 [] (set_image_digest (lit ''d'') sample_report) = Inr c"
proof -
  let ?v = "sample_aci_verifier [] [lit ''d'']"
  obtain va where va: "validate_aci_report_binding sample_verifier_lib sample_report (Some (lit ''n'')) 6 (Some []) = Inr va"
      "va_report_data va = replicate 32 0"
    using sample_report_validates [of 6 "Some (lit ''n'')" "Some []"] by auto
  have "\<not> policy_accepts (av_policy ?v) sample_report" "lit ''d'' \<in> set (ap_accepted_image_digests (av_policy ?v))"
    by (simp_all add: policy_accepts_def sample_aci_verifier_def sample_report_def)
  from image_digest_not_bound [OF va(1) sample_report_quote [OF va(2)] sample_tls_bindings this] show ?thesis by blast
qed

text \<open>
  The application id is not bound to the quote. The register replay reads only the digests of
  the event log. Whatever payload is written into its app-id events, the replay gives the
  same register value, so the check succeeds for the same quote with that payload as the application id.
\<close>

theorem app_id_not_bound:
  assumes "get evidence (lit ''event_log'') = Some (JString t)" "vl_parse_events vl t = Inr events"
    and "verify_dstack_event_log_and_app_id vl evidence dr = Inr app_id"
    and "get evidence' (lit ''event_log'') = Some (JString t')"
    and "vl_parse_events vl t' = Inr (map (\<lambda>e. if de_imr e = 3 \<and> de_event e = lit ''app-id'' then e\<lparr>de_event_payload := p\<rparr> else e) events)"
    and "decode_hex vl p = Inr other"
  shows "verify_dstack_event_log_and_app_id vl evidence' dr = Inr other"
proof -
  obtain e where "find_app_id events = Some e" "replay_dstack_rtmr vl events 3 = Inr (the (dr_rt_mr3 dr))" "dr_rt_mr3 dr \<noteq> None"
    using assms(1-3) by (auto simp: verify_dstack_event_log_and_app_id_def bind_result_Inr map_err_Inr ok_or_def split: if_splits option.splits)
  then show ?thesis
    using assms(4-6) find_app_id_payload [of events e p]
    by (auto simp: verify_dstack_event_log_and_app_id_def replay_dstack_rtmr_def replay_rtmr_payload ok_or_def)
qed

theorem app_id_not_bound_witness:
  "verify_dstack_event_log_and_app_id sample_verifier_lib (sample_evidence (lit ''h''))
      \<lparr>dr_is_sgx = False, dr_report_data = [], dr_rt_mr3 = Some (replicate 48 0)\<rparr> = Inr []
   \<and> verify_dstack_event_log_and_app_id sample_verifier_lib (sample_evidence (ch CHR ''h'' # latin1 [7]))
      \<lparr>dr_is_sgx = False, dr_report_data = [], dr_rt_mr3 = Some (replicate 48 0)\<rparr> = Inr [7]"
proof -
  let ?dr = "\<lparr>dr_is_sgx = False, dr_report_data = [], dr_rt_mr3 = Some (replicate 48 0)\<rparr>"
  have log: "get (sample_evidence t) (lit ''event_log'') = Some (JString t)" for t by (simp add: sample_evidence_def)
  have first: "verify_dstack_event_log_and_app_id sample_verifier_lib (sample_evidence (lit ''h'')) ?dr = Inr []"
    by (simp add: verify_dstack_event_log_and_app_id_def log sample_replay ok_or_def) (simp add: sample_events_def find_app_id_def)
  have "sample_events p = map (\<lambda>e. if de_imr e = 3 \<and> de_event e = lit ''app-id'' then e\<lparr>de_event_payload := p\<rparr> else e) (sample_events q)" for p q
    by (simp add: sample_events_def)
  then show ?thesis
    using app_id_not_bound [OF log _ first log, of "sample_events (lit ''h'')" "ch CHR ''h'' # latin1 [7]" "ch CHR ''h'' # latin1 [7]" "[7]"] first
    by simp
qed

text \<open>
  A cached verification outlives an invalidation. This verifier leaves \<open>invalidate\<close> at the
  trait's default, which does nothing. Until the cached result expires, a refresh answers
  with it: the upstream is not asked again, whatever it would answer, so a binding that
  no longer matches the upstream's TLS key is handed out again.
\<close>

theorem refresh_serves_cached:
  assumes "av_cache v = Some c" "now < cv_expires_at c"
  shows "\<forall>fetch elapsed nonce verified_at.
    default_refresh (aci_verify vl display fetch elapsed nonce now verified_at) default_invalidate v request
      = (cached_event_for c request (av_verifier_id v), v)
    \<and> uv_result (cached_event_for c request (av_verifier_id v)) = Verified
    \<and> uv_channel_bindings (cached_event_for c request (av_verifier_id v)) = cv_channel_bindings c"
  using assms by (simp add: default_refresh_def default_invalidate_def aci_verify_def fresh_cache_def cached_event_for_def)

theorem refresh_serves_cached_witness:
  "uv_result (fst (default_refresh
     (aci_verify sample_verifier_lib (\<lambda>_. []) (\<lambda>_. Inl []) (\<lambda>_. True) [] 6 6) default_invalidate
     ((sample_aci_verifier [] [])\<lparr>av_cache := Some \<lparr>cv_expires_at = 10, cv_vendor = [], cv_evidence = None, cv_channel_bindings = []\<rparr>\<rparr>)
     \<lparr>vr_upstream_name = [], vr_url_origin = None, vr_model_id = [], vr_forwarded_body_hash = [], vr_required = True\<rparr>)) = Verified"
  using refresh_serves_cached
    [of "(sample_aci_verifier [] [])\<lparr>av_cache := Some \<lparr>cv_expires_at = 10, cv_vendor = [], cv_evidence = None, cv_channel_bindings = []\<rparr>\<rparr>"
      "\<lparr>cv_expires_at = 10, cv_vendor = [], cv_evidence = None, cv_channel_bindings = []\<rparr>" 6 sample_verifier_lib "\<lambda>_. []"
      "\<lparr>vr_upstream_name = [], vr_url_origin = None, vr_model_id = [], vr_forwarded_body_hash = [], vr_required = True\<rparr>"]
  by simp

end
