(* ===== verification/Openai_Backend.thy ===== *)
theory Openai_Backend
  imports Service
begin

text \<open>
  The OpenAI-compatible backend (\<open>src/aci/upstream/openai.rs\<close>) and its TLS pinning
  (\<open>src/aci/upstream/tls.rs\<close>): the requests it builds, the client it chooses for a
  verification event, the certificate check of a pinned client, and the backend's methods.

  The HTTP library is the record \<open>http_lib\<close> over a state \<open>'w\<close> of the outside world;
  \<open>respects_pins\<close> is what it promises for a client with a certificate verifier of its own.
  SHA-256, hexadecimal text and X.509 parsing are the record \<open>x509_lib\<close>. The text of a
  debug-formatted string is the parameter \<open>dbg\<close>.
\<close>

section \<open>Clients\<close>

record pin_verifier =
  pv_accepted :: "str list"
  pv_accepted_certificates :: "str list"

datatype http_client = Default_Client u64 u64 | Pinned_Client pin_verifier u64 u64

record http_request =
  hq_method :: str
  hq_url :: str
  hq_headers :: "(str \<times> str) list"
  hq_body :: bytes

text \<open>
  A reply: its header values are absent where they are not visible ASCII; its body is read
  whole or chunk by chunk.
\<close>

record http_reply =
  hy_status :: nat
  hy_headers :: "(str \<times> str option) list"
  hy_bytes :: "str + bytes"
  hy_stream :: "(str + bytes) poll list"

record 'w http_lib =
  hl_send :: "http_client \<Rightarrow> http_request \<Rightarrow> 'w \<Rightarrow> (str + http_reply) \<times> 'w"
  hl_with_query :: "str \<Rightarrow> (str \<times> str) list \<Rightarrow> str"
  hl_build_default :: "u64 \<Rightarrow> u64 \<Rightarrow> str + unit"
  hl_build_webpki :: "str + unit"
  hl_build_pinned :: "u64 \<Rightarrow> u64 \<Rightarrow> str + unit"

definition response_headers :: "http_reply \<Rightarrow> (str \<times> str) list" where
  "response_headers resp =
     fold (\<lambda>(k, v) headers. case v of Some value \<Rightarrow> AList.update k value headers | None \<Rightarrow> headers) (hy_headers resp) []"

definition pinned_spki_client ::
    "'w http_lib \<Rightarrow> str list \<Rightarrow> str list \<Rightarrow> u64 \<Rightarrow> u64 \<Rightarrow> upstream_error + http_client" where
  "pinned_spki_client hl accepted_spkis accepted_certificates connect_timeout_seconds read_timeout_seconds =
     bind_result (map_err (\<lambda>e. Transport (lit ''failed to build TLS verifier: '' @ e)) (hl_build_webpki hl)) (\<lambda>_.
     bind_result (map_err Transport (hl_build_pinned hl connect_timeout_seconds read_timeout_seconds)) (\<lambda>_.
       Inr (Pinned_Client \<lparr>pv_accepted = accepted_spkis, pv_accepted_certificates = accepted_certificates\<rparr>
              connect_timeout_seconds read_timeout_seconds)))"

record x509_lib =
  xl_sha256 :: "bytes \<Rightarrow> bytes"
  xl_hex_encode :: "bytes \<Rightarrow> str"
  xl_public_key :: "bytes \<Rightarrow> bytes option"

datatype tls_error = ApplicationVerificationFailure | BadEncoding

definition verify_server_cert :: "x509_lib \<Rightarrow> pin_verifier \<Rightarrow> bytes \<Rightarrow> tls_error + unit" where
  "verify_server_cert xl v end_entity =
     (if pv_accepted v = [] \<and> pv_accepted_certificates v = [] then Inl ApplicationVerificationFailure
      else
        let certificate_digest = xl_hex_encode xl (xl_sha256 xl end_entity);
            certificate_matches = certificate_digest \<in> set (pv_accepted_certificates v)
        in case xl_public_key xl end_entity of
             None \<Rightarrow> Inl BadEncoding
           | Some public_key \<Rightarrow>
               let digest = xl_hex_encode xl (xl_sha256 xl public_key); spki_matches = digest \<in> set (pv_accepted v)
               in if certificate_matches \<or> spki_matches then Inr () else Inl ApplicationVerificationFailure)"

text \<open>
  A TLS connection of a pinned client is made only when its verifier accepts the certificate
  the server presents, and a request to an \<open>https\<close> URL is answered only over such a connection.
\<close>

definition respects_pins :: "x509_lib \<Rightarrow> 'w http_lib \<Rightarrow> ('w \<Rightarrow> str \<Rightarrow> bytes) \<Rightarrow> bool" where
  "respects_pins xl hl server_cert \<longleftrightarrow>
     (\<forall>v ct rt rq w reply w'. hl_send hl (Pinned_Client v ct rt) rq w = (Inr reply, w') \<longrightarrow>
        strip_prefix (lit ''https://'') (hq_url rq) \<noteq> None \<longrightarrow> verify_server_cert xl v (server_cert w (hq_url rq)) = Inr ())"

section \<open>The backend\<close>

definition ANTHROPIC_VERSION :: str where
  "ANTHROPIC_VERSION = lit ''2023-06-01''"

datatype upstream_auth = Bearer str | AnthropicApiKey str

record openai_backend =
  ob_name :: str
  ob_base_url :: str
  ob_path :: str
  ob_auth :: "upstream_auth option"
  ob_connect_timeout_seconds :: u64
  ob_read_timeout_seconds :: u64

definition new_openai_backend :: "'w http_lib \<Rightarrow> str \<Rightarrow> u64 \<Rightarrow> u64 \<Rightarrow> upstream_error + openai_backend" where
  "new_openai_backend hl base_url connect_timeout_seconds read_timeout_seconds =
     (let base = trim_end_matches (\<lambda>c. c = ch CHR ''/'') base_url
      in bind_result (map_err Transport (hl_build_default hl connect_timeout_seconds read_timeout_seconds)) (\<lambda>_.
           Inr \<lparr>ob_name = lit ''openai-compatible'', ob_base_url = base, ob_path = lit ''/v1/chat/completions'', ob_auth = None,
                  ob_connect_timeout_seconds = connect_timeout_seconds, ob_read_timeout_seconds = read_timeout_seconds\<rparr>))"

definition ob_with_name :: "str \<Rightarrow> openai_backend \<Rightarrow> openai_backend" where
  "ob_with_name name b = b\<lparr>ob_name := name\<rparr>"

definition ob_with_path :: "str \<Rightarrow> openai_backend \<Rightarrow> openai_backend" where
  "ob_with_path path b =
     b\<lparr>ob_path := (case path of c # _ \<Rightarrow> if c = ch CHR ''/'' then path else ch CHR ''/'' # path | [] \<Rightarrow> [ch CHR ''/''])\<rparr>"

definition ob_with_bearer_token :: "str \<Rightarrow> openai_backend \<Rightarrow> openai_backend" where
  "ob_with_bearer_token token b = b\<lparr>ob_auth := Some (Bearer token)\<rparr>"

definition ob_with_anthropic_api_key :: "str \<Rightarrow> openai_backend \<Rightarrow> openai_backend" where
  "ob_with_anthropic_api_key key b = b\<lparr>ob_auth := Some (AnthropicApiKey key)\<rparr>"

definition apply_auth :: "openai_backend \<Rightarrow> (str \<times> str) list \<Rightarrow> (str \<times> str) list" where
  "apply_auth b headers =
     (case ob_auth b of
        Some (Bearer token) \<Rightarrow> headers @ [(lit ''authorization'', lit ''Bearer '' @ token)]
      | Some (AnthropicApiKey key) \<Rightarrow> headers @ [(lit ''x-api-key'', key), (lit ''anthropic-version'', ANTHROPIC_VERSION)]
      | None \<Rightarrow> headers)"

definition request_builder :: "openai_backend \<Rightarrow> upstream_request \<Rightarrow> str \<Rightarrow> http_request" where
  "request_builder b req accept =
     (let path = (case urq_path req of Some p \<Rightarrow> p | None \<Rightarrow> ob_path b)
      in \<lparr>hq_method = lit ''POST'', hq_url = ob_base_url b @ path,
          hq_headers = apply_auth b ([(lit ''content-type'', lit ''application/json''), (lit ''accept'', accept)] @ urq_headers req),
          hq_body = urq_body req\<rparr>)"

definition get_builder :: "openai_backend \<Rightarrow> str \<Rightarrow> str \<Rightarrow> http_request" where
  "get_builder b path accept =
     \<lparr>hq_method = lit ''GET'', hq_url = ob_base_url b @ path, hq_headers = apply_auth b [(lit ''accept'', accept)], hq_body = []\<rparr>"

definition own_client :: "openai_backend \<Rightarrow> http_client" where
  "own_client b = Default_Client (ob_connect_timeout_seconds b) (ob_read_timeout_seconds b)"

fun collect_pins ::
    "(str \<Rightarrow> str) \<Rightarrow> openai_backend \<Rightarrow> str list \<Rightarrow> str list \<Rightarrow> channel_binding list \<Rightarrow> upstream_error + str list \<times> str list" where
  "collect_pins dbg b spkis certs [] = Inr (spkis, certs)"
| "collect_pins dbg b spkis certs (TlsSpkiSha256 origin spki # rest) =
     (if origin = ob_base_url b then collect_pins dbg b (spkis @ [spki]) certs rest
      else Inl (Transport (lit ''verified TLS SPKI binding origin '' @ dbg origin @ lit '' does not match upstream '' @ dbg (ob_base_url b))))"
| "collect_pins dbg b spkis certs (TlsCertificateSha256 origin cert # rest) =
     (if origin = ob_base_url b then collect_pins dbg b spkis (certs @ [cert]) rest
      else Inl (Transport (lit ''verified TLS certificate binding origin '' @ dbg origin @ lit '' does not match upstream '' @ dbg (ob_base_url b))))"
| "collect_pins dbg b spkis certs (E2eePublicKeySha256 provider _ algorithm _ # rest) =
     Inl (Transport (lit ''backend '' @ ob_name b @ lit '' cannot enforce '' @ provider @ lit '' E2EE binding '' @ dbg algorithm))"

definition client_for_event ::
    "(str \<Rightarrow> str) \<Rightarrow> 'w http_lib \<Rightarrow> openai_backend \<Rightarrow> upstream_verified_event \<Rightarrow> upstream_error + http_client" where
  "client_for_event dbg hl b event =
     (if uv_channel_bindings event = [] then Inr (own_client b)
      else
        bind_result (collect_pins dbg b [] [] (uv_channel_bindings event)) (\<lambda>(accepted_spkis, accepted_certificates).
          if strip_prefix (lit ''https://'') (ob_base_url b) = None
          then Inl (Transport (lit ''TLS channel binding requires an https upstream''))
          else pinned_spki_client hl accepted_spkis accepted_certificates (ob_connect_timeout_seconds b) (ob_read_timeout_seconds b)))"

definition buffered_reply :: "str + http_reply \<Rightarrow> upstream_error + upstream_response" where
  "buffered_reply sent =
     bind_result (map_err Transport sent) (\<lambda>resp.
     bind_result (map_err Transport (hy_bytes resp)) (\<lambda>bs.
       Inr \<lparr>us_status_code = hy_status resp, us_body = bs, us_headers = response_headers resp, us_served_instance_id = None\<rparr>))"

definition transport_chunk :: "(str + bytes) poll \<Rightarrow> (upstream_error + bytes) poll" where
  "transport_chunk p = (case p of Pending \<Rightarrow> Pending | Ready chunk \<Rightarrow> Ready (map_err Transport chunk))"

definition stream_reply :: "str + http_reply \<Rightarrow> upstream_error + stream_response" where
  "stream_reply sent =
     bind_result (map_err Transport sent) (\<lambda>resp.
       Inr \<lparr>ss_status_code = hy_status resp, ss_headers = response_headers resp, ss_body = map transport_chunk (hy_stream resp),
              ss_served_instance_id = None\<rparr>)"

definition ob_forward :: "'w http_lib \<Rightarrow> openai_backend \<Rightarrow> 'w \<Rightarrow> upstream_request \<Rightarrow> (upstream_error + upstream_response) \<times> 'w" where
  "ob_forward hl b w req =
     (case hl_send hl (own_client b) (request_builder b req (lit ''application/json'')) w of (sent, w') \<Rightarrow> (buffered_reply sent, w'))"

definition ob_forward_stream :: "'w http_lib \<Rightarrow> openai_backend \<Rightarrow> 'w \<Rightarrow> upstream_request \<Rightarrow> (upstream_error + stream_response) \<times> 'w" where
  "ob_forward_stream hl b w req =
     (case hl_send hl (own_client b) (request_builder b req (lit ''text/event-stream'')) w of (sent, w') \<Rightarrow> (stream_reply sent, w'))"

definition ob_forward_verified_prepared ::
    "(str \<Rightarrow> str) \<Rightarrow> 'w http_lib \<Rightarrow> openai_backend \<Rightarrow> 'w \<Rightarrow> prepared_request \<Rightarrow> upstream_verified_event \<Rightarrow>
     (upstream_error + upstream_response) \<times> 'w" where
  "ob_forward_verified_prepared dbg hl b w req event =
     (case client_for_event dbg hl b event of
        Inl e \<Rightarrow> (Inl e, w)
      | Inr client \<Rightarrow>
          (case hl_send hl client (request_builder b (pr_request req) (lit ''application/json'')) w of (sent, w') \<Rightarrow> (buffered_reply sent, w')))"

definition ob_forward_stream_verified_prepared ::
    "(str \<Rightarrow> str) \<Rightarrow> 'w http_lib \<Rightarrow> openai_backend \<Rightarrow> 'w \<Rightarrow> prepared_request \<Rightarrow> upstream_verified_event \<Rightarrow>
     (upstream_error + stream_response) \<times> 'w" where
  "ob_forward_stream_verified_prepared dbg hl b w req event =
     (case client_for_event dbg hl b event of
        Inl e \<Rightarrow> (Inl e, w)
      | Inr client \<Rightarrow>
          (case hl_send hl client (request_builder b (pr_request req) (lit ''text/event-stream'')) w of (sent, w') \<Rightarrow> (stream_reply sent, w')))"

definition ob_get :: "'w http_lib \<Rightarrow> openai_backend \<Rightarrow> str \<Rightarrow> str \<Rightarrow> 'w \<Rightarrow> (upstream_error + upstream_response) \<times> 'w" where
  "ob_get hl b path accept w = (case hl_send hl (own_client b) (get_builder b path accept) w of (sent, w') \<Rightarrow> (buffered_reply sent, w'))"

definition ob_models :: "'w http_lib \<Rightarrow> openai_backend \<Rightarrow> 'w \<Rightarrow> (upstream_error + upstream_response) \<times> 'w" where
  "ob_models hl b w = ob_get hl b (lit ''/v1/models'') (lit ''application/json'') w"

definition openai_compatible :: "serde_json \<Rightarrow> (str \<Rightarrow> str) \<Rightarrow> 'w http_lib \<Rightarrow> openai_backend \<Rightarrow> 'w backend" where
  "openai_compatible sj dbg hl b =
     \<lparr>be_name = ob_name b, be_url_origin = Some (ob_base_url b), be_prepare = default_prepare sj (ob_name b) (Some (ob_base_url b)),
      be_forward = ob_forward hl b, be_forward_prepared = (\<lambda>w req. ob_forward hl b w (pr_request req)),
      be_forward_verified_prepared = ob_forward_verified_prepared dbg hl b,
      be_forward_stream = ob_forward_stream hl b, be_forward_stream_prepared = (\<lambda>w req. ob_forward_stream hl b w (pr_request req)),
      be_forward_stream_verified_prepared = ob_forward_stream_verified_prepared dbg hl b\<rparr>"

section \<open>Lemmas\<close>

lemma collect_pins_Inr:
  assumes "collect_pins dbg b spkis certs bindings = Inr (spkis', certs')"
  shows "set spkis' = set spkis \<union> {d. TlsSpkiSha256 (ob_base_url b) d \<in> set bindings}"
    "set certs' = set certs \<union> {d. TlsCertificateSha256 (ob_base_url b) d \<in> set bindings}"
    "\<forall>x \<in> set bindings. \<exists>d. x = TlsSpkiSha256 (ob_base_url b) d \<or> x = TlsCertificateSha256 (ob_base_url b) d"
  using assms by (induction dbg b spkis certs bindings rule: collect_pins.induct) (auto split: if_splits)

lemma verify_server_cert_Inr:
  assumes "verify_server_cert xl v cert = Inr ()"
  shows "xl_hex_encode xl (xl_sha256 xl cert) \<in> set (pv_accepted_certificates v)
    \<or> (\<exists>pk. xl_public_key xl cert = Some pk \<and> xl_hex_encode xl (xl_sha256 xl pk) \<in> set (pv_accepted v))"
  using assms by (auto simp: verify_server_cert_def Let_def split: if_splits option.splits)

lemma client_for_event_pinned:
  assumes "client_for_event dbg hl b event = Inr client" "uv_channel_bindings event \<noteq> []"
  obtains v where "client = Pinned_Client v (ob_connect_timeout_seconds b) (ob_read_timeout_seconds b)"
    "strip_prefix (lit ''https://'') (ob_base_url b) \<noteq> None"
    "set (pv_accepted v) = {d. TlsSpkiSha256 (ob_base_url b) d \<in> set (uv_channel_bindings event)}"
    "set (pv_accepted_certificates v) = {d. TlsCertificateSha256 (ob_base_url b) d \<in> set (uv_channel_bindings event)}"
proof -
  obtain spkis certs where c: "collect_pins dbg b [] [] (uv_channel_bindings event) = Inr (spkis, certs)"
    and "strip_prefix (lit ''https://'') (ob_base_url b) \<noteq> None"
    and "client = Pinned_Client \<lparr>pv_accepted = spkis, pv_accepted_certificates = certs\<rparr> (ob_connect_timeout_seconds b) (ob_read_timeout_seconds b)"
    using assms by (auto simp: client_for_event_def pinned_spki_client_def bind_result_Inr map_err_Inr split: if_splits)
  then show ?thesis using that collect_pins_Inr [OF c] by simp
qed

lemma strip_prefix_extend: "strip_prefix p s \<noteq> None \<Longrightarrow> strip_prefix p (s @ t) \<noteq> None"
  by (auto simp: strip_prefix_def split: if_splits) (metis length_take min.absorb_iff2 min.commute)

text \<open>The certificate a server presents is one a binding of the event names.\<close>

definition certificate_bound :: "x509_lib \<Rightarrow> str \<Rightarrow> upstream_verified_event \<Rightarrow> bytes \<Rightarrow> bool" where
  "certificate_bound xl origin event cert \<longleftrightarrow>
     TlsCertificateSha256 origin (xl_hex_encode xl (xl_sha256 xl cert)) \<in> set (uv_channel_bindings event)
     \<or> (\<exists>pk. xl_public_key xl cert = Some pk
          \<and> TlsSpkiSha256 origin (xl_hex_encode xl (xl_sha256 xl pk)) \<in> set (uv_channel_bindings event))"

lemma pinned_send_bound:
  assumes "respects_pins xl hl server_cert" "client_for_event dbg hl b event = Inr client" "uv_channel_bindings event \<noteq> []"
    and "hl_send hl client (request_builder b req accept) w = (Inr reply, w')"
  shows "certificate_bound xl (ob_base_url b) event (server_cert w (hq_url (request_builder b req accept)))"
proof -
  obtain v where v: "client = Pinned_Client v (ob_connect_timeout_seconds b) (ob_read_timeout_seconds b)"
    "strip_prefix (lit ''https://'') (ob_base_url b) \<noteq> None"
    "set (pv_accepted v) = {d. TlsSpkiSha256 (ob_base_url b) d \<in> set (uv_channel_bindings event)}"
    "set (pv_accepted_certificates v) = {d. TlsCertificateSha256 (ob_base_url b) d \<in> set (uv_channel_bindings event)}"
    by (rule client_for_event_pinned [OF assms(2,3)])
  have "strip_prefix (lit ''https://'') (hq_url (request_builder b req accept)) \<noteq> None"
    using strip_prefix_extend [OF v(2)] by (simp add: request_builder_def Let_def)
  then have "verify_server_cert xl v (server_cert w (hq_url (request_builder b req accept))) = Inr ()"
    using assms(1,4) v(1) unfolding respects_pins_def by blast
  then show ?thesis using verify_server_cert_Inr v(3,4) by (fastforce simp: certificate_bound_def)
qed

lemma no_mismatch:
  "ob_forward_verified_prepared dbg hl b w req event = (Inl e, w') \<Longrightarrow> \<not> is_mismatch e"
  "ob_forward_stream_verified_prepared dbg hl b w req event = (Inl e, w') \<Longrightarrow> \<not> is_mismatch e"
proof -
  have pins: "collect_pins dbg b spkis certs bs = Inl e \<Longrightarrow> \<not> is_mismatch e" for spkis certs bs e
    by (induction dbg b spkis certs bs rule: collect_pins.induct) (auto split: if_splits)
  have client: "client_for_event dbg hl b event = Inl e \<Longrightarrow> \<not> is_mismatch e" for e
    using pins by (auto simp: client_for_event_def pinned_spki_client_def bind_result_def map_err_def split: if_splits sum.splits)
  show "ob_forward_verified_prepared dbg hl b w req event = (Inl e, w') \<Longrightarrow> \<not> is_mismatch e"
    using client by (auto simp: ob_forward_verified_prepared_def buffered_reply_def bind_result_def map_err_def split: sum.splits prod.splits)
  show "ob_forward_stream_verified_prepared dbg hl b w req event = (Inl e, w') \<Longrightarrow> \<not> is_mismatch e"
    using client by (auto simp: ob_forward_stream_verified_prepared_def stream_reply_def bind_result_def map_err_def split: sum.splits prod.splits)
qed

section \<open>Properties\<close>

text \<open>
  C5. A verified request only reaches the verified server. When the event carries channel
  bindings and the backend returns a response, buffered or streamed, the certificate the server
  presented is one the bindings name: its digest or the digest of its public key is pinned
  for exactly this backend's origin. A binding for another origin, or one this backend cannot
  enforce, sends nothing.
\<close>

theorem response_from_pinned_server:
  assumes "respects_pins xl hl server_cert" "uv_channel_bindings event \<noteq> []"
  shows "(\<forall>response w'. ob_forward_verified_prepared dbg hl b w req event = (Inr response, w') \<longrightarrow>
      certificate_bound xl (ob_base_url b) event (server_cert w (hq_url (request_builder b (pr_request req) (lit ''application/json'')))))
    \<and> (\<forall>stream w'. ob_forward_stream_verified_prepared dbg hl b w req event = (Inr stream, w') \<longrightarrow>
      certificate_bound xl (ob_base_url b) event (server_cert w (hq_url (request_builder b (pr_request req) (lit ''text/event-stream'')))))
    \<and> ((\<exists>x \<in> set (uv_channel_bindings event). \<forall>d. x \<noteq> TlsSpkiSha256 (ob_base_url b) d \<and> x \<noteq> TlsCertificateSha256 (ob_base_url b) d) \<longrightarrow>
      (\<exists>e. ob_forward_verified_prepared dbg hl b w req event = (Inl e, w) \<and> ob_forward_stream_verified_prepared dbg hl b w req event = (Inl e, w)))"
proof (intro conjI allI impI)
  fix response w' assume "ob_forward_verified_prepared dbg hl b w req event = (Inr response, w')"
  then show "certificate_bound xl (ob_base_url b) event (server_cert w (hq_url (request_builder b (pr_request req) (lit ''application/json''))))"
    using pinned_send_bound [OF assms(1) _ assms(2)]
    by (auto simp: ob_forward_verified_prepared_def buffered_reply_def bind_result_Inr map_err_Inr split: sum.splits prod.splits)
next
  fix stream w' assume "ob_forward_stream_verified_prepared dbg hl b w req event = (Inr stream, w')"
  then show "certificate_bound xl (ob_base_url b) event (server_cert w (hq_url (request_builder b (pr_request req) (lit ''text/event-stream''))))"
    using pinned_send_bound [OF assms(1) _ assms(2)]
    by (auto simp: ob_forward_stream_verified_prepared_def stream_reply_def bind_result_Inr map_err_Inr split: sum.splits prod.splits)
next
  assume foreign: "\<exists>x \<in> set (uv_channel_bindings event). \<forall>d. x \<noteq> TlsSpkiSha256 (ob_base_url b) d \<and> x \<noteq> TlsCertificateSha256 (ob_base_url b) d"
  have "\<exists>e. collect_pins dbg b [] [] (uv_channel_bindings event) = Inl e"
  proof (cases "collect_pins dbg b [] [] (uv_channel_bindings event)")
    case (Inr p)
    then show ?thesis using foreign collect_pins_Inr(3) [of dbg b "[]" "[]" _ "fst p" "snd p"] by fastforce
  qed simp
  then show "\<exists>e. ob_forward_verified_prepared dbg hl b w req event = (Inl e, w) \<and> ob_forward_stream_verified_prepared dbg hl b w req event = (Inl e, w)"
    using assms(2) by (auto simp: ob_forward_verified_prepared_def ob_forward_stream_verified_prepared_def client_for_event_def bind_result_def)
qed

definition sample_x509 :: x509_lib where
  "sample_x509 = \<lparr>xl_sha256 = (\<lambda>b. b), xl_hex_encode = latin1, xl_public_key = Some\<rparr>"

text \<open>A library whose pinned clients check the certificate \<open>[7]\<close> that every server presents.\<close>

definition sample_http :: "unit http_lib" where
  "sample_http = \<lparr>hl_send = (\<lambda>client rq w.
       (case client of
          Default_Client _ _ \<Rightarrow> Inr \<lparr>hy_status = 200, hy_headers = [], hy_bytes = Inr [], hy_stream = []\<rparr>
        | Pinned_Client v _ _ \<Rightarrow>
            (case verify_server_cert sample_x509 v [7] of
               Inr _ \<Rightarrow> Inr \<lparr>hy_status = 200, hy_headers = [], hy_bytes = Inr [], hy_stream = []\<rparr>
             | Inl _ \<Rightarrow> Inl (lit ''tls'')), w)), hl_with_query = (\<lambda>u _. u),
     hl_build_default = (\<lambda>_ _. Inr ()), hl_build_webpki = Inr (), hl_build_pinned = (\<lambda>_ _. Inr ())\<rparr>"

theorem response_from_pinned_server_witness:
  "certificate_bound sample_x509 (lit ''https://a'')
     (default_upstream_verified_event\<lparr>uv_channel_bindings := [TlsSpkiSha256 (lit ''https://a'') (latin1 [7])]\<rparr>) [7]"
proof -
  let ?b = "\<lparr>ob_name = [], ob_base_url = lit ''https://a'', ob_path = [], ob_auth = None, ob_connect_timeout_seconds = 1, ob_read_timeout_seconds = 1\<rparr>"
  let ?e = "default_upstream_verified_event\<lparr>uv_channel_bindings := [TlsSpkiSha256 (lit ''https://a'') (latin1 [7])]\<rparr>"
  let ?rq = "\<lparr>pr_request = default_upstream_request, pr_upstream_name = [], pr_url_origin = None, pr_model_id = [], pr_route_id = None, pr_is_tee = None\<rparr>"
  have pins: "respects_pins sample_x509 sample_http (\<lambda>_ _. [7])"
    by (auto simp: respects_pins_def sample_http_def split: sum.splits)
  have "strip_prefix (lit ''https://'') (lit ''https://a'') \<noteq> None" by (simp add: strip_prefix_def lit_def)
  then have "\<exists>r. ob_forward_verified_prepared (\<lambda>s. s) sample_http ?b () ?rq ?e = (Inr r, ())"
    by (simp add: ob_forward_verified_prepared_def client_for_event_def pinned_spki_client_def sample_http_def buffered_reply_def
        verify_server_cert_def sample_x509_def)
  then show ?thesis
    using response_from_pinned_server [OF pins, of ?e "\<lambda>s. s" ?b "()" ?rq] by auto
qed

text \<open>
  A failed pin is not re-verified. The retry after a channel-binding mismatch never happens with
  this backend: a server that presents another key makes the request fail as a transport
  error, so the service makes one attempt, keeps the event it had and neither refreshes nor
  invalidates the verification.
\<close>

theorem pin_failure_not_reverified:
  "forward_with_binding_reverify sv prepared event required supplied always
       (be_forward_verified_prepared (openai_compatible sj dbg hl b)) w =
     (case call_forward (be_forward_verified_prepared (openai_compatible sj dbg hl b)) prepared event w of
        (Inr response, w') \<Rightarrow> ((Forwarded response, event), w')
      | (Inl err, w') \<Rightarrow> ((ForwardFailed err, event), w'))"
  using no_mismatch(1)
  by (fastforce simp: forward_with_binding_reverify_def reverify_loop.simps [of _ _ _ _ _ _ 0] call_forward_def openai_compatible_def
      split: sum.splits prod.splits)

end
