(* ===== verification/Chutes.thy ===== *)
theory Chutes
  imports Openai_Backend
begin

text \<open>
  The Chutes provider: the session store with its cached chute ids and pools of single-use
  nonces (\<open>src/aci/upstream/chutes/session.rs\<close>), the encrypted transport
  (\<open>chutes/crypto.rs\<close>: requests, responses and the decrypting stream) and the backend with its
  discovery (\<open>chutes/mod.rs\<close>).

  ML-KEM, ChaCha20-Poly1305, HKDF, gzip, base64, SHA-256 and the typed parsing of replies
  are the record \<open>chutes_lib\<close>; randomness is an argument. Instants are nanoseconds. The
  outside world is the state of the HTTP library and shows its clock.
\<close>

section \<open>The session store\<close>

definition CHUTES_MODEL_CACHE_TTL_SECONDS :: u64 where "CHUTES_MODEL_CACHE_TTL_SECONDS = 300"
definition CHUTES_DEFAULT_NONCE_TTL_SECONDS :: u64 where "CHUTES_DEFAULT_NONCE_TTL_SECONDS = 55"

definition from_secs :: "u64 \<Rightarrow> nat" where
  "from_secs s = unat s * 1000000000"

record cached_chute_id =
  cci_chute_id :: str
  cci_expires_at :: nat

record pooled_nonce =
  pn_instance_id :: str
  pn_e2e_pubkey :: str
  pn_public_key_sha256 :: str
  pn_nonce :: str
  pn_expires_at :: nat

record nonce_candidate =
  nc_instance_id :: str
  nc_e2e_pubkey :: str
  nc_public_key_sha256 :: str
  nc_nonces :: "str list"

record session_cache =
  sc_model_map :: "str \<Rightarrow> cached_chute_id option"
  sc_nonce_pools :: "str \<Rightarrow> pooled_nonce list option"

definition new_session_cache :: session_cache where
  "new_session_cache = \<lparr>sc_model_map = (\<lambda>_. None), sc_nonce_pools = (\<lambda>_. None)\<rparr>"

record verified_instance =
  vi_instance_id :: str
  vi_e2e_pubkey :: str
  vi_public_key_sha256 :: str
  vi_nonces :: "str list"

record verified_discovery =
  vd_chute_id :: str
  vd_nonce_expires_in :: "u64 option"
  vd_instances :: "verified_instance list"

record accepted_binding =
  ab_key_id :: "str option"
  ab_public_key_sha256 :: str

record selected_instance =
  si_instance_id :: str
  si_e2e_pubkey :: str
  si_nonce :: str

definition get_cached_chute_id :: "nat \<Rightarrow> str \<Rightarrow> session_cache \<Rightarrow> str option \<times> session_cache" where
  "get_cached_chute_id now model cache =
     (case sc_model_map cache model of
        Some entry \<Rightarrow>
          if now < cci_expires_at entry then (Some (cci_chute_id entry), cache)
          else (None, cache\<lparr>sc_model_map := (sc_model_map cache)(model := None)\<rparr>)
      | None \<Rightarrow> (None, cache))"

definition cache_chute_id :: "nat \<Rightarrow> str \<Rightarrow> str \<Rightarrow> session_cache \<Rightarrow> session_cache" where
  "cache_chute_id now model chute_id cache =
     cache\<lparr>sc_model_map := (sc_model_map cache)(model \<mapsto>
       \<lparr>cci_chute_id = chute_id, cci_expires_at = now + from_secs CHUTES_MODEL_CACHE_TTL_SECONDS\<rparr>)\<rparr>"

definition chutes_binding_matches :: "accepted_binding list \<Rightarrow> str \<Rightarrow> str \<Rightarrow> bool" where
  "chutes_binding_matches accepted instance_id key_sha256 \<longleftrightarrow>
     list_ex (\<lambda>binding. (case ab_key_id binding of None \<Rightarrow> True | Some key_id \<Rightarrow> key_id = instance_id)
       \<and> eq_ignore_ascii_case (ab_public_key_sha256 binding) key_sha256) accepted"

fun pop_loop ::
    "nat \<Rightarrow> accepted_binding list \<Rightarrow> selected_instance option \<Rightarrow> pooled_nonce list \<Rightarrow> pooled_nonce list \<Rightarrow>
     selected_instance option \<times> pooled_nonce list" where
  "pop_loop now accepted selected retained [] = (selected, retained)"
| "pop_loop now accepted selected retained (nonce # pool) =
     (if pn_expires_at nonce \<le> now then pop_loop now accepted selected retained pool
      else if \<not> chutes_binding_matches accepted (pn_instance_id nonce) (pn_public_key_sha256 nonce)
      then pop_loop now accepted selected retained pool
      else if selected = None
      then pop_loop now accepted
             (Some \<lparr>si_instance_id = pn_instance_id nonce, si_e2e_pubkey = pn_e2e_pubkey nonce, si_nonce = pn_nonce nonce\<rparr>) retained pool
      else pop_loop now accepted selected (retained @ [nonce]) pool)"

definition pop_verified_nonce ::
    "nat \<Rightarrow> str \<Rightarrow> accepted_binding list \<Rightarrow> session_cache \<Rightarrow> selected_instance option \<times> session_cache" where
  "pop_verified_nonce now chute_id accepted cache =
     (case sc_nonce_pools cache chute_id of
        None \<Rightarrow> (None, cache)
      | Some pool \<Rightarrow>
          let (selected, retained) = pop_loop now accepted None [] pool
          in (selected, cache\<lparr>sc_nonce_pools := (sc_nonce_pools cache)(chute_id \<mapsto> retained)\<rparr>))"

text \<open>The two loops of \<open>record_nonce_candidates\<close>, over the set of known nonces, the pool and a count.\<close>

definition add_candidate ::
    "nat \<Rightarrow> nat \<Rightarrow> nonce_candidate \<Rightarrow> (str \<times> str) set \<times> pooled_nonce list \<times> nat \<Rightarrow> (str \<times> str) set \<times> pooled_nonce list \<times> nat" where
  "add_candidate expires_at nonce_index candidate st =
     (case st of (existing, pool, added) \<Rightarrow>
        if nonce_index < length (nc_nonces candidate) then
          let nonce = nc_nonces candidate ! nonce_index
          in if (nc_instance_id candidate, nonce) \<in> existing then st
             else (insert (nc_instance_id candidate, nonce) existing,
                   pool @ [\<lparr>pn_instance_id = nc_instance_id candidate, pn_e2e_pubkey = nc_e2e_pubkey candidate,
                             pn_public_key_sha256 = nc_public_key_sha256 candidate, pn_nonce = nonce, pn_expires_at = expires_at\<rparr>],
                   added + 1)
        else st)"

definition nonce_key :: "pooled_nonce \<Rightarrow> str \<times> str" where
  "nonce_key n = (pn_instance_id n, pn_nonce n)"

definition record_nonce_candidates ::
    "nat \<Rightarrow> str \<Rightarrow> u64 \<Rightarrow> nonce_candidate list \<Rightarrow> session_cache \<Rightarrow> nat \<times> session_cache" where
  "record_nonce_candidates now chute_id nonce_ttl candidates cache =
     (let expires_at = now + from_secs nonce_ttl;
          pool = (case sc_nonce_pools cache chute_id of Some p \<Rightarrow> p | None \<Rightarrow> []);
          existing = set (map nonce_key pool);
          max_nonces = fold max (map (\<lambda>c. length (nc_nonces c)) candidates) 0;
          (_, pool, added) = fold (\<lambda>i. fold (add_candidate expires_at i) candidates) [0..<max_nonces] (existing, pool, 0)
      in (added, cache\<lparr>sc_nonce_pools := (sc_nonce_pools cache)(chute_id \<mapsto> pool)\<rparr>))"

definition candidate_of :: "verified_instance \<Rightarrow> nonce_candidate" where
  "candidate_of i = \<lparr>nc_instance_id = vi_instance_id i, nc_e2e_pubkey = vi_e2e_pubkey i,
     nc_public_key_sha256 = vi_public_key_sha256 i, nc_nonces = vi_nonces i\<rparr>"

definition record_verified_discovery ::
    "nat \<Rightarrow> verified_discovery \<Rightarrow> session_cache \<Rightarrow> (upstream_error + nat) \<times> session_cache" where
  "record_verified_discovery now discovery cache =
     (let nonce_ttl = (case vd_nonce_expires_in discovery of Some t \<Rightarrow> t | None \<Rightarrow> CHUTES_DEFAULT_NONCE_TTL_SECONDS)
      in if nonce_ttl = 0 then (Inr 0, cache)
         else
           let candidates = map candidate_of (filter (\<lambda>i. vi_nonces i \<noteq> []) (vd_instances discovery))
           in if candidates = []
              then (Inl (Transport (lit ''verified Chutes E2EE instances did not include fresh nonces'')), cache)
              else (case record_nonce_candidates now (vd_chute_id discovery) nonce_ttl candidates cache of
                      (added, cache) \<Rightarrow> (Inr added, cache)))"

section \<open>The encrypted transport\<close>

record instance_info =
  ii_instance_id :: str
  ii_e2e_pubkey :: str
  ii_nonces :: "str list"

record instances_response =
  ir_instances :: "instance_info list"
  ir_nonce_expires_in :: "u64 option"

record instance_evidence =
  ie_instance_id :: str
  ie_quote :: "json option"
  ie_gpu_evidence :: json

record chutes_lib =
  cl_json :: serde_json
  cl_dbg :: "str \<Rightarrow> str"
  cl_base64_decode :: "str \<Rightarrow> str + bytes"
  cl_base64_encode :: "bytes \<Rightarrow> str"
  cl_sha256 :: "bytes \<Rightarrow> bytes"
  cl_hex_encode :: "bytes \<Rightarrow> str"
  cl_kem_public :: "bytes \<Rightarrow> bytes"
  cl_kem_key :: "bytes \<Rightarrow> str + unit"
  cl_kem_ciphertext :: "bytes \<Rightarrow> str + unit"
  cl_encapsulate :: "bytes \<Rightarrow> bytes \<Rightarrow> bytes \<times> bytes"
  cl_decapsulate :: "bytes \<Rightarrow> bytes \<Rightarrow> bytes"
  cl_hkdf :: "bytes \<Rightarrow> bytes \<Rightarrow> bytes \<Rightarrow> bytes option"
  cl_chacha_encrypt :: "bytes \<Rightarrow> bytes \<Rightarrow> bytes \<Rightarrow> bytes option"
  cl_chacha_decrypt :: "bytes \<Rightarrow> bytes \<Rightarrow> bytes \<Rightarrow> bytes option"
  cl_gzip :: "bytes \<Rightarrow> str + bytes"
  cl_gunzip :: "bytes \<Rightarrow> str + bytes"
  cl_parse_lookup :: "bytes \<Rightarrow> str + (str option \<times> str option) list"
  cl_parse_instances :: "bytes \<Rightarrow> str + instances_response"
  cl_parse_evidence :: "bytes \<Rightarrow> str + instance_evidence list"

record chutes_random =
  cr_response_key :: bytes
  cr_encapsulation :: bytes
  cr_nonce :: bytes

definition CHUTES_MLKEM_CT_SIZE :: nat where "CHUTES_MLKEM_CT_SIZE = 1088"
definition CHUTES_TAG_SIZE :: nat where "CHUTES_TAG_SIZE = 16"
definition CHUTES_INFO_REQ :: bytes where "CHUTES_INFO_REQ = as_bytes (lit ''e2e-req-v1'')"
definition CHUTES_INFO_RESP :: bytes where "CHUTES_INFO_RESP = as_bytes (lit ''e2e-resp-v1'')"
definition CHUTES_INFO_STREAM :: bytes where "CHUTES_INFO_STREAM = as_bytes (lit ''e2e-stream-v1'')"
definition CHUTES_MLKEM_768_ALGORITHM :: str where "CHUTES_MLKEM_768_ALGORITHM = lit ''chutes-ml-kem-768''"
definition CHUTES_DEFAULT_E2EE_API_BASE :: str where "CHUTES_DEFAULT_E2EE_API_BASE = lit ''https://api.chutes.ai''"

definition chutes_e2ee_pubkey_sha256 :: "chutes_lib \<Rightarrow> str \<Rightarrow> upstream_error + str" where
  "chutes_e2ee_pubkey_sha256 cl e2e_pubkey_b64 =
     bind_result (map_err (\<lambda>e. Transport (lit ''invalid Chutes E2EE public key: '' @ e)) (cl_base64_decode cl e2e_pubkey_b64)) (\<lambda>pubkey.
       Inr (cl_hex_encode cl (cl_sha256 cl pubkey)))"

definition chutes_derive_key :: "chutes_lib \<Rightarrow> bytes \<Rightarrow> bytes \<Rightarrow> bytes \<Rightarrow> upstream_error + bytes" where
  "chutes_derive_key cl shared_secret mlkem_ct info =
     (if length mlkem_ct < 16 then Inl (Transport (lit ''Chutes ML-KEM ciphertext is too short''))
      else ok_or (Transport (lit ''Chutes HKDF failed'')) (cl_hkdf cl (take 16 mlkem_ct) shared_secret info))"

definition chacha_encrypt :: "chutes_lib \<Rightarrow> bytes \<Rightarrow> bytes \<Rightarrow> bytes \<Rightarrow> upstream_error + bytes" where
  "chacha_encrypt cl key nonce plaintext =
     (if length key \<noteq> 32 then Inl (Transport (lit ''invalid Chutes ChaCha20 key''))
      else ok_or (Transport (lit ''Chutes E2EE encryption failed'')) (cl_chacha_encrypt cl key nonce plaintext))"

definition chacha_decrypt :: "chutes_lib \<Rightarrow> bytes \<Rightarrow> bytes \<Rightarrow> bytes \<Rightarrow> upstream_error + bytes" where
  "chacha_decrypt cl key nonce ciphertext =
     (if length key \<noteq> 32 then Inl (Transport (lit ''invalid Chutes ChaCha20 key''))
      else ok_or (Transport (lit ''Chutes E2EE decryption failed'')) (cl_chacha_decrypt cl key nonce ciphertext))"

definition gzip_compress :: "chutes_lib \<Rightarrow> bytes \<Rightarrow> upstream_error + bytes" where
  "gzip_compress cl plaintext = map_err Transport (cl_gzip cl plaintext)"

definition gzip_decompress :: "chutes_lib \<Rightarrow> bytes \<Rightarrow> upstream_error + bytes" where
  "gzip_decompress cl compressed = map_err Transport (cl_gunzip cl compressed)"

record chutes_e2ee_request =
  cq_blob :: bytes
  cq_response_sk :: bytes

definition with_response_key :: "chutes_lib \<Rightarrow> bytes \<Rightarrow> json \<Rightarrow> upstream_error + json" where
  "with_response_key cl response_sk payload =
     (case payload of
        Object obj \<Rightarrow> Inr (Object (obj_insert obj (lit ''e2e_response_pk'') (JString (cl_base64_encode cl (cl_kem_public cl response_sk)))))
      | _ \<Rightarrow> Inl (Routing (lit ''request body must be a JSON object'')))"

definition build_chutes_e2ee_request ::
    "chutes_lib \<Rightarrow> chutes_random \<Rightarrow> str \<Rightarrow> json \<Rightarrow> upstream_error + chutes_e2ee_request" where
  "build_chutes_e2ee_request cl rnd e2e_pubkey_b64 payload =
     (let response_sk = cr_response_key rnd
      in bind_result (map_err (\<lambda>e. Transport (lit ''invalid Chutes E2EE public key: '' @ e)) (cl_base64_decode cl e2e_pubkey_b64)) (\<lambda>e2e_pubkey.
         bind_result (map_err (\<lambda>e. Transport (lit ''invalid Chutes ML-KEM public key: '' @ e)) (cl_kem_key cl e2e_pubkey)) (\<lambda>_.
         case cl_encapsulate cl e2e_pubkey (cr_encapsulation rnd) of (mlkem_ct, shared_secret) \<Rightarrow>
         bind_result (chutes_derive_key cl shared_secret mlkem_ct CHUTES_INFO_REQ) (\<lambda>sym_key.
         bind_result (with_response_key cl response_sk payload) (\<lambda>payload.
         bind_result (ok_or (Transport (to_vec_error (cl_json cl) payload)) (to_vec (cl_json cl) payload)) (\<lambda>wire.
         bind_result (gzip_compress cl wire) (\<lambda>compressed.
         bind_result (chacha_encrypt cl sym_key (cr_nonce rnd) compressed) (\<lambda>encrypted.
           Inr \<lparr>cq_blob = mlkem_ct @ cr_nonce rnd @ encrypted, cq_response_sk = response_sk\<rparr>))))))))"

definition decrypt_chutes_response :: "chutes_lib \<Rightarrow> bytes \<Rightarrow> bytes \<Rightarrow> upstream_error + bytes" where
  "decrypt_chutes_response cl response_blob response_sk =
     (if length response_blob \<le> CHUTES_MLKEM_CT_SIZE + 12 + CHUTES_TAG_SIZE
      then Inl (Transport (lit ''Chutes E2EE response blob is too short''))
      else
        let mlkem_ct = take CHUTES_MLKEM_CT_SIZE response_blob;
            nonce = take 12 (drop CHUTES_MLKEM_CT_SIZE response_blob);
            ciphertext = drop (CHUTES_MLKEM_CT_SIZE + 12) response_blob
        in bind_result (map_err (\<lambda>e. Transport (lit ''invalid Chutes response ML-KEM CT: '' @ e)) (cl_kem_ciphertext cl mlkem_ct)) (\<lambda>_.
           bind_result (chutes_derive_key cl (cl_decapsulate cl response_sk mlkem_ct) mlkem_ct CHUTES_INFO_RESP) (\<lambda>sym_key.
           bind_result (chacha_decrypt cl sym_key nonce ciphertext) (gzip_decompress cl))))"

definition decrypt_chutes_stream_init :: "chutes_lib \<Rightarrow> bytes \<Rightarrow> str \<Rightarrow> upstream_error + bytes" where
  "decrypt_chutes_stream_init cl response_sk mlkem_ct_b64 =
     bind_result (map_err (\<lambda>e. Transport (lit ''invalid Chutes stream init: '' @ e)) (cl_base64_decode cl mlkem_ct_b64)) (\<lambda>mlkem_ct.
     bind_result (map_err (\<lambda>e. Transport (lit ''invalid Chutes stream ML-KEM CT: '' @ e)) (cl_kem_ciphertext cl mlkem_ct)) (\<lambda>_.
       chutes_derive_key cl (cl_decapsulate cl response_sk mlkem_ct) mlkem_ct CHUTES_INFO_STREAM))"

definition decrypt_chutes_stream_chunk :: "chutes_lib \<Rightarrow> bytes \<Rightarrow> str \<Rightarrow> upstream_error + bytes" where
  "decrypt_chutes_stream_chunk cl stream_key chunk_b64 =
     bind_result (map_err (\<lambda>e. Transport (lit ''invalid Chutes stream chunk: '' @ e)) (cl_base64_decode cl chunk_b64)) (\<lambda>raw.
       if length raw \<le> 12 + CHUTES_TAG_SIZE then Inl (Transport (lit ''Chutes E2EE stream chunk is too short''))
       else chacha_decrypt cl stream_key (take 12 raw) (drop 12 raw))"

section \<open>The decrypting stream\<close>

record decrypting_stream =
  ds_response_sk :: bytes
  ds_stream_key :: "bytes option"
  ds_buffer :: bytes
  ds_pending :: "bytes list"
  ds_finished :: bool

definition new_decrypting_stream :: "bytes \<Rightarrow> decrypting_stream" where
  "new_decrypting_stream response_sk =
     \<lparr>ds_response_sk = response_sk, ds_stream_key = None, ds_buffer = [], ds_pending = [], ds_finished = False\<rparr>"

definition data_prefix :: bytes where "data_prefix = as_bytes (lit ''data: '')"
definition blank_line :: bytes where "blank_line = [10, 10]"

definition push_pending :: "bytes \<Rightarrow> decrypting_stream \<Rightarrow> decrypting_stream" where
  "push_pending chunk s = s\<lparr>ds_pending := ds_pending s @ [chunk]\<rparr>"

definition process_event :: "chutes_lib \<Rightarrow> decrypting_stream \<Rightarrow> str \<Rightarrow> json \<Rightarrow> upstream_error + decrypting_stream" where
  "process_event cl s raw event =
     (case Option.bind (get event (lit ''e2e_init'')) as_str of
        Some init \<Rightarrow>
          bind_result (decrypt_chutes_stream_init cl (ds_response_sk s) init) (\<lambda>key. Inr (s\<lparr>ds_stream_key := Some key\<rparr>))
      | None \<Rightarrow>
      (case Option.bind (get event (lit ''e2e'')) as_str of
         Some chunk \<Rightarrow>
           bind_result (ok_or (Transport (lit ''received Chutes E2EE stream chunk before e2e_init'')) (ds_stream_key s)) (\<lambda>stream_key.
           bind_result (decrypt_chutes_stream_chunk cl stream_key chunk) (\<lambda>plaintext.
             Inr (push_pending (plaintext @ blank_line) s)))
       | None \<Rightarrow>
      (if get event (lit ''usage'') \<noteq> None then Inr (push_pending (data_prefix @ as_bytes raw @ blank_line) s)
       else
       (case get event (lit ''e2e_error'') of
          Some error \<Rightarrow>
            let v = Object [(lit ''error'', error)]
            in bind_result (ok_or (Transport (to_vec_error (cl_json cl) v)) (to_vec (cl_json cl) v)) (\<lambda>wire.
                 Inr (push_pending (data_prefix @ wire @ blank_line) s))
        | None \<Rightarrow> Inr s))))"

definition process_sse_line :: "chutes_lib \<Rightarrow> decrypting_stream \<Rightarrow> bytes \<Rightarrow> upstream_error + decrypting_stream" where
  "process_sse_line cl s line =
     (if take 6 line \<noteq> data_prefix then Inr s
      else
        case from_utf8 (drop 6 line) of
          None \<Rightarrow> Inl (Transport (lit ''Chutes E2EE stream line is not UTF-8''))
        | Some raw \<Rightarrow>
            let raw = trim raw
            in if raw = [] then Inr s
               else if raw = lit ''[DONE]'' then Inr (push_pending (data_prefix @ as_bytes (lit ''[DONE]'') @ blank_line) s)
               else (case from_slice (cl_json cl) (as_bytes raw) of
                       None \<Rightarrow> Inl (Transport (lit ''invalid Chutes E2EE SSE event: '' @ from_slice_error (cl_json cl) (as_bytes raw)))
                     | Some event \<Rightarrow> process_event cl s raw event))"

definition strip_cr :: "bytes \<Rightarrow> bytes" where
  "strip_cr line = (if line \<noteq> [] \<and> last line = 13 then butlast line else line)"

text \<open>An error leaves what earlier lines have queued, and the rest of the buffer, in the state.\<close>

function process_buffer :: "chutes_lib \<Rightarrow> decrypting_stream \<Rightarrow> upstream_error option \<times> decrypting_stream" where
  "process_buffer cl s =
     (if (10::u8) \<notin> set (ds_buffer s) then (None, s)
      else
        let line = takeWhile (\<lambda>b. b \<noteq> 10) (ds_buffer s);
            s = s\<lparr>ds_buffer := drop (Suc (length line)) (ds_buffer s)\<rparr>
        in case process_sse_line cl s (strip_cr line) of
             Inl err \<Rightarrow> (Some err, s)
           | Inr s' \<Rightarrow> process_buffer cl (s'\<lparr>ds_buffer := ds_buffer s\<rparr>))"
  by pat_completeness auto
termination
proof (relation "measure (\<lambda>(cl, s). length (ds_buffer s))")
  fix cl :: chutes_lib and s s' x :: decrypting_stream and line :: bytes
  assume "\<not> (10::u8) \<notin> set (ds_buffer s)" "x = s\<lparr>ds_buffer := drop (Suc (length line)) (ds_buffer s)\<rparr>"
  then show "((cl, s'\<lparr>ds_buffer := ds_buffer x\<rparr>), cl, s) \<in> measure (\<lambda>(cl, s). length (ds_buffer s))"
    by (cases "ds_buffer s") auto
qed simp

declare process_buffer.simps [simp del]

text \<open>The loop of one poll, over what the polls of the inner stream give.\<close>

fun poll_chutes_loop ::
    "chutes_lib \<Rightarrow> decrypting_stream \<Rightarrow> body_stream \<Rightarrow>
     ((upstream_error + bytes) option) poll \<times> decrypting_stream \<times> body_stream" where
  "poll_chutes_loop cl s [] =
     (case (if ds_buffer s = [] then Inr s else process_sse_line cl (s\<lparr>ds_buffer := []\<rparr>) (ds_buffer s)) of
        Inl err \<Rightarrow> (Ready (Some (Inl err)), s\<lparr>ds_buffer := [], ds_finished := True\<rparr>, [])
      | Inr s' \<Rightarrow>
          (case ds_pending s' of
             chunk # rest \<Rightarrow> (Ready (Some (Inr chunk)), s'\<lparr>ds_finished := True, ds_pending := rest\<rparr>, [])
           | [] \<Rightarrow> (Ready None, s'\<lparr>ds_finished := True\<rparr>, [])))"
| "poll_chutes_loop cl s (Pending # inner) = (Pending, s, inner)"
| "poll_chutes_loop cl s (Ready (Inl err) # inner) = (Ready (Some (Inl err)), s\<lparr>ds_finished := True\<rparr>, inner)"
| "poll_chutes_loop cl s (Ready (Inr chunk) # inner) =
     (case process_buffer cl (s\<lparr>ds_buffer := ds_buffer s @ chunk\<rparr>) of
        (Some err, s') \<Rightarrow> (Ready (Some (Inl err)), s'\<lparr>ds_finished := True\<rparr>, inner)
      | (None, s') \<Rightarrow>
          (case ds_pending s' of
             chunk # rest \<Rightarrow> (Ready (Some (Inr chunk)), s'\<lparr>ds_pending := rest\<rparr>, inner)
           | [] \<Rightarrow> poll_chutes_loop cl s' inner))"

definition poll_chutes ::
    "chutes_lib \<Rightarrow> decrypting_stream \<Rightarrow> body_stream \<Rightarrow>
     ((upstream_error + bytes) option) poll \<times> decrypting_stream \<times> body_stream" where
  "poll_chutes cl s inner =
     (case ds_pending s of
        chunk # rest \<Rightarrow> (Ready (Some (Inr chunk)), s\<lparr>ds_pending := rest\<rparr>, inner)
      | [] \<Rightarrow> if ds_finished s then (Ready None, s, inner) else poll_chutes_loop cl s inner)"

text \<open>What the decrypting stream gives, poll by poll, until its end.\<close>

lemma poll_chutes_loop_inner:
  "poll_chutes_loop cl s inner = (r, s', inner') \<Longrightarrow>
     if inner = [] then inner' = [] \<and> ds_finished s' else length inner' < length inner"
proof (induction cl s inner arbitrary: r s' inner' rule: poll_chutes_loop.induct)
  case (1 cl s)
  then show ?case by (auto split: sum.splits list.splits if_splits)
next
  case (4 cl s chunk inner)
  obtain e s1 where p: "process_buffer cl (s\<lparr>ds_buffer := ds_buffer s @ chunk\<rparr>) = (e, s1)" by fastforce
  show ?case
  proof (cases "e = None \<and> ds_pending s1 = []")
    case True
    then have "poll_chutes_loop cl s1 inner = (r, s', inner')" using 4(2) p by simp
    with 4(1) [OF p [symmetric]] True show ?thesis by (cases "inner = []") auto
  next
    case False
    then show ?thesis using 4(2) p by (cases e; cases "ds_pending s1") auto
  qed
qed simp_all

lemma poll_chutes_smaller:
  assumes "poll_chutes cl s inner = (r, s', inner')" "r \<noteq> Ready None"
  shows "((cl, s', inner'), (cl, s, inner)) \<in>
    measures [\<lambda>(cl, s, inner). length inner, \<lambda>(cl, s, inner). if ds_finished s then 0 else 1, \<lambda>(cl, s, inner). length (ds_pending s)]"
  using assms by (auto simp: poll_chutes_def dest!: poll_chutes_loop_inner split: list.splits if_splits)

function chutes_stream_polls :: "chutes_lib \<Rightarrow> decrypting_stream \<Rightarrow> body_stream \<Rightarrow> body_stream" where
  "chutes_stream_polls cl s inner =
     (case poll_chutes cl s inner of
        (Pending, s', inner') \<Rightarrow> Pending # chutes_stream_polls cl s' inner'
      | (Ready None, s', inner') \<Rightarrow> []
      | (Ready (Some item), s', inner') \<Rightarrow> Ready item # chutes_stream_polls cl s' inner')"
  by pat_completeness auto
termination
  by (relation "measures [\<lambda>(cl, s, inner). length inner, \<lambda>(cl, s, inner). if ds_finished s then 0 else 1, \<lambda>(cl, s, inner). length (ds_pending s)]")
     (simp, metis poll_chutes_smaller poll.distinct(1), metis poll_chutes_smaller poll.inject option.distinct(1))

declare chutes_stream_polls.simps [simp del]

section \<open>Discovery\<close>

definition verified_instance_of ::
    "chutes_lib \<Rightarrow> accepted_binding list option \<Rightarrow> instance_info \<Rightarrow> upstream_error + verified_instance option" where
  "verified_instance_of cl accepted i =
     bind_result (chutes_e2ee_pubkey_sha256 cl (ii_e2e_pubkey i)) (\<lambda>key_sha256.
       let ok = (case accepted of Some bs \<Rightarrow> chutes_binding_matches bs (ii_instance_id i) key_sha256 | None \<Rightarrow> True)
       in Inr (if ok then Some \<lparr>vi_instance_id = ii_instance_id i, vi_e2e_pubkey = ii_e2e_pubkey i,
                                vi_public_key_sha256 = key_sha256, vi_nonces = ii_nonces i\<rparr>
               else None))"

fun verified_instances ::
    "chutes_lib \<Rightarrow> accepted_binding list option \<Rightarrow> instance_info list \<Rightarrow> upstream_error + verified_instance list" where
  "verified_instances cl accepted [] = Inr []"
| "verified_instances cl accepted (i # rest) =
     bind_result (verified_instance_of cl accepted i) (\<lambda>v.
     bind_result (verified_instances cl accepted rest) (\<lambda>vs.
       Inr (case v of Some x \<Rightarrow> x # vs | None \<Rightarrow> vs)))"

definition verified_discovery_from_response ::
    "chutes_lib \<Rightarrow> str \<Rightarrow> instances_response \<Rightarrow> accepted_binding list option \<Rightarrow> upstream_error + verified_discovery" where
  "verified_discovery_from_response cl chute_id discovery accepted =
     bind_result (verified_instances cl accepted (ir_instances discovery)) (\<lambda>instances.
       if instances = []
       then Inl (ChannelBindingMismatch (lit ''Chutes did not return an E2EE key matching the verified binding''))
       else Inr \<lparr>vd_chute_id = chute_id, vd_nonce_expires_in = ir_nonce_expires_in discovery, vd_instances = instances\<rparr>)"

definition accepted_of_binding :: "channel_binding \<Rightarrow> accepted_binding option" where
  "accepted_of_binding binding =
     (case binding of
        E2eePublicKeySha256 provider key_id algorithm key_sha256 \<Rightarrow>
          if provider = lit ''chutes'' \<and> algorithm = CHUTES_MLKEM_768_ALGORITHM
          then Some \<lparr>ab_key_id = key_id, ab_public_key_sha256 = key_sha256\<rparr> else None
      | _ \<Rightarrow> None)"

definition chutes_accepted_bindings :: "upstream_verified_event \<Rightarrow> upstream_error + accepted_binding list" where
  "chutes_accepted_bindings event =
     (let accepted = List.map_filter accepted_of_binding (uv_channel_bindings event)
      in if accepted = [] then Inl (Transport (lit ''verified Chutes event did not include an E2EE key binding'')) else Inr accepted)"

section \<open>The backend\<close>

record chutes_backend =
  cb_inner :: openai_backend
  cb_e2ee_api_base :: str
  cb_api_key :: "str option"
  cb_chute_ids :: "str \<Rightarrow> str option"

definition new_chutes_backend :: "'w http_lib \<Rightarrow> str \<Rightarrow> u64 \<Rightarrow> u64 \<Rightarrow> upstream_error + chutes_backend" where
  "new_chutes_backend hl base_url connect_timeout_seconds read_timeout_seconds =
     bind_result (map_err Transport (hl_build_default hl connect_timeout_seconds read_timeout_seconds)) (\<lambda>_.
     bind_result (new_openai_backend hl base_url connect_timeout_seconds read_timeout_seconds) (\<lambda>inner.
       Inr \<lparr>cb_inner = ob_with_name (lit ''chutes'') inner, cb_e2ee_api_base = CHUTES_DEFAULT_E2EE_API_BASE, cb_api_key = None,
              cb_chute_ids = (\<lambda>_. None)\<rparr>))"

definition cb_with_name :: "str \<Rightarrow> chutes_backend \<Rightarrow> chutes_backend" where
  "cb_with_name name b = b\<lparr>cb_inner := ob_with_name name (cb_inner b)\<rparr>"

definition cb_with_bearer_token :: "str \<Rightarrow> chutes_backend \<Rightarrow> chutes_backend" where
  "cb_with_bearer_token token b = b\<lparr>cb_api_key := Some token, cb_inner := ob_with_bearer_token token (cb_inner b)\<rparr>"

definition cb_with_e2ee_api_base :: "str \<Rightarrow> chutes_backend \<Rightarrow> chutes_backend" where
  "cb_with_e2ee_api_base base_url b = b\<lparr>cb_e2ee_api_base := trim_end_matches (\<lambda>c. c = ch CHR ''/'') (trim base_url)\<rparr>"

definition cb_with_chute_ids :: "(str \<times> str) list \<Rightarrow> chutes_backend \<Rightarrow> chutes_backend" where
  "cb_with_chute_ids chute_ids b = b\<lparr>cb_chute_ids := map_of (rev chute_ids)\<rparr>"

text \<open>The state of the backend's calls: the session cache, the outside world and its clock.\<close>

record 'w chutes_env =
  ce_lib :: chutes_lib
  ce_http :: "'w http_lib"
  ce_now :: "'w \<Rightarrow> nat"

type_synonym ('w, 'a) chutes_call = "session_cache \<times> 'w \<Rightarrow> (upstream_error + 'a) \<times> (session_cache \<times> 'w)"

definition call_bind :: "('w, 'a) chutes_call \<Rightarrow> ('a \<Rightarrow> ('w, 'b) chutes_call) \<Rightarrow> ('w, 'b) chutes_call" where
  "call_bind m f st = (case m st of (Inl e, st') \<Rightarrow> (Inl e, st') | (Inr x, st') \<Rightarrow> f x st')"

definition call_result :: "upstream_error + 'a \<Rightarrow> ('w, 'a) chutes_call" where
  "call_result r st = (r, st)"

definition api_key :: "chutes_backend \<Rightarrow> upstream_error + str" where
  "api_key b =
     (let token = (case cb_api_key b of Some t \<Rightarrow> t | None \<Rightarrow> [])
      in if trim token = [] then Inl (Transport (lit ''Chutes E2EE transport requires bearer_token in upstream config'')) else Inr token)"

definition e2ee_requires_verified_binding :: upstream_error where
  "e2ee_requires_verified_binding =
     Transport (lit ''Chutes E2EE transport requires a verified chutes-ml-kem-768 public key binding'')"

definition chutes_client :: "chutes_backend \<Rightarrow> http_client" where
  "chutes_client b = own_client (cb_inner b)"

definition chutes_get ::
    "'w chutes_env \<Rightarrow> chutes_backend \<Rightarrow> str \<Rightarrow> str \<Rightarrow> (bytes \<Rightarrow> str + 'a) \<Rightarrow> ('w, 'a) chutes_call" where
  "chutes_get env b url key parse st =
     (case st of (cache, w) \<Rightarrow>
      case hl_send (ce_http env) (chutes_client b)
             \<lparr>hq_method = lit ''GET'', hq_url = url,
              hq_headers = [(lit ''authorization'', lit ''Bearer '' @ key), (lit ''accept'', lit ''application/json'')], hq_body = []\<rparr> w of
        (sent, w') \<Rightarrow>
          (bind_result (map_err Transport sent) (\<lambda>resp.
           bind_result (map_err Transport (hy_bytes resp)) (\<lambda>wire.
             if \<not> (200 \<le> hy_status resp \<and> hy_status resp < 300) then Inl (UpstreamRejected (hy_status resp) (from_utf8_lossy wire))
             else map_err Transport (parse wire))), (cache, w')))"

definition looks_like_uuid :: "str \<Rightarrow> bool" where
  "looks_like_uuid value \<longleftrightarrow>
     length (split_char (ch CHR ''-'') value) = 5 \<and> length (as_bytes value) = 36
     \<and> list_all (\<lambda>c. c = ch CHR ''-'' \<or> is_ascii_hexdigit_char c) value"

definition find_chute_id :: "chutes_lib \<Rightarrow> str \<Rightarrow> (str option \<times> str option) list \<Rightarrow> upstream_error + str" where
  "find_chute_id cl model items =
     ok_or (Routing (lit ''Chutes /chutes lookup did not return an exact chute_id match for model '' @ cl_dbg cl model))
       (Option.bind (List.find (\<lambda>(name, chute_id). name = Some model \<and> chute_id \<noteq> None) items) snd)"

definition resolve_chute_id :: "'w chutes_env \<Rightarrow> chutes_backend \<Rightarrow> str \<Rightarrow> str \<Rightarrow> ('w, str) chutes_call" where
  "resolve_chute_id env b model key st =
     (if looks_like_uuid model then (Inr model, st)
      else
        case cb_chute_ids b model of
          Some chute_id \<Rightarrow> (Inr chute_id, st)
        | None \<Rightarrow>
            (case st of (cache, w) \<Rightarrow>
             case get_cached_chute_id (ce_now env w) model cache of
               (Some chute_id, cache) \<Rightarrow> (Inr chute_id, (cache, w))
             | (None, cache) \<Rightarrow>
                 (case chutes_get env b (hl_with_query (ce_http env) (cb_e2ee_api_base b @ lit ''/chutes/'')
                           [(lit ''include_public'', lit ''true''), (lit ''name'', model)]) key
                         (cl_parse_lookup (ce_lib env)) (cache, w) of
                    (Inl e, st) \<Rightarrow> (Inl e, st)
                  | (Inr items, (cache, w)) \<Rightarrow>
                      (case find_chute_id (ce_lib env) model items of
                         Inl e \<Rightarrow> (Inl e, (cache, w))
                       | Inr chute_id \<Rightarrow> (Inr chute_id, (cache_chute_id (ce_now env w) model chute_id cache, w))))))"

definition fetch_instances :: "'w chutes_env \<Rightarrow> chutes_backend \<Rightarrow> str \<Rightarrow> str \<Rightarrow> ('w, instances_response) chutes_call" where
  "fetch_instances env b chute_id key =
     chutes_get env b (cb_e2ee_api_base b @ lit ''/e2e/instances/'' @ chute_id) key (cl_parse_instances (ce_lib env))"

definition fetch_evidence :: "'w chutes_env \<Rightarrow> chutes_backend \<Rightarrow> str \<Rightarrow> str \<Rightarrow> str \<Rightarrow> ('w, instance_evidence list) chutes_call" where
  "fetch_evidence env b chute_id nonce key =
     chutes_get env b (hl_with_query (ce_http env) (cb_e2ee_api_base b @ lit ''/chutes/'' @ chute_id @ lit ''/evidence'') [(lit ''nonce'', nonce)])
       key (cl_parse_evidence (ce_lib env))"

definition pop_verified_chutes_nonce ::
    "'w chutes_env \<Rightarrow> str \<Rightarrow> accepted_binding list \<Rightarrow> ('w, selected_instance option) chutes_call" where
  "pop_verified_chutes_nonce env chute_id accepted st =
     (case st of (cache, w) \<Rightarrow>
      case pop_verified_nonce (ce_now env w) chute_id accepted cache of (selected, cache) \<Rightarrow> (Inr selected, (cache, w)))"

definition cache_verified_chutes_nonces ::
    "'w chutes_env \<Rightarrow> str \<Rightarrow> instances_response \<Rightarrow> accepted_binding list \<Rightarrow> ('w, nat) chutes_call" where
  "cache_verified_chutes_nonces env chute_id discovery accepted st =
     (case st of (cache, w) \<Rightarrow>
      case verified_discovery_from_response (ce_lib env) chute_id discovery (Some accepted) of
        Inl e \<Rightarrow> (Inl e, (cache, w))
      | Inr verified \<Rightarrow> (case record_verified_discovery (ce_now env w) verified cache of (r, cache) \<Rightarrow> (r, (cache, w))))"

text \<open>
  Between the first try and the one under the refill lock other requests run: \<open>others\<close> is what they
  do to the state.
\<close>

definition acquire_verified_chutes_session ::
    "'w chutes_env \<Rightarrow> chutes_backend \<Rightarrow> (session_cache \<times> 'w \<Rightarrow> session_cache \<times> 'w) \<Rightarrow> str \<Rightarrow> str \<Rightarrow> accepted_binding list \<Rightarrow>
     ('w, selected_instance) chutes_call" where
  "acquire_verified_chutes_session env b others chute_id key accepted =
     call_bind (pop_verified_chutes_nonce env chute_id accepted) (\<lambda>first.
       case first of
         Some selected \<Rightarrow> call_result (Inr selected)
       | None \<Rightarrow> (\<lambda>st.
           call_bind (pop_verified_chutes_nonce env chute_id accepted) (\<lambda>second.
             case second of
               Some selected \<Rightarrow> call_result (Inr selected)
             | None \<Rightarrow>
                 call_bind (fetch_instances env b chute_id key) (\<lambda>discovery.
                 call_bind (cache_verified_chutes_nonces env chute_id discovery accepted) (\<lambda>_.
                 call_bind (pop_verified_chutes_nonce env chute_id accepted) (\<lambda>third.
                   call_result (ok_or (ChannelBindingMismatch (lit ''Chutes did not return an E2EE key matching the verified binding'')) third)))))
             (others st)))"

definition refresh_verified_sessions_for_model ::
    "'w chutes_env \<Rightarrow> chutes_backend \<Rightarrow> str \<Rightarrow> upstream_verified_event \<Rightarrow> ('w, nat) chutes_call" where
  "refresh_verified_sessions_for_model env b model event =
     (if uv_result event \<noteq> Verified then call_result (Inl e2ee_requires_verified_binding)
      else
        call_bind (call_result (api_key b)) (\<lambda>key.
        call_bind (resolve_chute_id env b model key) (\<lambda>chute_id.
        call_bind (call_result (chutes_accepted_bindings event)) (\<lambda>accepted.
        call_bind (fetch_instances env b chute_id key) (\<lambda>discovery.
          cache_verified_chutes_nonces env chute_id discovery accepted)))))"

definition chutes_invoke_headers :: "str \<Rightarrow> str \<Rightarrow> str \<Rightarrow> str \<Rightarrow> bool \<Rightarrow> str \<Rightarrow> (str \<times> str) list" where
  "chutes_invoke_headers key chute_id instance_id nonce stream e2e_path =
     [(lit ''authorization'', lit ''Bearer '' @ key), (lit ''x-chute-id'', chute_id), (lit ''x-instance-id'', instance_id),
      (lit ''x-e2e-nonce'', nonce), (lit ''x-e2e-stream'', if stream then lit ''true'' else lit ''false''), (lit ''x-e2e-path'', e2e_path),
      (lit ''content-type'', lit ''application/octet-stream'')]"

record invoke_response =
  iv_reply :: http_reply
  iv_response_sk :: bytes
  iv_instance_id :: str

definition request_payload :: "chutes_lib \<Rightarrow> prepared_request \<Rightarrow> upstream_error + json \<times> str" where
  "request_payload cl req =
     bind_result (ok_or (Routing (lit ''invalid JSON request body: '' @ from_slice_error (cl_json cl) (urq_body (pr_request req))))
       (from_slice (cl_json cl) (urq_body (pr_request req)))) (\<lambda>payload.
     bind_result (ok_or (Routing (lit ''request body must contain a string model field'')) (Option.bind (get payload (lit ''model'')) as_str)) (\<lambda>model.
       Inr (payload, model)))"

definition invoke_request :: "chutes_backend \<Rightarrow> str \<Rightarrow> str \<Rightarrow> selected_instance \<Rightarrow> bool \<Rightarrow> prepared_request \<Rightarrow> bytes \<Rightarrow> http_request" where
  "invoke_request b key chute_id selected stream req blob =
     \<lparr>hq_method = lit ''POST'', hq_url = cb_e2ee_api_base b @ lit ''/e2e/invoke'',
      hq_headers = chutes_invoke_headers key chute_id (si_instance_id selected) (si_nonce selected) stream
        (case urq_path (pr_request req) of Some p \<Rightarrow> p | None \<Rightarrow> lit ''/v1/chat/completions''),
      hq_body = blob\<rparr>"

definition send_invoke ::
    "'w chutes_env \<Rightarrow> chutes_backend \<Rightarrow> http_request \<Rightarrow> bytes \<Rightarrow> str \<Rightarrow> ('w, invoke_response) chutes_call" where
  "send_invoke env b rq response_sk instance_id st =
     (case st of (cache, w) \<Rightarrow>
      case hl_send (ce_http env) (chutes_client b) rq w of (sent, w') \<Rightarrow>
        (bind_result (map_err Transport sent) (\<lambda>resp.
           Inr \<lparr>iv_reply = resp, iv_response_sk = response_sk, iv_instance_id = instance_id\<rparr>), (cache, w')))"

definition invoke_verified ::
    "'w chutes_env \<Rightarrow> chutes_backend \<Rightarrow> (session_cache \<times> 'w \<Rightarrow> session_cache \<times> 'w) \<Rightarrow> chutes_random \<Rightarrow> prepared_request \<Rightarrow>
     upstream_verified_event \<Rightarrow> bool \<Rightarrow> ('w, invoke_response) chutes_call" where
  "invoke_verified env b others rnd req event stream =
     (if uv_result event \<noteq> Verified then call_result (Inl e2ee_requires_verified_binding)
      else
        call_bind (call_result (api_key b)) (\<lambda>key.
        call_bind (call_result (request_payload (ce_lib env) req)) (\<lambda>(payload, model).
        call_bind (resolve_chute_id env b model key) (\<lambda>chute_id.
        call_bind (call_result (chutes_accepted_bindings event)) (\<lambda>accepted.
        call_bind (acquire_verified_chutes_session env b others chute_id key accepted) (\<lambda>selected.
        call_bind (call_result (build_chutes_e2ee_request (ce_lib env) rnd (si_e2e_pubkey selected) payload)) (\<lambda>encrypted.
          send_invoke env b (invoke_request b key chute_id selected stream req (cq_blob encrypted)) (cq_response_sk encrypted)
            (si_instance_id selected))))))))"

definition chutes_buffered :: "chutes_lib \<Rightarrow> invoke_response \<Rightarrow> upstream_error + upstream_response" where
  "chutes_buffered cl invoke =
     (let reply = iv_reply invoke
      in bind_result (map_err Transport (hy_bytes reply)) (\<lambda>wire.
           if hy_status reply \<noteq> 200 then
             Inr \<lparr>us_status_code = hy_status reply, us_body = wire, us_headers = response_headers reply,
                    us_served_instance_id = Some (iv_instance_id invoke)\<rparr>
           else
             bind_result (decrypt_chutes_response cl wire (iv_response_sk invoke)) (\<lambda>plain.
               Inr \<lparr>us_status_code = hy_status reply, us_body = plain,
                      us_headers = [(lit ''content-type'', lit ''application/json'')],
                      us_served_instance_id = Some (iv_instance_id invoke)\<rparr>)))"

definition chutes_stream :: "chutes_lib \<Rightarrow> invoke_response \<Rightarrow> stream_response" where
  "chutes_stream cl invoke =
     (let reply = iv_reply invoke; raw = map transport_chunk (hy_stream reply)
      in if hy_status reply = 200 then
           \<lparr>ss_status_code = 200, ss_headers = AList.update (lit ''content-type'') (lit ''text/event-stream'') (response_headers reply),
            ss_body = chutes_stream_polls cl (new_decrypting_stream (iv_response_sk invoke)) raw,
            ss_served_instance_id = Some (iv_instance_id invoke)\<rparr>
         else
           \<lparr>ss_status_code = hy_status reply, ss_headers = response_headers reply, ss_body = raw,
            ss_served_instance_id = Some (iv_instance_id invoke)\<rparr>)"

definition chutes_forward_verified_prepared ::
    "'w chutes_env \<Rightarrow> chutes_backend \<Rightarrow> (session_cache \<times> 'w \<Rightarrow> session_cache \<times> 'w) \<Rightarrow> chutes_random \<Rightarrow> prepared_request \<Rightarrow>
     upstream_verified_event \<Rightarrow> ('w, upstream_response) chutes_call" where
  "chutes_forward_verified_prepared env b others rnd req event =
     call_bind (invoke_verified env b others rnd req event False) (\<lambda>invoke. call_result (chutes_buffered (ce_lib env) invoke))"

definition chutes_forward_stream_verified_prepared ::
    "'w chutes_env \<Rightarrow> chutes_backend \<Rightarrow> (session_cache \<times> 'w \<Rightarrow> session_cache \<times> 'w) \<Rightarrow> chutes_random \<Rightarrow> prepared_request \<Rightarrow>
     upstream_verified_event \<Rightarrow> ('w, stream_response) chutes_call" where
  "chutes_forward_stream_verified_prepared env b others rnd req event =
     call_bind (invoke_verified env b others rnd req event True) (\<lambda>invoke. call_result (Inr (chutes_stream (ce_lib env) invoke)))"

definition chutes_forward :: "('w, 'r) chutes_call" where
  "chutes_forward = call_result (Inl e2ee_requires_verified_binding)"

definition attestation_item :: "str \<Rightarrow> (str \<Rightarrow> str option) \<Rightarrow> instance_evidence \<Rightarrow> json" where
  "attestation_item nonce pubkeys item =
     Object [(lit ''instance_id'', JString (ie_instance_id item)), (lit ''nonce'', JString nonce),
       (lit ''e2e_pubkey'', json_opt_str (pubkeys (ie_instance_id item))),
       (lit ''intel_quote'', case ie_quote item of Some q \<Rightarrow> q | None \<Rightarrow> Null), (lit ''gpu_evidence'', ie_gpu_evidence item)]"

definition chutes_attestation_report ::
    "'w chutes_env \<Rightarrow> chutes_backend \<Rightarrow> bytes \<Rightarrow> str \<Rightarrow> ('w, json) chutes_call" where
  "chutes_attestation_report env b random model =
     call_bind (call_result (api_key b)) (\<lambda>key.
     call_bind (resolve_chute_id env b model key) (\<lambda>chute_id.
     let nonce = cl_hex_encode (ce_lib env) random
     in call_bind (fetch_instances env b chute_id key) (\<lambda>response.
        let pubkeys = map_of (rev (map (\<lambda>i. (ii_instance_id i, ii_e2e_pubkey i)) (ir_instances response)))
        in call_bind (fetch_evidence env b chute_id nonce key) (\<lambda>evidence.
             call_result (Inr (Object [(lit ''attestation_type'', JString (lit ''chutes'')), (lit ''nonce'', JString nonce),
               (lit ''all_attestations'', Array (map (attestation_item nonce pubkeys) evidence))]))))))"

section \<open>Lemmas: nonces\<close>

definition select_nonce :: "pooled_nonce \<Rightarrow> selected_instance" where
  "select_nonce n = \<lparr>si_instance_id = pn_instance_id n, si_e2e_pubkey = pn_e2e_pubkey n, si_nonce = pn_nonce n\<rparr>"

definition usable :: "nat \<Rightarrow> accepted_binding list \<Rightarrow> pooled_nonce \<Rightarrow> bool" where
  "usable now accepted n \<longleftrightarrow> now < pn_expires_at n \<and> chutes_binding_matches accepted (pn_instance_id n) (pn_public_key_sha256 n)"

lemma pop_loop_selected: "pop_loop now accepted (Some x) retained pool = (Some x, retained @ filter (usable now accepted) pool)"
  by (induction pool arbitrary: retained) (auto simp: usable_def)

text \<open>The scan takes the first usable nonce and keeps the other usable ones in order.\<close>

lemma pop_loop_spec:
  "pop_loop now accepted None [] pool =
     (case filter (usable now accepted) pool of [] \<Rightarrow> (None, []) | n # rest \<Rightarrow> (Some (select_nonce n), rest))"
proof (induction pool)
  case (Cons n pool)
  then show ?case by (cases "usable now accepted n") (auto simp: usable_def [of _ _ n] pop_loop_selected select_nonce_def)
qed simp

text \<open>The nonces of a pool, and the ones a discovery offers.\<close>

definition pool_keys :: "session_cache \<Rightarrow> str \<Rightarrow> (str \<times> str) list" where
  "pool_keys cache chute_id = (case sc_nonce_pools cache chute_id of Some pool \<Rightarrow> map nonce_key pool | None \<Rightarrow> [])"

definition offered :: "verified_discovery \<Rightarrow> (str \<times> str \<times> str) set" where
  "offered d = {(vd_chute_id d, vi_instance_id i, n) |i n. i \<in> set (vd_instances d) \<and> n \<in> set (vi_nonces i)}"

definition candidate_keys :: "nonce_candidate list \<Rightarrow> (str \<times> str) set" where
  "candidate_keys cs = {(nc_instance_id c, n) |c n. c \<in> set cs \<and> n \<in> set (nc_nonces c)}"

definition adding :: "(str \<times> str) set \<Rightarrow> pooled_nonce list \<Rightarrow> (str \<times> str) set \<times> pooled_nonce list \<times> nat \<Rightarrow> bool" where
  "adding K pool st \<longleftrightarrow> (case st of (existing, pool', _) \<Rightarrow>
     existing = nonce_key ` set pool' \<and> distinct (map nonce_key pool') \<and> nonce_key ` set pool' \<subseteq> nonce_key ` set pool \<union> K)"

lemma adding_candidate:
  assumes "adding K pool st" "c \<in> set cs" "candidate_keys cs \<subseteq> K"
  shows "adding K pool (add_candidate e i c st)"
proof -
  have "i < length (nc_nonces c) \<Longrightarrow> (nc_instance_id c, nc_nonces c ! i) \<in> K"
    using assms(2,3) nth_mem [of i "nc_nonces c"] unfolding candidate_keys_def by blast
  then show ?thesis
    using assms(1) by (cases st) (auto simp: adding_def add_candidate_def nonce_key_def Let_def split: if_splits)
qed

lemma adding_fold:
  assumes "adding K pool st" "set ds \<subseteq> set cs" "candidate_keys cs \<subseteq> K"
  shows "adding K pool (fold (add_candidate e i) ds st)"
  using assms(1,2)
proof (induction ds arbitrary: st)
  case (Cons c ds)
  then show ?case using adding_candidate [OF Cons.prems(1) _ assms(3), of c] by simp
qed simp

lemma adding_folds:
  assumes "adding K pool st" "candidate_keys cs \<subseteq> K"
  shows "adding K pool (fold (\<lambda>i. fold (add_candidate e i) cs) is st)"
  using assms(1)
proof (induction "is" arbitrary: st)
  case (Cons i "is")
  then show ?case using adding_fold [OF Cons.prems order_refl assms(2)] by simp
qed simp

lemma record_nonce_candidates_keys:
  assumes "record_nonce_candidates now cid ttl cs cache = (added, cache')" "distinct (pool_keys cache cid)"
  shows "distinct (pool_keys cache' cid) \<and> set (pool_keys cache' cid) \<subseteq> set (pool_keys cache cid) \<union> candidate_keys cs
    \<and> (\<forall>d. d \<noteq> cid \<longrightarrow> pool_keys cache' d = pool_keys cache d)"
proof -
  define pool where "pool = (case sc_nonce_pools cache cid of Some p \<Rightarrow> p | None \<Rightarrow> [])"
  have keys: "pool_keys cache cid = map nonce_key pool" by (simp add: pool_keys_def pool_def split: option.split)
  have "adding (candidate_keys cs) pool (set (map nonce_key pool), pool, 0)"
    using assms(2) keys by (simp add: adding_def)
  note start = adding_folds [OF this order_refl]
  obtain existing pool' n where f: "fold (\<lambda>i. fold (add_candidate (now + from_secs ttl) i) cs) [0..<fold max (map (\<lambda>c. length (nc_nonces c)) cs) 0]
      (set (map nonce_key pool), pool, 0) = (existing, pool', n)" by (metis surj_pair)
  then have "cache' = cache\<lparr>sc_nonce_pools := (sc_nonce_pools cache)(cid \<mapsto> pool')\<rparr>"
    using assms(1) by (simp add: record_nonce_candidates_def Let_def pool_def [symmetric])
  moreover have "adding (candidate_keys cs) pool (existing, pool', n)" using start [of "now + from_secs ttl"] f by metis
  ultimately show ?thesis using keys by (auto simp: adding_def pool_keys_def)
qed

lemma record_verified_discovery_keys:
  assumes "\<And>cid. distinct (pool_keys cache cid)"
  shows "distinct (pool_keys (snd (record_verified_discovery now d cache)) cid)
    \<and> set (pool_keys (snd (record_verified_discovery now d cache)) cid)
        \<subseteq> set (pool_keys cache cid) \<union> {k. (cid, k) \<in> offered d}"
proof -
  define cs where "cs = map candidate_of (filter (\<lambda>i. vi_nonces i \<noteq> []) (vd_instances d))"
  have off: "candidate_keys cs \<subseteq> {k. (vd_chute_id d, k) \<in> offered d}"
    by (auto simp: candidate_keys_def cs_def candidate_of_def offered_def)
  have "distinct (pool_keys cache' cid) \<and> set (pool_keys cache' cid) \<subseteq> set (pool_keys cache cid) \<union> {k. (cid, k) \<in> offered d}"
    if "record_nonce_candidates now (vd_chute_id d) ttl cs cache = (n, cache')" for ttl n cache'
    using record_nonce_candidates_keys [OF that assms] off assms by (cases "cid = vd_chute_id d") auto
  then show ?thesis
    using assms by (auto simp: record_verified_discovery_def Let_def cs_def [symmetric] split: prod.splits)
qed

lemma pop_verified_nonce_keys:
  assumes "pop_verified_nonce now cid accepted cache = (sel, cache')" "\<And>c. distinct (pool_keys cache c)"
  shows "distinct (pool_keys cache' c) \<and> set (pool_keys cache' c) \<subseteq> set (pool_keys cache c)
    \<and> (\<forall>x. sel = Some x \<longrightarrow> (si_instance_id x, si_nonce x) \<in> set (pool_keys cache cid)
          \<and> (si_instance_id x, si_nonce x) \<notin> set (pool_keys cache' cid))"
proof (cases "sc_nonce_pools cache cid")
  case None
  then show ?thesis using assms by (simp add: pop_verified_nonce_def)
next
  case (Some pool)
  let ?live = "filter (usable now accepted) pool"
  have d: "distinct (map nonce_key pool)" using assms(2) [of cid] Some by (simp add: pool_keys_def)
  then have live: "distinct (map nonce_key ?live)" "nonce_key ` set ?live \<subseteq> set (pool_keys cache cid)"
    using Some by (auto simp: distinct_map_filter pool_keys_def)
  have upd: "pool_keys (cache\<lparr>sc_nonce_pools := (sc_nonce_pools cache)(cid \<mapsto> p)\<rparr>) c = (if c = cid then map nonce_key p else pool_keys cache c)" for p c
    by (simp add: pool_keys_def)
  show ?thesis
  proof (cases ?live)
    case Nil
    then show ?thesis using assms Some upd by (auto simp: pop_verified_nonce_def pop_loop_spec split: if_splits)
  next
    case (Cons n rest)
    then have "sel = Some (select_nonce n)" "cache' = cache\<lparr>sc_nonce_pools := (sc_nonce_pools cache)(cid \<mapsto> rest)\<rparr>"
      using assms(1) Some by (simp_all add: pop_verified_nonce_def pop_loop_spec)
    moreover have "nonce_key n = (si_instance_id (select_nonce n), si_nonce (select_nonce n))"
      by (simp add: nonce_key_def select_nonce_def)
    ultimately show ?thesis using live Cons assms(2) upd by auto
  qed
qed

text \<open>
  The states of a store, with the nonces handed out so far: discoveries are recorded as long as
  they offer none of those again.
\<close>

inductive nonce_reach :: "session_cache \<Rightarrow> (str \<times> str \<times> str) set \<Rightarrow> bool" where
  nonce_start: "nonce_reach new_session_cache {}"
| nonce_record: "nonce_reach cache used \<Longrightarrow> offered d \<inter> used = {} \<Longrightarrow>
    nonce_reach (snd (record_verified_discovery now d cache)) used"
| nonce_pop: "nonce_reach cache used \<Longrightarrow> pop_verified_nonce now cid accepted cache = (Some x, cache') \<Longrightarrow>
    nonce_reach cache' (insert (cid, si_instance_id x, si_nonce x) used)"
| nonce_none: "nonce_reach cache used \<Longrightarrow> pop_verified_nonce now cid accepted cache = (None, cache') \<Longrightarrow> nonce_reach cache' used"

lemma nonce_reach_inv:
  assumes "nonce_reach cache used"
  shows "(\<forall>cid. distinct (pool_keys cache cid)) \<and> (\<forall>cid. \<forall>k \<in> set (pool_keys cache cid). (cid, k) \<notin> used)"
  using assms
proof induction
  case nonce_start
  then show ?case by (simp add: pool_keys_def new_session_cache_def)
next
  case (nonce_record cache used d now)
  then have "distinct (pool_keys (snd (record_verified_discovery now d cache)) cid)
    \<and> set (pool_keys (snd (record_verified_discovery now d cache)) cid) \<subseteq> set (pool_keys cache cid) \<union> {k. (cid, k) \<in> offered d}" for cid
    by (intro record_verified_discovery_keys) simp
  with nonce_record show ?case by blast
next
  case (nonce_pop cache used now cid accepted x cache')
  then have "distinct (pool_keys cache' c) \<and> set (pool_keys cache' c) \<subseteq> set (pool_keys cache c)
      \<and> (si_instance_id x, si_nonce x) \<notin> set (pool_keys cache' cid)" for c
    using pop_verified_nonce_keys [OF nonce_pop(2)] by auto
  with nonce_pop show ?case by blast
next
  case (nonce_none cache used now cid accepted cache')
  then show ?case using pop_verified_nonce_keys [OF nonce_none(2)] by blast
qed

section \<open>Lemmas: what is sent\<close>

text \<open>An HTTP library that keeps the requests it is given, in order, beside the world.\<close>

definition logged :: "'w http_lib \<Rightarrow> (http_request list \<times> 'w) http_lib" where
  "logged hl = \<lparr>hl_send = (\<lambda>client rq (t, w). case hl_send hl client rq w of (r, w') \<Rightarrow> (r, (t @ [rq], w'))),
     hl_with_query = hl_with_query hl, hl_build_default = hl_build_default hl, hl_build_webpki = hl_build_webpki hl,
     hl_build_pinned = hl_build_pinned hl\<rparr>"

text \<open>Every pooled nonce carries the digest of its own public key.\<close>

definition honest_pool :: "chutes_lib \<Rightarrow> session_cache \<Rightarrow> bool" where
  "honest_pool cl cache \<longleftrightarrow> (\<forall>cid pool. sc_nonce_pools cache cid = Some pool \<longrightarrow>
     (\<forall>n \<in> set pool. chutes_e2ee_pubkey_sha256 cl (pn_e2e_pubkey n) = Inr (pn_public_key_sha256 n)))"

text \<open>
  A call is fine when from every honest cache it leads to an honest one, all it sends satisfies
  \<open>P\<close>, and a result satisfies \<open>Q\<close>.
\<close>

definition call_fine ::
    "chutes_lib \<Rightarrow> (http_request \<Rightarrow> bool) \<Rightarrow> ('a \<Rightarrow> bool) \<Rightarrow> (http_request list \<times> 'w, 'a) chutes_call \<Rightarrow> bool" where
  "call_fine cl P Q m \<longleftrightarrow> (\<forall>cache t w r cache' t' w'. honest_pool cl cache \<longrightarrow> m (cache, (t, w)) = (r, (cache', (t', w'))) \<longrightarrow>
     honest_pool cl cache' \<and> (\<exists>u. t' = t @ u \<and> list_all P u) \<and> (\<forall>x. r = Inr x \<longrightarrow> Q x))"

lemma call_fineI:
  assumes "\<And>cache t w r cache' t' w'. honest_pool cl cache \<Longrightarrow> m (cache, (t, w)) = (r, (cache', (t', w'))) \<Longrightarrow>
    honest_pool cl cache' \<and> (\<exists>u. t' = t @ u \<and> list_all P u) \<and> (\<forall>x. r = Inr x \<longrightarrow> Q x)"
  shows "call_fine cl P Q m"
  using assms unfolding call_fine_def by blast

lemma call_fineD:
  assumes "call_fine cl P Q m" "honest_pool cl cache" "m (cache, (t, w)) = (r, (cache', (t', w')))"
  obtains u where "honest_pool cl cache'" "t' = t @ u" "list_all P u" "\<And>x. r = Inr x \<Longrightarrow> Q x"
proof -
  have "honest_pool cl cache' \<and> (\<exists>u. t' = t @ u \<and> list_all P u) \<and> (\<forall>x. r = Inr x \<longrightarrow> Q x)"
    by (rule assms(1) [unfolded call_fine_def, rule_format, OF assms(2,3)])
  then show ?thesis using that by blast
qed

lemma call_fine_result: "(\<And>x. r = Inr x \<Longrightarrow> Q x) \<Longrightarrow> call_fine cl P Q (call_result r)"
  by (rule call_fineI) (auto simp: call_result_def)

lemma call_fine_bind:
  assumes "call_fine cl P Q m" "\<And>x. Q x \<Longrightarrow> call_fine cl P R (f x)"
  shows "call_fine cl P R (call_bind m f)"
proof (rule call_fineI)
  fix cache t w r cache' t' w'
  assume h: "honest_pool cl cache" and run: "call_bind m f (cache, (t, w)) = (r, (cache', (t', w')))"
  obtain r1 c1 t1 w1 where m: "m (cache, (t, w)) = (r1, (c1, (t1, w1)))" by (metis surj_pair)
  obtain u where u: "honest_pool cl c1" "t1 = t @ u" "list_all P u" "\<And>x. r1 = Inr x \<Longrightarrow> Q x"
    by (rule call_fineD [OF assms(1) h m]) (use that in blast)
  show "honest_pool cl cache' \<and> (\<exists>u. t' = t @ u \<and> list_all P u) \<and> (\<forall>x. r = Inr x \<longrightarrow> R x)"
  proof (cases r1)
    case (Inl e)
    then show ?thesis using run m u by (auto simp: call_bind_def)
  next
    case (Inr x)
    then have fx: "f x (c1, (t1, w1)) = (r, (cache', (t', w')))" using run m by (simp add: call_bind_def)
    obtain u' where "honest_pool cl cache'" "t' = t1 @ u'" "list_all P u'" "\<And>x. r = Inr x \<Longrightarrow> R x"
      by (rule call_fineD [OF assms(2) [OF u(4) [OF Inr]] u(1) fx]) (use that in blast)
    then show ?thesis using u(2,3) by (auto intro!: exI [of _ "u @ u'"])
  qed
qed

lemma call_fine_weaken: "call_fine cl P Q m \<Longrightarrow> (\<And>x. Q x \<Longrightarrow> R x) \<Longrightarrow> call_fine cl P R m"
  unfolding call_fine_def by blast

definition bodyless :: "http_request \<Rightarrow> bool" where
  "bodyless rq \<longleftrightarrow> hq_method rq = lit ''GET'' \<and> hq_body rq = []"

lemma chutes_get_fine:
  assumes "\<And>rq. bodyless rq \<Longrightarrow> P rq" "ce_http env = logged hl"
  shows "call_fine cl P (\<lambda>_. True) (chutes_get env b url key parse)"
  by (rule call_fineI)
     (use assms(1) in \<open>auto simp: chutes_get_def assms(2) logged_def bodyless_def split: prod.splits\<close>)

lemma honest_pool_update: "honest_pool cl cache \<Longrightarrow> sc_nonce_pools cache' = sc_nonce_pools cache \<Longrightarrow> honest_pool cl cache'"
  by (simp add: honest_pool_def)

lemma resolve_chute_id_fine:
  assumes "\<And>rq. bodyless rq \<Longrightarrow> P rq" "ce_http env = logged hl"
  shows "call_fine cl P (\<lambda>_. True) (resolve_chute_id env b model key)"
proof (rule call_fineI)
  fix cache t w r cache' t' w'
  assume h: "honest_pool cl cache" and run: "resolve_chute_id env b model key (cache, (t, w)) = (r, (cache', (t', w')))"
  obtain c0 cache1 where g: "get_cached_chute_id (ce_now env (t, w)) model cache = (c0, cache1)" by fastforce
  then have h1: "honest_pool cl cache1"
    using h by (auto simp: get_cached_chute_id_def intro: honest_pool_update split: option.splits if_splits)
  let ?get = "chutes_get env b (hl_with_query (ce_http env) (cb_e2ee_api_base b @ lit ''/chutes/'')
      [(lit ''include_public'', lit ''true''), (lit ''name'', model)]) key (cl_parse_lookup (ce_lib env))"
  obtain r2 c2 t2 w2 where m: "?get (cache1, (t, w)) = (r2, (c2, (t2, w2)))" by (metis surj_pair)
  obtain u where u: "honest_pool cl c2" "t2 = t @ u" "list_all P u"
    by (rule call_fineD [OF chutes_get_fine [OF assms] h1 m]) (use that in blast)
  show "honest_pool cl cache' \<and> (\<exists>u. t' = t @ u \<and> list_all P u) \<and> (\<forall>x. r = Inr x \<longrightarrow> True)"
    using run h h1 g m u
    by (auto simp: resolve_chute_id_def cache_chute_id_def intro: honest_pool_update split: if_splits option.splits sum.splits)
qed

definition honest_nonces :: "chutes_lib \<Rightarrow> pooled_nonce list \<Rightarrow> bool" where
  "honest_nonces cl pool \<longleftrightarrow> (\<forall>n \<in> set pool. chutes_e2ee_pubkey_sha256 cl (pn_e2e_pubkey n) = Inr (pn_public_key_sha256 n))"

lemma honest_pool_insert:
  "honest_pool cl cache \<Longrightarrow> honest_nonces cl pool \<Longrightarrow> honest_pool cl (cache\<lparr>sc_nonce_pools := (sc_nonce_pools cache)(cid \<mapsto> pool)\<rparr>)"
  by (simp add: honest_pool_def honest_nonces_def)

text \<open>A selected key is one whose digest an accepted binding names.\<close>

definition selected_accepted :: "chutes_lib \<Rightarrow> accepted_binding list \<Rightarrow> selected_instance \<Rightarrow> bool" where
  "selected_accepted cl accepted x \<longleftrightarrow>
     (\<exists>digest. chutes_e2ee_pubkey_sha256 cl (si_e2e_pubkey x) = Inr digest \<and> chutes_binding_matches accepted (si_instance_id x) digest)"

lemma pop_fine:
  "call_fine cl P (\<lambda>x. \<forall>y. x = Some y \<longrightarrow> selected_accepted cl accepted y) (pop_verified_chutes_nonce env cid accepted)"
proof (rule call_fineI)
  fix cache t w r cache' t' w'
  assume h: "honest_pool cl cache" and run: "pop_verified_chutes_nonce env cid accepted (cache, (t, w)) = (r, (cache', (t', w')))"
  let ?pop = "pop_verified_nonce (ce_now env (t, w)) cid accepted cache"
  have "honest_pool cl (snd ?pop) \<and> (\<forall>y. fst ?pop = Some y \<longrightarrow> selected_accepted cl accepted y)"
  proof (cases "sc_nonce_pools cache cid")
    case None
    then show ?thesis using h by (simp add: pop_verified_nonce_def)
  next
    case (Some pool)
    let ?live = "filter (usable (ce_now env (t, w)) accepted) pool"
    have "honest_nonces cl pool" using h Some by (simp add: honest_pool_def honest_nonces_def)
    then have live: "honest_nonces cl ?live" by (simp add: honest_nonces_def)
    show ?thesis
    proof (cases ?live)
      case Nil
      then show ?thesis using honest_pool_insert [OF h, of "[]" cid]
        by (simp add: pop_verified_nonce_def Some pop_loop_spec honest_nonces_def)
    next
      case (Cons n rest)
      then have n: "usable (ce_now env (t, w)) accepted n" by (metis filter_eq_ConsD)
      have digest: "chutes_e2ee_pubkey_sha256 cl (pn_e2e_pubkey n) = Inr (pn_public_key_sha256 n)" and rest: "honest_nonces cl rest"
        using live Cons by (simp_all add: honest_nonces_def)
      have "selected_accepted cl accepted (select_nonce n)"
        using n digest by (simp add: selected_accepted_def select_nonce_def usable_def)
      then show ?thesis using honest_pool_insert [OF h rest, of cid]
        by (simp add: pop_verified_nonce_def Some pop_loop_spec Cons)
    qed
  qed
  then show "honest_pool cl cache' \<and> (\<exists>u. t' = t @ u \<and> list_all P u) \<and> (\<forall>x. r = Inr x \<longrightarrow> (\<forall>y. x = Some y \<longrightarrow> selected_accepted cl accepted y))"
    using run by (auto simp: pop_verified_chutes_nonce_def split: prod.splits)
qed

lemma verified_instances_honest:
  assumes "verified_instances cl accepted is = Inr vs" "v \<in> set vs"
  shows "chutes_e2ee_pubkey_sha256 cl (vi_e2e_pubkey v) = Inr (vi_public_key_sha256 v)"
  using assms
  by (induction cl accepted "is" arbitrary: vs rule: verified_instances.induct)
     (auto simp: bind_result_Inr verified_instance_of_def Let_def split: option.splits if_splits)

lemma add_candidates_honest:
  assumes "honest_nonces cl (fst (snd st))" "\<And>c. c \<in> set cs \<Longrightarrow> chutes_e2ee_pubkey_sha256 cl (nc_e2e_pubkey c) = Inr (nc_public_key_sha256 c)"
  shows "honest_nonces cl (fst (snd (fold (add_candidate e i) cs st)))"
  using assms
proof (induction cs arbitrary: st)
  case (Cons c cs)
  have "honest_nonces cl (fst (snd (add_candidate e i c st)))"
    using Cons.prems by (cases st) (auto simp: add_candidate_def honest_nonces_def Let_def)
  with Cons show ?case by simp
qed simp

lemma add_all_honest:
  assumes "honest_nonces cl (fst (snd st))" "\<And>c. c \<in> set cs \<Longrightarrow> chutes_e2ee_pubkey_sha256 cl (nc_e2e_pubkey c) = Inr (nc_public_key_sha256 c)"
  shows "honest_nonces cl (fst (snd (fold (\<lambda>i. fold (add_candidate e i) cs) is st)))"
  using assms(1)
proof (induction "is" arbitrary: st)
  case (Cons i "is")
  then show ?case using add_candidates_honest [OF Cons.prems assms(2)] by simp
qed simp

lemma record_nonce_candidates_honest:
  assumes "honest_pool cl cache" "\<And>c. c \<in> set cs \<Longrightarrow> chutes_e2ee_pubkey_sha256 cl (nc_e2e_pubkey c) = Inr (nc_public_key_sha256 c)"
  shows "honest_pool cl (snd (record_nonce_candidates now cid ttl cs cache))"
proof -
  define pool where "pool = (case sc_nonce_pools cache cid of Some p \<Rightarrow> p | None \<Rightarrow> [])"
  have start: "honest_nonces cl pool"
  proof (cases "sc_nonce_pools cache cid")
    case (Some p)
    then show ?thesis using assms(1) by (simp add: honest_nonces_def honest_pool_def pool_def)
  qed (simp add: honest_nonces_def pool_def)
  obtain e' pool' n' where f: "fold (\<lambda>i. fold (add_candidate (now + from_secs ttl) i) cs) [0..<fold max (map (\<lambda>c. length (nc_nonces c)) cs) 0]
      (set (map nonce_key pool), pool, 0) = (e', pool', n')" by (metis prod_cases3)
  have "honest_nonces cl pool'"
    using add_all_honest [of cl "(set (map nonce_key pool), pool, 0)" cs "now + from_secs ttl"
        "[0..<fold max (map (\<lambda>c. length (nc_nonces c)) cs) 0]"] start assms(2) f by simp
  then show ?thesis
    using honest_pool_insert [OF assms(1)] f unfolding record_nonce_candidates_def Let_def pool_def [symmetric] by simp
qed

lemma record_verified_discovery_honest:
  assumes "honest_pool cl cache" "\<And>v. v \<in> set (vd_instances d) \<Longrightarrow> chutes_e2ee_pubkey_sha256 cl (vi_e2e_pubkey v) = Inr (vi_public_key_sha256 v)"
  shows "honest_pool cl (snd (record_verified_discovery now d cache))"
proof -
  have "honest_pool cl (snd (record_nonce_candidates now (vd_chute_id d) ttl
      (map candidate_of (filter (\<lambda>i. vi_nonces i \<noteq> []) (vd_instances d))) cache))" for ttl
    by (rule record_nonce_candidates_honest [OF assms(1)]) (use assms(2) in \<open>auto simp: candidate_of_def\<close>)
  then show ?thesis using assms(1) by (simp add: record_verified_discovery_def Let_def case_prod_unfold)
qed

lemma cache_nonces_fine:
  assumes "ce_lib env = cl"
  shows "call_fine cl P (\<lambda>_. True) (cache_verified_chutes_nonces env cid discovery accepted)"
proof (rule call_fineI)
  fix cache t w r cache' t' w'
  assume h: "honest_pool cl cache" and run: "cache_verified_chutes_nonces env cid discovery accepted (cache, (t, w)) = (r, (cache', (t', w')))"
  show "honest_pool cl cache' \<and> (\<exists>u. t' = t @ u \<and> list_all P u) \<and> (\<forall>x. r = Inr x \<longrightarrow> True)"
  proof (cases "verified_discovery_from_response cl cid discovery (Some accepted)")
    case (Inl e)
    then show ?thesis using run h assms by (simp add: cache_verified_chutes_nonces_def)
  next
    case (Inr d)
    then have "verified_instances cl (Some accepted) (ir_instances discovery) = Inr (vd_instances d)"
      by (auto simp: verified_discovery_from_response_def bind_result_Inr split: if_splits)
    from verified_instances_honest [OF this]
    have "honest_pool cl (snd (record_verified_discovery (ce_now env (t, w)) d cache))"
      by (intro record_verified_discovery_honest [OF h])
    then show ?thesis using run Inr assms by (auto simp: cache_verified_chutes_nonces_def split: prod.splits)
  qed
qed

text \<open>What other requests do while this one waits for the lock keeps the pool honest; they send on their own behalf.\<close>

definition others_fine :: "chutes_lib \<Rightarrow> (session_cache \<times> http_request list \<times> 'w \<Rightarrow> session_cache \<times> http_request list \<times> 'w) \<Rightarrow> bool" where
  "others_fine cl others \<longleftrightarrow> (\<forall>cache t w cache' t' w'. honest_pool cl cache \<longrightarrow> others (cache, (t, w)) = (cache', (t', w')) \<longrightarrow>
     honest_pool cl cache' \<and> t' = t)"

lemma call_fine_others:
  assumes "others_fine cl others" "call_fine cl P Q m"
  shows "call_fine cl P Q (\<lambda>st. m (others st))"
proof (rule call_fineI)
  fix cache t w r cache' t' w'
  assume h: "honest_pool cl cache" and run: "m (others (cache, (t, w))) = (r, (cache', (t', w')))"
  obtain c1 t1 w1 where ot: "others (cache, (t, w)) = (c1, (t1, w1))" by (metis surj_pair)
  have "honest_pool cl c1 \<and> t1 = t" by (rule assms(1) [unfolded others_fine_def, rule_format, OF h ot])
  then have c1: "honest_pool cl c1" and t1: "t1 = t" by simp_all
  have "m (c1, (t1, w1)) = (r, (cache', (t', w')))" using run ot by simp
  then show "honest_pool cl cache' \<and> (\<exists>u. t' = t @ u \<and> list_all P u) \<and> (\<forall>x. r = Inr x \<longrightarrow> Q x)"
    using assms(2) [unfolded call_fine_def, rule_format, OF c1] t1 by blast
qed

lemma acquire_fine:
  assumes "\<And>rq. bodyless rq \<Longrightarrow> P rq" "ce_http env = logged hl" "ce_lib env = cl" "others_fine cl others"
  shows "call_fine cl P (selected_accepted cl accepted) (acquire_verified_chutes_session env b others cid key accepted)"
proof -
  let ?Q = "\<lambda>x. \<forall>y. x = Some y \<longrightarrow> selected_accepted cl accepted y"
  let ?refill = "call_bind (fetch_instances env b cid key) (\<lambda>discovery.
     call_bind (cache_verified_chutes_nonces env cid discovery accepted) (\<lambda>_.
     call_bind (pop_verified_chutes_nonce env cid accepted) (\<lambda>third.
       call_result (ok_or (ChannelBindingMismatch (lit ''Chutes did not return an E2EE key matching the verified binding'')) third))))"
  have fetch: "call_fine cl P (\<lambda>_. True) (fetch_instances env b cid key)"
    unfolding fetch_instances_def by (rule chutes_get_fine [OF assms(1,2)])
  have refill: "call_fine cl P (selected_accepted cl accepted) ?refill"
    by (intro call_fine_bind [OF fetch] call_fine_bind [OF cache_nonces_fine [OF assms(3)]] call_fine_bind [OF pop_fine] call_fine_result)
       (auto simp: ok_or_def split: option.splits)
  have again: "call_fine cl P (selected_accepted cl accepted)
      (call_bind (pop_verified_chutes_nonce env cid accepted) (\<lambda>second. case second of Some x \<Rightarrow> call_result (Inr x) | None \<Rightarrow> ?refill))"
    by (rule call_fine_bind [OF pop_fine]) (auto simp: refill intro: call_fine_result split: option.split)
  show ?thesis
    unfolding acquire_verified_chutes_session_def
    by (rule call_fine_bind [OF pop_fine])
       (auto simp: call_fine_others [OF assms(4) again] intro: call_fine_result split: option.split)
qed

text \<open>
  The body of a request is sealed for an event: it is the blob built for a key whose digest one of
  the event's bindings names, from the caller's own payload.
\<close>

definition sealed_for :: "chutes_lib \<Rightarrow> chutes_random \<Rightarrow> prepared_request \<Rightarrow> upstream_verified_event \<Rightarrow> http_request \<Rightarrow> bool" where
  "sealed_for cl rnd req event rq \<longleftrightarrow>
     (\<exists>accepted x payload model encrypted. chutes_accepted_bindings event = Inr accepted \<and> selected_accepted cl accepted x
        \<and> request_payload cl req = Inr (payload, model)
        \<and> build_chutes_e2ee_request cl rnd (si_e2e_pubkey x) payload = Inr encrypted \<and> hq_body rq = cq_blob encrypted)"

lemma send_invoke_fine:
  assumes "P rq" "ce_http env = logged hl"
  shows "call_fine cl P (\<lambda>_. True) (send_invoke env b rq sk iid)"
  by (rule call_fineI) (use assms(1) in \<open>auto simp: send_invoke_def assms(2) logged_def split: prod.splits\<close>)

lemma invoke_verified_fine:
  assumes "ce_http env = logged hl" "ce_lib env = cl" "others_fine cl others"
  shows "call_fine cl (\<lambda>rq. bodyless rq \<or> sealed_for cl rnd req event rq) (\<lambda>_. True) (invoke_verified env b others rnd req event stream)"
    (is "call_fine cl ?P _ _")
proof -
  have build: "call_fine cl ?P (\<lambda>_. True)
     (call_bind (call_result (build_chutes_e2ee_request cl rnd (si_e2e_pubkey x) payload)) (\<lambda>encrypted.
        send_invoke env b (invoke_request b key cid x stream req (cq_blob encrypted)) (cq_response_sk encrypted) (si_instance_id x)))"
    if "chutes_accepted_bindings event = Inr accepted" "selected_accepted cl accepted x" "request_payload cl req = Inr (payload, model)"
    for accepted x payload model key cid
  proof (rule call_fine_bind [OF call_fine_result, of _ "\<lambda>e. build_chutes_e2ee_request cl rnd (si_e2e_pubkey x) payload = Inr e"])
    fix e assume "build_chutes_e2ee_request cl rnd (si_e2e_pubkey x) payload = Inr e"
    then have "sealed_for cl rnd req event (invoke_request b key cid x stream req (cq_blob e))"
      using that unfolding sealed_for_def invoke_request_def
      by (intro exI [of _ accepted] exI [of _ x] exI [of _ payload] exI [of _ model] exI [of _ e]) simp
    then show "call_fine cl ?P (\<lambda>_. True) (send_invoke env b (invoke_request b key cid x stream req (cq_blob e)) (cq_response_sk e) (si_instance_id x))"
      by (intro send_invoke_fine [OF _ assms(1)]) simp
  qed simp
  show ?thesis
    unfolding invoke_verified_def assms(2)
    apply (simp add: call_fine_result)
    apply (intro impI)
    apply (rule call_fine_bind [OF call_fine_result [where Q = "\<lambda>_. True"]], rule TrueI)
    apply (rule call_fine_bind [OF call_fine_result [where Q = "\<lambda>pm. request_payload cl req = Inr pm"]], assumption)
    apply (clarify)
    apply (rule call_fine_bind [OF resolve_chute_id_fine [OF _ assms(1)]], simp)
    apply (rule call_fine_bind [OF call_fine_result [where Q = "\<lambda>a. chutes_accepted_bindings event = Inr a"]], assumption)
    apply (rule call_fine_bind [OF acquire_fine [OF _ assms]], simp)
    apply (rule build; assumption)
    done
qed

section \<open>Properties\<close>


definition sample_chutes_lib :: chutes_lib where
  "sample_chutes_lib = \<lparr>cl_json = sample_codec\<lparr>to_vec := (\<lambda>_. Some [5])\<rparr>, cl_dbg = (\<lambda>s. s), cl_base64_decode = (\<lambda>_. Inr [1]), cl_base64_encode = latin1,
     cl_sha256 = (\<lambda>b. b), cl_hex_encode = latin1, cl_kem_public = (\<lambda>b. b), cl_kem_key = (\<lambda>_. Inr ()), cl_kem_ciphertext = (\<lambda>_. Inr ()),
     cl_encapsulate = (\<lambda>_ _. (replicate 16 0, [])), cl_decapsulate = (\<lambda>_ _. []), cl_hkdf = (\<lambda>_ _ _. Some (replicate 32 0)),
     cl_chacha_encrypt = (\<lambda>_ _ p. Some p), cl_chacha_decrypt = (\<lambda>_ _ c. Some c), cl_gzip = Inr, cl_gunzip = Inr,
     cl_parse_lookup = (\<lambda>_. Inr []), cl_parse_instances = (\<lambda>_. Inl []), cl_parse_evidence = (\<lambda>_. Inr [])\<rparr>"

definition sample_pool :: session_cache where
  "sample_pool = \<lparr>sc_model_map = (\<lambda>_. None), sc_nonce_pools = (\<lambda>_. Some [\<lparr>pn_instance_id = lit ''i'', pn_e2e_pubkey = [],
     pn_public_key_sha256 = latin1 [1], pn_nonce = lit ''n'', pn_expires_at = 1\<rparr>])\<rparr>"

definition sample_chutes_event :: upstream_verified_event where
  "sample_chutes_event = default_upstream_verified_event\<lparr>uv_result := Verified,
     uv_channel_bindings := [E2eePublicKeySha256 (lit ''chutes'') None CHUTES_MLKEM_768_ALGORITHM (latin1 [1])]\<rparr>"

definition sample_chutes_backend :: chutes_backend where
  "sample_chutes_backend = \<lparr>cb_inner = \<lparr>ob_name = [], ob_base_url = [], ob_path = [], ob_auth = None, ob_connect_timeout_seconds = 1,
     ob_read_timeout_seconds = 1\<rparr>, cb_e2ee_api_base = [], cb_api_key = Some (lit ''k''), cb_chute_ids = (\<lambda>_. Some (lit ''c''))\<rparr>"

definition sample_chutes_env :: "(http_request list \<times> unit) chutes_env" where
  "sample_chutes_env = \<lparr>ce_lib = sample_chutes_lib, ce_http = logged sample_http, ce_now = (\<lambda>_. 0)\<rparr>"

definition sample_chutes_request :: prepared_request where
  "sample_chutes_request = \<lparr>pr_request = default_upstream_request\<lparr>urq_body := [1]\<rparr>, pr_upstream_name = [], pr_url_origin = None, pr_model_id = [],
     pr_route_id = None, pr_is_tee = None\<rparr>"

definition sample_random :: chutes_random where
  "sample_random = \<lparr>cr_response_key = [], cr_encapsulation = [], cr_nonce = []\<rparr>"

lemma sample_pool_honest: "honest_pool sample_chutes_lib sample_pool"
  by (simp add: honest_pool_def sample_pool_def chutes_e2ee_pubkey_sha256_def sample_chutes_lib_def)

lemma sample_accepted: "chutes_accepted_bindings sample_chutes_event = Inr [\<lparr>ab_key_id = None, ab_public_key_sha256 = latin1 [1]\<rparr>]"
  by (simp add: chutes_accepted_bindings_def sample_chutes_event_def accepted_of_binding_def List.map_filter_simps)

lemma sample_api_key: "api_key sample_chutes_backend = Inr (lit ''k'')"
proof -
  have "trim (lit ''k'') \<noteq> []" by (simp add: trim_Nil lit_def is_whitespace_def)
  then show ?thesis by (simp add: api_key_def sample_chutes_backend_def)
qed

lemma sample_payload: "request_payload sample_chutes_lib sample_chutes_request = Inr (sample_model_body ''a'', lit ''a'')"
  by (simp add: request_payload_def sample_chutes_lib_def sample_chutes_request_def sample_codec_def sample_model_body_def)

lemma sample_chute_id: "resolve_chute_id sample_chutes_env sample_chutes_backend (lit ''a'') key st = (Inr (lit ''c''), st)"
proof -
  have "\<not> looks_like_uuid (lit ''a'')" by code_simp
  then show ?thesis by (simp add: resolve_chute_id_def sample_chutes_backend_def)
qed

lemma sample_acquire:
  "\<exists>x cache'. acquire_verified_chutes_session sample_chutes_env b others cid key [\<lparr>ab_key_id = None, ab_public_key_sha256 = latin1 [1]\<rparr>] (sample_pool, w)
     = (Inr x, (cache', w))"
  by (simp add: acquire_verified_chutes_session_def call_bind_def pop_verified_chutes_nonce_def pop_verified_nonce_def sample_pool_def
      sample_chutes_env_def pop_loop_spec usable_def chutes_binding_matches_def eq_ignore_ascii_case_def call_result_def)

lemma sample_build: "\<exists>e. build_chutes_e2ee_request sample_chutes_lib rnd pk (sample_model_body ''a'') = Inr e"
  by (simp add: build_chutes_e2ee_request_def sample_chutes_lib_def chutes_derive_key_def with_response_key_def sample_model_body_def
      gzip_compress_def chacha_encrypt_def)

lemma sample_invoke:
  "\<exists>r cache' rq. invoke_verified sample_chutes_env sample_chutes_backend (\<lambda>st. st) rnd sample_chutes_request sample_chutes_event s (sample_pool, ([], ()))
     = (r, (cache', ([rq], ()))) \<and> hq_method rq = lit ''POST''"
proof -
  obtain x cache' where x: "acquire_verified_chutes_session sample_chutes_env sample_chutes_backend (\<lambda>st. st) (lit ''c'') (lit ''k'')
      [\<lparr>ab_key_id = None, ab_public_key_sha256 = latin1 [1]\<rparr>] (sample_pool, ([], ())) = (Inr x, (cache', ([], ())))"
    using sample_acquire by blast
  obtain e where e: "build_chutes_e2ee_request sample_chutes_lib rnd (si_e2e_pubkey x) (sample_model_body ''a'') = Inr e"
    using sample_build by blast
  have env: "ce_lib sample_chutes_env = sample_chutes_lib" "ce_http sample_chutes_env = logged sample_http"
    and event: "uv_result sample_chutes_event = Verified"
    by (simp_all add: sample_chutes_env_def sample_chutes_event_def)
  show ?thesis
    by (simp add: invoke_verified_def call_bind_def call_result_def env event sample_api_key sample_payload sample_chute_id sample_accepted x e
        send_invoke_def logged_def invoke_request_def case_prod_unfold)
qed


text \<open>
  C34. A nonce is handed out once. However discoveries and requests interleave, as long as no
  discovery offers again what was already used, the nonce of a request has not been used before.
\<close>

theorem nonce_single_use:
  assumes "nonce_reach cache used" "pop_verified_nonce now cid accepted cache = (Some x, cache')"
  shows "(cid, si_instance_id x, si_nonce x) \<notin> used"
  using nonce_reach_inv [OF assms(1)] pop_verified_nonce_keys [OF assms(2)] by blast

definition sample_discovery :: verified_discovery where
  "sample_discovery = \<lparr>vd_chute_id = lit ''c'', vd_nonce_expires_in = Some 5,
     vd_instances = [\<lparr>vi_instance_id = lit ''i'', vi_e2e_pubkey = [], vi_public_key_sha256 = [], vi_nonces = [lit ''n'', lit ''m'']\<rparr>]\<rparr>"

theorem nonce_single_use_witness:
  "\<exists>x y cache1 cache2. pop_verified_nonce 0 (lit ''c'') [\<lparr>ab_key_id = None, ab_public_key_sha256 = []\<rparr>]
        (snd (record_verified_discovery 0 sample_discovery new_session_cache)) = (Some x, cache1)
      \<and> pop_verified_nonce 0 (lit ''c'') [\<lparr>ab_key_id = None, ab_public_key_sha256 = []\<rparr>] cache1 = (Some y, cache2)
      \<and> (si_instance_id y, si_nonce y) \<noteq> (si_instance_id x, si_nonce x)"
proof -
  let ?acc = "[\<lparr>ab_key_id = None, ab_public_key_sha256 = []\<rparr>]" and ?cache = "snd (record_verified_discovery 0 sample_discovery new_session_cache)"
  let ?n = "\<lambda>n. \<lparr>pn_instance_id = lit ''i'', pn_e2e_pubkey = [], pn_public_key_sha256 = [], pn_nonce = n, pn_expires_at = from_secs 5\<rparr>"
  have pool: "sc_nonce_pools ?cache (lit ''c'') = Some [?n (lit ''n''), ?n (lit ''m'')]"
    by (simp add: record_verified_discovery_def sample_discovery_def candidate_of_def record_nonce_candidates_def new_session_cache_def
        upt_rec add_candidate_def lit_def Let_def nonce_key_def)
  have "usable 0 ?acc (?n n)" for n
    by (simp add: usable_def chutes_binding_matches_def eq_ignore_ascii_case_def from_secs_def)
  then have "pop_verified_nonce 0 cid ?acc c = (Some (select_nonce (?n a)), c\<lparr>sc_nonce_pools := (sc_nonce_pools c)(cid \<mapsto> map ?n rest)\<rparr>)"
    if "sc_nonce_pools c cid = Some (map ?n (a # rest))" for c cid a rest
    using that by (simp add: pop_verified_nonce_def pop_loop_spec filter_map comp_def del: pop_loop.simps)
  note pop = this
  have x: "pop_verified_nonce 0 (lit ''c'') ?acc ?cache = (Some (select_nonce (?n (lit ''n''))),
      ?cache\<lparr>sc_nonce_pools := (sc_nonce_pools ?cache)(lit ''c'' \<mapsto> map ?n [lit ''m''])\<rparr>)" (is "_ = (Some ?x, ?cache1)")
    by (rule pop) (simp add: pool)
  obtain y cache2 where y: "pop_verified_nonce 0 (lit ''c'') ?acc ?cache1 = (Some y, cache2)"
    using pop [of ?cache1 "lit ''c''" "lit ''m''" "[]"] by simp
  have "nonce_reach ?cache {}" by (rule nonce_record [OF nonce_start]) simp
  from nonce_single_use [OF nonce_pop [OF this x] y] x y show ?thesis by blast
qed

text \<open>
  C39. Plaintext events pass. An event that carries a \<open>usage\<close> member and neither of the two encrypted
  members reaches the client byte for byte, whoever wrote it, without a stream key ever being
  agreed.
\<close>

theorem plaintext_event_delivered:
  assumes "trim raw = raw" "raw \<noteq> []" "raw \<noteq> lit ''[DONE]''" "10 \<notin> set (as_bytes raw)" "13 \<notin> set (as_bytes raw)"
    and "from_slice (cl_json cl) (as_bytes raw) = Some event"
    and "Option.bind (get event (lit ''e2e_init'')) as_str = None" "Option.bind (get event (lit ''e2e'')) as_str = None"
    and "get event (lit ''usage'') \<noteq> None"
  shows "chutes_stream_polls cl (new_decrypting_stream response_sk) [Ready (Inr (data_prefix @ as_bytes raw @ [10]))]
     = [Ready (Inr (data_prefix @ as_bytes raw @ blank_line))]"
proof -
  let ?s = "new_decrypting_stream response_sk" and ?line = "data_prefix @ as_bytes raw"
  have len: "length data_prefix = 6" and no: "(10::u8) \<notin> set data_prefix" "(13::u8) \<notin> set data_prefix" by code_simp+
  have "(10::u8) \<notin> set ?line" using no assms(4) by simp
  then have line: "takeWhile (\<lambda>b. b \<noteq> 10) (?line @ [10]) = ?line"
    by (metis (mono_tags, lifting) append_Nil2 takeWhile_append2 takeWhile.simps)
  have "(13::u8) \<notin> set ?line" using no assms(5) by simp
  then have cr: "strip_cr ?line = ?line" by (metis last_in_set strip_cr_def)
  have "process_sse_line cl s ?line = Inr (push_pending (?line @ blank_line) s)" for s
    using assms by (simp add: process_sse_line_def len from_utf8_as_bytes process_event_def)
  then have "process_buffer cl (?s\<lparr>ds_buffer := ?line @ [10]\<rparr>) = (None, push_pending (?line @ blank_line) ?s)"
    using line cr
    by (subst process_buffer.simps) (simp add: push_pending_def new_decrypting_stream_def process_buffer.simps Let_def del: takeWhile.simps)
  then show ?thesis
    by (simp add: chutes_stream_polls.simps poll_chutes_def new_decrypting_stream_def push_pending_def)
qed

theorem plaintext_event_delivered_witness:
  "chutes_stream_polls (sample_chutes_lib\<lparr>cl_json := sample_codec\<lparr>from_slice := (\<lambda>_. Some (Object [(lit ''usage'', Null)]))\<rparr>\<rparr>)
     (new_decrypting_stream []) [Ready (Inr (data_prefix @ as_bytes (lit ''x'') @ [10]))]
     = [Ready (Inr (data_prefix @ as_bytes (lit ''x'') @ blank_line))]"
proof (rule plaintext_event_delivered [where event = "Object [(lit ''usage'', Null)]"])
  show "trim (lit ''x'') = lit ''x''" "lit ''x'' \<noteq> []" "lit ''x'' \<noteq> lit ''[DONE]''" "10 \<notin> set (as_bytes (lit ''x''))"
    "13 \<notin> set (as_bytes (lit ''x''))" by code_simp+
qed (simp_all add: lit_def)

end
