(* ===== verification/Provider_Verifiers.thy ===== *)
theory Provider_Verifiers
  imports Aci_Verifier Chutes
begin

text \<open>
  The verifiers of \<open>src/aci/verifier\<close> other than the native one: the bridge to the external provider
  verifier process (\<open>external.rs\<close>) with its cache, the provider verifiers that configure it and the
  routing verifier (\<open>providers.rs\<close>), the static and preverified ones (\<open>simple.rs\<close>), and the attestation
  scopes of \<open>src/aggregator/upstream_config/mod.rs\<close> they share. The operating system's processes, the
  clock and the typed parsing of the bridge's output are parameters.
\<close>

section \<open>Attestation scopes\<close>

datatype upstream_provider = OpenAiCompatible | Anthropic_Api | AciService | Chutes_Provider | Tinfoil | NearAi | PhalaDirect

datatype channel_scope = PerRouter | PerModel | PerInstance

fun attestation_scope :: "upstream_provider \<Rightarrow> channel_scope" where
  "attestation_scope NearAi = PerRouter"
| "attestation_scope Tinfoil = PerRouter"
| "attestation_scope Chutes_Provider = PerInstance"
| "attestation_scope PhalaDirect = PerModel"
| "attestation_scope OpenAiCompatible = PerModel"
| "attestation_scope Anthropic_Api = PerModel"
| "attestation_scope AciService = PerModel"

definition is_per_router :: "channel_scope \<Rightarrow> bool" where
  "is_per_router scope \<longleftrightarrow> scope = PerRouter"

definition from_declared :: "str \<Rightarrow> channel_scope option" where
  "from_declared token =
     (if token = lit ''router'' then Some PerRouter else if token = lit ''model'' then Some PerModel
      else if token = lit ''instance'' then Some PerInstance else None)"

fun as_declared :: "channel_scope \<Rightarrow> str" where
  "as_declared PerRouter = lit ''router''"
| "as_declared PerModel = lit ''model''"
| "as_declared PerInstance = lit ''instance''"

section \<open>The bridge\<close>

record cache_key =
  ck_upstream_name :: str
  ck_url_origin :: "str option"
  ck_model_id :: str

record cached_event =
  ce_expires_at :: u64
  ce_event :: upstream_verified_event

record external_verifier =
  ex_provider :: str
  ex_scope :: channel_scope
  ex_command :: "str list"
  ex_current_dir :: "str option"
  ex_env :: "(str \<times> str) list"
  ex_options :: "(str \<times> str) list"
  ex_timeout_seconds :: u64
  ex_cache_ttl_seconds :: u64
  ex_cache :: "cache_key \<Rightarrow> cached_event option"

record external_binding =
  eb_binding_type :: str
  eb_origin :: "str option"
  eb_spki_sha256 :: "str option"
  eb_certificate_sha256 :: "str option"
  eb_provider :: "str option"
  eb_key_id :: "str option"
  eb_algorithm :: "str option"
  eb_public_key_sha256 :: "str option"

record bridge_output =
  bo_result :: str
  bo_verifier_id :: "str option"
  bo_reason :: "str option"
  bo_evidence :: "json option"
  bo_channel_bindings :: "external_binding list"
  bo_provider_claims :: "json option"
  bo_attested_scope :: "str option"
  bo_chutes_session :: "verified_discovery option"

text \<open>What starting a process, writing its input and waiting for it can lead to.\<close>

datatype process_outcome =
    Spawn_Failed str
  | No_Stdin
  | Write_Failed str
  | Timed_Out
  | Wait_Failed str
  | Exited bool str bytes bytes

record 'w bridge_lib =
  bl_hex :: verifier_lib
  bl_json :: serde_json
  bl_dbg :: "str \<Rightarrow> str"
  bl_parse_output :: "bytes \<Rightarrow> str + bridge_output"
  bl_clock :: "'w \<Rightarrow> u64 \<times> 'w"
  bl_instant :: "'w \<Rightarrow> nat"
  bl_process :: "str \<Rightarrow> str list \<Rightarrow> str option \<Rightarrow> (str \<times> str) list \<Rightarrow> bytes \<Rightarrow> u64 \<Rightarrow> 'w \<Rightarrow> process_outcome \<times> 'w"

definition path_join :: "str \<Rightarrow> str \<Rightarrow> str" where
  "path_join dir name = (if dir = [] \<or> last dir = ch CHR ''/'' then dir @ name else dir @ lit ''/'' @ name)"

definition private_inference :: "str \<Rightarrow> str \<Rightarrow> channel_scope \<Rightarrow> u64 \<Rightarrow> u64 \<Rightarrow> external_verifier" where
  "private_inference manifest_dir provider scope timeout_seconds cache_ttl_seconds =
     (let script = path_join (path_join manifest_dir (lit ''scripts'')) (lit ''private_ai_provider_verifier.py'')
      in \<lparr>ex_provider = provider, ex_scope = scope, ex_command = [lit ''uv'', lit ''run'', lit ''python'', script],
          ex_current_dir = Some manifest_dir, ex_env = [], ex_options = [], ex_timeout_seconds = timeout_seconds,
          ex_cache_ttl_seconds = cache_ttl_seconds, ex_cache = (\<lambda>_. None)\<rparr>)"

definition with_option :: "str \<Rightarrow> str \<Rightarrow> external_verifier \<Rightarrow> external_verifier" where
  "with_option key v self = self\<lparr>ex_options := AList.update key v (ex_options self)\<rparr>"

definition from_request :: "verification_request \<Rightarrow> cache_key" where
  "from_request request =
     \<lparr>ck_upstream_name = vr_upstream_name request, ck_url_origin = vr_url_origin request, ck_model_id = vr_model_id request\<rparr>"

definition cache_key_for :: "external_verifier \<Rightarrow> verification_request \<Rightarrow> cache_key" where
  "cache_key_for self request =
     (let key = from_request request in if is_per_router (ex_scope self) then key\<lparr>ck_model_id := []\<rparr> else key)"

definition event_for :: "cached_event \<Rightarrow> verification_request \<Rightarrow> upstream_verified_event" where
  "event_for cached request =
     (ce_event cached)\<lparr>uv_upstream_name := vr_upstream_name request, uv_model_id := vr_model_id request,
        uv_url_origin := vr_url_origin request, uv_required := vr_required request\<rparr>"

definition normalize_external_sha256 :: "verifier_lib \<Rightarrow> str \<Rightarrow> str + str" where
  "normalize_external_sha256 vl s = bind_result (decode_hex_32 vl s) (\<lambda>b. Inr (vl_hex_encode vl b))"

definition parse_external_binding :: "verifier_lib \<Rightarrow> external_binding \<Rightarrow> str + channel_binding option" where
  "parse_external_binding vl b =
     (if eb_binding_type b = lit ''tls_spki_sha256'' then
        bind_result (ok_or (lit ''tls_spki_sha256 channel binding is missing origin'') (eb_origin b)) (\<lambda>origin.
        bind_result (ok_or (lit ''tls_spki_sha256 channel binding is missing spki_sha256'') (eb_spki_sha256 b)) (\<lambda>spki.
        bind_result (normalize_external_sha256 vl spki) (\<lambda>digest. Inr (Some (TlsSpkiSha256 origin digest)))))
      else if eb_binding_type b = lit ''tls_certificate_sha256'' then
        bind_result (ok_or (lit ''tls_certificate_sha256 channel binding is missing origin'') (eb_origin b)) (\<lambda>origin.
        bind_result (ok_or (lit ''tls_certificate_sha256 channel binding is missing certificate_sha256'') (eb_certificate_sha256 b)) (\<lambda>certificate.
        bind_result (normalize_external_sha256 vl certificate) (\<lambda>digest. Inr (Some (TlsCertificateSha256 origin digest)))))
      else if eb_binding_type b = lit ''e2ee_public_key_sha256'' then
        bind_result (ok_or (lit ''e2ee_public_key_sha256 channel binding is missing provider'') (eb_provider b)) (\<lambda>provider.
        bind_result (ok_or (lit ''e2ee_public_key_sha256 channel binding is missing algorithm'') (eb_algorithm b)) (\<lambda>algorithm.
        bind_result (ok_or (lit ''e2ee_public_key_sha256 channel binding is missing public_key_sha256'') (eb_public_key_sha256 b)) (\<lambda>public_key.
        bind_result (normalize_external_sha256 vl public_key) (\<lambda>digest.
          Inr (Some (E2eePublicKeySha256 provider (eb_key_id b) algorithm digest))))))
      else Inr None)"

fun parse_external_channel_bindings :: "verifier_lib \<Rightarrow> external_binding list \<Rightarrow> str + channel_binding list" where
  "parse_external_channel_bindings vl [] = Inr []"
| "parse_external_channel_bindings vl (b # bs) =
     bind_result (parse_external_binding vl b) (\<lambda>x.
     bind_result (parse_external_channel_bindings vl bs) (\<lambda>xs. Inr (case x of Some y \<Rightarrow> y # xs | None \<Rightarrow> xs)))"

definition enforce_attested_scope :: "(str \<Rightarrow> str) \<Rightarrow> external_verifier \<Rightarrow> str option \<Rightarrow> str + unit" where
  "enforce_attested_scope dbg self declared =
     (case declared of
        Some token \<Rightarrow>
          (case from_declared token of
             Some scope \<Rightarrow>
               if scope = ex_scope self then Inr ()
               else Inl (lit ''provider verifier attested '' @ as_declared scope @ lit '' scope but '' @ ex_provider self
                         @ lit '' is a per-'' @ as_declared (ex_scope self) @ lit '' provider'')
           | None \<Rightarrow> Inl (lit ''provider verifier returned an unrecognized attestation scope '' @ dbg token))
      | None \<Rightarrow>
          if is_per_router (ex_scope self)
          then Inl (lit ''router provider '' @ ex_provider self @ lit '' did not declare its attestation scope; refusing to seal a channel session from undeclared evidence'')
          else Inr ())"

definition external_verifier_id :: "external_verifier \<Rightarrow> str" where
  "external_verifier_id self = ex_provider self @ lit ''/external-verifier/v1''"

definition event_from_output ::
    "'w bridge_lib \<Rightarrow> external_verifier \<Rightarrow> verification_request \<Rightarrow> bridge_output \<Rightarrow> str + upstream_verified_event" where
  "event_from_output bl self request output =
     bind_result (if bo_result output = lit ''verified'' then Inr Verified
                  else if bo_result output = lit ''failed'' then Inr Failed
                  else Inl (lit ''provider verifier returned invalid result '' @ bl_dbg bl (bo_result output))) (\<lambda>result.
     bind_result (parse_external_channel_bindings (bl_hex bl) (bo_channel_bindings output)) (\<lambda>channel_bindings.
     if result = Verified \<and> channel_bindings = []
     then Inl (lit ''provider verifier returned verified without an enforceable channel binding'')
     else
       bind_result (if result = Verified then enforce_attested_scope (bl_dbg bl) self (bo_attested_scope output) else Inr ()) (\<lambda>_.
         Inr \<lparr>uv_upstream_name = vr_upstream_name request, uv_provider_type = Some (ex_provider self), uv_model_id = vr_model_id request,
              uv_url_origin = vr_url_origin request,
              uv_verifier_id = (case bo_verifier_id output of Some i \<Rightarrow> i | None \<Rightarrow> external_verifier_id self),
              uv_result = result, uv_required = vr_required request, uv_reason = bo_reason output, uv_evidence = bo_evidence output,
              uv_channel_bindings = channel_bindings, uv_provider_claims = bo_provider_claims output\<rparr>)))"

definition failed_event :: "external_verifier \<Rightarrow> verification_request \<Rightarrow> str \<Rightarrow> upstream_verified_event" where
  "failed_event self request reason = default_upstream_verified_event
     \<lparr>uv_upstream_name := vr_upstream_name request, uv_provider_type := Some (ex_provider self), uv_model_id := vr_model_id request,
      uv_url_origin := vr_url_origin request, uv_verifier_id := external_verifier_id self, uv_result := Failed,
      uv_required := vr_required request, uv_reason := Some reason\<rparr>"

text \<open>The display text of an upstream error.\<close>

fun upstream_error_display :: "upstream_error \<Rightarrow> str" where
  "upstream_error_display (Routing m) = lit ''upstream routing error: '' @ m"
| "upstream_error_display (Transport m) = lit ''upstream transport error: '' @ m"
| "upstream_error_display (ChannelBindingMismatch m) = lit ''upstream channel binding mismatch: '' @ m"
| "upstream_error_display (UpstreamRejected code m) =
     lit ''upstream rejected request with status '' @ latin1 (dec code) @ lit '': '' @ m"

text \<open>The input of the bridge as a JSON object; the options are left out when there are none.\<close>

definition bridge_input :: "external_verifier \<Rightarrow> verification_request \<Rightarrow> json" where
  "bridge_input self request = Object
     ([(lit ''api_version'', JString (lit ''aci.provider-verifier.request.v1'')), (lit ''provider'', JString (ex_provider self)),
       (lit ''upstream_name'', JString (vr_upstream_name request)), (lit ''url_origin'', json_opt_str (vr_url_origin request)),
       (lit ''model_id'', JString (vr_model_id request)), (lit ''forwarded_body_hash'', JString (vr_forwarded_body_hash request)),
       (lit ''required'', Bool (vr_required request)), (lit ''timeout_seconds'', json_u64 (ex_timeout_seconds self))]
      @ (if ex_options self = [] then []
         else [(lit ''provider_options'', Object (map (\<lambda>(k, v). (k, JString v)) (ex_options self)))]))"

text \<open>
  The state of a verifier's calls: the verifier with its cache, the Chutes session store it was given
  if any, and the outside world.
\<close>

type_synonym 'w ext_state = "external_verifier \<times> session_cache option \<times> 'w"

definition run_bridge :: "'w bridge_lib \<Rightarrow> external_verifier \<Rightarrow> bytes \<Rightarrow> 'w \<Rightarrow> (str + bytes) \<times> 'w" where
  "run_bridge bl self input w =
     (case ex_command self of
        [] \<Rightarrow> (Inl (lit ''provider verifier command must not be empty''), w)
      | program # args \<Rightarrow>
          (case bl_process bl program args (ex_current_dir self) (ex_env self) input (ex_timeout_seconds self) w of
             (outcome, w) \<Rightarrow>
               ((case outcome of
                   Spawn_Failed e \<Rightarrow> Inl (lit ''failed to spawn provider verifier '' @ bl_dbg bl program @ lit '': '' @ e)
                 | No_Stdin \<Rightarrow> Inl (lit ''failed to open provider verifier stdin'')
                 | Write_Failed e \<Rightarrow> Inl (lit ''failed to write provider verifier stdin: '' @ e)
                 | Timed_Out \<Rightarrow> Inl (lit ''provider verifier timed out after '' @ latin1 (dec (unat (ex_timeout_seconds self))) @ lit ''s'')
                 | Wait_Failed e \<Rightarrow> Inl (lit ''provider verifier process failed: '' @ e)
                 | Exited success exit_status stdout stderr \<Rightarrow>
                     if success then Inr stdout
                     else Inl (lit ''provider verifier exited with status '' @ exit_status @ lit '': '' @ trim (from_utf8_lossy stderr))), w)))"

definition maybe_cache_event :: "'w bridge_lib \<Rightarrow> cache_key \<Rightarrow> upstream_verified_event \<Rightarrow> 'w ext_state \<Rightarrow> 'w ext_state" where
  "maybe_cache_event bl key event st =
     (case st of (self, store, w) \<Rightarrow>
      if ex_cache_ttl_seconds self = 0 \<or> uv_result event \<noteq> Verified then st
      else
        case bl_clock bl w of (now, w) \<Rightarrow>
          (self\<lparr>ex_cache := (ex_cache self)(key \<mapsto>
              \<lparr>ce_expires_at = saturating_add now (ex_cache_ttl_seconds self), ce_event = event\<rparr>)\<rparr>, store, w))"

definition record_provider_session ::
    "'w bridge_lib \<Rightarrow> bridge_output \<Rightarrow> session_cache option \<Rightarrow> 'w \<Rightarrow> (str + unit) \<times> session_cache option" where
  "record_provider_session bl output store w =
     (case (bo_chutes_session output, store) of
        (Some chutes_session, Some cache) \<Rightarrow>
          (case record_verified_discovery (bl_instant bl w) chutes_session cache of
             (Inl e, cache) \<Rightarrow> (Inl (lit ''failed to record Chutes provider session: '' @ upstream_error_display e), Some cache)
           | (Inr _, cache) \<Rightarrow> (Inr (), Some cache))
      | _ \<Rightarrow> (Inr (), store))"

definition use_output ::
    "'w bridge_lib \<Rightarrow> verification_request \<Rightarrow> cache_key \<Rightarrow> bridge_output \<Rightarrow> 'w ext_state \<Rightarrow> upstream_verified_event \<times> 'w ext_state" where
  "use_output bl request key output st =
     (case st of (self, store, w) \<Rightarrow>
      case event_from_output bl self request output of
        Inl err \<Rightarrow> (failed_event self request err, st)
      | Inr event \<Rightarrow>
          (case (if uv_result event = Verified then record_provider_session bl output store w else (Inr (), store)) of
             (Inl err, store) \<Rightarrow> (failed_event self request err, (self, store, w))
           | (Inr _, store) \<Rightarrow> (event, maybe_cache_event bl key event (self, store, w))))"

definition ext_verify_uncached ::
    "'w bridge_lib \<Rightarrow> verification_request \<Rightarrow> cache_key \<Rightarrow> 'w ext_state \<Rightarrow> upstream_verified_event \<times> 'w ext_state" where
  "ext_verify_uncached bl request key st =
     (case st of (self, store, w) \<Rightarrow>
      case to_vec (bl_json bl) (bridge_input self request) of
        None \<Rightarrow> (failed_event self request
                  (lit ''failed to encode verifier input: '' @ to_vec_error (bl_json bl) (bridge_input self request)), st)
      | Some input \<Rightarrow>
          (case run_bridge bl self input w of
             (Inl err, w) \<Rightarrow> (failed_event self request err, (self, store, w))
           | (Inr wire, w) \<Rightarrow>
               (case bl_parse_output bl wire of
                  Inl err \<Rightarrow> (failed_event self request (lit ''provider verifier returned invalid JSON: '' @ err), (self, store, w))
                | Inr output \<Rightarrow> use_output bl request key output (self, store, w))))"

definition cached_event_of ::
    "'w bridge_lib \<Rightarrow> cache_key \<Rightarrow> verification_request \<Rightarrow> 'w ext_state \<Rightarrow> upstream_verified_event option \<times> 'w ext_state" where
  "cached_event_of bl key request st =
     (case st of (self, store, w) \<Rightarrow>
      if ex_cache_ttl_seconds self = 0 then (None, st)
      else
        case bl_clock bl w of (now, w) \<Rightarrow>
        case ex_cache self key of
          Some cached \<Rightarrow>
            if now < ce_expires_at cached then (Some (event_for cached request), (self, store, w))
            else (None, (self\<lparr>ex_cache := (ex_cache self)(key := None)\<rparr>, store, w))
        | None \<Rightarrow> (None, (self, store, w)))"

text \<open>Between the first look at the cache and the one under the lock other calls run: \<open>others\<close> is what they do.\<close>

definition ext_verify ::
    "'w bridge_lib \<Rightarrow> ('w ext_state \<Rightarrow> 'w ext_state) \<Rightarrow> verification_request \<Rightarrow> 'w ext_state \<Rightarrow> upstream_verified_event \<times> 'w ext_state" where
  "ext_verify bl others request st =
     (let key = cache_key_for (fst st) request
      in case cached_event_of bl key request st of
           (Some event, st) \<Rightarrow> (event, st)
         | (None, st) \<Rightarrow>
             (case cached_event_of bl key request (others st) of
                (Some event, st) \<Rightarrow> (event, st)
              | (None, st) \<Rightarrow> ext_verify_uncached bl request key st))"

definition ext_refresh ::
    "'w bridge_lib \<Rightarrow> ('w ext_state \<Rightarrow> 'w ext_state) \<Rightarrow> verification_request \<Rightarrow> 'w ext_state \<Rightarrow> upstream_verified_event \<times> 'w ext_state" where
  "ext_refresh bl others request st =
     (let key = cache_key_for (fst st) request in ext_verify_uncached bl request key (others st))"

definition ext_invalidate :: "verification_request \<Rightarrow> external_verifier \<Rightarrow> external_verifier" where
  "ext_invalidate request self = self\<lparr>ex_cache := (ex_cache self)(cache_key_for self request := None)\<rparr>"

section \<open>Provider verifiers\<close>

definition chutes_verifier :: "str \<Rightarrow> u64 \<Rightarrow> u64 \<Rightarrow> external_verifier" where
  "chutes_verifier manifest_dir timeout_seconds cache_ttl_seconds =
     private_inference manifest_dir (lit ''chutes'') (attestation_scope Chutes_Provider) timeout_seconds cache_ttl_seconds"

definition cv_with_api_key :: "str \<Rightarrow> external_verifier \<Rightarrow> external_verifier" where
  "cv_with_api_key key = with_option (lit ''chutes_api_key'') key"

definition cv_with_e2ee_api_base :: "str \<Rightarrow> external_verifier \<Rightarrow> external_verifier" where
  "cv_with_e2ee_api_base base = with_option (lit ''chutes_e2ee_api_base'') base"

definition cv_with_chute_ids :: "(str \<times> str) list \<Rightarrow> external_verifier \<Rightarrow> external_verifier" where
  "cv_with_chute_ids chute_ids self =
     fold (\<lambda>(model_id, chute_id). with_option (lit ''chutes_chute_id:'' @ model_id) chute_id) chute_ids self"

definition cv_with_discovery_rounds :: "u64 \<Rightarrow> external_verifier \<Rightarrow> external_verifier" where
  "cv_with_discovery_rounds rounds = with_option (lit ''chutes_e2ee_discovery_rounds'') (latin1 (dec (unat rounds)))"

definition cv_with_discovery_interval_seconds :: "u64 \<Rightarrow> external_verifier \<Rightarrow> external_verifier" where
  "cv_with_discovery_interval_seconds seconds =
     with_option (lit ''chutes_e2ee_discovery_interval_seconds'') (latin1 (dec (unat seconds)))"

definition tinfoil_verifier :: "str \<Rightarrow> u64 \<Rightarrow> u64 \<Rightarrow> external_verifier" where
  "tinfoil_verifier manifest_dir timeout_seconds cache_ttl_seconds =
     private_inference manifest_dir (lit ''tinfoil'') (attestation_scope Tinfoil) timeout_seconds cache_ttl_seconds"

definition near_ai_verifier :: "str \<Rightarrow> u64 \<Rightarrow> u64 \<Rightarrow> external_verifier" where
  "near_ai_verifier manifest_dir timeout_seconds cache_ttl_seconds =
     private_inference manifest_dir (lit ''near-ai'') (attestation_scope NearAi) timeout_seconds cache_ttl_seconds"

definition phala_direct_verifier :: "str \<Rightarrow> u64 \<Rightarrow> u64 \<Rightarrow> external_verifier" where
  "phala_direct_verifier manifest_dir timeout_seconds cache_ttl_seconds =
     private_inference manifest_dir (lit ''phala-direct'') (attestation_scope PhalaDirect) timeout_seconds cache_ttl_seconds"

definition pv_with_bearer_token :: "str \<Rightarrow> external_verifier \<Rightarrow> external_verifier" where
  "pv_with_bearer_token token = with_option (lit ''phala_direct_bearer_token'') token"

section \<open>Static and preverified verifiers\<close>

definition static_verified :: "str \<Rightarrow> upstream_verified_event" where
  "static_verified verifier_id = default_upstream_verified_event
     \<lparr>uv_verifier_id := verifier_id, uv_result := Verified, uv_required := True\<rparr>"

definition static_failed :: "str \<Rightarrow> str \<Rightarrow> upstream_verified_event" where
  "static_failed verifier_id reason = default_upstream_verified_event
     \<lparr>uv_verifier_id := verifier_id, uv_result := Failed, uv_required := True, uv_reason := Some reason\<rparr>"

definition static_verify :: "upstream_verified_event \<Rightarrow> verification_request \<Rightarrow> upstream_verified_event" where
  "static_verify event request =
     (let event = (if uv_upstream_name event = [] then event\<lparr>uv_upstream_name := vr_upstream_name request\<rparr> else event);
          event = (if uv_model_id event = [] then event\<lparr>uv_model_id := vr_model_id request\<rparr> else event)
      in if uv_url_origin event = None then event\<lparr>uv_url_origin := vr_url_origin request\<rparr> else event)"

definition preverified_verify :: "str \<Rightarrow> verification_request \<Rightarrow> upstream_verified_event" where
  "preverified_verify verifier_id request = default_upstream_verified_event
     \<lparr>uv_upstream_name := vr_upstream_name request, uv_model_id := vr_model_id request, uv_url_origin := vr_url_origin request,
      uv_verifier_id := verifier_id, uv_result := Verified, uv_required := vr_required request\<rparr>"

section \<open>The routing verifier\<close>

text \<open>Its tables hold handles of verifiers, as the source holds shared pointers.\<close>

record 'a routing_verifier =
  ro_by_origin :: "(str \<times> 'a) list"
  ro_by_name :: "(str \<times> 'a) list"

definition new_routing_verifier :: "'a routing_verifier" where
  "new_routing_verifier = \<lparr>ro_by_origin = [], ro_by_name = []\<rparr>"

definition add_origin :: "str \<Rightarrow> 'a \<Rightarrow> 'a routing_verifier \<Rightarrow> 'a routing_verifier" where
  "add_origin origin v r = r\<lparr>ro_by_origin := AList.update origin v (ro_by_origin r)\<rparr>"

definition add_name :: "str \<Rightarrow> 'a \<Rightarrow> 'a routing_verifier \<Rightarrow> 'a routing_verifier" where
  "add_name name v r = r\<lparr>ro_by_name := AList.update name v (ro_by_name r)\<rparr>"

definition unrouted_event :: "verification_request \<Rightarrow> upstream_verified_event" where
  "unrouted_event request = default_upstream_verified_event
     \<lparr>uv_upstream_name := vr_upstream_name request, uv_model_id := vr_model_id request, uv_url_origin := vr_url_origin request,
      uv_verifier_id := lit ''routing-upstream-verifier/v1'', uv_result := Failed, uv_required := vr_required request,
      uv_reason := Some (lit ''no verifier configured for selected upstream'')\<rparr>"

definition routed :: "'a routing_verifier \<Rightarrow> verification_request \<Rightarrow> 'a option" where
  "routed r request =
     (case Option.bind (vr_url_origin request) (map_of (ro_by_origin r)) of
        Some v \<Rightarrow> Some v
      | None \<Rightarrow> map_of (ro_by_name r) (vr_upstream_name request))"

definition routing_verify ::
    "('a \<Rightarrow> verification_request \<Rightarrow> 'v \<Rightarrow> upstream_verified_event \<times> 'v) \<Rightarrow> 'a routing_verifier \<Rightarrow> verification_request \<Rightarrow> 'v \<Rightarrow>
     upstream_verified_event \<times> 'v" where
  "routing_verify verify r request st =
     (case routed r request of Some v \<Rightarrow> verify v request st | None \<Rightarrow> (unrouted_event request, st))"

definition routing_refresh ::
    "('a \<Rightarrow> verification_request \<Rightarrow> 'v \<Rightarrow> upstream_verified_event \<times> 'v) \<Rightarrow> 'a routing_verifier \<Rightarrow> verification_request \<Rightarrow> 'v \<Rightarrow>
     upstream_verified_event \<times> 'v" where
  "routing_refresh refresh r request st =
     (case routed r request of Some v \<Rightarrow> refresh v request st | None \<Rightarrow> (unrouted_event request, st))"

definition routing_invalidate ::
    "('a \<Rightarrow> verification_request \<Rightarrow> 'v \<Rightarrow> 'v) \<Rightarrow> 'a routing_verifier \<Rightarrow> verification_request \<Rightarrow> 'v \<Rightarrow> 'v" where
  "routing_invalidate invalidate r request st =
     (case routed r request of Some v \<Rightarrow> invalidate v request st | None \<Rightarrow> st)"

section \<open>What a verdict speaks about\<close>

text \<open>
  The contract of a verifier: whatever it answers names the requested model and origin and carries
  the requested strictness.
\<close>

definition speaks_for :: "verification_request \<Rightarrow> upstream_verified_event \<Rightarrow> bool" where
  "speaks_for request event \<longleftrightarrow>
     uv_model_id event = vr_model_id request \<and> uv_url_origin event = vr_url_origin request \<and> uv_required event = vr_required request"

locale identifying_verifier =
  fixes verify :: "verification_request \<Rightarrow> 'v \<Rightarrow> upstream_verified_event \<times> 'v"
    and refresh :: "verification_request \<Rightarrow> 'v \<Rightarrow> upstream_verified_event \<times> 'v"
  assumes verify_speaks: "speaks_for request (fst (verify request st))"
    and refresh_speaks: "speaks_for request (fst (refresh request st))"
begin

lemma gate_event_names:
  assumes "sv_verify sv = Some (\<lambda>v r. verify r v)" "consult_verifier sv prepared required None w = (Some event, w')"
  shows "uv_model_id event = pr_model_id prepared \<and> uv_url_origin event = pr_url_origin prepared"
proof -
  have "fst (verify (upstream_verification_request sv prepared required) (w_verifier w)) = event"
    using assms by (auto simp: consult_verifier_def Let_def split: prod.splits)
  with verify_speaks [of "upstream_verification_request sv prepared required" "w_verifier w"] show ?thesis
    by (simp add: speaks_for_def upstream_verification_request_def)
qed

end

lemma unrouted_speaks: "speaks_for request (unrouted_event request)"
  by (simp add: speaks_for_def unrouted_event_def)

lemma routed_handle: "routed r request = Some v \<Longrightarrow> v \<in> snd ` set (ro_by_origin r) \<union> snd ` set (ro_by_name r)"
  by (auto simp: routed_def Option.bind_eq_Some_conv split: option.splits dest!: map_of_SomeD) force+

lemma routing_identifying:
  assumes "\<And>v. v \<in> snd ` set (ro_by_origin r) \<union> snd ` set (ro_by_name r) \<Longrightarrow> identifying_verifier (verify v) (refresh v)"
  shows "identifying_verifier (routing_verify verify r) (routing_refresh refresh r)"
  by unfold_locales
     (auto simp: routing_verify_def routing_refresh_def unrouted_speaks split: option.split
       intro: identifying_verifier.verify_speaks [OF assms] identifying_verifier.refresh_speaks [OF assms] dest: routed_handle)

lemma failed_event_speaks [simp]: "speaks_for request (failed_event self request reason)"
  by (simp add: speaks_for_def failed_event_def)

lemma event_from_output_Inr:
  assumes "event_from_output bl self request output = Inr event"
  obtains bindings where "parse_external_channel_bindings (bl_hex bl) (bo_channel_bindings output) = Inr bindings"
    "uv_channel_bindings event = bindings" "uv_result event = (if bo_result output = lit ''verified'' then Verified else Failed)"
    "uv_result event = Verified \<Longrightarrow> bindings \<noteq> [] \<and> enforce_attested_scope (bl_dbg bl) self (bo_attested_scope output) = Inr ()"
    "speaks_for request event" "uv_upstream_name event = vr_upstream_name request"
  using assms
  by (auto simp: event_from_output_def bind_result_Inr speaks_for_def split: if_splits intro!: that)

lemma use_output_speaks: "speaks_for request (fst (use_output bl request key output st))"
proof (cases st)
  case (fields self store w)
  show ?thesis
  proof (cases "event_from_output bl self request output")
    case (Inl err)
    then show ?thesis using fields by (simp add: use_output_def)
  next
    case (Inr event)
    then have "speaks_for request event" by (rule event_from_output_Inr)
    then show ?thesis using fields Inr by (simp add: use_output_def split: prod.split sum.split)
  qed
qed

lemma verify_uncached_speaks: "speaks_for request (fst (ext_verify_uncached bl request key st))"
  by (simp add: ext_verify_uncached_def use_output_speaks split: prod.split option.split sum.split)

lemma cached_event_speaks: "fst (cached_event_of bl key request st) = Some event \<Longrightarrow> speaks_for request event"
  by (auto simp: cached_event_of_def speaks_for_def event_for_def split: prod.splits option.splits if_splits)

lemma ext_verify_speaks: "speaks_for request (fst (ext_verify bl others request st))"
proof -
  let ?key = "cache_key_for (fst st) request"
  obtain r st1 where first: "cached_event_of bl ?key request st = (r, st1)" by (metis surj_pair)
  obtain r' st2 where second: "cached_event_of bl ?key request (others st1) = (r', st2)" by (metis surj_pair)
  show ?thesis
    using cached_event_speaks [of bl ?key request st] cached_event_speaks [of bl ?key request "others st1"] first second
    by (cases r; cases r') (simp_all add: ext_verify_def Let_def verify_uncached_speaks)
qed

interpretation bridge: identifying_verifier "ext_verify bl others" "ext_refresh bl others" for bl others
  by unfold_locales (simp_all add: ext_verify_speaks ext_refresh_def Let_def verify_uncached_speaks)

interpretation preverified: identifying_verifier "\<lambda>request st. (preverified_verify i request, st)" "\<lambda>request st. (preverified_verify i request, st)" for i
  by unfold_locales (simp_all add: preverified_verify_def speaks_for_def)

lemma aci_verify_speaks: "speaks_for request (fst (aci_verify vl display fetch elapsed nonce now verified_at v request))"
  by (simp add: aci_verify_def speaks_for_def cached_event_for_def failed_verification_def split: option.split sum.split)

interpretation native: identifying_verifier
    "\<lambda>request v. aci_verify vl display fetch elapsed nonce now verified_at v request"
    "\<lambda>request v. default_refresh (aci_verify vl display fetch elapsed nonce now verified_at) default_invalidate v request"
    for vl display fetch elapsed nonce now verified_at
  by unfold_locales (simp_all add: aci_verify_speaks default_refresh_def default_invalidate_def)

section \<open>What a verdict rests on\<close>

text \<open>A library that notes what the clock read and what the bridge was given and answered.\<close>

datatype bridge_call = Clock_Read u64 | Bridge_Run bytes process_outcome

definition traced :: "'w bridge_lib \<Rightarrow> (bridge_call list \<times> 'w) bridge_lib" where
  "traced bl = \<lparr>bl_hex = bl_hex bl, bl_json = bl_json bl, bl_dbg = bl_dbg bl, bl_parse_output = bl_parse_output bl,
     bl_clock = (\<lambda>(t, w). case bl_clock bl w of (n, w') \<Rightarrow> (n, (t @ [Clock_Read n], w'))),
     bl_instant = (\<lambda>(t, w). bl_instant bl w),
     bl_process = (\<lambda>p args d e input limit (t, w).
        case bl_process bl p args d e input limit w of (out, w') \<Rightarrow> (out, (t @ [Bridge_Run input out], w')))\<rparr>"

lemma traced_simps [simp]:
  "bl_hex (traced bl) = bl_hex bl" "bl_json (traced bl) = bl_json bl" "bl_dbg (traced bl) = bl_dbg bl"
  "bl_parse_output (traced bl) = bl_parse_output bl"
  by (simp_all add: traced_def)

text \<open>
  A run of the bridge for a request with this key whose answer gives the event: the input it was
  given, its successful exit, the parsed output.
\<close>

definition answered :: "'w bridge_lib \<Rightarrow> external_verifier \<Rightarrow> cache_key \<Rightarrow> upstream_verified_event \<Rightarrow> bridge_call \<Rightarrow> bool" where
  "answered bl v key event call \<longleftrightarrow>
     (\<exists>input code stdout stderr output request. call = Bridge_Run input (Exited True code stdout stderr)
        \<and> to_vec (bl_json bl) (bridge_input v request) = Some input \<and> cache_key_for v request = key
        \<and> bl_parse_output bl stdout = Inr output \<and> event_from_output bl v request output = Inr event)"

definition entry_grounded :: "'w bridge_lib \<Rightarrow> external_verifier \<Rightarrow> bridge_call list \<Rightarrow> cache_key \<Rightarrow> cached_event \<Rightarrow> bool" where
  "entry_grounded bl v t key c \<longleftrightarrow>
     (\<exists>pre call now post. t = pre @ [call, Clock_Read now] @ post \<and> answered bl v key (ce_event c) call
        \<and> uv_result (ce_event c) = Verified \<and> ce_expires_at c = saturating_add now (ex_cache_ttl_seconds v))"

definition cache_grounded :: "'w bridge_lib \<Rightarrow> external_verifier \<Rightarrow> bridge_call list \<Rightarrow> external_verifier \<Rightarrow> bool" where
  "cache_grounded bl v t self \<longleftrightarrow> self\<lparr>ex_cache := ex_cache v\<rparr> = v \<and>
     (\<forall>key c. ex_cache self key = Some c \<longrightarrow> entry_grounded bl v t key c)"

lemma same_config:
  assumes "cache_grounded bl v t self"
  shows "ex_provider self = ex_provider v" "ex_scope self = ex_scope v" "ex_command self = ex_command v"
    "ex_options self = ex_options v" "ex_timeout_seconds self = ex_timeout_seconds v" "ex_cache_ttl_seconds self = ex_cache_ttl_seconds v"
  using assms by (cases self; cases v; auto simp: cache_grounded_def)+

lemma same_config_calls:
  assumes "cache_grounded bl v t self"
  shows "bridge_input self request = bridge_input v request" "cache_key_for self request = cache_key_for v request"
    "event_from_output bl self request output = event_from_output bl v request output"
  unfolding bridge_input_def cache_key_for_def event_from_output_def enforce_attested_scope_def external_verifier_id_def same_config [OF assms]
  by (rule refl)+

lemma event_from_output_traced: "event_from_output (traced bl) self request output = event_from_output bl self request output"
  unfolding event_from_output_def traced_simps by (rule refl)

lemma entry_extend:
  assumes "entry_grounded bl v t key c"
  shows "entry_grounded bl v (t @ u) key c"
proof -
  obtain pre call now post where "t = pre @ [call, Clock_Read now] @ post" "answered bl v key (ce_event c) call"
    "uv_result (ce_event c) = Verified" "ce_expires_at c = saturating_add now (ex_cache_ttl_seconds v)"
    using assms unfolding entry_grounded_def by blast
  then show ?thesis
    unfolding entry_grounded_def by (intro exI [of _ pre] exI [of _ call] exI [of _ now] exI [of _ "post @ u"]) simp
qed

lemma grounded_extend: "cache_grounded bl v t self \<Longrightarrow> cache_grounded bl v (t @ u) self"
  using entry_extend unfolding cache_grounded_def by blast

lemma grounded_drop: "cache_grounded bl v t self \<Longrightarrow> cache_grounded bl v t (self\<lparr>ex_cache := (ex_cache self)(key := None)\<rparr>)"
  by (simp add: cache_grounded_def)

lemma grounded_insert:
  assumes "cache_grounded bl v t self" "t = pre @ [call]" "answered bl v key event call" "uv_result event = Verified"
  shows "cache_grounded bl v (t @ [Clock_Read now])
    (self\<lparr>ex_cache := (ex_cache self)(key \<mapsto> \<lparr>ce_expires_at = saturating_add now (ex_cache_ttl_seconds v), ce_event = event\<rparr>)\<rparr>)"
proof -
  have "entry_grounded bl v (t @ [Clock_Read now]) key \<lparr>ce_expires_at = saturating_add now (ex_cache_ttl_seconds v), ce_event = event\<rparr>"
    unfolding entry_grounded_def
    using assms(2-4) by (intro exI [of _ pre] exI [of _ call] exI [of _ now] exI [of _ "[]"]) simp
  then show ?thesis using grounded_extend [OF assms(1), of "[Clock_Read now]"] by (simp add: cache_grounded_def)
qed

lemma cached_event_of_traced:
  assumes "cache_grounded bl v t self" "cached_event_of (traced bl) key request (self, store, (t, w)) = (r, (self', store', (t', w')))"
  shows "cache_grounded bl v t' self'"
    and "r = Some event \<Longrightarrow> \<exists>c now. ex_cache self key = Some c \<and> t' = t @ [Clock_Read now] \<and> now < ce_expires_at c \<and> event = event_for c request"
proof -
  obtain now w1 where clock: "bl_clock bl w = (now, w1)" by fastforce
  show "cache_grounded bl v t' self'"
    using assms grounded_extend [OF assms(1), of "[Clock_Read now]"]
    by (auto simp: cached_event_of_def traced_def clock intro: grounded_drop split: if_splits option.splits)
  show "\<exists>c now. ex_cache self key = Some c \<and> t' = t @ [Clock_Read now] \<and> now < ce_expires_at c \<and> event = event_for c request"
    if "r = Some event"
    using assms(2) that by (auto simp: cached_event_of_def traced_def clock split: if_splits option.splits)
qed

text \<open>
  A verdict is grounded in the trace: a run of the bridge for the same channel gave it, either as the
  last thing that happened, but for the clock, or within the cache's lifetime of the last reading.
\<close>

definition verdict_grounded ::
    "'w bridge_lib \<Rightarrow> external_verifier \<Rightarrow> verification_request \<Rightarrow> upstream_verified_event \<Rightarrow> bridge_call list \<Rightarrow> bool" where
  "verdict_grounded bl v request event t \<longleftrightarrow>
     (\<exists>pre call post e. t = pre @ call # post \<and> answered bl v (cache_key_for v request) e call
        \<and> event = e\<lparr>uv_upstream_name := vr_upstream_name request, uv_model_id := vr_model_id request,
             uv_url_origin := vr_url_origin request, uv_required := vr_required request\<rparr>
        \<and> (length post \<le> 1 \<or>
           (\<exists>run mid now. post = Clock_Read run # mid @ [Clock_Read now] \<and> now < saturating_add run (ex_cache_ttl_seconds v))))"

lemma cached_verdict_grounded:
  assumes "cache_grounded bl v t self" "ex_cache self (cache_key_for v request) = Some c" "now < ce_expires_at c"
  shows "verdict_grounded bl v request (event_for c request) (t @ [Clock_Read now])"
proof -
  have "entry_grounded bl v t (cache_key_for v request) c" using assms(1,2) by (simp add: cache_grounded_def)
  then obtain pre call run post where c: "t = pre @ [call, Clock_Read run] @ post" "answered bl v (cache_key_for v request) (ce_event c) call"
    "ce_expires_at c = saturating_add run (ex_cache_ttl_seconds v)" unfolding entry_grounded_def by blast
  show ?thesis
    unfolding verdict_grounded_def
    using c assms(3)
    by (intro exI [of _ pre] exI [of _ call] exI [of _ "Clock_Read run # post @ [Clock_Read now]"] exI [of _ "ce_event c"])
       (auto simp: event_for_def)
qed

lemma event_names_request:
  assumes "event_from_output bl self request output = Inr event"
  shows "event = event\<lparr>uv_upstream_name := vr_upstream_name request, uv_model_id := vr_model_id request,
    uv_url_origin := vr_url_origin request, uv_required := vr_required request\<rparr>"
proof -
  have "speaks_for request event" "uv_upstream_name event = vr_upstream_name request"
    by (rule event_from_output_Inr [OF assms]; simp)+
  then show ?thesis by (cases event) (simp add: speaks_for_def)
qed

text \<open>The one answer a run of the bridge can give to a request.\<close>

lemma use_output_traced:
  assumes g: "cache_grounded bl v t self" and t: "t = pre @ [Bridge_Run input (Exited True code stdout stderr)]"
    and input: "to_vec (bl_json bl) (bridge_input v request) = Some input" and parsed: "bl_parse_output bl stdout = Inr output"
    and run: "use_output (traced bl) request (cache_key_for v request) output (self, store, (t, w)) = (event, (self', store', (t', w')))"
  shows "cache_grounded bl v t' self' \<and> (uv_result event = Verified \<longrightarrow> verdict_grounded bl v request event t')"
proof (cases "event_from_output bl v request output")
  case (Inl err)
  then show ?thesis
    using run g by (auto simp: use_output_def event_from_output_traced same_config_calls [OF g] failed_event_def)
next
  case (Inr e)
  let ?call = "Bridge_Run input (Exited True code stdout stderr)"
  obtain r store1 where p: "(if uv_result e = Verified then record_provider_session (traced bl) output store (t, w) else (Inr (), store)) = (r, store1)"
    by fastforce
  have answer: "answered bl v (cache_key_for v request) e ?call"
    unfolding answered_def using input parsed Inr by blast
  have fresh: "verdict_grounded bl v request e (t @ post)" if "length post \<le> 1" for post
    unfolding verdict_grounded_def
    using t answer that event_names_request [OF Inr]
    by (intro exI [of _ pre] exI [of _ ?call] exI [of _ post] exI [of _ e]) simp
  show ?thesis
  proof (cases r)
    case Inl': (Inl err)
    then show ?thesis using run g p Inr by (auto simp: use_output_def event_from_output_traced same_config_calls [OF g] failed_event_def)
  next
    case Inr': (Inr u)
    then have m: "event = e" "maybe_cache_event (traced bl) (cache_key_for v request) e (self, store1, (t, w)) = (self', store', (t', w'))"
      using run p Inr by (auto simp: use_output_def event_from_output_traced same_config_calls [OF g])
    obtain now w1 where clock: "bl_clock bl w = (now, w1)" by fastforce
    show ?thesis
    proof (cases "ex_cache_ttl_seconds v = 0 \<or> uv_result e \<noteq> Verified")
      case True
      then show ?thesis using m g fresh [of "[]"] by (auto simp: maybe_cache_event_def same_config [OF g])
    next
      case False
      then have t': "t' = t @ [Clock_Read now]"
        and self': "self' = self\<lparr>ex_cache := (ex_cache self)(cache_key_for v request \<mapsto>
            \<lparr>ce_expires_at = saturating_add now (ex_cache_ttl_seconds v), ce_event = e\<rparr>)\<rparr>"
        using m by (auto simp: maybe_cache_event_def same_config [OF g] traced_def clock)
      have "cache_grounded bl v t' self'"
        unfolding t' self' by (rule grounded_insert [OF g t answer]) (use False in simp)
      then show ?thesis using m fresh [of "[Clock_Read now]"] t' by simp
    qed
  qed
qed

lemma uncached_traced:
  assumes g: "cache_grounded bl v t self"
    and run: "ext_verify_uncached (traced bl) request (cache_key_for v request) (self, store, (t, w)) = (event, (self', store', (t', w')))"
  shows "cache_grounded bl v t' self' \<and> (uv_result event = Verified \<longrightarrow> verdict_grounded bl v request event t')"
proof (cases "to_vec (bl_json bl) (bridge_input v request)")
  case None
  then show ?thesis using run g by (auto simp: ext_verify_uncached_def same_config_calls [OF g] failed_event_def)
next
  case (Some input)
  note unfold = ext_verify_uncached_def run_bridge_def same_config_calls [OF g] same_config [OF g] Some
  show ?thesis
  proof (cases "ex_command v")
    case Nil
    then show ?thesis using run g by (auto simp: unfold failed_event_def)
  next
    case (Cons program args)
    obtain outcome w1 where proc: "bl_process bl program args (ex_current_dir self) (ex_env self) input (ex_timeout_seconds v) w = (outcome, w1)"
      by fastforce
    let ?t = "t @ [Bridge_Run input outcome]"
    have g1: "cache_grounded bl v ?t self" by (rule grounded_extend [OF g])
    have traced: "bl_process (traced bl) program args (ex_current_dir self) (ex_env self) input (ex_timeout_seconds v) (t, w) = (outcome, (?t, w1))"
      by (simp add: traced_def proc)
    show ?thesis
    proof (cases "\<exists>code stdout stderr output. outcome = Exited True code stdout stderr \<and> bl_parse_output bl stdout = Inr output")
      case True
      then obtain code stdout stderr answer where out: "outcome = Exited True code stdout stderr" "bl_parse_output bl stdout = Inr answer" by blast
      then have "use_output (traced bl) request (cache_key_for v request) answer (self, store, (?t, w1)) = (event, (self', store', (t', w')))"
        using run by (simp add: unfold Cons traced)
      then show ?thesis using use_output_traced [OF g1 _ Some out(2)] out(1) by blast
    next
      case False
      then have "uv_result event = Failed \<and> self' = self \<and> t' = ?t"
        using run by (auto simp: unfold Cons traced failed_event_def split: process_outcome.splits if_splits sum.splits)
      then show ?thesis using g1 by simp
    qed
  qed
qed

lemma cached_verdict:
  assumes "cache_grounded bl v t self" "cached_event_of (traced bl) (cache_key_for v request) request (self, store, (t, w)) = (r, (self', store', (t', w')))"
  shows "cache_grounded bl v t' self' \<and> (\<forall>e. r = Some e \<longrightarrow> verdict_grounded bl v request e t')"
proof (intro conjI allI impI)
  show "cache_grounded bl v t' self'" by (rule cached_event_of_traced [OF assms])
  fix e assume "r = Some e"
  then obtain c now where c: "ex_cache self (cache_key_for v request) = Some c" "t' = t @ [Clock_Read now]" "now < ce_expires_at c" "e = event_for c request"
    using cached_event_of_traced(2) [OF assms] by blast
  show "verdict_grounded bl v request e t'" unfolding c(2,4) by (rule cached_verdict_grounded [OF assms(1) c(1,3)])
qed

text \<open>What other calls do keeps the cache grounded.\<close>

definition others_grounded :: "'w bridge_lib \<Rightarrow> external_verifier \<Rightarrow> ((bridge_call list \<times> 'w) ext_state \<Rightarrow> (bridge_call list \<times> 'w) ext_state) \<Rightarrow> bool" where
  "others_grounded bl v others \<longleftrightarrow> (\<forall>self store t w self' store' t' w'. cache_grounded bl v t self \<longrightarrow>
     others (self, store, (t, w)) = (self', store', (t', w')) \<longrightarrow> cache_grounded bl v t' self')"

lemma ext_refresh_traced:
  assumes g: "cache_grounded bl v t self" and others: "others_grounded bl v others"
    and run: "ext_refresh (traced bl) others request (self, store, (t, w)) = (event, (self', store', (t', w')))"
  shows "cache_grounded bl v t' self' \<and> (uv_result event = Verified \<longrightarrow> verdict_grounded bl v request event t')"
proof -
  obtain s0 st0 t0 w0 where ot: "others (self, store, (t, w)) = (s0, st0, (t0, w0))" by (metis surj_pair)
  have g0: "cache_grounded bl v t0 s0" using g others ot unfolding others_grounded_def by blast
  have "ext_verify_uncached (traced bl) request (cache_key_for v request) (s0, st0, (t0, w0)) = (event, (self', store', (t', w')))"
    using run by (simp add: ext_refresh_def same_config_calls [OF g] ot)
  then show ?thesis by (rule uncached_traced [OF g0])
qed

lemma ext_verify_traced:
  assumes g: "cache_grounded bl v t self" and others: "others_grounded bl v others"
    and run: "ext_verify (traced bl) others request (self, store, (t, w)) = (event, (self', store', (t', w')))"
  shows "cache_grounded bl v t' self' \<and> (uv_result event = Verified \<longrightarrow> verdict_grounded bl v request event t')"
proof -
  let ?key = "cache_key_for v request"
  obtain r1 s1 st1 t1 w1 where c1: "cached_event_of (traced bl) ?key request (self, store, (t, w)) = (r1, (s1, st1, (t1, w1)))" by (metis surj_pair)
  note g1 = cached_verdict [OF g c1]
  obtain s2 st2 t2 w2 where o2: "others (s1, st1, (t1, w1)) = (s2, st2, (t2, w2))" by (metis surj_pair)
  have g2: "cache_grounded bl v t2 s2" using g1 others o2 unfolding others_grounded_def by blast
  obtain r3 s3 st3 t3 w3 where c3: "cached_event_of (traced bl) ?key request (s2, st2, (t2, w2)) = (r3, (s3, st3, (t3, w3)))" by (metis surj_pair)
  note g3 = cached_verdict [OF g2 c3]
  have key: "cache_key_for self request = ?key" by (rule same_config_calls [OF g])
  consider e where "r1 = Some e" | e where "r1 = None" "r3 = Some e" | "r1 = None" "r3 = None" by (cases r1; cases r3) auto
  then show ?thesis
  proof cases
    case 1
    then show ?thesis using run g1 by (simp add: ext_verify_def key c1)
  next
    case 2
    then show ?thesis using run g3 by (simp add: ext_verify_def key c1 c3 o2)
  next
    case 3
    then have "ext_verify_uncached (traced bl) request ?key (s3, st3, (t3, w3)) = (event, (self', store', (t', w')))"
      using run by (simp add: ext_verify_def key c1 c3 o2)
    then show ?thesis using g3 by (intro uncached_traced) simp_all
  qed
qed

lemma grounded_bindings:
  assumes "verdict_grounded bl v request event t" "uv_result event = Verified"
  shows "uv_channel_bindings event \<noteq> []"
proof -
  obtain e answer rq where e: "event_from_output bl v rq answer = Inr e" "uv_result event = uv_result e" "uv_channel_bindings event = uv_channel_bindings e"
    using assms(1) unfolding verdict_grounded_def answered_def by auto
  from e(1) show ?thesis by (rule event_from_output_Inr) (use assms(2) e in simp)
qed

lemma cached_none:
  assumes "ex_cache self key = None"
  obtains u w' where "cached_event_of (traced bl) key request (self, store, (t, w)) = (None, (self, store, (t @ u, w')))"
  using assms that [of "[]" w] that
  by (cases "ex_cache_ttl_seconds self = 0"; cases "bl_clock bl w") (auto simp: cached_event_of_def traced_def)

lemma use_output_extends:
  assumes "use_output (traced bl) request key answer (self, store, (t, w)) = (event, (self', store', (t', w')))"
  shows "\<exists>u. t' = t @ u"
proof -
  have "\<exists>u w''. snd (snd (maybe_cache_event (traced bl) key e (self, st, (t, w)))) = (t @ u, w'')" for e st
    by (auto simp: maybe_cache_event_def traced_def split: prod.split)
  then show ?thesis
    using assms by (auto simp: use_output_def split: sum.splits prod.splits) (metis prod.inject snd_conv)+
qed

lemma uncached_runs:
  assumes "to_vec (bl_json bl) (bridge_input self request) = Some input" "ex_command self \<noteq> []"
    and "ext_verify_uncached (traced bl) request key (self, store, (t, w)) = (event, (self', store', (t', w')))"
  shows "\<exists>outcome u. t' = t @ Bridge_Run input outcome # u"
proof -
  obtain program args where c: "ex_command self = program # args" using assms(2) by (cases "ex_command self") auto
  obtain outcome w1 where proc: "bl_process bl program args (ex_current_dir self) (ex_env self) input (ex_timeout_seconds self) w = (outcome, w1)"
    by fastforce
  let ?t = "t @ [Bridge_Run input outcome]"
  obtain r where run: "run_bridge (traced bl) self input (t, w) = (r, (?t, w1))"
    by (simp add: run_bridge_def c traced_def proc)
  have "\<exists>u. t' = ?t @ u"
  proof (cases "\<exists>wire answer. r = Inr wire \<and> bl_parse_output bl wire = Inr answer")
    case True
    then obtain wire answer where "r = Inr wire" "bl_parse_output bl wire = Inr answer" by blast
    then have "use_output (traced bl) request key answer (self, store, (?t, w1)) = (event, (self', store', (t', w')))"
      using assms(1,3) run by (simp add: ext_verify_uncached_def)
    then show ?thesis by (rule use_output_extends)
  next
    case False
    then show ?thesis using assms(1,3) run by (auto simp: ext_verify_uncached_def split: sum.splits)
  qed
  then show ?thesis by (auto intro!: exI [of _ outcome])
qed

section \<open>Properties\<close>

text \<open>
  C6. A verified verdict of the bridge rests on a run of the bridge. Whatever was cached, refreshed and
  invalidated before, a verified event is the answer the provider verifier process gave for the same
  channel (the same upstream and origin, and the same model unless the provider attests a router),
  just now or within the cache's lifetime, and it carries a channel binding. Verification, refresh
  and invalidation keep the cache in that state.
\<close>

theorem verified_rests_on_bridge:
  assumes "cache_grounded bl v t self" "others_grounded bl v others"
    and "ext_verify (traced bl) others request (self, store, (t, w)) = (event, (self', store', (t', w')))
       \<or> ext_refresh (traced bl) others request (self, store, (t, w)) = (event, (self', store', (t', w')))"
  shows "cache_grounded bl v t' self' \<and> cache_grounded bl v t' (ext_invalidate other self')
     \<and> (uv_result event = Verified \<longrightarrow> verdict_grounded bl v request event t' \<and> uv_channel_bindings event \<noteq> [])"
proof -
  have "cache_grounded bl v t' self' \<and> (uv_result event = Verified \<longrightarrow> verdict_grounded bl v request event t')"
    using assms(3) ext_verify_traced [OF assms(1,2)] ext_refresh_traced [OF assms(1,2)] by blast
  then show ?thesis using grounded_drop grounded_bindings unfolding ext_invalidate_def by blast
qed

text \<open>A bridge that always answers with one pinned key.\<close>

definition sample_output :: bridge_output where
  "sample_output = \<lparr>bo_result = lit ''verified'', bo_verifier_id = None, bo_reason = None, bo_evidence = None,
     bo_channel_bindings = [\<lparr>eb_binding_type = lit ''tls_spki_sha256'', eb_origin = Some (lit ''https://u''), eb_spki_sha256 = Some [],
       eb_certificate_sha256 = None, eb_provider = None, eb_key_id = None, eb_algorithm = None, eb_public_key_sha256 = None\<rparr>],
     bo_provider_claims = None, bo_attested_scope = Some (lit ''router''), bo_chutes_session = None\<rparr>"

definition sample_bridge :: "unit bridge_lib" where
  "sample_bridge = \<lparr>bl_hex = sample_verifier_lib\<lparr>vl_hex_decode := (\<lambda>_. Inr (replicate 32 0))\<rparr>,
     bl_json = sample_codec\<lparr>to_vec := (\<lambda>_. Some [1])\<rparr>, bl_dbg = (\<lambda>s. s), bl_parse_output = (\<lambda>_. Inr sample_output),
     bl_clock = (\<lambda>w. (7, w)), bl_instant = (\<lambda>_. 0), bl_process = (\<lambda>_ _ _ _ _ _ w. (Exited True [] [] [], w))\<rparr>"

definition sample_verification :: verification_request where
  "sample_verification = \<lparr>vr_upstream_name = lit ''u'', vr_url_origin = Some (lit ''https://u''), vr_model_id = lit ''m'',
     vr_forwarded_body_hash = [], vr_required = True\<rparr>"

definition sample_external :: external_verifier where
  "sample_external = tinfoil_verifier [] 5 9"

lemma sample_external_fields:
  "ex_scope sample_external = PerRouter" "ex_cache sample_external = (\<lambda>_. None)" "ex_cache_ttl_seconds sample_external = 9"
  "ex_command sample_external \<noteq> []"
  by (simp_all add: sample_external_def tinfoil_verifier_def private_inference_def Let_def)

lemma sample_external_grounded: "cache_grounded bl sample_external [] sample_external"
  by (simp add: cache_grounded_def sample_external_fields)

lemma sample_event_verified:
  "\<exists>e. event_from_output sample_bridge sample_external sample_verification sample_output = Inr e \<and> uv_result e = Verified"
  by (simp add: event_from_output_def sample_output_def sample_bridge_def parse_external_binding_def normalize_external_sha256_def decode_hex_32_def
      decode_hex_def enforce_attested_scope_def from_declared_def sample_external_fields lit_def)

lemma sample_bridge_calls:
  "bl_clock (traced sample_bridge) (t, u) = (7, (t @ [Clock_Read 7], u))"
  "bl_process (traced sample_bridge) p args d e input limit (t, u) = (Exited True [] [] [], (t @ [Bridge_Run input (Exited True [] [] [])], u))"
  "bl_parse_output sample_bridge wire = Inr sample_output" "to_vec (bl_json sample_bridge) j = Some [1]"
  by (simp_all add: traced_def sample_bridge_def)

lemma sample_verify:
  "\<exists>e self' t'. ext_verify (traced sample_bridge) (\<lambda>st. st) sample_verification (sample_external, None, ([], ())) = (e, (self', None, (t', ())))
     \<and> uv_result e = Verified"
proof -
  obtain e where e: "event_from_output sample_bridge sample_external sample_verification sample_output = Inr e" "uv_result e = Verified"
    using sample_event_verified by blast
  obtain p args where c: "ex_command sample_external = p # args" using sample_external_fields(4) by (cases "ex_command sample_external") auto
  have "bo_chutes_session sample_output = None" by (simp add: sample_output_def)
  then show ?thesis
    by (simp add: ext_verify_def cached_event_of_def sample_external_fields sample_bridge_calls ext_verify_uncached_def run_bridge_def c
        use_output_def event_from_output_traced e record_provider_session_def maybe_cache_event_def)
qed

theorem verified_rests_on_bridge_witness:
  "\<exists>e self' t'. ext_verify (traced sample_bridge) (\<lambda>st. st) sample_verification (sample_external, None, ([], ())) = (e, (self', None, (t', ())))
     \<and> uv_channel_bindings e \<noteq> [] \<and> verdict_grounded sample_bridge sample_external sample_verification e t'"
proof -
  obtain e self' t' where run: "ext_verify (traced sample_bridge) (\<lambda>st. st) sample_verification (sample_external, None, ([], ())) = (e, (self', None, (t', ())))"
    and e: "uv_result e = Verified" using sample_verify by blast
  have "others_grounded sample_bridge sample_external (\<lambda>st. st)" by (simp add: others_grounded_def)
  from verified_rests_on_bridge [OF sample_external_grounded this disjI1 [OF run]] run e show ?thesis by blast
qed

text \<open>
  Invalidation forces a new run. After a channel's cached verdict was invalidated, the next
  verification of that channel, for whatever model shares it, asks the bridge again.
\<close>

theorem invalidated_verdict_reruns:
  assumes "cache_key_for v request' = cache_key_for v request" "to_vec (bl_json bl) (bridge_input v request') = Some input"
    and "ex_command v \<noteq> []"
    and "ext_verify (traced bl) (\<lambda>st. st) request' (ext_invalidate request v, store, (t, w)) = (event, (self', store', (t', w')))"
  shows "\<exists>outcome. Bridge_Run input outcome \<in> set (drop (length t) t')"
proof -
  let ?v = "ext_invalidate request v" and ?key = "cache_key_for v request'"
  have v: "ex_cache ?v ?key = None" "cache_key_for ?v request' = ?key" "bridge_input ?v request' = bridge_input v request'" "ex_command ?v = ex_command v"
    using assms(1) by (simp_all add: ext_invalidate_def cache_key_for_def bridge_input_def)
  obtain u1 w1 where c1: "cached_event_of (traced bl) ?key request' (?v, store, (t, w)) = (None, (?v, store, (t @ u1, w1)))"
    by (rule cached_none [OF v(1)])
  obtain u2 w2 where c2: "cached_event_of (traced bl) ?key request' (?v, store, (t @ u1, w1)) = (None, (?v, store, ((t @ u1) @ u2, w2)))"
    by (rule cached_none [OF v(1)])
  have "ext_verify_uncached (traced bl) request' ?key (?v, store, ((t @ u1) @ u2, w2)) = (event, (self', store', (t', w')))"
    using assms(4) by (simp add: ext_verify_def v c1 c2)
  from uncached_runs [OF _ _ this, of input] assms(2,3) show ?thesis by (auto simp: v)
qed

theorem invalidated_verdict_reruns_witness:
  "\<exists>e self' st' t'. ext_verify (traced sample_bridge) (\<lambda>st. st) (sample_verification\<lparr>vr_model_id := lit ''n''\<rparr>)
       (ext_invalidate sample_verification sample_external, None, ([], ())) = (e, (self', st', (t', ())))
     \<and> (\<exists>outcome. Bridge_Run [1] outcome \<in> set t')"
proof -
  obtain e self' st' t' u where run: "ext_verify (traced sample_bridge) (\<lambda>st. st) (sample_verification\<lparr>vr_model_id := lit ''n''\<rparr>)
       (ext_invalidate sample_verification sample_external, None, ([], ())) = (e, (self', st', (t', u)))" by (metis surj_pair)
  have "cache_key_for sample_external (sample_verification\<lparr>vr_model_id := lit ''n''\<rparr>) = cache_key_for sample_external sample_verification"
    by (simp add: cache_key_for_def sample_external_fields is_per_router_def from_request_def)
  from invalidated_verdict_reruns [OF this _ sample_external_fields(4) run] have ran: "\<exists>outcome. Bridge_Run [1] outcome \<in> set t'"
    by (simp add: sample_bridge_calls)
  with run show ?thesis by (cases u) blast
qed

end
