(* ===== verification/Upstream_Config.thy ===== *)
theory Upstream_Config
  imports Provider_Verifiers
begin

text \<open>
  The upstream configuration: its types and the manager that loads, replaces and reads it
  (\<open>src/aggregator/upstream_config/mod.rs\<close>), validation and verification targets (\<open>validation.rs\<close>),
  the router and the verifier built from it (\<open>builders.rs\<close>), and the wrappers that follow the current
  configuration (\<open>dynamic.rs\<close>). Ordered maps are association lists in key order. Configuration text,
  HTTP clients and hashes are parameters; the configuration file is a state and the outcome of
  writing it an argument.
\<close>

section \<open>Configuration\<close>

record upstream_config =
  uc_name :: str
  uc_enabled :: bool
  uc_provider :: upstream_provider
  uc_base_url :: str
  uc_path :: "str option"
  uc_models :: "(str \<times> str) list"
  uc_bearer_token :: "str option"
  uc_accepted_workload_ids :: "str list option"
  uc_accepted_image_digests :: "str list option"
  uc_accepted_kms_roots :: "str list option"
  uc_pccs_url :: "str option"
  uc_verifier_cache_seconds :: "u64 option"
  uc_connect_timeout_seconds :: "u64 option"
  uc_read_timeout_seconds :: "u64 option"
  uc_verifier_request_timeout_seconds :: "u64 option"
  uc_verification_refresh_seconds :: "u64 option"
  uc_session_refresh_seconds :: "u64 option"
  uc_chutes_e2ee_api_base :: "str option"
  uc_chutes_chute_ids :: "(str \<times> str) list option"
  uc_chutes_discovery_rounds :: "u64 option"
  uc_chutes_discovery_interval_seconds :: "u64 option"

record public_config =
  pc_name :: str
  pc_enabled :: bool
  pc_provider :: upstream_provider
  pc_base_url :: str
  pc_path :: "str option"
  pc_models :: "(str \<times> str) list"
  pc_bearer_token_configured :: bool
  pc_accepted_workload_ids :: "str list option"
  pc_accepted_image_digests :: "str list option"
  pc_accepted_kms_roots :: "str list option"
  pc_pccs_url :: "str option"
  pc_verifier_cache_seconds :: "u64 option"
  pc_connect_timeout_seconds :: "u64 option"
  pc_read_timeout_seconds :: "u64 option"
  pc_verifier_request_timeout_seconds :: "u64 option"
  pc_verification_refresh_seconds :: "u64 option"
  pc_session_refresh_seconds :: "u64 option"
  pc_chutes_e2ee_api_base :: "str option"
  pc_chutes_chute_ids :: "(str \<times> str) list option"
  pc_chutes_discovery_rounds :: "u64 option"
  pc_chutes_discovery_interval_seconds :: "u64 option"

definition redacted :: "upstream_config \<Rightarrow> public_config" where
  "redacted c =
     \<lparr>pc_name = uc_name c, pc_enabled = uc_enabled c, pc_provider = uc_provider c, pc_base_url = uc_base_url c, pc_path = uc_path c,
      pc_models = uc_models c, pc_bearer_token_configured = (uc_bearer_token c \<noteq> None),
      pc_accepted_workload_ids = uc_accepted_workload_ids c, pc_accepted_image_digests = uc_accepted_image_digests c,
      pc_accepted_kms_roots = uc_accepted_kms_roots c, pc_pccs_url = uc_pccs_url c,
      pc_verifier_cache_seconds = uc_verifier_cache_seconds c, pc_connect_timeout_seconds = uc_connect_timeout_seconds c,
      pc_read_timeout_seconds = uc_read_timeout_seconds c,
      pc_verifier_request_timeout_seconds = uc_verifier_request_timeout_seconds c,
      pc_verification_refresh_seconds = uc_verification_refresh_seconds c, pc_session_refresh_seconds = uc_session_refresh_seconds c,
      pc_chutes_e2ee_api_base = uc_chutes_e2ee_api_base c, pc_chutes_chute_ids = uc_chutes_chute_ids c,
      pc_chutes_discovery_rounds = uc_chutes_discovery_rounds c,
      pc_chutes_discovery_interval_seconds = uc_chutes_discovery_interval_seconds c\<rparr>"

datatype verifier_mode = Mode_None | Mode_Preverified | Mode_AciService

datatype config_error = Config_Read str str | Config_Write str str | InvalidConfig str

definition parse_verifier_mode :: "(str \<Rightarrow> str) \<Rightarrow> str \<Rightarrow> config_error + verifier_mode" where
  "parse_verifier_mode dbg s =
     (let m = to_ascii_lowercase (trim s)
      in if m = lit ''none'' then Inr Mode_None else if m = lit ''preverified'' then Inr Mode_Preverified
         else if m = lit ''aci-service'' then Inr Mode_AciService
         else Inl (InvalidConfig (lit ''invalid upstream verifier mode '' @ dbg m)))"

record runtime_options =
  rt_verifier_mode :: verifier_mode
  rt_accepted_workload_ids :: "str list"
  rt_accepted_image_digests :: "str list"
  rt_accepted_kms_roots :: "str list"
  rt_pccs_url :: "str option"
  rt_verifier_cache_seconds :: u64
  rt_connect_timeout_seconds :: u64
  rt_read_timeout_seconds :: u64
  rt_verifier_request_timeout_seconds :: u64

definition unwrap_or :: "'a option \<Rightarrow> 'a \<Rightarrow> 'a" where
  "unwrap_or x d = (case x of Some v \<Rightarrow> v | None \<Rightarrow> d)"

definition trim_slashes :: "str \<Rightarrow> str" where
  "trim_slashes s = trim_end_matches (\<lambda>c. c = ch CHR ''/'') s"

section \<open>Serialisation\<close>

fun provider_str :: "upstream_provider \<Rightarrow> str" where
  "provider_str OpenAiCompatible = lit ''openai-compatible''"
| "provider_str Anthropic_Api = lit ''anthropic''"
| "provider_str AciService = lit ''aci-service''"
| "provider_str Chutes_Provider = lit ''chutes''"
| "provider_str Tinfoil = lit ''tinfoil''"
| "provider_str NearAi = lit ''near-ai''"
| "provider_str PhalaDirect = lit ''phala-direct''"

definition json_str_list :: "str list \<Rightarrow> json" where
  "json_str_list xs = Array (map JString xs)"

definition json_str_map :: "(str \<times> str) list \<Rightarrow> json" where
  "json_str_map m = Object (map (\<lambda>(k, v). (k, JString v)) m)"

definition config_value :: "upstream_config \<Rightarrow> json" where
  "config_value c = Object
     ([(lit ''name'', JString (uc_name c))] @ (if uc_enabled c then [] else [(lit ''enabled'', Bool False)])
      @ [(lit ''provider'', JString (provider_str (uc_provider c))), (lit ''base_url'', JString (uc_base_url c))]
      @ opt_member ''path'' (map_option JString (uc_path c)) @ [(lit ''models'', json_str_map (uc_models c))]
      @ opt_member ''bearer_token'' (map_option JString (uc_bearer_token c))
      @ opt_member ''accepted_workload_ids'' (map_option json_str_list (uc_accepted_workload_ids c))
      @ opt_member ''accepted_image_digests'' (map_option json_str_list (uc_accepted_image_digests c))
      @ opt_member ''accepted_dstack_kms_root_public_keys'' (map_option json_str_list (uc_accepted_kms_roots c))
      @ opt_member ''pccs_url'' (map_option JString (uc_pccs_url c))
      @ opt_member ''verifier_cache_seconds'' (map_option json_u64 (uc_verifier_cache_seconds c))
      @ opt_member ''connect_timeout_seconds'' (map_option json_u64 (uc_connect_timeout_seconds c))
      @ opt_member ''read_timeout_seconds'' (map_option json_u64 (uc_read_timeout_seconds c))
      @ opt_member ''verifier_request_timeout_seconds'' (map_option json_u64 (uc_verifier_request_timeout_seconds c))
      @ opt_member ''verification_refresh_seconds'' (map_option json_u64 (uc_verification_refresh_seconds c))
      @ opt_member ''session_refresh_seconds'' (map_option json_u64 (uc_session_refresh_seconds c))
      @ opt_member ''chutes_e2ee_api_base'' (map_option JString (uc_chutes_e2ee_api_base c))
      @ opt_member ''chutes_chute_ids'' (map_option json_str_map (uc_chutes_chute_ids c))
      @ opt_member ''chutes_e2ee_discovery_rounds'' (map_option json_u64 (uc_chutes_discovery_rounds c))
      @ opt_member ''chutes_e2ee_discovery_interval_seconds'' (map_option json_u64 (uc_chutes_discovery_interval_seconds c)))"

definition public_config_value :: "public_config \<Rightarrow> json" where
  "public_config_value c = Object
     ([(lit ''name'', JString (pc_name c)), (lit ''enabled'', Bool (pc_enabled c)), (lit ''provider'', JString (provider_str (pc_provider c))),
       (lit ''base_url'', JString (pc_base_url c))]
      @ opt_member ''path'' (map_option JString (pc_path c)) @ [(lit ''models'', json_str_map (pc_models c)),
       (lit ''bearer_token_configured'', Bool (pc_bearer_token_configured c))]
      @ opt_member ''accepted_workload_ids'' (map_option json_str_list (pc_accepted_workload_ids c))
      @ opt_member ''accepted_image_digests'' (map_option json_str_list (pc_accepted_image_digests c))
      @ opt_member ''accepted_dstack_kms_root_public_keys'' (map_option json_str_list (pc_accepted_kms_roots c))
      @ opt_member ''pccs_url'' (map_option JString (pc_pccs_url c))
      @ opt_member ''verifier_cache_seconds'' (map_option json_u64 (pc_verifier_cache_seconds c))
      @ opt_member ''connect_timeout_seconds'' (map_option json_u64 (pc_connect_timeout_seconds c))
      @ opt_member ''read_timeout_seconds'' (map_option json_u64 (pc_read_timeout_seconds c))
      @ opt_member ''verifier_request_timeout_seconds'' (map_option json_u64 (pc_verifier_request_timeout_seconds c))
      @ opt_member ''verification_refresh_seconds'' (map_option json_u64 (pc_verification_refresh_seconds c))
      @ opt_member ''session_refresh_seconds'' (map_option json_u64 (pc_session_refresh_seconds c))
      @ opt_member ''chutes_e2ee_api_base'' (map_option JString (pc_chutes_e2ee_api_base c))
      @ opt_member ''chutes_chute_ids'' (map_option json_str_map (pc_chutes_chute_ids c))
      @ opt_member ''chutes_e2ee_discovery_rounds'' (map_option json_u64 (pc_chutes_discovery_rounds c))
      @ opt_member ''chutes_e2ee_discovery_interval_seconds'' (map_option json_u64 (pc_chutes_discovery_interval_seconds c)))"

section \<open>Validation\<close>

definition config_uuid :: "str \<Rightarrow> bool" where
  "config_uuid s \<longleftrightarrow> length (as_bytes s) = 36 \<and> length (split_char (ch CHR ''-'') s) = 5
     \<and> list_all (\<lambda>c. c = ch CHR ''-'' \<or> is_ascii_hexdigit_char c) s"

fun check_timeouts :: "(str \<Rightarrow> str) \<Rightarrow> str \<Rightarrow> (string \<times> u64 option) list \<Rightarrow> config_error + unit" where
  "check_timeouts dbg name [] = Inr ()"
| "check_timeouts dbg name ((field, v) # rest) =
     (if v = Some 0 then Inl (InvalidConfig (lit ''upstream '' @ dbg name @ lit '' '' @ lit field @ lit '' must be greater than zero''))
      else check_timeouts dbg name rest)"

fun check_chute_ids :: "(str \<Rightarrow> str) \<Rightarrow> str \<Rightarrow> str set \<Rightarrow> (str \<times> str) list \<Rightarrow> config_error + unit" where
  "check_chute_ids dbg name models [] = Inr ()"
| "check_chute_ids dbg name models ((model_id, chute_id) # rest) =
     (if trim model_id = [] then Inl (InvalidConfig (lit ''upstream '' @ dbg name @ lit '' chutes_chute_ids has an empty model id''))
      else if model_id \<notin> models
      then Inl (InvalidConfig (lit ''upstream '' @ dbg name @ lit '' chutes_chute_ids key '' @ dbg model_id @ lit '' is not one of its upstream model ids''))
      else if \<not> config_uuid chute_id
      then Inl (InvalidConfig (lit ''upstream '' @ dbg name @ lit '' chutes_chute_ids['' @ dbg model_id @ lit ''] must be a chute_id UUID''))
      else check_chute_ids dbg name models rest)"

definition check_chutes_fields :: "(str \<Rightarrow> str) \<Rightarrow> upstream_config \<Rightarrow> config_error + unit" where
  "check_chutes_fields dbg c =
     bind_result (case uc_chutes_discovery_rounds c of
        Some rounds \<Rightarrow>
          if rounds = 0 \<or> 10 < rounds
          then Inl (InvalidConfig (lit ''upstream '' @ dbg (uc_name c) @ lit '' chutes_e2ee_discovery_rounds must be between 1 and 10'')) else Inr ()
      | None \<Rightarrow> Inr ()) (\<lambda>_.
     bind_result (case uc_chutes_e2ee_api_base c of
        Some base \<Rightarrow>
          if trim base = [] then Inl (InvalidConfig (lit ''upstream '' @ dbg (uc_name c) @ lit '' chutes_e2ee_api_base must not be empty'')) else Inr ()
      | None \<Rightarrow> Inr ()) (\<lambda>_.
     bind_result (case uc_chutes_chute_ids c of
        Some chute_ids \<Rightarrow>
          if chute_ids = [] then Inl (InvalidConfig (lit ''upstream '' @ dbg (uc_name c) @ lit '' chutes_chute_ids must not be empty when configured''))
          else check_chute_ids dbg (uc_name c) (snd ` set (uc_models c)) chute_ids
      | None \<Rightarrow> Inr ()) (\<lambda>_.
       if uc_provider c \<noteq> Chutes_Provider
          \<and> (uc_chutes_e2ee_api_base c \<noteq> None \<or> uc_chutes_chute_ids c \<noteq> None \<or> uc_chutes_discovery_rounds c \<noteq> None
             \<or> uc_chutes_discovery_interval_seconds c \<noteq> None)
       then Inl (InvalidConfig (lit ''upstream '' @ dbg (uc_name c) @ lit '' has Chutes E2EE fields but provider is not chutes''))
       else Inr ())))"

definition route_id_of :: "upstream_config \<Rightarrow> str \<Rightarrow> str" where
  "route_id_of c public_model = uc_name c @ lit '':'' @ public_model"

fun check_models :: "(str \<Rightarrow> str) \<Rightarrow> upstream_config \<Rightarrow> str set \<Rightarrow> (str \<times> str) list \<Rightarrow> config_error + str set" where
  "check_models dbg c route_ids [] = Inr route_ids"
| "check_models dbg c route_ids ((public_model, upstream_model) # rest) =
     (if trim public_model = [] then Inl (InvalidConfig (lit ''upstream '' @ dbg (uc_name c) @ lit '' has an empty public model id''))
      else if trim upstream_model = []
      then Inl (InvalidConfig (lit ''upstream '' @ dbg (uc_name c) @ lit '' route '' @ dbg public_model @ lit '' has an empty upstream model id''))
      else if route_id_of c public_model \<in> route_ids
      then Inl (InvalidConfig (lit ''route id '' @ dbg (route_id_of c public_model) @ lit '' is duplicated''))
      else check_models dbg c (insert (route_id_of c public_model) route_ids) rest)"

definition check_upstream :: "(str \<Rightarrow> str) \<Rightarrow> str set \<Rightarrow> upstream_config \<Rightarrow> config_error + unit" where
  "check_upstream dbg names c =
     (if trim (uc_name c) = [] then Inl (InvalidConfig (lit ''upstream name must not be empty''))
      else if uc_name c \<in> names then Inl (InvalidConfig (lit ''upstream name '' @ dbg (uc_name c) @ lit '' is duplicated''))
      else if trim (uc_base_url c) = [] then Inl (InvalidConfig (lit ''upstream '' @ dbg (uc_name c) @ lit '' base_url must not be empty''))
      else if uc_models c = [] then Inl (InvalidConfig (lit ''upstream '' @ dbg (uc_name c) @ lit '' must route at least one public model''))
      else
        bind_result (check_timeouts dbg (uc_name c)
          [(''connect_timeout_seconds'', uc_connect_timeout_seconds c), (''read_timeout_seconds'', uc_read_timeout_seconds c),
           (''verifier_request_timeout_seconds'', uc_verifier_request_timeout_seconds c), (''verifier_cache_seconds'', uc_verifier_cache_seconds c)]) (\<lambda>_.
        bind_result (check_chutes_fields dbg c) (\<lambda>_.
          if uc_provider c = Anthropic_Api \<and> (case uc_path c of None \<Rightarrow> True | Some p \<Rightarrow> p = [])
          then Inl (InvalidConfig (lit ''upstream '' @ dbg (uc_name c) @ lit '' provider anthropic requires path (e.g. '' @ [ch CHR 0x22]
                 @ lit ''/v1/messages'' @ [ch CHR 0x22] @ lit '')''))
          else Inr ())))"

fun validate_loop :: "(str \<Rightarrow> str) \<Rightarrow> str set \<Rightarrow> str set \<Rightarrow> upstream_config list \<Rightarrow> config_error + unit" where
  "validate_loop dbg names route_ids [] = Inr ()"
| "validate_loop dbg names route_ids (c # cs) =
     bind_result (check_upstream dbg names c) (\<lambda>_.
     bind_result (check_models dbg c route_ids (uc_models c)) (\<lambda>route_ids.
       validate_loop dbg (insert (uc_name c) names) route_ids cs))"

definition validate_config :: "(str \<Rightarrow> str) \<Rightarrow> upstream_config list \<Rightarrow> config_error + unit" where
  "validate_config dbg config = validate_loop dbg {} {} config"

section \<open>Verification targets\<close>

record verification_target =
  vt_upstream_name :: str
  vt_model_id :: str
  vt_url_origin :: "str option"

definition target_of :: "upstream_config \<Rightarrow> str \<Rightarrow> verification_target" where
  "target_of c model_id = \<lparr>vt_upstream_name = uc_name c, vt_model_id = model_id, vt_url_origin = Some (trim_slashes (uc_base_url c))\<rparr>"

definition target_models :: "upstream_config \<Rightarrow> str list" where
  "target_models c =
     (if is_per_router (attestation_scope (uc_provider c)) then take 1 (map snd (uc_models c)) else map snd (uc_models c))"

text \<open>\<open>seen.insert(x)\<close> and a push of what was not seen before.\<close>

fun push_unseen :: "'a set \<Rightarrow> 'a list \<Rightarrow> 'a list \<times> 'a set" where
  "push_unseen seen [] = ([], seen)"
| "push_unseen seen (x # xs) =
     (if x \<in> seen then push_unseen seen xs else case push_unseen (insert x seen) xs of (ys, seen') \<Rightarrow> (x # ys, seen'))"

definition verification_targets_for_configs :: "upstream_config list \<Rightarrow> verification_target list" where
  "verification_targets_for_configs configs =
     fst (push_unseen {} (concat (map (\<lambda>c. map (target_of c) (target_models c)) configs)))"

definition verification_refresh_seconds :: "upstream_config \<Rightarrow> runtime_options \<Rightarrow> u64 option" where
  "verification_refresh_seconds c opts =
     (case uc_verification_refresh_seconds c of
        Some seconds \<Rightarrow> if seconds = 0 then None else Some seconds
      | None \<Rightarrow>
          let cache_seconds = unwrap_or (uc_verifier_cache_seconds c) (rt_verifier_cache_seconds opts)
          in Some (max (if 60 \<le> cache_seconds then cache_seconds - 60 else 0) 1))"

definition DEFAULT_UPSTREAM_SESSION_REFRESH_SECONDS :: u64 where "DEFAULT_UPSTREAM_SESSION_REFRESH_SECONDS = 45"

definition session_refresh_seconds :: "upstream_config \<Rightarrow> u64 option" where
  "session_refresh_seconds c =
     (case uc_session_refresh_seconds c of
        Some seconds \<Rightarrow> if seconds = 0 then None else Some seconds
      | None \<Rightarrow> if uc_provider c = Chutes_Provider then Some DEFAULT_UPSTREAM_SESSION_REFRESH_SECONDS else None)"

definition verification_targets :: "upstream_config list \<Rightarrow> verification_target list" where
  "verification_targets config = verification_targets_for_configs (filter uc_enabled config)"

definition verification_targets_for_refresh :: "upstream_config list \<Rightarrow> runtime_options \<Rightarrow> verification_target list" where
  "verification_targets_for_refresh config opts =
     verification_targets_for_configs (filter (\<lambda>c. verification_refresh_seconds c opts \<noteq> None) (filter uc_enabled config))"

definition unique_upstream_models :: "upstream_config \<Rightarrow> str list" where
  "unique_upstream_models c = fst (push_unseen {} (map snd (uc_models c)))"

section \<open>Building backends\<close>

text \<open>The libraries and the build-time values the construction uses.\<close>

record 'w build_env =
  bv_serde :: serde_json
  bv_dbg :: "str \<Rightarrow> str"
  bv_http :: "'w http_lib"
  bv_chutes :: "'w chutes_env"
  bv_random :: "'w \<Rightarrow> chutes_random \<times> 'w"
  bv_waiting :: "session_cache \<times> 'w \<Rightarrow> session_cache \<times> 'w"
  bv_verifier_lib :: verifier_lib
  bv_verifier_client :: "u64 \<Rightarrow> u64 \<Rightarrow> str + unit"
  bv_default_pccs_url :: str
  bv_manifest_dir :: str

text \<open>A shared session store is known by the name of its upstream.\<close>

datatype configured_backend = Plain_Backend openai_backend | Chutes_Backend chutes_backend str

record 'w upstream_world =
  uw_stores :: "str \<Rightarrow> session_cache"
  uw_world :: 'w

definition on_world :: "('w \<Rightarrow> 'a \<times> 'w) \<Rightarrow> 'w upstream_world \<Rightarrow> 'a \<times> 'w upstream_world" where
  "on_world f u = (case f (uw_world u) of (r, w) \<Rightarrow> (r, u\<lparr>uw_world := w\<rparr>))"

definition on_store :: "str \<Rightarrow> (session_cache \<times> 'w \<Rightarrow> 'a \<times> session_cache \<times> 'w) \<Rightarrow> 'w upstream_world \<Rightarrow> 'a \<times> 'w upstream_world" where
  "on_store store f u =
     (case f (uw_stores u store, uw_world u) of (r, cache, w) \<Rightarrow> (r, \<lparr>uw_stores = (uw_stores u)(store := cache), uw_world = w\<rparr>))"

definition plain_on_world :: "'w build_env \<Rightarrow> openai_backend \<Rightarrow> 'w upstream_world backend" where
  "plain_on_world env b =
     (let inner = openai_compatible (bv_serde env) (bv_dbg env) (bv_http env) b
      in \<lparr>be_name = be_name inner, be_url_origin = be_url_origin inner, be_prepare = be_prepare inner,
          be_forward = (\<lambda>u req. on_world (\<lambda>w. be_forward inner w req) u),
          be_forward_prepared = (\<lambda>u req. on_world (\<lambda>w. be_forward_prepared inner w req) u),
          be_forward_verified_prepared = (\<lambda>u req event. on_world (\<lambda>w. be_forward_verified_prepared inner w req event) u),
          be_forward_stream = (\<lambda>u req. on_world (\<lambda>w. be_forward_stream inner w req) u),
          be_forward_stream_prepared = (\<lambda>u req. on_world (\<lambda>w. be_forward_stream_prepared inner w req) u),
          be_forward_stream_verified_prepared = (\<lambda>u req event. on_world (\<lambda>w. be_forward_stream_verified_prepared inner w req event) u)\<rparr>)"

definition with_random :: "'w build_env \<Rightarrow> (chutes_random \<Rightarrow> ('w, 'a) chutes_call) \<Rightarrow> ('w, 'a) chutes_call" where
  "with_random env m st = (case st of (cache, w) \<Rightarrow> case bv_random env w of (rnd, w) \<Rightarrow> m rnd (cache, w))"

definition chutes_on_world :: "'w build_env \<Rightarrow> chutes_backend \<Rightarrow> str \<Rightarrow> 'w upstream_world backend" where
  "chutes_on_world env b store =
     \<lparr>be_name = ob_name (cb_inner b), be_url_origin = Some (ob_base_url (cb_inner b)),
      be_prepare = default_prepare (bv_serde env) (ob_name (cb_inner b)) (Some (ob_base_url (cb_inner b))),
      be_forward = (\<lambda>u req. on_store store chutes_forward u), be_forward_prepared = (\<lambda>u req. on_store store chutes_forward u),
      be_forward_verified_prepared = (\<lambda>u req event.
        on_store store (with_random env (\<lambda>rnd. chutes_forward_verified_prepared (bv_chutes env) b (bv_waiting env) rnd req event)) u),
      be_forward_stream = (\<lambda>u req. on_store store chutes_forward u), be_forward_stream_prepared = (\<lambda>u req. on_store store chutes_forward u),
      be_forward_stream_verified_prepared = (\<lambda>u req event.
        on_store store (with_random env (\<lambda>rnd. chutes_forward_stream_verified_prepared (bv_chutes env) b (bv_waiting env) rnd req event)) u)\<rparr>"

fun backend_of :: "'w build_env \<Rightarrow> configured_backend \<Rightarrow> 'w upstream_world backend" where
  "backend_of env (Plain_Backend b) = plain_on_world env b"
| "backend_of env (Chutes_Backend b store) = chutes_on_world env b store"

text \<open>The registry: the names of the enabled Chutes upstreams, each with a store of its own.\<close>

definition new_session_registry :: "upstream_config list \<Rightarrow> str list" where
  "new_session_registry config = map uc_name (filter (\<lambda>c. uc_provider c = Chutes_Provider) (filter uc_enabled config))"

definition registry_chutes :: "str list \<Rightarrow> str \<Rightarrow> str option" where
  "registry_chutes sessions upstream_name = (if upstream_name \<in> set sessions then Some upstream_name else None)"

definition provider_is_tee :: "upstream_provider \<Rightarrow> bool" where
  "provider_is_tee provider \<longleftrightarrow> \<not> (provider = OpenAiCompatible \<or> provider = Anthropic_Api)"

definition apply_opt :: "('a \<Rightarrow> 'b \<Rightarrow> 'b) \<Rightarrow> 'a option \<Rightarrow> 'b \<Rightarrow> 'b" where
  "apply_opt f x y = (case x of Some v \<Rightarrow> f v y | None \<Rightarrow> y)"

definition build_chutes_provider_backend :: "'w build_env \<Rightarrow> upstream_config \<Rightarrow> runtime_options \<Rightarrow> config_error + chutes_backend" where
  "build_chutes_provider_backend env c opts =
     bind_result (map_err (\<lambda>e. InvalidConfig (upstream_error_display e))
       (new_chutes_backend (bv_http env) (uc_base_url c) (unwrap_or (uc_connect_timeout_seconds c) (rt_connect_timeout_seconds opts))
         (unwrap_or (uc_read_timeout_seconds c) (rt_read_timeout_seconds opts)))) (\<lambda>backend.
     Inr (apply_opt cb_with_chute_ids (uc_chutes_chute_ids c)
         (apply_opt cb_with_e2ee_api_base (uc_chutes_e2ee_api_base c)
         (apply_opt cb_with_bearer_token (uc_bearer_token c) (cb_with_name (uc_name c) backend)))))"

definition missing_store :: "'w build_env \<Rightarrow> upstream_config \<Rightarrow> config_error" where
  "missing_store env c = InvalidConfig (lit ''missing Chutes provider session store for upstream '' @ bv_dbg env (uc_name c))"

definition build_provider_backend :: "'w build_env \<Rightarrow> upstream_config \<Rightarrow> runtime_options \<Rightarrow> str list \<Rightarrow> config_error + configured_backend" where
  "build_provider_backend env c opts sessions =
     (if uc_provider c = Chutes_Provider then
        bind_result (ok_or (missing_store env c) (registry_chutes sessions (uc_name c))) (\<lambda>store.
        bind_result (build_chutes_provider_backend env c opts) (\<lambda>b. Inr (Chutes_Backend b store)))
      else
        bind_result (map_err (\<lambda>e. InvalidConfig (upstream_error_display e))
          (new_openai_backend (bv_http env) (uc_base_url c) (unwrap_or (uc_connect_timeout_seconds c) (rt_connect_timeout_seconds opts))
            (unwrap_or (uc_read_timeout_seconds c) (rt_read_timeout_seconds opts)))) (\<lambda>backend.
        Inr (Plain_Backend (apply_opt (if uc_provider c = Anthropic_Api then ob_with_anthropic_api_key else ob_with_bearer_token)
              (uc_bearer_token c) (ob_with_name (uc_name c) backend)))))"

definition build_route :: "'w build_env \<Rightarrow> upstream_config \<Rightarrow> configured_backend \<Rightarrow> str \<Rightarrow> str \<Rightarrow> config_error + 'w upstream_world model_route" where
  "build_route env c backend public_model upstream_model =
     bind_result (map_err (\<lambda>e. InvalidConfig (upstream_error_display e))
       (new_model_route public_model upstream_model (backend_of env backend) (route_id_of c public_model))) (\<lambda>route.
     Inr (with_is_tee (with_path route (uc_path c)) (Some (provider_is_tee (uc_provider c)))))"

fun add_models ::
    "'w build_env \<Rightarrow> upstream_config \<Rightarrow> configured_backend \<Rightarrow> (str \<times> str) list \<Rightarrow> 'w upstream_world model_router \<Rightarrow>
     config_error + 'w upstream_world model_router" where
  "add_models env c backend [] r = Inr r"
| "add_models env c backend ((public_model, upstream_model) # rest) r =
     bind_result (build_route env c backend public_model upstream_model) (\<lambda>route.
     bind_result (map_err (\<lambda>e. InvalidConfig (upstream_error_display e)) (add_route (bv_dbg env) r route)) (\<lambda>r.
       add_models env c backend rest r))"

fun add_upstreams ::
    "'w build_env \<Rightarrow> runtime_options \<Rightarrow> str list \<Rightarrow> upstream_config list \<Rightarrow> 'w upstream_world model_router \<Rightarrow>
     config_error + 'w upstream_world model_router" where
  "add_upstreams env opts sessions [] r = Inr r"
| "add_upstreams env opts sessions (c # cs) r =
     bind_result (build_provider_backend env c opts sessions) (\<lambda>backend.
     bind_result (add_models env c backend (uc_models c) r) (\<lambda>r. add_upstreams env opts sessions cs r))"

definition build_model_router ::
    "'w build_env \<Rightarrow> upstream_config list \<Rightarrow> runtime_options \<Rightarrow> str list \<Rightarrow> config_error + 'w upstream_world model_router" where
  "build_model_router env config opts sessions =
     add_upstreams env opts sessions (filter uc_enabled config) (new_model_router (lit ''model-router''))"

section \<open>Building verifiers\<close>

fun verifier_config_error_display :: "verifier_config_error \<Rightarrow> str" where
  "verifier_config_error_display EmptyPolicy =
     lit ''ACI service upstream verifier requires at least one accepted workload id or image digest''"
| "verifier_config_error_display EmptyKmsRootPolicy =
     lit ''ACI service upstream verifier requires at least one accepted dstack KMS root public key''"
| "verifier_config_error_display (InvalidKmsRootPublicKey e) = lit ''invalid dstack KMS root public key: '' @ e"
| "verifier_config_error_display EmptyBaseUrl = lit ''upstream attestation report base URL is empty''"
| "verifier_config_error_display (InvalidBaseUrl e) = lit ''invalid upstream attestation report base URL: '' @ e"
| "verifier_config_error_display (Client e) = lit ''failed to build verifier HTTP client: '' @ e"

text \<open>
  The verifier objects, each with its own mutable state; a handle is the position of an object among
  those built.
\<close>

datatype verifier_object = Preverified_Object str | Aci_Object aci_verifier | Bridge_Object external_verifier "str option"

datatype configured_verifier = Single nat | Routing_Verifier "nat routing_verifier"

definition build_aci_service_verifier :: "'w build_env \<Rightarrow> upstream_config \<Rightarrow> runtime_options \<Rightarrow> config_error + verifier_object" where
  "build_aci_service_verifier env c opts =
     bind_result (map_err (\<lambda>e. InvalidConfig (verifier_config_error_display e))
       (new_policy (bv_verifier_lib env) (unwrap_or (uc_accepted_workload_ids c) (rt_accepted_workload_ids opts))
         (unwrap_or (uc_accepted_image_digests c) (rt_accepted_image_digests opts))
         (unwrap_or (uc_accepted_kms_roots c) (rt_accepted_kms_roots opts)))) (\<lambda>policy.
     let pccs_url = (case uc_pccs_url c of Some u \<Rightarrow> Some u | None \<Rightarrow> rt_pccs_url opts)
     in bind_result (map_err (\<lambda>e. InvalidConfig (verifier_config_error_display e))
          (new_with_timeouts (bv_verifier_client env) (uc_base_url c) (unwrap_or pccs_url (bv_default_pccs_url env)) policy
            (unwrap_or (uc_verifier_cache_seconds c) (rt_verifier_cache_seconds opts))
            (unwrap_or (uc_connect_timeout_seconds c) (rt_connect_timeout_seconds opts))
            (unwrap_or (uc_verifier_request_timeout_seconds c) (rt_verifier_request_timeout_seconds opts)))) (\<lambda>v.
          Inr (Aci_Object v)))"

definition preverified_object :: verifier_object where
  "preverified_object = Preverified_Object (lit ''preverified/out-of-band/v1'')"

definition build_global_verifier_for_config :: "'w build_env \<Rightarrow> upstream_config \<Rightarrow> runtime_options \<Rightarrow> config_error + verifier_object option" where
  "build_global_verifier_for_config env c opts =
     (case rt_verifier_mode opts of
        Mode_None \<Rightarrow> Inr None
      | Mode_Preverified \<Rightarrow> Inr (Some preverified_object)
      | Mode_AciService \<Rightarrow>
          if (case uc_accepted_workload_ids c of Some ids \<Rightarrow> ids \<noteq> [] | None \<Rightarrow> False)
             \<or> (case uc_accepted_image_digests c of Some digests \<Rightarrow> digests \<noteq> [] | None \<Rightarrow> False)
          then bind_result (build_aci_service_verifier env c opts) (\<lambda>v. Inr (Some v)) else Inr None)"

definition verifier_for_config ::
    "'w build_env \<Rightarrow> upstream_config \<Rightarrow> runtime_options \<Rightarrow> str list \<Rightarrow> config_error + verifier_object option" where
  "verifier_for_config env c opts sessions =
     (let cache_seconds = unwrap_or (uc_verifier_cache_seconds c) (rt_verifier_cache_seconds opts);
          timeout = unwrap_or (uc_verifier_request_timeout_seconds c) (rt_verifier_request_timeout_seconds opts);
          dir = bv_manifest_dir env
      in case uc_provider c of
           OpenAiCompatible \<Rightarrow> build_global_verifier_for_config env c opts
         | Anthropic_Api \<Rightarrow> build_global_verifier_for_config env c opts
         | AciService \<Rightarrow> bind_result (build_aci_service_verifier env c opts) (\<lambda>v. Inr (Some v))
         | Chutes_Provider \<Rightarrow>
             bind_result (ok_or (missing_store env c) (registry_chutes sessions (uc_name c))) (\<lambda>store.
               Inr (Some (Bridge_Object
                 (apply_opt cv_with_discovery_interval_seconds (uc_chutes_discovery_interval_seconds c)
                 (apply_opt cv_with_discovery_rounds (uc_chutes_discovery_rounds c)
                 (apply_opt cv_with_chute_ids (uc_chutes_chute_ids c)
                 (apply_opt cv_with_e2ee_api_base (uc_chutes_e2ee_api_base c)
                 (apply_opt cv_with_api_key (uc_bearer_token c) (chutes_verifier dir timeout cache_seconds)))))) (Some store))))
         | Tinfoil \<Rightarrow> Inr (Some (Bridge_Object (tinfoil_verifier dir timeout cache_seconds) None))
         | NearAi \<Rightarrow> Inr (Some (Bridge_Object (near_ai_verifier dir timeout cache_seconds) None))
         | PhalaDirect \<Rightarrow>
             Inr (Some (Bridge_Object (apply_opt pv_with_bearer_token (uc_bearer_token c) (phala_direct_verifier dir timeout cache_seconds)) None)))"

definition add_verifier ::
    "upstream_config \<Rightarrow> verifier_object \<Rightarrow> nat routing_verifier \<times> verifier_object list \<Rightarrow> nat routing_verifier \<times> verifier_object list" where
  "add_verifier c v st =
     (case st of (r, objects) \<Rightarrow>
        (add_name (uc_name c) (length objects) (add_origin (trim_slashes (uc_base_url c)) (length objects) r), objects @ [v]))"

fun add_verifiers ::
    "(upstream_config \<Rightarrow> config_error + verifier_object option) \<Rightarrow> upstream_config list \<Rightarrow> nat routing_verifier \<times> verifier_object list \<Rightarrow>
     config_error + nat routing_verifier \<times> verifier_object list" where
  "add_verifiers build [] st = Inr st"
| "add_verifiers build (c # cs) st =
     bind_result (build c) (\<lambda>v. add_verifiers build cs (case v of Some x \<Rightarrow> add_verifier c x st | None \<Rightarrow> st))"

definition build_provider_verifier ::
    "'w build_env \<Rightarrow> upstream_config list \<Rightarrow> runtime_options \<Rightarrow> str list \<Rightarrow>
     config_error + (configured_verifier \<times> verifier_object list) option" where
  "build_provider_verifier env config opts sessions =
     (let enabled = filter uc_enabled config
      in if \<not> list_ex (\<lambda>c. provider_is_tee (uc_provider c)) enabled then Inr None
         else
           bind_result (add_verifiers (\<lambda>c. verifier_for_config env c opts sessions) enabled (new_routing_verifier, [])) (\<lambda>(r, objects).
             Inr (Some (Routing_Verifier r, objects))))"

definition build_verifier ::
    "'w build_env \<Rightarrow> upstream_config list \<Rightarrow> runtime_options \<Rightarrow> str list \<Rightarrow>
     config_error + (configured_verifier \<times> verifier_object list) option" where
  "build_verifier env config opts sessions =
     bind_result (build_provider_verifier env config opts sessions) (\<lambda>provider_verifier.
       case provider_verifier of
         Some v \<Rightarrow> Inr (Some v)
       | None \<Rightarrow>
           (case rt_verifier_mode opts of
              Mode_None \<Rightarrow> Inr None
            | Mode_Preverified \<Rightarrow> Inr (Some (Single 0, [preverified_object]))
            | Mode_AciService \<Rightarrow>
                bind_result (add_verifiers (\<lambda>c. bind_result (build_aci_service_verifier env c opts) (\<lambda>v. Inr (Some v)))
                  (filter uc_enabled config) (new_routing_verifier, [])) (\<lambda>(r, objects).
                  Inr (Some (Routing_Verifier r, objects)))))"

section \<open>The configured state\<close>

record 'w configured_upstreams =
  cf_config :: "upstream_config list"
  cf_config_digest :: str
  cf_backend :: "'w upstream_world model_router option"
  cf_verifier :: "(configured_verifier \<times> verifier_object list) option"
  cf_sessions :: "str list"

text \<open>Serialising a configuration as a value cannot fail; hashing it fails as the canonical writer does.\<close>

definition config_digest :: "'w build_env \<Rightarrow> (canonical_error \<Rightarrow> str) \<Rightarrow> upstream_config list \<Rightarrow> config_error + str" where
  "config_digest env display config =
     map_err (\<lambda>e. InvalidConfig (display e))
       (jcs_sha256_hex (vl_sha256 (bv_verifier_lib env)) (vl_hex_encode (bv_verifier_lib env)) (Array (map config_value config)))"

definition build_state ::
    "'w build_env \<Rightarrow> (canonical_error \<Rightarrow> str) \<Rightarrow> upstream_config list \<Rightarrow> runtime_options \<Rightarrow> config_error + 'w configured_upstreams" where
  "build_state env display config opts =
     bind_result (validate_config (bv_dbg env) config) (\<lambda>_.
     let active = filter uc_enabled config; sessions = new_session_registry active
     in bind_result (if active = [] then Inr None
                     else bind_result (build_model_router env active opts sessions) (\<lambda>r. Inr (Some r))) (\<lambda>backend.
        bind_result (build_verifier env active opts sessions) (\<lambda>verifier.
        bind_result (config_digest env display config) (\<lambda>digest.
          Inr \<lparr>cf_config = config, cf_config_digest = digest, cf_backend = backend, cf_verifier = verifier, cf_sessions = sessions\<rparr>))))"

section \<open>Following the current configuration\<close>

definition no_upstreams :: upstream_error where
  "no_upstreams = Routing (lit ''no upstreams configured'')"

definition empty_upstream_backend :: "'u backend" where
  "empty_upstream_backend =
     \<lparr>be_name = lit ''unconfigured'', be_url_origin = None, be_prepare = (\<lambda>req. Inl no_upstreams),
      be_forward = (\<lambda>u req. (Inl no_upstreams, u)), be_forward_prepared = (\<lambda>u req. (Inl no_upstreams, u)),
      be_forward_verified_prepared = default_forward_verified_prepared (lit ''unconfigured'') (\<lambda>u req. (Inl no_upstreams, u)),
      be_forward_stream = (\<lambda>u req. (Inl no_upstreams, u)), be_forward_stream_prepared = (\<lambda>u req. (Inl no_upstreams, u)),
      be_forward_stream_verified_prepared = default_forward_verified_prepared (lit ''unconfigured'') (\<lambda>u req. (Inl no_upstreams, u))\<rparr>"

definition empty_models :: "serde_json \<Rightarrow> upstream_error + upstream_response" where
  "empty_models sj =
     (let v = Object [(lit ''object'', JString (lit ''list'')), (lit ''data'', Array [])]
      in bind_result (ok_or (Routing (to_vec_error sj v)) (to_vec sj v)) (\<lambda>wire.
           Inr \<lparr>us_status_code = 200, us_body = wire, us_headers = [(lit ''content-type'', lit ''application/json'')],
                us_served_instance_id = None\<rparr>))"

definition current_backend :: "'w build_env \<Rightarrow> 'w configured_upstreams \<Rightarrow> 'w upstream_world backend" where
  "current_backend env cf = (case cf_backend cf of Some r \<Rightarrow> router_backend (bv_serde env) (bv_dbg env) r | None \<Rightarrow> empty_upstream_backend)"

text \<open>Every call reads the state anew: preparing and forwarding may see different configurations.\<close>

definition dynamic_prepare :: "'w build_env \<Rightarrow> 'w configured_upstreams \<Rightarrow> upstream_request \<Rightarrow> upstream_error + prepared_request" where
  "dynamic_prepare env cf req = be_prepare (current_backend env cf) req"

definition dynamic_forward_verified_prepared ::
    "'w build_env \<Rightarrow> 'w configured_upstreams \<Rightarrow> 'w upstream_world \<Rightarrow> prepared_request \<Rightarrow> upstream_verified_event \<Rightarrow>
     (upstream_error + upstream_response) \<times> 'w upstream_world" where
  "dynamic_forward_verified_prepared env cf u req event = be_forward_verified_prepared (current_backend env cf) u req event"

definition dynamic_forward_stream_verified_prepared ::
    "'w build_env \<Rightarrow> 'w configured_upstreams \<Rightarrow> 'w upstream_world \<Rightarrow> prepared_request \<Rightarrow> upstream_verified_event \<Rightarrow>
     (upstream_error + stream_response) \<times> 'w upstream_world" where
  "dynamic_forward_stream_verified_prepared env cf u req event = be_forward_stream_verified_prepared (current_backend env cf) u req event"

text \<open>
  The world of the verifiers: the state of each object, the session stores and the outside. \<open>ve_native\<close>
  gives what one native verification sees of it.
\<close>

record 'w verifier_world =
  vw_objects :: "verifier_object list"
  vw_stores :: "str \<Rightarrow> session_cache"
  vw_world :: 'w

record 'w verifier_env =
  ve_bridge :: "'w bridge_lib"
  ve_waiting :: "'w ext_state \<Rightarrow> 'w ext_state"
  ve_display :: "aci_verification_error \<Rightarrow> str"
  ve_native :: "'w \<Rightarrow> ((str \<Rightarrow> str + nat \<times> bytes) \<times> (u64 \<Rightarrow> bool) \<times> str \<times> u64 \<times> u64) \<times> 'w"

definition on_bridge ::
    "nat \<Rightarrow> external_verifier \<Rightarrow> str option \<Rightarrow> ('w ext_state \<Rightarrow> 'a \<times> 'w ext_state) \<Rightarrow> 'w verifier_world \<Rightarrow> 'a \<times> 'w verifier_world" where
  "on_bridge a v store f vw =
     (case f (v, map_option (vw_stores vw) store, vw_world vw) of (r, v, cache, w) \<Rightarrow>
        (r, \<lparr>vw_objects = (vw_objects vw)[a := Bridge_Object v store],
             vw_stores = (case (store, cache) of (Some n, Some s) \<Rightarrow> (vw_stores vw)(n := s) | _ \<Rightarrow> vw_stores vw), vw_world = w\<rparr>))"

definition on_native ::
    "'w verifier_env \<Rightarrow> nat \<Rightarrow> aci_verifier \<Rightarrow> verification_request \<Rightarrow> 'w verifier_world \<Rightarrow> upstream_verified_event \<times> 'w verifier_world" where
  "on_native env a v request vw =
     (case ve_native env (vw_world vw) of ((fetch, elapsed, nonce, now, verified_at), w) \<Rightarrow>
      case aci_verify (bl_hex (ve_bridge env)) (ve_display env) fetch elapsed nonce now verified_at v request of (event, v) \<Rightarrow>
        (event, vw\<lparr>vw_objects := (vw_objects vw)[a := Aci_Object v], vw_world := w\<rparr>))"

definition verify_object ::
    "'w verifier_env \<Rightarrow> nat \<Rightarrow> verification_request \<Rightarrow> 'w verifier_world \<Rightarrow> upstream_verified_event \<times> 'w verifier_world" where
  "verify_object env a request vw =
     (case vw_objects vw ! a of
        Preverified_Object i \<Rightarrow> (preverified_verify i request, vw)
      | Aci_Object v \<Rightarrow> on_native env a v request vw
      | Bridge_Object v store \<Rightarrow> on_bridge a v store (ext_verify (ve_bridge env) (ve_waiting env) request) vw)"

definition refresh_object ::
    "'w verifier_env \<Rightarrow> nat \<Rightarrow> verification_request \<Rightarrow> 'w verifier_world \<Rightarrow> upstream_verified_event \<times> 'w verifier_world" where
  "refresh_object env a request vw =
     (case vw_objects vw ! a of
        Preverified_Object i \<Rightarrow> (preverified_verify i request, vw)
      | Aci_Object v \<Rightarrow> on_native env a v request vw
      | Bridge_Object v store \<Rightarrow> on_bridge a v store (ext_refresh (ve_bridge env) (ve_waiting env) request) vw)"

definition invalidate_object :: "nat \<Rightarrow> verification_request \<Rightarrow> 'w verifier_world \<Rightarrow> 'w verifier_world" where
  "invalidate_object a request vw =
     (case vw_objects vw ! a of
        Bridge_Object v store \<Rightarrow> vw\<lparr>vw_objects := (vw_objects vw)[a := Bridge_Object (ext_invalidate request v) store]\<rparr>
      | _ \<Rightarrow> vw)"

definition unconfigured_event :: "verification_request \<Rightarrow> upstream_verified_event" where
  "unconfigured_event request = default_upstream_verified_event
     \<lparr>uv_upstream_name := vr_upstream_name request, uv_model_id := vr_model_id request, uv_url_origin := vr_url_origin request,
      uv_verifier_id := lit ''none'', uv_result := Failed, uv_required := vr_required request,
      uv_reason := Some (lit ''no upstream verifier configured'')\<rparr>"

definition dynamic_verify ::
    "'w verifier_env \<Rightarrow> 'b configured_upstreams \<Rightarrow> verification_request \<Rightarrow> 'w verifier_world \<Rightarrow> upstream_verified_event \<times> 'w verifier_world" where
  "dynamic_verify env cf request vw =
     (case cf_verifier cf of
        Some (Single a, _) \<Rightarrow> verify_object env a request vw
      | Some (Routing_Verifier r, _) \<Rightarrow> routing_verify (verify_object env) r request vw
      | None \<Rightarrow> (unconfigured_event request, vw))"

definition dynamic_refresh ::
    "'w verifier_env \<Rightarrow> 'b configured_upstreams \<Rightarrow> verification_request \<Rightarrow> 'w verifier_world \<Rightarrow> upstream_verified_event \<times> 'w verifier_world" where
  "dynamic_refresh env cf request vw =
     (case cf_verifier cf of
        Some (Single a, _) \<Rightarrow> refresh_object env a request vw
      | Some (Routing_Verifier r, _) \<Rightarrow> routing_refresh (refresh_object env) r request vw
      | None \<Rightarrow> (unconfigured_event request, vw))"

definition dynamic_invalidate :: "'b configured_upstreams \<Rightarrow> verification_request \<Rightarrow> 'w verifier_world \<Rightarrow> 'w verifier_world" where
  "dynamic_invalidate cf request vw =
     (case cf_verifier cf of
        Some (Single a, _) \<Rightarrow> invalidate_object a request vw
      | Some (Routing_Verifier r, _) \<Rightarrow> routing_invalidate invalidate_object r request vw
      | None \<Rightarrow> vw)"

section \<open>The manager\<close>

record config_snapshot =
  sn_config_path :: str
  sn_config_digest :: str
  sn_upstreams :: "public_config list"

definition snapshot_for :: "str \<Rightarrow> 'w configured_upstreams \<Rightarrow> config_snapshot" where
  "snapshot_for path cf = \<lparr>sn_config_path = path, sn_config_digest = cf_config_digest cf, sn_upstreams = map redacted (cf_config cf)\<rparr>"

text \<open>The text of a configuration, as the JSON library reads and pretty-prints it.\<close>

record config_text =
  ct_parse :: "str \<Rightarrow> str + upstream_config list"
  ct_print :: "upstream_config list \<Rightarrow> str + str"

definition parse_config_text :: "config_text \<Rightarrow> (str \<Rightarrow> str) \<Rightarrow> str \<Rightarrow> config_error + upstream_config list" where
  "parse_config_text ct dbg t =
     (if trim t = [] then Inr []
      else
        bind_result (map_err (\<lambda>e. InvalidConfig (lit ''invalid upstream config JSON: '' @ e)) (ct_parse ct t)) (\<lambda>config.
        bind_result (validate_config dbg config) (\<lambda>_. Inr config)))"

definition read_config_file :: "config_text \<Rightarrow> (str \<Rightarrow> str) \<Rightarrow> str \<Rightarrow> str \<Rightarrow> state_file \<Rightarrow> config_error + upstream_config list" where
  "read_config_file ct dbg io_error path f =
     (case f of
        Absent \<Rightarrow> Inr []
      | Unreadable \<Rightarrow> Inl (Config_Read path io_error)
      | Text t \<Rightarrow> parse_config_text ct dbg t)"

text \<open>Writing goes through a temporary file that is renamed; a failure leaves the file as it was.\<close>

datatype write_outcome = Written | Write_Fails str str

definition write_config_file :: "config_text \<Rightarrow> write_outcome \<Rightarrow> upstream_config list \<Rightarrow> state_file \<Rightarrow> (config_error + unit) \<times> state_file" where
  "write_config_file ct outcome config f =
     (case ct_print ct config of
        Inl e \<Rightarrow> (Inl (InvalidConfig (lit ''failed to serialize upstream config: '' @ e)), f)
      | Inr t \<Rightarrow> (case outcome of Write_Fails p e \<Rightarrow> (Inl (Config_Write p e), f) | Written \<Rightarrow> (Inr (), Text t)))"

record 'w config_manager =
  cm_path :: str
  cm_options :: runtime_options
  cm_state :: "'w configured_upstreams"

definition load_config ::
    "'w build_env \<Rightarrow> (canonical_error \<Rightarrow> str) \<Rightarrow> config_text \<Rightarrow> str \<Rightarrow> str \<Rightarrow> runtime_options \<Rightarrow> state_file \<Rightarrow> config_error + 'w config_manager" where
  "load_config env display ct io_error path opts f =
     bind_result (read_config_file ct (bv_dbg env) io_error path f) (\<lambda>config.
     bind_result (build_state env display config opts) (\<lambda>st.
       Inr \<lparr>cm_path = path, cm_options = opts, cm_state = st\<rparr>))"

definition replace_config ::
    "'w build_env \<Rightarrow> (canonical_error \<Rightarrow> str) \<Rightarrow> config_text \<Rightarrow> write_outcome \<Rightarrow> upstream_config list \<Rightarrow> 'w config_manager \<times> state_file \<Rightarrow>
     (config_error + config_snapshot) \<times> 'w config_manager \<times> state_file" where
  "replace_config env display ct outcome config mf =
     (case mf of (m, f) \<Rightarrow>
      case bind_result (validate_config (bv_dbg env) config) (\<lambda>_. build_state env display config (cm_options m)) of
        Inl e \<Rightarrow> (Inl e, (m, f))
      | Inr next_state \<Rightarrow>
          (case write_config_file ct outcome config f of
             (Inl e, f) \<Rightarrow> (Inl e, (m, f))
           | (Inr _, f) \<Rightarrow> (Inr (snapshot_for (cm_path m) next_state), (m\<lparr>cm_state := next_state\<rparr>, f))))"

fun set_first_enabled :: "str \<Rightarrow> bool \<Rightarrow> upstream_config list \<Rightarrow> upstream_config list option" where
  "set_first_enabled name enabled [] = None"
| "set_first_enabled name enabled (c # cs) =
     (if uc_name c = name then Some (c\<lparr>uc_enabled := enabled\<rparr> # cs) else map_option (Cons c) (set_first_enabled name enabled cs))"

text \<open>
  The switch works on a copy of the configuration it read; \<open>read\<close> is that copy, and the state may have
  been replaced since.
\<close>

definition set_enabled ::
    "'w build_env \<Rightarrow> (canonical_error \<Rightarrow> str) \<Rightarrow> config_text \<Rightarrow> write_outcome \<Rightarrow> str \<Rightarrow> bool \<Rightarrow> upstream_config list \<Rightarrow>
     'w config_manager \<times> state_file \<Rightarrow> (config_error + config_snapshot) \<times> 'w config_manager \<times> state_file" where
  "set_enabled env display ct outcome name enabled read mf =
     (case set_first_enabled name enabled read of
        None \<Rightarrow> (Inl (InvalidConfig (lit ''upstream '' @ bv_dbg env name @ lit '' not found'')), mf)
      | Some config \<Rightarrow> replace_config env display ct outcome config mf)"

definition serves_model :: "str \<Rightarrow> upstream_config \<Rightarrow> bool" where
  "serves_model model c \<longleftrightarrow> model \<in> fst ` set (uc_models c) \<or> model \<in> snd ` set (uc_models c)"

definition upstream_names_for_model :: "str \<Rightarrow> upstream_config list \<Rightarrow> str list" where
  "upstream_names_for_model model config = map uc_name (filter (serves_model model) (filter uc_enabled config))"

record attestation_target =
  at_upstream_name :: str
  at_provider :: upstream_provider
  at_base_url :: str
  at_upstream_model_id :: str
  at_bearer_token :: "str option"
  at_connect_timeout_seconds :: u64
  at_read_timeout_seconds :: u64

definition attestation_upstream_target :: "runtime_options \<Rightarrow> str \<Rightarrow> upstream_config list \<Rightarrow> attestation_target option" where
  "attestation_upstream_target opts model config =
     map_option (\<lambda>c. \<lparr>at_upstream_name = uc_name c, at_provider = uc_provider c, at_base_url = trim_slashes (uc_base_url c),
         at_upstream_model_id = unwrap_or (map_of (uc_models c) model) model, at_bearer_token = uc_bearer_token c,
         at_connect_timeout_seconds = unwrap_or (uc_connect_timeout_seconds c) (rt_connect_timeout_seconds opts),
         at_read_timeout_seconds = unwrap_or (uc_read_timeout_seconds c) (rt_read_timeout_seconds opts)\<rparr>)
       (List.find (serves_model model) (filter uc_enabled config))"

record metrics_target =
  mt_upstream_name :: str
  mt_base_url :: str
  mt_bearer_token :: "str option"
  mt_connect_timeout_seconds :: u64
  mt_read_timeout_seconds :: u64

definition metrics_targets :: "runtime_options \<Rightarrow> upstream_config list \<Rightarrow> metrics_target list" where
  "metrics_targets opts config =
     map (\<lambda>c. \<lparr>mt_upstream_name = uc_name c, mt_base_url = trim_slashes (uc_base_url c), mt_bearer_token = uc_bearer_token c,
         mt_connect_timeout_seconds = unwrap_or (uc_connect_timeout_seconds c) (rt_connect_timeout_seconds opts),
         mt_read_timeout_seconds = unwrap_or (uc_read_timeout_seconds c) (rt_read_timeout_seconds opts)\<rparr>)
       (filter uc_enabled config)"

fun min_list_opt :: "u64 list \<Rightarrow> u64 option" where
  "min_list_opt [] = None"
| "min_list_opt (x # xs) = Some (case min_list_opt xs of None \<Rightarrow> x | Some y \<Rightarrow> min x y)"

definition verification_refresh_interval_seconds :: "'w config_manager \<Rightarrow> u64 option" where
  "verification_refresh_interval_seconds m =
     (if cf_verifier (cm_state m) = None then None
      else min_list_opt (List.map_filter (\<lambda>c. verification_refresh_seconds c (cm_options m)) (filter uc_enabled (cf_config (cm_state m)))))"

definition session_refresh_interval_seconds :: "'w config_manager \<Rightarrow> u64 option" where
  "session_refresh_interval_seconds m =
     (if cf_verifier (cm_state m) = None then None
      else min_list_opt (List.map_filter session_refresh_seconds
        (filter (\<lambda>c. uc_provider c = Chutes_Provider) (filter uc_enabled (cf_config (cm_state m))))))"

record prewarm_result =
  pw_upstream_name :: str
  pw_model_id :: str
  pw_url_origin :: "str option"
  pw_verifier_id :: str
  pw_result :: str
  pw_reason :: "str option"

definition probe_request :: "(bytes \<Rightarrow> bytes) \<Rightarrow> (bytes \<Rightarrow> str) \<Rightarrow> verification_target \<Rightarrow> verification_request" where
  "probe_request sha hx target =
     \<lparr>vr_upstream_name = vt_upstream_name target, vr_url_origin = vt_url_origin target, vr_model_id = vt_model_id target,
      vr_forwarded_body_hash = sha256_hex sha hx [], vr_required = True\<rparr>"

text \<open>The background verification: one probe per target, every event given to the sink if there is one.\<close>

fun probe_targets ::
    "(bytes \<Rightarrow> bytes) \<Rightarrow> (bytes \<Rightarrow> str) \<Rightarrow> (verification_request \<Rightarrow> 'v \<Rightarrow> upstream_verified_event \<times> 'v) \<Rightarrow>
     (upstream_verified_event \<Rightarrow> 's \<Rightarrow> 's) option \<Rightarrow> verification_target list \<Rightarrow> 'v \<times> 's \<Rightarrow> prewarm_result list \<times> 'v \<times> 's" where
  "probe_targets sha hx verify sink [] vs = ([], vs)"
| "probe_targets sha hx verify sink (target # rest) vs =
     (case vs of (v, s) \<Rightarrow>
      case verify (probe_request sha hx target) v of (event, v) \<Rightarrow>
      let s = (case sink of Some record \<Rightarrow> record event s | None \<Rightarrow> s);
          result = \<lparr>pw_upstream_name = vt_upstream_name target, pw_model_id = vt_model_id target, pw_url_origin = vt_url_origin target,
            pw_verifier_id = uv_verifier_id event, pw_result = verification_result_str (uv_result event), pw_reason = uv_reason event\<rparr>
      in case probe_targets sha hx verify sink rest (v, s) of (results, vs) \<Rightarrow> (result # results, vs))"

definition run_upstream_verification ::
    "(bytes \<Rightarrow> bytes) \<Rightarrow> (bytes \<Rightarrow> str) \<Rightarrow> 'w verifier_env \<Rightarrow> (upstream_verified_event \<Rightarrow> 's \<Rightarrow> 's) option \<Rightarrow> 'b config_manager \<Rightarrow> bool \<Rightarrow>
     'w verifier_world \<times> 's \<Rightarrow> prewarm_result list \<times> 'w verifier_world \<times> 's" where
  "run_upstream_verification sha hx env sink m refresh vs =
     (let cf = cm_state m
      in if cf_verifier cf = None then ([], vs)
         else if refresh
         then probe_targets sha hx (dynamic_refresh env cf) sink (verification_targets_for_refresh (cf_config cf) (cm_options m)) vs
         else probe_targets sha hx (dynamic_verify env cf) sink (verification_targets (cf_config cf)) vs)"

record session_refresh_result =
  sr_upstream_name :: str
  sr_model_id :: str
  sr_result :: str
  sr_refreshed_nonces :: nat
  sr_reason :: "str option"

definition session_result :: "upstream_config \<Rightarrow> str \<Rightarrow> string \<Rightarrow> nat \<Rightarrow> str option \<Rightarrow> session_refresh_result" where
  "session_result c model_id result refreshed_nonces reason =
     \<lparr>sr_upstream_name = uc_name c, sr_model_id = model_id, sr_result = lit result, sr_refreshed_nonces = refreshed_nonces, sr_reason = reason\<rparr>"

definition on_session :: "str \<Rightarrow> ('w, 'a) chutes_call \<Rightarrow> 'w verifier_world \<Rightarrow> (upstream_error + 'a) \<times> 'w verifier_world" where
  "on_session store m vw =
     (case m (vw_stores vw store, vw_world vw) of (r, cache, w) \<Rightarrow> (r, vw\<lparr>vw_stores := (vw_stores vw)(store := cache), vw_world := w\<rparr>))"

definition refresh_session ::
    "'w build_env \<Rightarrow> 'w verifier_env \<Rightarrow> 'w configured_upstreams \<Rightarrow> upstream_config \<Rightarrow> chutes_backend \<Rightarrow> str \<Rightarrow> str \<Rightarrow> 'w verifier_world \<Rightarrow>
     session_refresh_result \<times> 'w verifier_world" where
  "refresh_session benv env cf c backend store model_id vw =
     (let request = probe_request (vl_sha256 (bv_verifier_lib benv)) (vl_hex_encode (bv_verifier_lib benv)) (target_of c model_id)
      in case dynamic_verify env cf request vw of (event, vw) \<Rightarrow>
         if uv_result event \<noteq> Verified then (session_result c model_id ''failed'' 0 (uv_reason event), vw)
         else
           case on_session store (refresh_verified_sessions_for_model (bv_chutes benv) backend model_id event) vw of
             (Inr refreshed, vw) \<Rightarrow> (session_result c model_id ''refreshed'' refreshed None, vw)
           | (Inl err, vw) \<Rightarrow>
               (case err of
                  ChannelBindingMismatch _ \<Rightarrow>
                    (case dynamic_refresh env cf request vw of (again, vw) \<Rightarrow>
                       if uv_result again = Verified then (session_result c model_id ''refreshed_via_verifier'' 0 None, vw)
                       else (session_result c model_id ''failed'' 0 (uv_reason again), vw))
                | _ \<Rightarrow> (session_result c model_id ''failed'' 0 (Some (upstream_error_display err)), vw)))"

fun each_model :: "(str \<Rightarrow> 'v \<Rightarrow> 'a \<times> 'v) \<Rightarrow> str list \<Rightarrow> 'v \<Rightarrow> 'a list \<times> 'v" where
  "each_model f [] v = ([], v)"
| "each_model f (m # ms) v = (case f m v of (x, v) \<Rightarrow> case each_model f ms v of (xs, v) \<Rightarrow> (x # xs, v))"

fun config_error_display :: "config_error \<Rightarrow> str" where
  "config_error_display (Config_Read p e) = lit ''failed to read upstream config '' @ p @ lit '': '' @ e"
| "config_error_display (Config_Write p e) = lit ''failed to write upstream config '' @ p @ lit '': '' @ e"
| "config_error_display (InvalidConfig m) = lit ''invalid upstream config: '' @ m"

fun refresh_upstreams ::
    "'w build_env \<Rightarrow> 'w verifier_env \<Rightarrow> 'w config_manager \<Rightarrow> upstream_config list \<Rightarrow> 'w verifier_world \<Rightarrow>
     session_refresh_result list \<times> 'w verifier_world" where
  "refresh_upstreams benv env m [] vw = ([], vw)"
| "refresh_upstreams benv env m (c # cs) vw =
     (case registry_chutes (cf_sessions (cm_state m)) (uc_name c) of
        None \<Rightarrow> refresh_upstreams benv env m cs vw
      | Some store \<Rightarrow>
          (case (case build_chutes_provider_backend benv c (cm_options m) of
                   Inl err \<Rightarrow> (map (\<lambda>model_id. session_result c model_id ''failed'' 0 (Some (config_error_display err))) (unique_upstream_models c), vw)
                 | Inr backend \<Rightarrow> each_model (refresh_session benv env (cm_state m) c backend store) (unique_upstream_models c) vw) of
             (results, vw) \<Rightarrow> (case refresh_upstreams benv env m cs vw of (rest, vw) \<Rightarrow> (results @ rest, vw))))"

definition refresh_provider_sessions ::
    "'w build_env \<Rightarrow> 'w verifier_env \<Rightarrow> 'w config_manager \<Rightarrow> 'w verifier_world \<Rightarrow> session_refresh_result list \<times> 'w verifier_world" where
  "refresh_provider_sessions benv env m vw =
     (if cf_verifier (cm_state m) = None then ([], vw)
      else refresh_upstreams benv env m
        (filter (\<lambda>c. session_refresh_seconds c \<noteq> None) (filter (\<lambda>c. uc_provider c = Chutes_Provider)
          (filter uc_enabled (cf_config (cm_state m))))) vw)"

section \<open>Lemmas: validation\<close>

definition nonblank :: "str \<Rightarrow> bool" where
  "nonblank s \<longleftrightarrow> trim s \<noteq> []"

definition route_ids_of :: "upstream_config \<Rightarrow> str list" where
  "route_ids_of c = map (route_id_of c \<circ> fst) (uc_models c)"

definition well_formed_upstream :: "upstream_config \<Rightarrow> bool" where
  "well_formed_upstream c \<longleftrightarrow> nonblank (uc_name c) \<and> nonblank (uc_base_url c) \<and> uc_models c \<noteq> []
     \<and> (\<forall>(p, u) \<in> set (uc_models c). nonblank p \<and> nonblank u)
     \<and> Some 0 \<notin> {uc_connect_timeout_seconds c, uc_read_timeout_seconds c, uc_verifier_request_timeout_seconds c, uc_verifier_cache_seconds c}
     \<and> (\<forall>n. uc_chutes_discovery_rounds c = Some n \<longrightarrow> 1 \<le> n \<and> n \<le> 10)
     \<and> (\<forall>b. uc_chutes_e2ee_api_base c = Some b \<longrightarrow> nonblank b)
     \<and> (\<forall>ids. uc_chutes_chute_ids c = Some ids \<longrightarrow> ids \<noteq> []
          \<and> (\<forall>(m, i) \<in> set ids. nonblank m \<and> m \<in> snd ` set (uc_models c) \<and> config_uuid i))
     \<and> (uc_provider c = Chutes_Provider \<or> uc_chutes_e2ee_api_base c = None \<and> uc_chutes_chute_ids c = None
          \<and> uc_chutes_discovery_rounds c = None \<and> uc_chutes_discovery_interval_seconds c = None)
     \<and> (uc_provider c = Anthropic_Api \<longrightarrow> (\<exists>p. uc_path c = Some p \<and> p \<noteq> []))"

definition well_formed_config :: "upstream_config list \<Rightarrow> bool" where
  "well_formed_config config \<longleftrightarrow> list_all well_formed_upstream config \<and> distinct (map uc_name config)
     \<and> distinct (concat (map route_ids_of config))"

lemma guard_Inr: "(if P then Inl e else x) = Inr y \<longleftrightarrow> \<not> P \<and> x = Inr y"
  by simp

lemma bind_unit: "bind_result x (\<lambda>_. y) = Inr z \<longleftrightarrow> x = Inr () \<and> y = Inr z"
  by (cases x) simp_all

lemma check_timeouts_iff: "check_timeouts dbg name xs = Inr () \<longleftrightarrow> Some 0 \<notin> snd ` set xs"
  by (induction dbg name xs rule: check_timeouts.induct) auto

lemma check_chute_ids_iff:
  "check_chute_ids dbg name models ids = Inr () \<longleftrightarrow> (\<forall>(m, i) \<in> set ids. nonblank m \<and> m \<in> models \<and> config_uuid i)"
  by (induction dbg name models ids rule: check_chute_ids.induct) (auto simp: nonblank_def)

lemma check_models_Inr:
  "check_models dbg c route_ids ms = Inr ids' \<longleftrightarrow>
     (\<forall>(p, u) \<in> set ms. nonblank p \<and> nonblank u) \<and> distinct (map (route_id_of c \<circ> fst) ms)
     \<and> set (map (route_id_of c \<circ> fst) ms) \<inter> route_ids = {} \<and> ids' = route_ids \<union> set (map (route_id_of c \<circ> fst) ms)"
  by (induction dbg c route_ids ms rule: check_models.induct) (auto simp: nonblank_def)

lemma one_le_u64: "(1::u64) \<le> n \<longleftrightarrow> n \<noteq> 0"
  by (metis word_coorder.extremum word_le_0_iff word_not_simps(1) linorder_not_le word_less_1 less_le_not_le)

lemma check_chutes_fields_iff:
  "check_chutes_fields dbg c = Inr () \<longleftrightarrow>
     (\<forall>n. uc_chutes_discovery_rounds c = Some n \<longrightarrow> 1 \<le> n \<and> n \<le> 10) \<and> (\<forall>b. uc_chutes_e2ee_api_base c = Some b \<longrightarrow> nonblank b)
     \<and> (\<forall>ids. uc_chutes_chute_ids c = Some ids \<longrightarrow> ids \<noteq> []
          \<and> (\<forall>(m, i) \<in> set ids. nonblank m \<and> m \<in> snd ` set (uc_models c) \<and> config_uuid i))
     \<and> (uc_provider c = Chutes_Provider \<or> uc_chutes_e2ee_api_base c = None \<and> uc_chutes_chute_ids c = None
          \<and> uc_chutes_discovery_rounds c = None \<and> uc_chutes_discovery_interval_seconds c = None)"
proof -
  have rounds: "(case uc_chutes_discovery_rounds c of
        Some rounds \<Rightarrow> if rounds = 0 \<or> 10 < rounds then Inl e else Inr () | None \<Rightarrow> Inr ()) = Inr ()
      \<longleftrightarrow> (\<forall>n. uc_chutes_discovery_rounds c = Some n \<longrightarrow> 1 \<le> n \<and> n \<le> 10)" for e :: config_error
    by (auto simp: one_le_u64 linorder_not_le split: option.split)
  have base: "(case uc_chutes_e2ee_api_base c of Some b \<Rightarrow> if trim b = [] then Inl e else Inr () | None \<Rightarrow> Inr ()) = Inr ()
      \<longleftrightarrow> (\<forall>b. uc_chutes_e2ee_api_base c = Some b \<longrightarrow> nonblank b)" for e :: config_error
    by (simp add: nonblank_def split: option.split)
  have ids: "(case uc_chutes_chute_ids c of
        Some ids \<Rightarrow> if ids = [] then Inl e else check_chute_ids dbg (uc_name c) (snd ` set (uc_models c)) ids | None \<Rightarrow> Inr ()) = Inr ()
      \<longleftrightarrow> (\<forall>ids. uc_chutes_chute_ids c = Some ids \<longrightarrow> ids \<noteq> []
          \<and> (\<forall>(m, i) \<in> set ids. nonblank m \<and> m \<in> snd ` set (uc_models c) \<and> config_uuid i))" for e :: config_error
    by (simp add: check_chute_ids_iff split: option.split)
  show ?thesis
    unfolding check_chutes_fields_def bind_unit guard_Inr rounds base ids by (simp only: de_Morgan_conj de_Morgan_disj not_not simp_thms)
qed

lemma check_upstream_iff:
  "check_upstream dbg names c = Inr () \<and> (\<forall>(p, u) \<in> set (uc_models c). nonblank p \<and> nonblank u)
     \<longleftrightarrow> well_formed_upstream c \<and> uc_name c \<notin> names"
proof -
  have timeouts: "check_timeouts dbg name [(''connect_timeout_seconds'', uc_connect_timeout_seconds c), (''read_timeout_seconds'', uc_read_timeout_seconds c),
           (''verifier_request_timeout_seconds'', uc_verifier_request_timeout_seconds c), (''verifier_cache_seconds'', uc_verifier_cache_seconds c)] = Inr ()
      \<longleftrightarrow> Some 0 \<notin> {uc_connect_timeout_seconds c, uc_read_timeout_seconds c, uc_verifier_request_timeout_seconds c, uc_verifier_cache_seconds c}" for name
    by (simp add: check_timeouts_iff)
  have path: "(uc_provider c = Anthropic_Api \<and> (case uc_path c of None \<Rightarrow> True | Some p \<Rightarrow> p = []))
      \<longleftrightarrow> \<not> (uc_provider c = Anthropic_Api \<longrightarrow> (\<exists>p. uc_path c = Some p \<and> p \<noteq> []))"
    by (simp split: option.split)
  show ?thesis
    unfolding check_upstream_def well_formed_upstream_def bind_unit guard_Inr path timeouts check_chutes_fields_iff nonblank_def [symmetric] not_not
    by (simp only: simp_thms conj_ac)
qed

lemma merge_disjoint:
  "((w \<and> n \<notin> names) \<and> d \<and> R \<inter> ids = {} \<and> (ws \<and> dn \<and> N \<inter> insert n names = {} \<and> dc \<and> C \<inter> (ids \<union> R) = {}))
   \<longleftrightarrow> ((w \<and> ws) \<and> (n \<notin> N \<and> dn) \<and> insert n N \<inter> names = {} \<and> (d \<and> dc \<and> R \<inter> C = {}) \<and> (R \<union> C) \<inter> ids = {})"
  by blast

lemma validate_loop_iff:
  "validate_loop dbg names route_ids cs = Inr () \<longleftrightarrow>
     list_all well_formed_upstream cs \<and> distinct (map uc_name cs) \<and> uc_name ` set cs \<inter> names = {}
     \<and> distinct (concat (map route_ids_of cs)) \<and> set (concat (map route_ids_of cs)) \<inter> route_ids = {}"
proof (induction cs arbitrary: names route_ids)
  case (Cons c cs)
  have "validate_loop dbg names route_ids (c # cs) = Inr () \<longleftrightarrow>
      (check_upstream dbg names c = Inr () \<and> (\<forall>(p, u) \<in> set (uc_models c). nonblank p \<and> nonblank u))
      \<and> distinct (route_ids_of c) \<and> set (route_ids_of c) \<inter> route_ids = {}
      \<and> validate_loop dbg (insert (uc_name c) names) (route_ids \<union> set (route_ids_of c)) cs = Inr ()"
    unfolding validate_loop.simps bind_unit bind_result_Inr check_models_Inr route_ids_of_def
    by (simp only: conj_assoc ex_simps simp_thms)
  also have "\<dots> \<longleftrightarrow> (well_formed_upstream c \<and> uc_name c \<notin> names)
      \<and> distinct (route_ids_of c) \<and> set (route_ids_of c) \<inter> route_ids = {}
      \<and> validate_loop dbg (insert (uc_name c) names) (route_ids \<union> set (route_ids_of c)) cs = Inr ()"
    by (simp only: check_upstream_iff)
  finally show ?case
    unfolding Cons.IH list.map concat.simps set_append distinct_append distinct.simps list.pred_inject list.set image_insert set_map
    by (rule trans) (rule merge_disjoint)
qed simp

lemma validate_config_well_formed: "validate_config dbg config = Inr () \<longleftrightarrow> well_formed_config config"
  by (simp add: validate_config_def validate_loop_iff well_formed_config_def)

section \<open>Lemmas: routes\<close>

definition configured_route :: "'w build_env \<Rightarrow> upstream_config \<Rightarrow> configured_backend \<Rightarrow> str \<times> str \<Rightarrow> 'w upstream_world model_route" where
  "configured_route env c backend pu =
     \<lparr>mr_public_model_id = fst pu, mr_upstream_model_id = snd pu, mr_upstream = backend_of env backend, mr_route_id = route_id_of c (fst pu),
      mr_path = map_option (\<lambda>p. if \<not> starts_with (lit ''/'') p then lit ''/'' @ p else p) (uc_path c),
      mr_is_tee = Some (provider_is_tee (uc_provider c))\<rparr>"

lemma build_route_ok:
  assumes "well_formed_upstream c" "(p, u) \<in> set (uc_models c)"
  shows "build_route env c backend p u = Inr (configured_route env c backend (p, u))"
proof -
  have "nonblank p" "nonblank u" "nonblank (uc_name c)" using assms by (auto simp: well_formed_upstream_def)
  then have "nonblank (route_id_of c p)" by (auto simp: nonblank_def trim_Nil route_id_of_def)
  with \<open>nonblank p\<close> \<open>nonblank u\<close> show ?thesis
    by (simp add: build_route_def new_model_route_def nonblank_def configured_route_def with_is_tee_def with_path_def)
qed

definition routes_of :: "'w build_env \<Rightarrow> runtime_options \<Rightarrow> str list \<Rightarrow> upstream_config \<Rightarrow> 'w upstream_world model_route list" where
  "routes_of env opts sessions c = map (configured_route env c (projr (build_provider_backend env c opts sessions))) (uc_models c)"

lemma routes_of_ids: "map mr_route_id (routes_of env opts sessions c) = route_ids_of c"
  by (simp add: routes_of_def route_ids_of_def configured_route_def comp_def)

lemma add_models_represents:
  assumes "represents r rs" "well_formed_upstream c" "set ms \<subseteq> set (uc_models c)"
    and "distinct (map mr_route_id (rs @ map (configured_route env c b) ms))"
  shows "\<exists>r'. add_models env c b ms r = Inr r' \<and> represents r' (rs @ map (configured_route env c b) ms)"
  using assms
proof (induction ms arbitrary: r rs)
  case (Cons pu ms)
  obtain p u where pu: "pu = (p, u)" by fastforce
  let ?x = "configured_route env c b (p, u)"
  have route: "build_route env c b p u = Inr ?x" by (rule build_route_ok) (use Cons.prems pu in auto)
  have "mr_route_id ?x \<notin> set (map mr_route_id rs)" using Cons.prems(4) pu by simp
  then obtain r1 where r1: "add_route (bv_dbg env) r ?x = Inr r1" "represents r1 (rs @ [?x])"
    using represents_add [OF Cons.prems(1)] by blast
  obtain r' where "add_models env c b ms r1 = Inr r'" "represents r' ((rs @ [?x]) @ map (configured_route env c b) ms)"
    using Cons.IH [OF r1(2) Cons.prems(2)] Cons.prems(3,4) pu by auto
  then show ?case using route r1(1) pu by simp
qed simp

lemma add_upstreams_represents:
  assumes "represents r rs" "list_all well_formed_upstream cs"
    and "\<And>c. c \<in> set cs \<Longrightarrow> \<exists>b. build_provider_backend env c opts sessions = Inr b"
    and "distinct (map mr_route_id (rs @ concat (map (routes_of env opts sessions) cs)))"
  shows "\<exists>r'. add_upstreams env opts sessions cs r = Inr r' \<and> represents r' (rs @ concat (map (routes_of env opts sessions) cs))"
  using assms
proof (induction cs arbitrary: r rs)
  case (Cons c cs)
  obtain b where b: "build_provider_backend env c opts sessions = Inr b" using Cons.prems(3) by force
  then have routes: "routes_of env opts sessions c = map (configured_route env c b) (uc_models c)" by (simp add: routes_of_def)
  have "distinct (map mr_route_id (rs @ map (configured_route env c b) (uc_models c)))"
    using Cons.prems(4) by (simp add: routes Int_Un_distrib)
  from add_models_represents [OF Cons.prems(1) _ subset_refl this] Cons.prems(2)
  obtain r1 where r1: "add_models env c b (uc_models c) r = Inr r1" "represents r1 (rs @ routes_of env opts sessions c)"
    unfolding routes by auto
  have "distinct (map mr_route_id ((rs @ routes_of env opts sessions c) @ concat (map (routes_of env opts sessions) cs)))"
    using Cons.prems(4) by simp
  from Cons.IH [OF r1(2) _ _ this] Cons.prems(2,3)
  obtain r' where "add_upstreams env opts sessions cs r1 = Inr r'"
    "represents r' ((rs @ routes_of env opts sessions c) @ concat (map (routes_of env opts sessions) cs))"
    by (metis list.pred_inject(2) list.set_intros(2))
  then show ?case using b r1(1) by simp
qed simp

lemma add_upstreams_backends:
  "add_upstreams env opts sessions cs r = Inr r' \<Longrightarrow> c \<in> set cs \<Longrightarrow> \<exists>b. build_provider_backend env c opts sessions = Inr b"
  by (induction cs arbitrary: r) (auto simp: bind_result_Inr)

lemma distinct_concat_filter: "distinct (concat (map f xs)) \<Longrightarrow> distinct (concat (map f (filter P xs)))"
  by (induction xs) auto

lemma find_distinct: "distinct (map f xs) \<Longrightarrow> x \<in> set xs \<Longrightarrow> List.find (\<lambda>y. f y = f x) xs = Some x"
  by (induction xs) auto

lemma find_member: "List.find P xs = Some x \<Longrightarrow> x \<in> set xs \<and> P x"
  by (induction xs) (auto split: if_splits)

lemma map_routes_of_ids: "map mr_route_id (concat (map (routes_of env opts sessions) cs)) = concat (map route_ids_of cs)"
  by (induction cs) (simp_all add: routes_of_ids)

lemma build_state_Inr:
  assumes "build_state env display config opts = Inr cf"
  obtains "well_formed_config config" "cf_config cf = config" "config_digest env display config = Inr (cf_config_digest cf)"
    "cf_sessions cf = new_session_registry (filter uc_enabled config)"
    "build_verifier env (filter uc_enabled config) opts (cf_sessions cf) = Inr (cf_verifier cf)"
    "cf_backend cf = None \<longleftrightarrow> filter uc_enabled config = []"
    "\<And>r. cf_backend cf = Some r \<Longrightarrow> build_model_router env (filter uc_enabled config) opts (cf_sessions cf) = Inr r"
  using assms
  by (auto simp: build_state_def bind_unit validate_config_well_formed bind_result_Inr Let_def split: if_splits intro!: that)

lemma build_model_router_represents:
  assumes "well_formed_config config" "build_model_router env (filter uc_enabled config) opts sessions = Inr r"
  shows "represents r (concat (map (routes_of env opts sessions) (filter uc_enabled config)))"
    and "\<And>c. c \<in> set config \<Longrightarrow> uc_enabled c \<Longrightarrow> \<exists>b. build_provider_backend env c opts sessions = Inr b"
proof -
  let ?cs = "filter uc_enabled config"
  have run: "add_upstreams env opts sessions ?cs (new_model_router (lit ''model-router'')) = Inr r"
    using assms(2) by (simp add: build_model_router_def)
  show built: "\<exists>b. build_provider_backend env c opts sessions = Inr b" if "c \<in> set config" "uc_enabled c" for c
    using add_upstreams_backends [OF run] that by simp
  have wf: "list_all well_formed_upstream ?cs" using assms(1) by (simp add: well_formed_config_def list_all_iff)
  have cs: "\<exists>b. build_provider_backend env c opts sessions = Inr b" if "c \<in> set ?cs" for c using built that by simp
  have "distinct (map mr_route_id ([] @ concat (map (routes_of env opts sessions) ?cs)))"
    using assms(1) by (simp add: map_routes_of_ids well_formed_config_def distinct_concat_filter)
  from add_upstreams_represents [OF represents_new wf cs this]
  obtain r' where "add_upstreams env opts sessions ?cs (new_model_router (lit ''model-router'')) = Inr r'"
    "represents r' ([] @ concat (map (routes_of env opts sessions) ?cs))"
    by blast
  with run show "represents r (concat (map (routes_of env opts sessions) ?cs))" by simp
qed

section \<open>Lemmas: verifiers\<close>

lemma on_bridge_fst: "fst (on_bridge a v store f vw) = fst (f (v, map_option (vw_stores vw) store, vw_world vw))"
  by (simp add: on_bridge_def split: prod.split)

lemma verify_object_speaks: "speaks_for request (fst (verify_object env a request vw))"
  by (simp add: verify_object_def on_bridge_fst ext_verify_speaks preverified.verify_speaks [simplified] on_native_def
      split: verifier_object.split prod.split) (metis aci_verify_speaks fst_conv)

lemma refresh_object_speaks: "speaks_for request (fst (refresh_object env a request vw))"
  by (simp add: refresh_object_def on_bridge_fst bridge.refresh_speaks preverified.verify_speaks [simplified] on_native_def
      split: verifier_object.split prod.split) (metis aci_verify_speaks fst_conv)

interpretation objects: identifying_verifier "verify_object env a" "refresh_object env a" for env a
  by unfold_locales (rule verify_object_speaks refresh_object_speaks)+

lemma unconfigured_speaks: "speaks_for request (unconfigured_event request)"
  by (simp add: speaks_for_def unconfigured_event_def)

lemma dynamic_speaks:
  "speaks_for request (fst (dynamic_verify env cf request vw))" "speaks_for request (fst (dynamic_refresh env cf request vw))"
proof -
  have routed: "identifying_verifier (routing_verify (verify_object env) r) (routing_refresh (refresh_object env) r)" for r
    by (rule routing_identifying) (rule objects.identifying_verifier_axioms)
  show "speaks_for request (fst (dynamic_verify env cf request vw))" "speaks_for request (fst (dynamic_refresh env cf request vw))"
    by (simp_all add: dynamic_verify_def dynamic_refresh_def verify_object_speaks refresh_object_speaks unconfigured_speaks
        identifying_verifier.verify_speaks [OF routed] identifying_verifier.refresh_speaks [OF routed]
        split: option.split prod.split configured_verifier.split)
qed

interpretation configured: identifying_verifier "dynamic_verify env cf" "dynamic_refresh env cf" for env cf
  by unfold_locales (rule dynamic_speaks)+

section \<open>Properties\<close>

text \<open>
  What a configuration must satisfy. Validation accepts exactly the configurations whose upstreams
  are well formed one by one (names, URLs and models present, no zero timeout, Chutes fields only and
  correctly on Chutes upstreams, a path for the Anthropic API) and have distinct names and distinct
  route ids.
\<close>

theorem accepted_config_well_formed: "validate_config dbg config = Inr () \<longleftrightarrow> well_formed_config config"
  by (rule validate_config_well_formed)

text \<open>
  C35. The router serves exactly the configured routes. In a state built from a configuration, every
  model of every enabled upstream has its own route, to that upstream's backend and upstream model
  and marked as attested or not by its provider; every route is one of those; without an enabled
  upstream there is no router.
\<close>

theorem configured_routes_exact:
  assumes "build_state env display config opts = Inr cf"
  shows "case cf_backend cf of
      None \<Rightarrow> filter uc_enabled config = []
    | Some r \<Rightarrow>
        (\<forall>c \<in> set config. uc_enabled c \<longrightarrow> (\<forall>pu \<in> set (uc_models c). \<exists>b. build_provider_backend env c opts (cf_sessions cf) = Inr b
            \<and> route_for_id dbg r (route_id_of c (fst pu)) = Inr (configured_route env c b pu)))
        \<and> (\<forall>i x. route_for_id dbg r i = Inr x \<longrightarrow> (\<exists>c \<in> set config. uc_enabled c \<and> (\<exists>pu \<in> set (uc_models c). \<exists>b.
            build_provider_backend env c opts (cf_sessions cf) = Inr b \<and> i = route_id_of c (fst pu) \<and> x = configured_route env c b pu)))"
proof (cases "cf_backend cf")
  case None
  show ?thesis by (rule build_state_Inr [OF assms]) (simp add: None)
next
  case (Some r)
  have wf: "well_formed_config config" and run: "build_model_router env (filter uc_enabled config) opts (cf_sessions cf) = Inr r"
    by (rule build_state_Inr [OF assms]; use Some in simp)+
  let ?rs = "concat (map (routes_of env opts (cf_sessions cf)) (filter uc_enabled config))"
  have rep: "represents r ?rs" and built: "\<And>c. c \<in> set config \<Longrightarrow> uc_enabled c \<Longrightarrow> \<exists>b. build_provider_backend env c opts (cf_sessions cf) = Inr b"
    using build_model_router_represents [OF wf run] by blast+
  have ids: "distinct (map mr_route_id ?rs)" using rep by (simp add: represents_def)
  have "\<exists>b. build_provider_backend env c opts (cf_sessions cf) = Inr b
      \<and> route_for_id dbg r (route_id_of c (fst pu)) = Inr (configured_route env c b pu)"
    if c: "c \<in> set config" "uc_enabled c" "pu \<in> set (uc_models c)" for c pu
  proof -
    obtain b where b: "build_provider_backend env c opts (cf_sessions cf) = Inr b" using built c by blast
    let ?x = "configured_route env c b pu"
    have "?x \<in> set ?rs" using c b by (auto simp: routes_of_def)
    from find_distinct [OF ids this] have "route_for_id dbg r (mr_route_id ?x) = Inr ?x"
      by (simp add: represents_route_for_id [OF rep])
    then show ?thesis using b by (simp add: configured_route_def)
  qed
  moreover have "\<exists>c \<in> set config. uc_enabled c \<and> (\<exists>pu \<in> set (uc_models c). \<exists>b.
      build_provider_backend env c opts (cf_sessions cf) = Inr b \<and> i = route_id_of c (fst pu) \<and> x = configured_route env c b pu)"
    if x: "route_for_id dbg r i = Inr x" for i x
  proof -
    have "x \<in> set ?rs \<and> mr_route_id x = i"
      using x by (auto simp: represents_route_for_id [OF rep] split: option.splits dest: find_member)
    then obtain c pu where c: "c \<in> set config" "uc_enabled c" "pu \<in> set (uc_models c)"
      "x = configured_route env c (projr (build_provider_backend env c opts (cf_sessions cf))) pu" "mr_route_id x = i"
      by (auto simp: routes_of_def)
    obtain b where "build_provider_backend env c opts (cf_sessions cf) = Inr b" using built c by blast
    with c show ?thesis by (intro bexI [OF _ c(1)] conjI bexI [OF _ c(3)] exI [of _ b]) (auto simp: configured_route_def)
  qed
  ultimately show ?thesis using Some by auto
qed

text \<open>A configuration with one plain upstream.\<close>

definition sample_upstream :: upstream_config where
  "sample_upstream = \<lparr>uc_name = lit ''u'', uc_enabled = True, uc_provider = OpenAiCompatible, uc_base_url = lit ''https://u'', uc_path = None,
     uc_models = [(lit ''p'', lit ''m'')], uc_bearer_token = None, uc_accepted_workload_ids = None, uc_accepted_image_digests = None,
     uc_accepted_kms_roots = None, uc_pccs_url = None, uc_verifier_cache_seconds = None, uc_connect_timeout_seconds = None,
     uc_read_timeout_seconds = None, uc_verifier_request_timeout_seconds = None, uc_verification_refresh_seconds = None,
     uc_session_refresh_seconds = None, uc_chutes_e2ee_api_base = None, uc_chutes_chute_ids = None, uc_chutes_discovery_rounds = None,
     uc_chutes_discovery_interval_seconds = None\<rparr>"

definition sample_options :: runtime_options where
  "sample_options = \<lparr>rt_verifier_mode = Mode_Preverified, rt_accepted_workload_ids = [], rt_accepted_image_digests = [], rt_accepted_kms_roots = [],
     rt_pccs_url = None, rt_verifier_cache_seconds = 300, rt_connect_timeout_seconds = 1, rt_read_timeout_seconds = 1,
     rt_verifier_request_timeout_seconds = 1\<rparr>"

definition sample_build :: "unit build_env" where
  "sample_build = \<lparr>bv_serde = sample_codec, bv_dbg = (\<lambda>s. s), bv_http = sample_http,
     bv_chutes = \<lparr>ce_lib = sample_chutes_lib, ce_http = sample_http, ce_now = (\<lambda>_. 0)\<rparr>, bv_random = (\<lambda>w. (sample_random, w)),
     bv_waiting = (\<lambda>st. st), bv_verifier_lib = sample_verifier_lib, bv_verifier_client = (\<lambda>_ _. Inr ()), bv_default_pccs_url = [],
     bv_manifest_dir = []\<rparr>"

lemma sample_names: "nonblank (lit ''u'')" "nonblank (lit ''v'')" "nonblank (lit ''p'')" "nonblank (lit ''m'')" "nonblank (lit ''https://u'')"
  by (simp_all add: nonblank_def trim_Nil lit_def is_whitespace_def)

lemma sample_well_formed: "well_formed_config [sample_upstream]"
  by (simp add: well_formed_config_def well_formed_upstream_def sample_upstream_def sample_names route_ids_of_def)

lemma sample_digest: "\<exists>d. config_digest sample_build display [sample_upstream] = Inr d"
proof -
  have "wf_json (config_value sample_upstream)" "float_free (config_value sample_upstream)"
    by (simp_all add: config_value_def sample_upstream_def opt_member_def json_str_map_def lit_def)
  then have "wf_json (Array (map config_value [sample_upstream]))" "float_free (Array (map config_value [sample_upstream]))" by simp_all
  from jcs_digest_defined [OF this] show ?thesis unfolding config_digest_def map_err_Inr by blast
qed

lemma sample_backend_built: "\<exists>b. build_provider_backend sample_build sample_upstream sample_options sessions = Inr b"
  by (simp add: build_provider_backend_def sample_upstream_def new_openai_backend_def sample_build_def sample_http_def)

lemma sample_router: "\<exists>r. build_model_router sample_build [sample_upstream] sample_options sessions = Inr r"
proof -
  obtain b where b: "build_provider_backend sample_build sample_upstream sample_options sessions = Inr b" using sample_backend_built by blast
  have "well_formed_upstream sample_upstream" using sample_well_formed by (simp add: well_formed_config_def)
  then have "build_route sample_build sample_upstream b (lit ''p'') (lit ''m'') = Inr (configured_route sample_build sample_upstream b (lit ''p'', lit ''m''))"
    by (rule build_route_ok) (simp add: sample_upstream_def)
  moreover have "uc_enabled sample_upstream" "uc_models sample_upstream = [(lit ''p'', lit ''m'')]" by (simp_all add: sample_upstream_def)
  ultimately show ?thesis using b by (simp add: build_model_router_def add_route_def new_model_router_def)
qed

lemma sample_state: "\<exists>cf. build_state sample_build display [sample_upstream] sample_options = Inr cf"
proof -
  obtain d where d: "config_digest sample_build display [sample_upstream] = Inr d" using sample_digest by blast
  have en: "filter uc_enabled [sample_upstream] = [sample_upstream]" by (simp add: sample_upstream_def)
  obtain r where r: "build_model_router sample_build [sample_upstream] sample_options (new_session_registry [sample_upstream]) = Inr r"
    using sample_router by blast
  have v: "build_verifier sample_build [sample_upstream] sample_options s = Inr (Some (Single 0, [preverified_object]))" for s
    by (simp add: build_verifier_def build_provider_verifier_def sample_upstream_def provider_is_tee_def sample_options_def)
  show ?thesis
    unfolding build_state_def bind_unit Let_def en
    using sample_well_formed by (simp add: validate_config_well_formed [of _ "[sample_upstream]", THEN iffD2] r v d)
qed

theorem configured_routes_exact_witness:
  "\<exists>cf r b. build_state sample_build (\<lambda>_. []) [sample_upstream] sample_options = Inr cf \<and> cf_backend cf = Some r
     \<and> route_for_id (\<lambda>s. s) r (lit ''u:p'') = Inr (configured_route sample_build sample_upstream b (lit ''p'', lit ''m''))"
proof -
  obtain cf where cf: "build_state sample_build (\<lambda>_. []) [sample_upstream] sample_options = Inr cf" using sample_state by blast
  have fields: "uc_enabled sample_upstream" "uc_models sample_upstream = [(lit ''p'', lit ''m'')]" "route_id_of sample_upstream (lit ''p'') = lit ''u:p''"
    by (simp_all add: sample_upstream_def route_id_of_def lit_def)
  from configured_routes_exact [OF cf, of "\<lambda>s. s"] obtain r where r: "cf_backend cf = Some r"
    and all: "\<forall>c \<in> set [sample_upstream]. uc_enabled c \<longrightarrow> (\<forall>pu \<in> set (uc_models c). \<exists>b.
       build_provider_backend sample_build c sample_options (cf_sessions cf) = Inr b
       \<and> route_for_id (\<lambda>s. s) r (route_id_of c (fst pu)) = Inr (configured_route sample_build c b pu))"
    using fields(1) by (cases "cf_backend cf") auto
  from all fields have "\<exists>b. route_for_id (\<lambda>s. s) r (lit ''u:p'') = Inr (configured_route sample_build sample_upstream b (lit ''p'', lit ''m''))"
    by auto
  with cf r show ?thesis by blast
qed

text \<open>
  The states of a manager and its file: loading, replacing, and switching an upstream on or off from
  whatever copy of a configuration was read before; each may fail.
\<close>

inductive managed ::
    "'w build_env \<Rightarrow> (canonical_error \<Rightarrow> str) \<Rightarrow> config_text \<Rightarrow> str \<Rightarrow> 'w config_manager \<times> state_file \<Rightarrow> bool"
  for env display ct io_error where
  managed_load: "load_config env display ct io_error path opts f = Inr m \<Longrightarrow> managed env display ct io_error (m, f)"
| managed_replace: "managed env display ct io_error mf \<Longrightarrow> replace_config env display ct outcome config mf = (r, mf') \<Longrightarrow>
    managed env display ct io_error mf'"
| managed_switch: "managed env display ct io_error mf \<Longrightarrow> set_enabled env display ct outcome name on read mf = (r, mf') \<Longrightarrow>
    managed env display ct io_error mf'"

text \<open>The JSON library reads back what it printed, and a printed list is not blank.\<close>

definition text_faithful :: "config_text \<Rightarrow> bool" where
  "text_faithful ct \<longleftrightarrow> (\<forall>config t. ct_print ct config = Inr t \<longrightarrow> ct_parse ct t = Inr config \<and> trim t \<noteq> [])"

definition reloads :: "'w build_env \<Rightarrow> (canonical_error \<Rightarrow> str) \<Rightarrow> config_text \<Rightarrow> str \<Rightarrow> 'w config_manager \<times> state_file \<Rightarrow> bool" where
  "reloads env display ct io_error mf \<longleftrightarrow> (case mf of (m, f) \<Rightarrow>
     load_config env display ct io_error (cm_path m) (cm_options m) f = Inr m)"

lemma replace_reloads:
  assumes "text_faithful ct" "reloads env display ct io_error mf" "replace_config env display ct outcome config mf = (r, mf')"
  shows "reloads env display ct io_error mf'"
proof -
  obtain m f where mf: "mf = (m, f)" by fastforce
  consider (kept) "mf' = mf" | (swapped) st t where "build_state env display config (cm_options m) = Inr st" "ct_print ct config = Inr t"
      "mf' = (m\<lparr>cm_state := st\<rparr>, Text t)" "validate_config (bv_dbg env) config = Inr ()"
    using assms(3) mf by (auto simp: replace_config_def write_config_file_def bind_result_Inr split: sum.splits write_outcome.splits)
  then show ?thesis
  proof cases
    case swapped
    then have "parse_config_text ct (bv_dbg env) t = Inr config"
      using assms(1) by (auto simp: parse_config_text_def text_faithful_def)
    then show ?thesis using swapped by (simp add: reloads_def load_config_def read_config_file_def)
  qed (use assms(2) in simp)
qed

lemma managed_reloads:
  assumes "managed env display ct io_error mf" "text_faithful ct"
  shows "reloads env display ct io_error mf"
  using assms(1)
proof induction
  case (managed_load path opts f m)
  then have "cm_path m = path" "cm_options m = opts" by (auto simp: load_config_def bind_result_Inr)
  with managed_load show ?case by (simp add: reloads_def)
next
  case (managed_replace mf outcome config r mf')
  then show ?case using replace_reloads [OF assms(2)] by blast
next
  case (managed_switch mf outcome name on read r mf')
  then show ?case using replace_reloads [OF assms(2) managed_switch.IH]
    by (auto simp: set_enabled_def split: option.splits)
qed


definition sample_text :: config_text where
  "sample_text = \<lparr>ct_parse = (\<lambda>_. Inr [sample_upstream]), ct_print = (\<lambda>c. if c = [sample_upstream] then Inr (lit ''u'') else Inl [])\<rparr>"


lemma min_list_opt_None: "min_list_opt xs = None \<longleftrightarrow> xs = []"
  by (cases xs) auto

lemma min_list_opt_Some: "min_list_opt xs = Some m \<Longrightarrow> m \<in> set xs \<and> (\<forall>x \<in> set xs. m \<le> x)"
  by (induction xs arbitrary: m) (auto simp: min_def min_list_opt_None split: option.splits if_splits dest: order_trans)

lemma refresh_positive: "verification_refresh_seconds c opts = Some s \<Longrightarrow> 1 \<le> s"
  by (auto simp: verification_refresh_seconds_def one_le_u64 Let_def max_def split: option.splits if_splits)

lemma default_refresh_less: "2 \<le> (lifetime::u64) \<Longrightarrow> max (if 60 \<le> lifetime then lifetime - 60 else 0) 1 < lifetime"
  by (auto simp: max_def word_le_nat_alt word_less_nat_alt unat_sub split: if_splits)

text \<open>
  C37. Verdicts are renewed before they expire. The interval of the background verification is at least a
  second, and for every enabled upstream that sets no interval of its own and caches verdicts for two
  seconds or more it is shorter than the cache's lifetime.
\<close>

theorem refresh_precedes_expiry:
  assumes "verification_refresh_interval_seconds m = Some s"
  shows "1 \<le> s \<and> (\<forall>c \<in> set (cf_config (cm_state m)). uc_enabled c \<longrightarrow> uc_verification_refresh_seconds c = None \<longrightarrow>
     (let lifetime = unwrap_or (uc_verifier_cache_seconds c) (rt_verifier_cache_seconds (cm_options m)) in 2 \<le> lifetime \<longrightarrow> s < lifetime))"
proof -
  let ?xs = "List.map_filter (\<lambda>c. verification_refresh_seconds c (cm_options m)) (filter uc_enabled (cf_config (cm_state m)))"
  have "min_list_opt ?xs = Some s" using assms by (simp add: verification_refresh_interval_seconds_def split: if_splits)
  then have s: "s \<in> set ?xs" "\<And>x. x \<in> set ?xs \<Longrightarrow> s \<le> x" using min_list_opt_Some by blast+
  have "1 \<le> s" using s(1) refresh_positive by (auto simp: List.map_filter_def)
  moreover have "s < lifetime" if "c \<in> set (cf_config (cm_state m))" "uc_enabled c" "uc_verification_refresh_seconds c = None"
    "lifetime = unwrap_or (uc_verifier_cache_seconds c) (rt_verifier_cache_seconds (cm_options m))" "2 \<le> lifetime" for c lifetime
  proof -
    have "verification_refresh_seconds c (cm_options m) = Some (max (if 60 \<le> lifetime then lifetime - 60 else 0) 1)"
      using that by (simp add: verification_refresh_seconds_def)
    then have "s \<le> max (if 60 \<le> lifetime then lifetime - 60 else 0) 1"
      using that(1,2) by (intro s(2)) (force simp: List.map_filter_def)
    then show ?thesis using default_refresh_less [OF that(5)] by (rule le_less_trans)
  qed
  ultimately show ?thesis by simp
qed

theorem refresh_precedes_expiry_witness:
  "\<exists>cf. build_state sample_build (\<lambda>_. []) [sample_upstream] sample_options = Inr cf
     \<and> (\<exists>s. verification_refresh_interval_seconds \<lparr>cm_path = [], cm_options = sample_options, cm_state = cf\<rparr> = Some s \<and> s < 300)"
proof -
  obtain cf where cf: "build_state sample_build (\<lambda>_. []) [sample_upstream] sample_options = Inr cf" using sample_state by blast
  let ?m = "\<lparr>cm_path = [], cm_options = sample_options, cm_state = cf\<rparr>"
  have config: "cf_config cf = [sample_upstream]"
    and verifier: "build_verifier sample_build (filter uc_enabled [sample_upstream]) sample_options (cf_sessions cf) = Inr (cf_verifier cf)"
    by (rule build_state_Inr [OF cf]; simp)+
  have fields: "uc_enabled sample_upstream" "uc_verification_refresh_seconds sample_upstream = None" "uc_verifier_cache_seconds sample_upstream = None"
    "rt_verifier_cache_seconds sample_options = 300"
    by (simp_all add: sample_upstream_def sample_options_def)
  have "cf_verifier cf \<noteq> None"
    using verifier [symmetric] by (auto simp: build_verifier_def build_provider_verifier_def sample_upstream_def provider_is_tee_def sample_options_def)
  then obtain s where s: "verification_refresh_interval_seconds ?m = Some s"
    by (simp add: verification_refresh_interval_seconds_def config fields verification_refresh_seconds_def Let_def List.map_filter_def)
  from refresh_precedes_expiry [OF s] have "s < 300" by (simp add: config fields unwrap_or_def)
  with cf s show ?thesis by blast
qed


definition sample_tinfoil :: upstream_config where
  "sample_tinfoil = sample_upstream\<lparr>uc_name := lit ''v'', uc_provider := Tinfoil\<rparr>"

lemma sample_tinfoil_fields:
  "uc_enabled sample_tinfoil" "uc_enabled sample_upstream" "uc_provider sample_tinfoil = Tinfoil" "uc_provider sample_upstream = OpenAiCompatible"
  "uc_base_url sample_tinfoil = uc_base_url sample_upstream" "rt_verifier_mode sample_options = Mode_Preverified"
  by (simp_all add: sample_tinfoil_def sample_upstream_def sample_options_def)

lemma sample_shared_well_formed: "well_formed_config [sample_tinfoil, sample_upstream]"
proof -
  have "well_formed_upstream sample_tinfoil" "well_formed_upstream sample_upstream"
    by (simp_all add: well_formed_upstream_def sample_tinfoil_def sample_upstream_def sample_names)
  moreover have "distinct (concat (map route_ids_of [sample_tinfoil, sample_upstream]))"
    by (simp add: sample_tinfoil_def sample_upstream_def route_ids_of_def route_id_of_def lit_def)
  moreover have "uc_name sample_tinfoil \<noteq> uc_name sample_upstream" by (simp add: sample_tinfoil_def sample_upstream_def lit_def)
  ultimately show ?thesis by (simp add: well_formed_config_def)
qed


lemma push_unseen_fst:
  "fst (push_unseen seen (x # xs)) = (if x \<in> seen then fst (push_unseen seen xs) else x # fst (push_unseen (insert x seen) xs))"
  by (simp add: case_prod_unfold)

lemma push_unseen_spec: "distinct (fst (push_unseen seen xs)) \<and> set (fst (push_unseen seen xs)) = set xs - seen"
proof (induction xs arbitrary: seen)
  case Nil
  show ?case by simp
next
  case (Cons x xs)
  show ?case
    using Cons.IH [of seen] Cons.IH [of "insert x seen"] unfolding push_unseen_fst by (cases "x \<in> seen") auto
qed

text \<open>
  C38. Every channel is probed. For every model of an enabled upstream there is a verification target
  whose probe concerns the same cached channel as a request for that model would; no target is
  probed twice.
\<close>

theorem targets_cover_channels:
  assumes "c \<in> set config" "uc_enabled c" "(p, u) \<in> set (uc_models c)" "ex_scope v = attestation_scope (uc_provider c)"
    and "vr_upstream_name request = uc_name c" "vr_url_origin request = Some (trim_slashes (uc_base_url c))" "vr_model_id request = u"
  shows "distinct (verification_targets config) \<and> (\<exists>t \<in> set (verification_targets config).
     vt_upstream_name t = uc_name c \<and> cache_key_for v (probe_request sha hx t) = cache_key_for v request)"
proof -
  let ?ts = "concat (map (\<lambda>c. map (target_of c) (target_models c)) (filter uc_enabled config))"
  have all: "distinct (verification_targets config)" "set (verification_targets config) = set ?ts"
    using push_unseen_spec [of "{}" ?ts] by (simp_all add: verification_targets_def verification_targets_for_configs_def)
  obtain u' where u': "u' \<in> set (target_models c)" "is_per_router (ex_scope v) \<or> u' = u"
  proof (cases "is_per_router (ex_scope v)")
    case True
    obtain x xs where "map snd (uc_models c) = x # xs" using assms(3) by (cases "uc_models c") auto
    then show ?thesis using that True assms(4) by (auto simp: target_models_def)
  next
    case False
    then show ?thesis using that [of u] assms(3,4) by (force simp: target_models_def)
  qed
  have "target_of c u' \<in> set ?ts" using assms(1,2) u'(1) by auto
  moreover have "cache_key_for v (probe_request sha hx (target_of c u')) = cache_key_for v request"
    using u'(2) assms(5-7) by (auto simp: cache_key_for_def from_request_def probe_request_def target_of_def)
  ultimately show ?thesis using all by (force simp: target_of_def)
qed

theorem targets_cover_channels_witness:
  "\<exists>t \<in> set (verification_targets [sample_tinfoil\<lparr>uc_models := [(lit ''p'', lit ''m''), (lit ''q'', lit ''n'')]\<rparr>]).
     cache_key_for sample_external (probe_request (\<lambda>x. x) latin1 t)
     = cache_key_for sample_external \<lparr>vr_upstream_name = lit ''v'', vr_url_origin = Some (trim_slashes (lit ''https://u'')), vr_model_id = lit ''n'',
         vr_forwarded_body_hash = [], vr_required = True\<rparr>"
  using targets_cover_channels [of "sample_tinfoil\<lparr>uc_models := [(lit ''p'', lit ''m''), (lit ''q'', lit ''n'')]\<rparr>"
      "[sample_tinfoil\<lparr>uc_models := [(lit ''p'', lit ''m''), (lit ''q'', lit ''n'')]\<rparr>]" "lit ''q''" "lit ''n''" sample_external
      "\<lparr>vr_upstream_name = lit ''v'', vr_url_origin = Some (trim_slashes (lit ''https://u'')), vr_model_id = lit ''n'',
         vr_forwarded_body_hash = [], vr_required = True\<rparr>" "\<lambda>x. x" latin1]
  by (auto simp: sample_tinfoil_def sample_upstream_def sample_external_fields)

end
