(* ===== verification/Spec2Isabelle.thy ===== *)
theory Spec2Isabelle
  imports Receipt_Api Session_Store Keyset_Epoch Claims Upstream Failover E2ee Upstream_Config
begin

text \<open>
  The Private AI Gateway: a verification development.

  \<^bold>\<open>The program.\<close> The gateway runs inside a trusted execution environment and forwards chat
  requests to model providers. It attests its own identity and keys (\<open>src/aci\<close>), verifies each
  upstream before a request may reach it and binds the connection to what was verified, optionally
  decrypts end-to-end encrypted requests and encrypts the responses, and leaves for every request a
  signed receipt that records what was received, forwarded, verified and returned. The service
  (\<open>src/aggregator\<close>) composes these parts; the HTTP layer (\<open>src/http\<close>) exposes them; the middleware
  (\<open>src/middleware\<close>) chooses among routes and rewrites errors.

  \<^bold>\<open>How the model is made.\<close> Every definition translates a function or type of the source and keeps
  its name where it can; the manifest gives the lines. A loop body or a match arm split off as a
  definition of its own lies inside the lines given for its function. Rust strings are lists of Unicode scalar
  values, bytes are 8-bit words, \<open>u64\<close> values are 64-bit words with the saturating and checked
  operations written out, JSON values are a datatype with ordered members. \<open>Result\<close> is a sum type,
  \<open>Option\<close> is option; state is passed explicitly. Handlers of the service work on a record \<open>world\<close>
  that holds the verifier's and the upstream's state, the stores, the number of clock readings and
  random draws, and a trace of external calls. A stream is the list of what its polls give. Code
  outside the repository is an argument: hashes, signatures, curves, AEADs, hexadecimal and base64
  text, JSON text, HTTP, TLS certificates, quote verification, the TEE. Where a property needs a law
  of such code it is a named hypothesis, and its witness instantiates it by a concrete function.

  \<^bold>\<open>The theories.\<close>
  \<^item> \<open>Prelude\<close>, \<open>Strings\<close>, \<open>Json\<close>: words, characters, results, comparators and sorting; the string
    functions of the standard library; \<open>serde_json\<close> values.
  \<^item> \<open>Canonical\<close> (\<open>aci/canonical.rs\<close>) and \<open>Aci_Types\<close> (\<open>aci/types.rs\<close>, \<open>aci/identity.rs\<close>): the canonical
    writer is injective on float-free values, so digests over it commit to their values or exhibit
    a collision of the hash.
  \<^item> \<open>Receipt\<close> (\<open>aci/receipt.rs\<close>), \<open>Expiry\<close>, \<open>Receipt_Store\<close> (\<open>service/receipt_store.rs\<close>), \<open>Receipt_Api\<close>
    (\<open>http/app/util.rs\<close>, receipt handlers): shape of a receipt, what its signature covers, the store
    as an implementation of a map with deadlines, who may read what.
  \<^item> \<open>Session\<close> (\<open>aggregator/session.rs\<close>), \<open>Session_Store\<close> (\<open>session_store.rs\<close>), \<open>Claims\<close> (\<open>service/claims.rs\<close>):
    content ids, the two stores as implementations of one contract, replay of the log whatever it
    holds, what each claim rests on.
  \<^item> \<open>Keyset_Epoch\<close> (\<open>keyset_epoch.rs\<close>, \<open>revocation_store.rs\<close>, parts of \<open>main.rs\<close> and \<open>service/mod.rs\<close>): the
    launcher never starts on a revoked keyset, epochs never go back.
  \<^item> \<open>Error_Responses\<close> (\<open>middleware/errors.rs\<close>): what reaches a client of an upstream's error.
  \<^item> \<open>Upstream\<close> (\<open>aci/upstream/mod.rs\<close>, \<open>router.rs\<close>), \<open>Openai_Backend\<close> (\<open>openai.rs\<close>, \<open>tls.rs\<close>), \<open>Chutes\<close>
    (\<open>chutes/*.rs\<close>): the backend trait, the router as an implementation of a list of routes, pinned
    connections, the encrypted Chutes transport with single-use nonces.
  \<^item> \<open>Service\<close> (\<open>service/wire.rs\<close>, \<open>helpers.rs\<close>, parts of \<open>forward.rs\<close>, \<open>metrics.rs\<close>), \<open>Streaming\<close> (\<open>streaming.rs\<close>),
    \<open>Forward\<close> (\<open>forward.rs\<close>), \<open>Failover\<close> (\<open>service/middleware.rs\<close>): the verification gate, the
    channel-binding retry, session sealing, streams and their receipts, both forwarding paths.
  \<^item> \<open>E2ee_Suites\<close> (\<open>aci/e2ee.rs\<close>, parts of \<open>keys.rs\<close> and \<open>dstack.rs\<close>), \<open>E2ee\<close> (\<open>service/e2ee_crypto.rs\<close>,
    \<open>service/e2ee.rs\<close>): field encryption, replay protection, which fields are sealed. The functions
    \<open>encrypt_e2ee_response_body\<close> and \<open>encrypt_e2ee_stream_payload\<close> are what the parameters
    \<open>sv_encrypt_response\<close> and \<open>encrypt_event\<close> of \<open>Service\<close> and \<open>Streaming\<close> stand for.
  \<^item> \<open>Attestation\<close> (report half of \<open>service/e2ee.rs\<close>, report handlers), \<open>Aci_Verifier\<close> (\<open>aci/verifier/report.rs\<close>,
    \<open>dstack.rs\<close>, \<open>aci_service.rs\<close>): what a report binds and what an accepted upstream has shown; a
    report of this service passes the verifier's check.
  \<^item> \<open>Provider_Verifiers\<close> (\<open>aci/verifier/external.rs\<close>, \<open>providers.rs\<close>, \<open>simple.rs\<close>): the verifier that runs the
    bridge process and caches its verdicts by channel, the provider verifiers made from it, the
    routing verifier. A verified verdict rests on a run of the bridge for that channel. The locale
    \<open>identifying_verifier\<close> is the contract the gate relies on, interpreted for every verifier.
  \<^item> \<open>Upstream_Config\<close> (\<open>aggregator/upstream_config/*.rs\<close>): validation, the router and the verifier built from a
    configuration, the manager as a state machine over its file, background verification and session
    refresh. The router serves exactly the configured routes, the file always gives back the state
    in memory, verdicts are renewed before they expire, every channel is probed. Verifiers are
    objects in a list, so that two tables can share one with its cache.

  \<^bold>\<open>Bounds.\<close> No property is restricted to inputs of bounded size. The only loop that counts is the
  launcher's: the source tries a fixed number of epochs, and the model keeps that number; that it
  returns is proved. The re-verification loop makes the source's number of attempts. All other
  recursion is over the data, with termination proved.

  \<^bold>\<open>Not modelled.\<close> Wall-clock scheduling: concurrent requests appear where the code releases a lock
  or reads the clock twice, as separate steps. The text of Prometheus metrics, the registration of
  HTTP routes, process start-up and command-line parsing are calls into libraries. Of the middleware
  (\<open>src/middleware\<close>) only the client-facing errors are translated: the order in which its router ranks
  the candidates and the conversions between request formats are inputs of \<open>Failover\<close>. The session
  sink of the configuration manager is an argument of the background verification.
\<close>

end
